(* ===== verification/Prelude.thy ===== *)
theory Prelude
  imports Main "HOL-Library.Word" "HOL-Library.Monad_Syntax"
begin

text \<open>
  Shared ground of the development.  The fixed-width C integers are words;
  a C write cursor \<^verbatim>\<open>uint8_t **out, uint8_t *end\<close> over a buffer is
  the record \<open>wbuf\<close>, a read cursor the record \<open>rbuf\<close>.
  A C routine that returns 0 on failure and a non-zero count otherwise is a
  partial function: \<open>None\<close> is the return value 0.
  The two judgements \<open>writes\<close> and \<open>reads\<close> say what a packing
  or an unpacking routine does to its cursor; their rules compose along the
  option monad, so that the codec proofs of the components are sequences of
  rule applications.  The locale \<open>codec\<close> is the contract a pair of
  routines promises to the code that sends and receives messages.
\<close>

type_synonym u8 = "8 word"
type_synonym u16 = "16 word"
type_synonym u32 = "32 word"
type_synonym u64 = "64 word"

named_theorems buf_simps \<open>rewrite rules for cursors\<close>
named_theorems writes_intro \<open>rules for packing routines\<close>
named_theorems reads_intro \<open>rules for unpacking routines\<close>

section \<open>Lists\<close>

definition upd_at :: "nat \<Rightarrow> 'a list \<Rightarrow> 'a list \<Rightarrow> 'a list" where
  "upd_at i ys xs = take i xs @ ys @ drop (i + length ys) xs"

lemma length_upd_at [simp]: "i + length ys \<le> length xs \<Longrightarrow> length (upd_at i ys xs) = length xs"
  by (simp add: upd_at_def)

lemma upd_at_Nil [simp]: "upd_at i [] xs = xs"
  by (simp add: upd_at_def)

lemma take_upd_at [simp]: "i + length ys \<le> length xs \<Longrightarrow> take i (upd_at i ys xs) = take i xs"
  by (simp add: upd_at_def)

lemma upd_at_append:
  "i + length ys + length zs \<le> length xs \<Longrightarrow>
   upd_at (i + length ys) zs (upd_at i ys xs) = upd_at i (ys @ zs) xs"
  by (simp add: upd_at_def drop_drop ac_simps)

lemma upd_at_overwrite:
  "i + length ys + length zs \<le> length xs \<Longrightarrow> length ys' = length ys \<Longrightarrow>
   upd_at i ys' (upd_at i (ys @ zs) xs) = upd_at i (ys' @ zs) xs"
  by (simp add: upd_at_def drop_drop)

lemma list_update_upd_at:
  "i < length xs \<Longrightarrow> xs[i := y] = upd_at i [y] xs"
  by (simp add: upd_at_def upd_conv_take_nth_drop)

lemma slice_upd_at [simp]:
  "i + length ys \<le> length xs \<Longrightarrow> take (length ys) (drop i (upd_at i ys xs)) = ys"
  by (simp add: upd_at_def)

lemma nth_upd_at:
  "i + length ys \<le> length xs \<Longrightarrow> j < length xs \<Longrightarrow>
   upd_at i ys xs ! j = (if i \<le> j \<and> j < i + length ys then ys ! (j - i) else xs ! j)"
  by (auto simp: upd_at_def nth_append min_def)

section \<open>Big-endian words\<close>

definition be16 :: "u16 \<Rightarrow> u8 list" where
  "be16 v = [ucast (drop_bit 8 v), ucast v]"

definition be32 :: "u32 \<Rightarrow> u8 list" where
  "be32 v = [ucast (drop_bit 24 v), ucast (drop_bit 16 v), ucast (drop_bit 8 v), ucast v]"

lemma length_be16 [simp]: "length (be16 v) = 2"
  by (simp add: be16_def)

lemma length_be32 [simp]: "length (be32 v) = 4"
  by (simp add: be32_def)

section \<open>Widening casts\<close>

lemma unat_ucast_8_16 [simp]: "unat (ucast (v :: u8) :: u16) = unat v"
  using unsigned_less [of v, where ?'a = nat] by (simp add: unsigned_ucast_eq take_bit_nat_eq_self)

lemma unat_ucast_8_32 [simp]: "unat (ucast (v :: u8) :: u32) = unat v"
  using unsigned_less [of v, where ?'a = nat] by (simp add: unsigned_ucast_eq take_bit_nat_eq_self)

lemma unat_ucast_16_32 [simp]: "unat (ucast (v :: u16) :: u32) = unat v"
  using unsigned_less [of v, where ?'a = nat] by (simp add: unsigned_ucast_eq take_bit_nat_eq_self)

section \<open>Write cursors\<close>

record wbuf =
  wb_mem :: "u8 list"
  wb_pos :: nat
  wb_end :: nat

definition wbuf_ok :: "wbuf \<Rightarrow> bool" where
  "wbuf_ok w \<longleftrightarrow> wb_pos w \<le> wb_end w \<and> wb_end w \<le> length (wb_mem w)"

definition wb_room :: "wbuf \<Rightarrow> nat" where
  "wb_room w = wb_end w - wb_pos w"

definition wb_write :: "u8 list \<Rightarrow> wbuf \<Rightarrow> wbuf" where
  "wb_write bs w = w\<lparr>wb_mem := upd_at (wb_pos w) bs (wb_mem w), wb_pos := wb_pos w + length bs\<rparr>"

lemma wb_write_sel [buf_simps]:
  "wb_pos (wb_write bs w) = wb_pos w + length bs"
  "wb_end (wb_write bs w) = wb_end w"
  "wb_mem (wb_write bs w) = upd_at (wb_pos w) bs (wb_mem w)"
  by (simp_all add: wb_write_def)

lemma wb_write_Nil [simp]: "wb_write [] w = w"
  by (simp add: wb_write_def)

lemma wb_room_write [buf_simps]: "wb_room (wb_write bs w) = wb_room w - length bs"
  by (simp add: wb_room_def wb_write_def)

lemma wbuf_ok_write [buf_simps]:
  "wbuf_ok w \<Longrightarrow> length bs \<le> wb_room w \<Longrightarrow> wbuf_ok (wb_write bs w)"
  by (auto simp: wbuf_ok_def wb_room_def wb_write_def)

lemma wb_write_write:
  "wbuf_ok w \<Longrightarrow> length as + length bs \<le> wb_room w \<Longrightarrow>
   wb_write bs (wb_write as w) = wb_write (as @ bs) w"
  by (auto simp: wbuf_ok_def wb_room_def wb_write_def upd_at_append add.assoc)

lemma wb_write_bytes:
  "wbuf_ok w \<Longrightarrow> length bs \<le> wb_room w \<Longrightarrow>
   take (wb_pos w + length bs) (wb_mem (wb_write bs w)) = take (wb_pos w) (wb_mem w) @ bs"
  by (simp add: wbuf_ok_def wb_room_def wb_write_def upd_at_def)

section \<open>Read cursors\<close>

record rbuf =
  rb_mem :: "u8 list"
  rb_pos :: nat
  rb_end :: nat

definition rbuf_ok :: "rbuf \<Rightarrow> bool" where
  "rbuf_ok r \<longleftrightarrow> rb_pos r \<le> rb_end r \<and> rb_end r \<le> length (rb_mem r)"

definition rb_room :: "rbuf \<Rightarrow> nat" where
  "rb_room r = rb_end r - rb_pos r"

definition rb_rest :: "rbuf \<Rightarrow> u8 list" where
  "rb_rest r = drop (rb_pos r) (take (rb_end r) (rb_mem r))"

definition rb_adv :: "nat \<Rightarrow> rbuf \<Rightarrow> rbuf" where
  "rb_adv n r = r\<lparr>rb_pos := rb_pos r + n\<rparr>"

definition rb_of :: "u8 list \<Rightarrow> rbuf" where
  "rb_of bs = \<lparr>rb_mem = bs, rb_pos = 0, rb_end = length bs\<rparr>"

lemma rb_adv_sel [buf_simps]:
  "rb_pos (rb_adv n r) = rb_pos r + n" "rb_end (rb_adv n r) = rb_end r"
  "rb_mem (rb_adv n r) = rb_mem r"
  by (simp_all add: rb_adv_def)

lemma rb_adv_0 [simp]: "rb_adv 0 r = r"
  by (simp add: rb_adv_def)

lemma rb_adv_adv [simp]: "rb_adv m (rb_adv n r) = rb_adv (n + m) r"
  by (simp add: rb_adv_def ac_simps)

lemma length_rb_rest [buf_simps]: "rbuf_ok r \<Longrightarrow> length (rb_rest r) = rb_room r"
  by (simp add: rbuf_ok_def rb_rest_def rb_room_def)

lemma rb_room_adv [buf_simps]: "rb_room (rb_adv n r) = rb_room r - n"
  by (simp add: rb_room_def rb_adv_def)

lemma rbuf_ok_adv [buf_simps]: "rbuf_ok r \<Longrightarrow> n \<le> rb_room r \<Longrightarrow> rbuf_ok (rb_adv n r)"
  by (auto simp: rbuf_ok_def rb_room_def rb_adv_def)

lemma rb_rest_adv [buf_simps]: "rb_rest (rb_adv n r) = drop n (rb_rest r)"
  by (simp add: rb_rest_def rb_adv_def ac_simps)

lemma rb_of_sel [simp]: "rbuf_ok (rb_of bs)" "rb_rest (rb_of bs) = bs" "rb_room (rb_of bs) = length bs"
  "rb_pos (rb_of bs) = 0" "rb_end (rb_of bs) = length bs" "rb_mem (rb_of bs) = bs"
  by (simp_all add: rb_of_def rbuf_ok_def rb_rest_def rb_room_def)

lemma rb_rest_nth:
  "rbuf_ok r \<Longrightarrow> i < rb_room r \<Longrightarrow> rb_mem r ! (rb_pos r + i) = rb_rest r ! i"
  by (auto simp: rb_rest_def rbuf_ok_def rb_room_def)

section \<open>What a packing or an unpacking routine does\<close>

text \<open>
  \<open>writes p bs\<close>: the routine appends exactly \<open>bs\<close> when they fit and returns 0
  otherwise.  \<open>reads g x bs\<close>: on a cursor that has \<open>bs\<close> in front of it the
  routine returns \<open>x\<close> and stops right behind them.
\<close>

definition writes :: "(wbuf \<Rightarrow> wbuf option) \<Rightarrow> u8 list \<Rightarrow> bool" where
  "writes p bs \<longleftrightarrow> (\<forall>w. wbuf_ok w \<longrightarrow>
     p w = (if length bs \<le> wb_room w then Some (wb_write bs w) else None))"

definition reads :: "(rbuf \<Rightarrow> ('a \<times> rbuf) option) \<Rightarrow> 'a \<Rightarrow> u8 list \<Rightarrow> bool" where
  "reads g x bs \<longleftrightarrow> (\<forall>r rest. rbuf_ok r \<and> rb_rest r = bs @ rest \<longrightarrow>
     g r = Some (x, rb_adv (length bs) r))"

lemma writesI:
  "(\<And>w. wbuf_ok w \<Longrightarrow> p w = (if length bs \<le> wb_room w then Some (wb_write bs w) else None))
   \<Longrightarrow> writes p bs"
  by (simp add: writes_def)

lemma writesD:
  "writes p bs \<Longrightarrow> wbuf_ok w \<Longrightarrow>
   p w = (if length bs \<le> wb_room w then Some (wb_write bs w) else None)"
  by (simp add: writes_def)

lemma readsI:
  "(\<And>r rest. rbuf_ok r \<Longrightarrow> rb_rest r = bs @ rest \<Longrightarrow> g r = Some (x, rb_adv (length bs) r))
   \<Longrightarrow> reads g x bs"
  by (simp add: reads_def)

lemma readsD:
  "reads g x bs \<Longrightarrow> rbuf_ok r \<Longrightarrow> rb_rest r = bs @ rest \<Longrightarrow> g r = Some (x, rb_adv (length bs) r)"
  by (simp add: reads_def)

lemma writes_bind [writes_intro]:
  assumes p: "writes p as" and q: "writes q bs"
  shows "writes (\<lambda>w. p w \<bind> q) (as @ bs)"
proof (rule writesI)
  fix w assume ok: "wbuf_ok w"
  show "p w \<bind> q = (if length (as @ bs) \<le> wb_room w then Some (wb_write (as @ bs) w) else None)"
  proof (cases "length as \<le> wb_room w")
    case True
    then have "wbuf_ok (wb_write as w)" using ok by (simp add: wbuf_ok_write)
    with p q ok True show ?thesis
      by (auto simp: writesD [OF p ok] writesD [OF q] wb_room_write wb_write_write)
  next
    case False
    with writesD [OF p ok] show ?thesis by simp
  qed
qed

lemma writes_nop [writes_intro]: "writes Some []"
  by (simp add: writes_def)

lemma reads_return [reads_intro]: "reads (\<lambda>r. Some (x, r)) x []"
  by (simp add: reads_def)

lemma reads_return_iff: "reads (\<lambda>r. Some (x, r)) y [] \<longleftrightarrow> x = y"
proof
  assume "reads (\<lambda>r. Some (x, r)) y []"
  from readsD [OF this, of "rb_of []" "[]"] show "x = y" by simp
qed (simp add: reads_return)

lemma reads_bind [reads_intro]:
  assumes g: "reads g x as" and h: "reads (h x) y bs"
  shows "reads (\<lambda>r. g r \<bind> (\<lambda>(a, r'). h a r')) y (as @ bs)"
proof (rule readsI)
  fix r rest assume ok: "rbuf_ok r" and rest: "rb_rest r = (as @ bs) @ rest"
  have "length (rb_rest r) = rb_room r" using ok by (rule length_rb_rest)
  then have "rbuf_ok (rb_adv (length as) r)" using ok rest by (simp add: rbuf_ok_adv)
  moreover have "rb_rest (rb_adv (length as) r) = bs @ rest" by (simp add: rb_rest_adv rest)
  ultimately show "g r \<bind> (\<lambda>(a, r'). h a r') = Some (y, rb_adv (length (as @ bs)) r)"
    using readsD [OF g ok] readsD [OF h] rest by simp
qed

lemma writes_cong: "writes p bs \<Longrightarrow> bs = cs \<Longrightarrow> writes p cs"
  by simp

lemma reads_cong: "reads g x bs \<Longrightarrow> bs = cs \<Longrightarrow> x = y \<Longrightarrow> reads g y cs"
  by simp

section \<open>The contract of a codec\<close>

locale codec =
  fixes pack :: "'a \<Rightarrow> wbuf \<Rightarrow> wbuf option"
    and unpack :: "rbuf \<Rightarrow> ('a \<times> rbuf) option"
    and enc :: "'a \<Rightarrow> u8 list"
    and valid :: "'a \<Rightarrow> bool"
  assumes pack_writes: "valid x \<Longrightarrow> writes (pack x) (enc x)"
    and unpack_reads: "valid x \<Longrightarrow> reads unpack x (enc x)"
begin

lemma pack_fits_iff:
  "valid x \<Longrightarrow> wbuf_ok w \<Longrightarrow> (\<exists>w'. pack x w = Some w') \<longleftrightarrow> length (enc x) \<le> wb_room w"
  using writesD [OF pack_writes] by auto

lemma pack_frame:
  assumes "valid x" "wbuf_ok w" "pack x w = Some w'"
  shows "take (wb_pos w) (wb_mem w') = take (wb_pos w) (wb_mem w)" "wbuf_ok w'"
    "wb_pos w' = wb_pos w + length (enc x)" "length (wb_mem w') = length (wb_mem w)"
  using writesD [OF pack_writes [OF assms(1)] assms(2)] assms(2,3)
  by (auto simp: wbuf_ok_def wb_write_def wb_room_def split: if_splits)

lemma roundtrip:
  assumes v: "valid x" and ok: "wbuf_ok w" and pk: "pack x w = Some w'"
  shows "unpack \<lparr>rb_mem = wb_mem w', rb_pos = wb_pos w, rb_end = wb_pos w'\<rparr>
       = Some (x, \<lparr>rb_mem = wb_mem w', rb_pos = wb_pos w', rb_end = wb_pos w'\<rparr>)"
proof -
  let ?r = "\<lparr>rb_mem = wb_mem w', rb_pos = wb_pos w, rb_end = wb_pos w'\<rparr>"
  from writesD [OF pack_writes [OF v] ok] pk
  have fits: "length (enc x) \<le> wb_room w" and w': "w' = wb_write (enc x) w"
    by (auto split: if_splits)
  have "rb_rest ?r = enc x @ []"
    using wb_write_bytes [OF ok fits] ok by (simp add: rb_rest_def w' wb_write_sel wbuf_ok_def)
  moreover have "rbuf_ok ?r"
    using pack_frame [OF v ok pk] ok fits by (auto simp: rbuf_ok_def wbuf_ok_def)
  ultimately show ?thesis
    using readsD [OF unpack_reads [OF v]] by (simp add: rb_adv_def w' wb_write_sel)
qed

lemma unpack_bytes: "valid x \<Longrightarrow> unpack (rb_of (enc x @ bs)) = Some (x, rb_adv (length (enc x)) (rb_of (enc x @ bs)))"
  by (rule readsD [OF unpack_reads, of _ _ bs]) simp_all

lemma enc_inj: "valid x \<Longrightarrow> valid y \<Longrightarrow> enc x = enc y \<Longrightarrow> x = y"
  using unpack_bytes [of x "[]"] unpack_bytes [of y "[]"] by simp

end

end
