(* ===== verification/Nfapi_Ids.thy ===== *)
theory Nfapi_Ids
  imports Prelude
begin

text \<open>
  The message ids of \<^verbatim>\<open>nfapi_message_id_e\<close> (\<^verbatim>\<open>nfapi_interface.h\<close>) and
  \<^verbatim>\<open>nfapi_nr_phy_msg_type_e\<close> (\<^verbatim>\<open>nfapi_nr_interface_scf.h\<close>).  In C they are enumeration
  constants; the header field they are compared with is a \<^verbatim>\<open>uint16_t\<close>.
\<close>

section \<open>LTE\<close>

definition NFAPI_DL_CONFIG_REQUEST :: u16 where "NFAPI_DL_CONFIG_REQUEST = 0x80"
definition NFAPI_UL_CONFIG_REQUEST :: u16 where "NFAPI_UL_CONFIG_REQUEST = 0x81"
definition NFAPI_SUBFRAME_INDICATION :: u16 where "NFAPI_SUBFRAME_INDICATION = 0x82"
definition NFAPI_HI_DCI0_REQUEST :: u16 where "NFAPI_HI_DCI0_REQUEST = 0x83"
definition NFAPI_TX_REQUEST :: u16 where "NFAPI_TX_REQUEST = 0x84"
definition NFAPI_HARQ_INDICATION :: u16 where "NFAPI_HARQ_INDICATION = 0x85"
definition NFAPI_CRC_INDICATION :: u16 where "NFAPI_CRC_INDICATION = 0x86"
definition NFAPI_RX_ULSCH_INDICATION :: u16 where "NFAPI_RX_ULSCH_INDICATION = 0x87"
definition NFAPI_RACH_INDICATION :: u16 where "NFAPI_RACH_INDICATION = 0x88"
definition NFAPI_SRS_INDICATION :: u16 where "NFAPI_SRS_INDICATION = 0x89"
definition NFAPI_RX_SR_INDICATION :: u16 where "NFAPI_RX_SR_INDICATION = 0x8A"
definition NFAPI_RX_CQI_INDICATION :: u16 where "NFAPI_RX_CQI_INDICATION = 0x8B"
definition NFAPI_LBT_DL_CONFIG_REQUEST :: u16 where "NFAPI_LBT_DL_CONFIG_REQUEST = 0x8C"
definition NFAPI_LBT_DL_INDICATION :: u16 where "NFAPI_LBT_DL_INDICATION = 0x8D"
definition NFAPI_NB_HARQ_INDICATION :: u16 where "NFAPI_NB_HARQ_INDICATION = 0x8E"
definition NFAPI_NRACH_INDICATION :: u16 where "NFAPI_NRACH_INDICATION = 0x8F"
definition NFAPI_UE_RELEASE_REQUEST :: u16 where "NFAPI_UE_RELEASE_REQUEST = 0x90"
definition NFAPI_UE_RELEASE_RESPONSE :: u16 where "NFAPI_UE_RELEASE_RESPONSE = 0x91"
definition NFAPI_PNF_PARAM_REQUEST :: u16 where "NFAPI_PNF_PARAM_REQUEST = 0x100"
definition NFAPI_PNF_PARAM_RESPONSE :: u16 where "NFAPI_PNF_PARAM_RESPONSE = 0x101"
definition NFAPI_PNF_CONFIG_REQUEST :: u16 where "NFAPI_PNF_CONFIG_REQUEST = 0x102"
definition NFAPI_PNF_CONFIG_RESPONSE :: u16 where "NFAPI_PNF_CONFIG_RESPONSE = 0x103"
definition NFAPI_PNF_START_REQUEST :: u16 where "NFAPI_PNF_START_REQUEST = 0x104"
definition NFAPI_PNF_START_RESPONSE :: u16 where "NFAPI_PNF_START_RESPONSE = 0x105"
definition NFAPI_PNF_STOP_REQUEST :: u16 where "NFAPI_PNF_STOP_REQUEST = 0x106"
definition NFAPI_PNF_STOP_RESPONSE :: u16 where "NFAPI_PNF_STOP_RESPONSE = 0x107"
definition NFAPI_PARAM_REQUEST :: u16 where "NFAPI_PARAM_REQUEST = 0x108"
definition NFAPI_PARAM_RESPONSE :: u16 where "NFAPI_PARAM_RESPONSE = 0x109"
definition NFAPI_CONFIG_REQUEST :: u16 where "NFAPI_CONFIG_REQUEST = 0x10A"
definition NFAPI_CONFIG_RESPONSE :: u16 where "NFAPI_CONFIG_RESPONSE = 0x10B"
definition NFAPI_START_REQUEST :: u16 where "NFAPI_START_REQUEST = 0x10C"
definition NFAPI_START_RESPONSE :: u16 where "NFAPI_START_RESPONSE = 0x10D"
definition NFAPI_STOP_REQUEST :: u16 where "NFAPI_STOP_REQUEST = 0x10E"
definition NFAPI_STOP_RESPONSE :: u16 where "NFAPI_STOP_RESPONSE = 0x10F"
definition NFAPI_MEASUREMENT_REQUEST :: u16 where "NFAPI_MEASUREMENT_REQUEST = 0x110"
definition NFAPI_MEASUREMENT_RESPONSE :: u16 where "NFAPI_MEASUREMENT_RESPONSE = 0x111"
definition NFAPI_UL_NODE_SYNC :: u16 where "NFAPI_UL_NODE_SYNC = 0x180"
definition NFAPI_DL_NODE_SYNC :: u16 where "NFAPI_DL_NODE_SYNC = 0x181"
definition NFAPI_TIMING_INFO :: u16 where "NFAPI_TIMING_INFO = 0x182"
definition NFAPI_RSSI_REQUEST :: u16 where "NFAPI_RSSI_REQUEST = 0x200"
definition NFAPI_RSSI_RESPONSE :: u16 where "NFAPI_RSSI_RESPONSE = 0x201"
definition NFAPI_RSSI_INDICATION :: u16 where "NFAPI_RSSI_INDICATION = 0x202"
definition NFAPI_CELL_SEARCH_REQUEST :: u16 where "NFAPI_CELL_SEARCH_REQUEST = 0x203"
definition NFAPI_CELL_SEARCH_RESPONSE :: u16 where "NFAPI_CELL_SEARCH_RESPONSE = 0x204"
definition NFAPI_CELL_SEARCH_INDICATION :: u16 where "NFAPI_CELL_SEARCH_INDICATION = 0x205"
definition NFAPI_BROADCAST_DETECT_REQUEST :: u16 where "NFAPI_BROADCAST_DETECT_REQUEST = 0x206"
definition NFAPI_BROADCAST_DETECT_RESPONSE :: u16 where "NFAPI_BROADCAST_DETECT_RESPONSE = 0x207"
definition NFAPI_BROADCAST_DETECT_INDICATION :: u16 where "NFAPI_BROADCAST_DETECT_INDICATION = 0x208"
definition NFAPI_SYSTEM_INFORMATION_SCHEDULE_REQUEST :: u16 where "NFAPI_SYSTEM_INFORMATION_SCHEDULE_REQUEST = 0x209"
definition NFAPI_SYSTEM_INFORMATION_SCHEDULE_RESPONSE :: u16 where "NFAPI_SYSTEM_INFORMATION_SCHEDULE_RESPONSE = 0x20A"
definition NFAPI_SYSTEM_INFORMATION_SCHEDULE_INDICATION :: u16 where "NFAPI_SYSTEM_INFORMATION_SCHEDULE_INDICATION = 0x20B"
definition NFAPI_SYSTEM_INFORMATION_REQUEST :: u16 where "NFAPI_SYSTEM_INFORMATION_REQUEST = 0x20C"
definition NFAPI_SYSTEM_INFORMATION_RESPONSE :: u16 where "NFAPI_SYSTEM_INFORMATION_RESPONSE = 0x20D"
definition NFAPI_SYSTEM_INFORMATION_INDICATION :: u16 where "NFAPI_SYSTEM_INFORMATION_INDICATION = 0x20E"
definition NFAPI_NMM_STOP_REQUEST :: u16 where "NFAPI_NMM_STOP_REQUEST = 0x20F"
definition NFAPI_NMM_STOP_RESPONSE :: u16 where "NFAPI_NMM_STOP_RESPONSE = 0x210"
definition NFAPI_VENDOR_EXT_MSG_MIN :: u16 where "NFAPI_VENDOR_EXT_MSG_MIN = 0x300"
definition NFAPI_VENDOR_EXT_MSG_MAX :: u16 where "NFAPI_VENDOR_EXT_MSG_MAX = 0x3FF"

section \<open>NR\<close>

definition NFAPI_NR_PHY_MSG_TYPE_PARAM_REQUEST :: u16 where "NFAPI_NR_PHY_MSG_TYPE_PARAM_REQUEST = 0x0"
definition NFAPI_NR_PHY_MSG_TYPE_PARAM_RESPONSE :: u16 where "NFAPI_NR_PHY_MSG_TYPE_PARAM_RESPONSE = 0x1"
definition NFAPI_NR_PHY_MSG_TYPE_CONFIG_REQUEST :: u16 where "NFAPI_NR_PHY_MSG_TYPE_CONFIG_REQUEST = 0x2"
definition NFAPI_NR_PHY_MSG_TYPE_CONFIG_RESPONSE :: u16 where "NFAPI_NR_PHY_MSG_TYPE_CONFIG_RESPONSE = 0x3"
definition NFAPI_NR_PHY_MSG_TYPE_START_REQUEST :: u16 where "NFAPI_NR_PHY_MSG_TYPE_START_REQUEST = 0x4"
definition NFAPI_NR_PHY_MSG_TYPE_STOP_REQUEST :: u16 where "NFAPI_NR_PHY_MSG_TYPE_STOP_REQUEST = 0x5"
definition NFAPI_NR_PHY_MSG_TYPE_STOP_INDICATION :: u16 where "NFAPI_NR_PHY_MSG_TYPE_STOP_INDICATION = 0x6"
definition NFAPI_NR_PHY_MSG_TYPE_ERROR_INDICATION :: u16 where "NFAPI_NR_PHY_MSG_TYPE_ERROR_INDICATION = 0x7"
definition NFAPI_NR_PHY_MSG_TYPE_START_RESPONSE :: u16 where "NFAPI_NR_PHY_MSG_TYPE_START_RESPONSE = 0x10D"
definition NFAPI_NR_PHY_MSG_TYPE_STOP_RESPONSE :: u16 where "NFAPI_NR_PHY_MSG_TYPE_STOP_RESPONSE = 0x10F"
definition NFAPI_NR_PHY_MSG_TYPE_DL_TTI_REQUEST :: u16 where "NFAPI_NR_PHY_MSG_TYPE_DL_TTI_REQUEST = 0x80"
definition NFAPI_NR_PHY_MSG_TYPE_UL_TTI_REQUEST :: u16 where "NFAPI_NR_PHY_MSG_TYPE_UL_TTI_REQUEST = 0x81"
definition NFAPI_NR_PHY_MSG_TYPE_SLOT_INDICATION :: u16 where "NFAPI_NR_PHY_MSG_TYPE_SLOT_INDICATION = 0x82"
definition NFAPI_NR_PHY_MSG_TYPE_UL_DCI_REQUEST :: u16 where "NFAPI_NR_PHY_MSG_TYPE_UL_DCI_REQUEST = 0x83"
definition NFAPI_NR_PHY_MSG_TYPE_TX_DATA_REQUEST :: u16 where "NFAPI_NR_PHY_MSG_TYPE_TX_DATA_REQUEST = 0x84"
definition NFAPI_NR_PHY_MSG_TYPE_RX_DATA_INDICATION :: u16 where "NFAPI_NR_PHY_MSG_TYPE_RX_DATA_INDICATION = 0x85"
definition NFAPI_NR_PHY_MSG_TYPE_CRC_INDICATION :: u16 where "NFAPI_NR_PHY_MSG_TYPE_CRC_INDICATION = 0x86"
definition NFAPI_NR_PHY_MSG_TYPE_UCI_INDICATION :: u16 where "NFAPI_NR_PHY_MSG_TYPE_UCI_INDICATION = 0x87"
definition NFAPI_NR_PHY_MSG_TYPE_SRS_INDICATION :: u16 where "NFAPI_NR_PHY_MSG_TYPE_SRS_INDICATION = 0x88"
definition NFAPI_NR_PHY_MSG_TYPE_RACH_INDICATION :: u16 where "NFAPI_NR_PHY_MSG_TYPE_RACH_INDICATION = 0x89"
definition NFAPI_NR_PHY_MSG_TYPE_PNF_PARAM_REQUEST :: u16 where "NFAPI_NR_PHY_MSG_TYPE_PNF_PARAM_REQUEST = 0x100"
definition NFAPI_NR_PHY_MSG_TYPE_PNF_PARAM_RESPONSE :: u16 where "NFAPI_NR_PHY_MSG_TYPE_PNF_PARAM_RESPONSE = 0x101"
definition NFAPI_NR_PHY_MSG_TYPE_PNF_CONFIG_REQUEST :: u16 where "NFAPI_NR_PHY_MSG_TYPE_PNF_CONFIG_REQUEST = 0x102"
definition NFAPI_NR_PHY_MSG_TYPE_PNF_CONFIG_RESPONSE :: u16 where "NFAPI_NR_PHY_MSG_TYPE_PNF_CONFIG_RESPONSE = 0x103"
definition NFAPI_NR_PHY_MSG_TYPE_PNF_START_REQUEST :: u16 where "NFAPI_NR_PHY_MSG_TYPE_PNF_START_REQUEST = 0x104"
definition NFAPI_NR_PHY_MSG_TYPE_PNF_START_RESPONSE :: u16 where "NFAPI_NR_PHY_MSG_TYPE_PNF_START_RESPONSE = 0x105"
definition NFAPI_NR_PHY_MSG_TYPE_PNF_STOP_REQUEST :: u16 where "NFAPI_NR_PHY_MSG_TYPE_PNF_STOP_REQUEST = 0x106"
definition NFAPI_NR_PHY_MSG_TYPE_PNF_STOP_RESPONSE :: u16 where "NFAPI_NR_PHY_MSG_TYPE_PNF_STOP_RESPONSE = 0x107"
definition NFAPI_NR_PHY_MSG_TYPE_UL_NODE_SYNC :: u16 where "NFAPI_NR_PHY_MSG_TYPE_UL_NODE_SYNC = 0x180"
definition NFAPI_NR_PHY_MSG_TYPE_DL_NODE_SYNC :: u16 where "NFAPI_NR_PHY_MSG_TYPE_DL_NODE_SYNC = 0x181"
definition NFAPI_NR_PHY_MSG_TYPE_TIMING_INFO :: u16 where "NFAPI_NR_PHY_MSG_TYPE_TIMING_INFO = 0x182"

end
