(* ===== verification/Nfapi_Codec.thy ===== *)
theory Nfapi_Codec
  imports Prelude
begin

unbundle bit_operations_syntax

text \<open>
  The fundamental routines of \<^verbatim>\<open>open-nFAPI/nfapi/src/nfapi.c\<close>: the scalar and array
  push and pull functions, \<open>packarray\<close> and \<open>unpackarray\<close>, and the
  DCI payload encoder.  \<^verbatim>\<open>int16_t\<close> and its kin are words read in two's
  complement; the C integer promotions are written out as casts through
  32 bits.  An array argument of C is a list with at least as many elements as the
  routine touches.  Every routine gets its \<open>writes\<close> or \<open>reads\<close> law.
\<close>

section \<open>Scalars\<close>

definition push8 :: "u8 \<Rightarrow> wbuf \<Rightarrow> wbuf option" where
  "push8 v w =
     (let p = wb_pos w in
      if 1 \<le> wb_end w - p
      then Some (w\<lparr>wb_mem := (wb_mem w)[p := v], wb_pos := p + 1\<rparr>)
      else None)"

definition pushs8 :: "8 word \<Rightarrow> wbuf \<Rightarrow> wbuf option" where
  "pushs8 v w =
     (let p = wb_pos w in
      if 1 \<le> wb_end w - p
      then Some (w\<lparr>wb_mem := (wb_mem w)[p := ucast (scast v :: u32)], wb_pos := p + 1\<rparr>)
      else None)"

definition push16 :: "u16 \<Rightarrow> wbuf \<Rightarrow> wbuf option" where
  "push16 v w =
     (let p = wb_pos w; i = (ucast v :: u32) in
      if 2 \<le> wb_end w - p
      then Some (w\<lparr>wb_mem := (wb_mem w)[p := ucast (drop_bit 8 (i AND 0xFF00)),
                                         p + 1 := ucast (i AND 0xFF)], wb_pos := p + 2\<rparr>)
      else None)"

definition pushs16 :: "16 word \<Rightarrow> wbuf \<Rightarrow> wbuf option" where
  "pushs16 v w =
     (let p = wb_pos w; i = (scast v :: u32) in
      if 2 \<le> wb_end w - p
      then Some (w\<lparr>wb_mem := (wb_mem w)[p := ucast (drop_bit 8 (i AND 0xFF00)),
                                         p + 1 := ucast (i AND 0xFF)], wb_pos := p + 2\<rparr>)
      else None)"

definition push32 :: "u32 \<Rightarrow> wbuf \<Rightarrow> wbuf option" where
  "push32 v w =
     (let p = wb_pos w in
      if 4 \<le> wb_end w - p
      then Some (w\<lparr>wb_mem := (wb_mem w)[p := ucast (drop_bit 24 (v AND 0xFF000000)),
                                         p + 1 := ucast (drop_bit 16 (v AND 0xFF0000)),
                                         p + 2 := ucast (drop_bit 8 (v AND 0xFF00)),
                                         p + 3 := ucast (v AND 0xFF)], wb_pos := p + 4\<rparr>)
      else None)"

definition pushs32 :: "32 word \<Rightarrow> wbuf \<Rightarrow> wbuf option" where
  "pushs32 v w =
     (let p = wb_pos w in
      if 4 \<le> wb_end w - p
      then Some (w\<lparr>wb_mem := (wb_mem w)[p := ucast (drop_bit 24 (v AND 0xFF000000)),
                                         p + 1 := ucast (drop_bit 16 (v AND 0xFF0000)),
                                         p + 2 := ucast (drop_bit 8 (v AND 0xFF00)),
                                         p + 3 := ucast (v AND 0xFF)], wb_pos := p + 4\<rparr>)
      else None)"

definition pull8 :: "rbuf \<Rightarrow> (u8 \<times> rbuf) option" where
  "pull8 r =
     (let p = rb_pos r in
      if 1 \<le> rb_end r - p then Some (rb_mem r ! p, r\<lparr>rb_pos := p + 1\<rparr>) else None)"

definition pulls8 :: "rbuf \<Rightarrow> (8 word \<times> rbuf) option" where
  "pulls8 r =
     (let p = rb_pos r in
      if 1 \<le> rb_end r - p
      then Some (ucast (ucast (rb_mem r ! p) :: u32), r\<lparr>rb_pos := p + 1\<rparr>) else None)"

definition pull16 :: "rbuf \<Rightarrow> (u16 \<times> rbuf) option" where
  "pull16 r =
     (let p = rb_pos r in
      if 2 \<le> rb_end r - p
      then Some (ucast (push_bit 8 (ucast (rb_mem r ! p)) OR ucast (rb_mem r ! (p + 1)) :: u32),
                 r\<lparr>rb_pos := p + 2\<rparr>)
      else None)"

definition pulls16 :: "rbuf \<Rightarrow> (16 word \<times> rbuf) option" where
  "pulls16 r =
     (let p = rb_pos r in
      if 2 \<le> rb_end r - p
      then Some (ucast (push_bit 8 (ucast (rb_mem r ! p)) OR ucast (rb_mem r ! (p + 1)) :: u32),
                 r\<lparr>rb_pos := p + 2\<rparr>)
      else None)"

definition pull32 :: "rbuf \<Rightarrow> (u32 \<times> rbuf) option" where
  "pull32 r =
     (let p = rb_pos r in
      if 4 \<le> rb_end r - p
      then Some (push_bit 24 (ucast (rb_mem r ! p)) OR push_bit 16 (ucast (rb_mem r ! (p + 1)))
                 OR push_bit 8 (ucast (rb_mem r ! (p + 2))) OR ucast (rb_mem r ! (p + 3)),
                 r\<lparr>rb_pos := p + 4\<rparr>)
      else None)"

definition pulls32 :: "rbuf \<Rightarrow> (32 word \<times> rbuf) option" where
  "pulls32 r =
     (let p = rb_pos r in
      if 4 \<le> rb_end r - p
      then Some (push_bit 24 (ucast (rb_mem r ! p)) OR push_bit 16 (ucast (rb_mem r ! (p + 1)))
                 OR push_bit 8 (ucast (rb_mem r ! (p + 2))) OR ucast (rb_mem r ! (p + 3)),
                 r\<lparr>rb_pos := p + 4\<rparr>)
      else None)"

subsection \<open>Bit lemmas\<close>

lemma masks32: "(0xFF :: u32) = mask 8" "(0xFF00 :: u32) = push_bit 8 (mask 8)" "(0xFF0000 :: u32) = push_bit 16 (mask 8)"
   "(0xFF000000 :: u32) = push_bit 24 (mask 8)"
  by (simp_all add: mask_eq_exp_minus_1)

lemma be16_masked:
  "ucast (drop_bit 8 ((ucast (v :: u16) :: u32) AND 0xFF00)) = (ucast (drop_bit 8 v) :: u8)"
  "ucast ((ucast (v :: u16) :: u32) AND 0xFF) = (ucast v :: u8)"
  "ucast (drop_bit 8 ((scast (v :: u16) :: u32) AND 0xFF00)) = (ucast (drop_bit 8 v) :: u8)"
  "ucast ((scast (v :: u16) :: u32) AND 0xFF) = (ucast v :: u8)"
  unfolding masks32 by (rule bit_word_eqI, auto simp: bit_simps)+

lemma be32_masked:
  "ucast (drop_bit 24 ((v :: u32) AND 0xFF000000)) = (ucast (drop_bit 24 v) :: u8)"
  "ucast (drop_bit 16 ((v :: u32) AND 0xFF0000)) = (ucast (drop_bit 16 v) :: u8)"
  "ucast (drop_bit 8 ((v :: u32) AND 0xFF00)) = (ucast (drop_bit 8 v) :: u8)"
  "ucast ((v :: u32) AND 0xFF) = (ucast v :: u8)"
  unfolding masks32 by (rule bit_word_eqI, auto simp: bit_simps)+

lemma be16_join:
  "ucast (push_bit 8 (ucast (ucast (drop_bit 8 (v :: u16)) :: u8)) OR ucast (ucast v :: u8) :: u32) = v"
  by (rule bit_word_eqI) (auto simp: bit_simps)

lemma be32_join:
  "push_bit 24 (ucast (ucast (drop_bit 24 (v :: u32)) :: u8)) OR
   (push_bit 16 (ucast (ucast (drop_bit 16 v) :: u8)) OR
   (push_bit 8 (ucast (ucast (drop_bit 8 v) :: u8)) OR ucast (ucast v :: u8))) = v" (is "?l = v")
proof (rule bit_word_eqI)
  fix n assume "n < LENGTH(32)"
  then consider "n < 8" | "8 \<le> n" "n < 16" | "16 \<le> n" "n < 24" | "24 \<le> n" "n < 32"
    by fastforce
  then show "bit ?l n = bit v n"
    by cases (auto simp: bit_simps)
qed
lemma s8_casts: "ucast (scast (v :: 8 word) :: u32) = v" "ucast (ucast (v :: 8 word) :: u32) = v"
  by (rule bit_word_eqI, auto simp: bit_simps)+

lemma be16_split:
  "ucast (drop_bit 8 (ucast (push_bit 8 (ucast a) OR ucast b :: u32) :: u16)) = (a :: u8)"
  "ucast (ucast (push_bit 8 (ucast a) OR ucast b :: u32) :: u16) = (b :: u8)"
  by (rule bit_word_eqI, auto simp: bit_simps dest: bit_imp_le_length)+

subsection \<open>Laws of the scalar routines\<close>

lemma rb_rest_ConsD:
  assumes "rbuf_ok r" "rb_rest r = bs @ rest" "i < length bs"
  shows "rb_mem r ! (rb_pos r + i) = bs ! i"
proof -
  have "i < rb_room r" using assms length_rb_rest [of r] by simp
  then show ?thesis using assms rb_rest_nth [of r i] by (simp add: nth_append)
qed

lemma rb_rest_room: "rbuf_ok r \<Longrightarrow> rb_rest r = bs @ rest \<Longrightarrow> length bs \<le> rb_end r - rb_pos r"
  using length_rb_rest [of r] by (simp add: rb_room_def)

lemma wb_upd2:
  "p + 1 < length m \<Longrightarrow> m[p := a, p + 1 := b] = upd_at p [a, b] m"
  by (auto simp: list_eq_iff_nth_eq nth_upd_at nth_list_update nth_Cons split: nat.splits)

lemma wb_upd4:
  "p + 3 < length m \<Longrightarrow>
   m[p := a, p + 1 := b, p + 2 := c, p + 3 := d] = upd_at p [a, b, c, d] m"
  by (auto simp: list_eq_iff_nth_eq nth_upd_at nth_list_update nth_Cons split: nat.splits)

lemma writes_push8 [writes_intro]: "writes (push8 v) [v]"
  by (auto simp: writes_def push8_def Let_def wb_room_def wb_write_def wbuf_ok_def
      list_update_upd_at)

lemma writes_pushs8 [writes_intro]: "writes (pushs8 v) [v]"
  by (auto simp: writes_def pushs8_def Let_def wb_room_def wb_write_def wbuf_ok_def
      list_update_upd_at s8_casts)

lemma writes_push16 [writes_intro]: "writes (push16 v) (be16 v)"
  unfolding writes_def push16_def Let_def be16_masked
  by (auto simp: wb_room_def wb_write_def wbuf_ok_def be16_def wb_upd2 [simplified])

lemma writes_pushs16 [writes_intro]: "writes (pushs16 v) (be16 v)"
  unfolding writes_def pushs16_def Let_def be16_masked
  by (auto simp: wb_room_def wb_write_def wbuf_ok_def be16_def wb_upd2 [simplified])

lemma writes_push32 [writes_intro]: "writes (push32 v) (be32 v)"
  unfolding writes_def push32_def Let_def be32_masked
  by (auto simp: wb_room_def wb_write_def wbuf_ok_def be32_def wb_upd4 [simplified])

lemma writes_pushs32 [writes_intro]: "writes (pushs32 v) (be32 v)"
  unfolding writes_def pushs32_def Let_def be32_masked
  by (auto simp: wb_room_def wb_write_def wbuf_ok_def be32_def wb_upd4 [simplified])

lemma reads_pull8 [reads_intro]: "reads pull8 v [v]"
proof (rule readsI)
  fix r rest assume ok: "rbuf_ok r" and rest: "rb_rest r = [v] @ rest"
  show "pull8 r = Some (v, rb_adv (length [v]) r)"
    using rb_rest_ConsD [OF ok rest, of 0] rb_rest_room [OF ok rest]
    by (simp add: pull8_def Let_def rb_adv_def)
qed

lemma reads_pulls8 [reads_intro]: "reads pulls8 v [v]"
proof (rule readsI)
  fix r rest assume ok: "rbuf_ok r" and rest: "rb_rest r = [v] @ rest"
  show "pulls8 r = Some (v, rb_adv (length [v]) r)"
    using rb_rest_ConsD [OF ok rest, of 0] rb_rest_room [OF ok rest]
    by (simp add: pulls8_def Let_def rb_adv_def s8_casts)
qed

lemma reads_pull16 [reads_intro]: "reads pull16 v (be16 v)"
proof (rule readsI)
  fix r rest assume ok: "rbuf_ok r" and rest: "rb_rest r = be16 v @ rest"
  show "pull16 r = Some (v, rb_adv (length (be16 v)) r)"
    using rb_rest_ConsD [OF ok rest, of 0] rb_rest_ConsD [OF ok rest, of 1] rb_rest_room [OF ok rest]
    by (simp add: pull16_def Let_def rb_adv_def be16_def be16_join)
qed

lemma reads_pulls16 [reads_intro]: "reads pulls16 v (be16 v)"
proof (rule readsI)
  fix r rest assume ok: "rbuf_ok r" and rest: "rb_rest r = be16 v @ rest"
  show "pulls16 r = Some (v, rb_adv (length (be16 v)) r)"
    using rb_rest_ConsD [OF ok rest, of 0] rb_rest_ConsD [OF ok rest, of 1] rb_rest_room [OF ok rest]
    by (simp add: pulls16_def Let_def rb_adv_def be16_def be16_join)
qed

lemma reads_pull32 [reads_intro]: "reads pull32 v (be32 v)"
proof (rule readsI)
  fix r rest assume ok: "rbuf_ok r" and rest: "rb_rest r = be32 v @ rest"
  show "pull32 r = Some (v, rb_adv (length (be32 v)) r)"
    using rb_rest_ConsD [OF ok rest, of 0] rb_rest_ConsD [OF ok rest, of 1]
      rb_rest_ConsD [OF ok rest, of 2] rb_rest_ConsD [OF ok rest, of 3] rb_rest_room [OF ok rest]
    by (simp add: pull32_def Let_def rb_adv_def be32_def be32_join)
qed

lemma reads_pulls32 [reads_intro]: "reads pulls32 v (be32 v)"
  using reads_pull32 [of v] by (simp add: reads_def pull32_def pulls32_def)

text \<open>Failure: a scalar read returns 0 exactly when its bytes are not there.\<close>

lemma pull_None_iff:
  "pull8 r = None \<longleftrightarrow> rb_room r < 1" "pull16 r = None \<longleftrightarrow> rb_room r < 2"
  "pull32 r = None \<longleftrightarrow> rb_room r < 4" "pulls8 r = None \<longleftrightarrow> rb_room r < 1"
  "pulls16 r = None \<longleftrightarrow> rb_room r < 2" "pulls32 r = None \<longleftrightarrow> rb_room r < 4"
  by (auto simp: pull8_def pull16_def pull32_def pulls8_def pulls16_def pulls32_def Let_def rb_room_def)

lemma pull_adv:
  "pull8 r = Some (v8, r') \<Longrightarrow> r' = rb_adv 1 r \<and> 1 \<le> rb_room r"
  "pull16 r = Some (v16, r') \<Longrightarrow> r' = rb_adv 2 r \<and> 2 \<le> rb_room r"
  "pull32 r = Some (v32, r') \<Longrightarrow> r' = rb_adv 4 r \<and> 4 \<le> rb_room r"
  "pulls8 r = Some (s8, r') \<Longrightarrow> r' = rb_adv 1 r \<and> 1 \<le> rb_room r"
  "pulls16 r = Some (s16, r') \<Longrightarrow> r' = rb_adv 2 r \<and> 2 \<le> rb_room r"
  "pulls32 r = Some (s32, r') \<Longrightarrow> r' = rb_adv 4 r \<and> 4 \<le> rb_room r"
  by (auto simp: pull8_def pull16_def pull32_def pulls8_def pulls16_def pulls32_def Let_def rb_room_def
      rb_adv_def split: if_splits)

interpretation c8: codec push8 pull8 "\<lambda>v. [v]" "\<lambda>_. True"
  by unfold_locales (rule writes_intro reads_intro)+

interpretation c16: codec push16 pull16 be16 "\<lambda>_. True"
  by unfold_locales (rule writes_intro reads_intro)+

interpretation c32: codec push32 pull32 be32 "\<lambda>_. True"
  by unfold_locales (rule writes_intro reads_intro)+

interpretation cs8: codec pushs8 pulls8 "\<lambda>v. [v]" "\<lambda>_. True"
  by unfold_locales (rule writes_intro reads_intro)+

interpretation cs16: codec pushs16 pulls16 be16 "\<lambda>_. True"
  by unfold_locales (rule writes_intro reads_intro)+

interpretation cs32: codec pushs32 pulls32 be32 "\<lambda>_. True"
  by unfold_locales (rule writes_intro reads_intro)+

section \<open>Array loops\<close>

text \<open>The \<^verbatim>\<open>for\<close> loops of the array routines: stop with 0 at the first element that fails.\<close>

fun push_all :: "('a \<Rightarrow> wbuf \<Rightarrow> wbuf option) \<Rightarrow> 'a list \<Rightarrow> wbuf \<Rightarrow> wbuf option" where
  "push_all p [] w = Some w"
| "push_all p (x # xs) w = p x w \<bind> push_all p xs"

fun pull_n :: "(rbuf \<Rightarrow> ('a \<times> rbuf) option) \<Rightarrow> nat \<Rightarrow> rbuf \<Rightarrow> ('a list \<times> rbuf) option" where
  "pull_n g 0 r = Some ([], r)"
| "pull_n g (Suc n) r = g r \<bind> (\<lambda>(x, r1). pull_n g n r1 \<bind> (\<lambda>(xs, r2). Some (x # xs, r2)))"

lemma push_all_eta: "push_all p [] = Some" "push_all p (x # xs) = (\<lambda>w. p x w \<bind> push_all p xs)"
  by (simp_all add: fun_eq_iff)

lemma pull_n_eta: "pull_n g 0 = (\<lambda>r. Some ([], r))"
  "pull_n g (Suc n) = (\<lambda>r. g r \<bind> (\<lambda>(x, r1). pull_n g n r1 \<bind> (\<lambda>(xs, r2). Some (x # xs, r2))))"
  by (simp_all add: fun_eq_iff)

lemma length_pull_n: "pull_n g n r = Some (xs, r') \<Longrightarrow> length xs = n"
  by (induction n arbitrary: r xs) (auto simp: bind_eq_Some_conv)

context codec
begin

lemma writes_push_all:
  "(\<And>x. x \<in> set xs \<Longrightarrow> valid x) \<Longrightarrow> writes (push_all pack xs) (concat (map enc xs))"
proof (induction xs)
  case Nil
  show ?case by (simp add: push_all_eta writes_nop)
next
  case (Cons x xs)
  show ?case
    unfolding push_all_eta list.map concat.simps
    by (rule writes_bind [OF pack_writes Cons.IH]) (simp_all add: Cons.prems)
qed

lemma reads_pull_n:
  "(\<And>x. x \<in> set xs \<Longrightarrow> valid x) \<Longrightarrow> reads (pull_n unpack (length xs)) xs (concat (map enc xs))"
proof (induction xs)
  case Nil
  show ?case by (simp add: pull_n_eta reads_return)
next
  case (Cons x xs)
  have IH: "reads (pull_n unpack (length xs)) xs (concat (map enc xs))"
    using Cons by simp
  have "reads (\<lambda>r. pull_n unpack (length xs) r \<bind> (\<lambda>(ys, r'). Some (x # ys, r'))) (x # xs)
      (concat (map enc xs) @ [])"
    by (rule reads_bind [OF IH reads_return])
  then show ?case
    using reads_bind [OF unpack_reads, of x "\<lambda>x r. pull_n unpack (length xs) r \<bind> (\<lambda>(ys, r'). Some (x # ys, r'))"]
      Cons.prems by (simp add: pull_n_eta)
qed

end

section \<open>Arrays of scalars\<close>

definition pullarray16 :: "u32 \<Rightarrow> u32 \<Rightarrow> rbuf \<Rightarrow> (u16 list \<times> rbuf) option" where
  "pullarray16 max_len len r =
     (if len = 0 then Some ([], r)
      else if max_len < len then None
      else if 2 * unat len \<le> rb_end r - rb_pos r then pull_n pull16 (unat len) r
      else None)"

definition pullarrays16 :: "u32 \<Rightarrow> u32 \<Rightarrow> rbuf \<Rightarrow> (16 word list \<times> rbuf) option" where
  "pullarrays16 max_len len r =
     (if len = 0 then Some ([], r)
      else if max_len < len then None
      else if 2 * unat len \<le> rb_end r - rb_pos r then pull_n pulls16 (unat len) r
      else None)"

definition pusharray16 :: "u16 list \<Rightarrow> u32 \<Rightarrow> u32 \<Rightarrow> wbuf \<Rightarrow> wbuf option" where
  "pusharray16 xs max_len len w =
     (if len = 0 then Some w
      else if max_len < len then None
      else if 2 * unat len \<le> wb_end w - wb_pos w then push_all push16 (take (unat len) xs) w
      else None)"

definition pusharrays16 :: "16 word list \<Rightarrow> u32 \<Rightarrow> u32 \<Rightarrow> wbuf \<Rightarrow> wbuf option" where
  "pusharrays16 xs max_len len w =
     (if len = 0 then Some w
      else if max_len < len then None
      else if 2 * unat len \<le> wb_end w - wb_pos w then push_all pushs16 (take (unat len) xs) w
      else None)"

definition pullarray32 :: "u32 \<Rightarrow> u32 \<Rightarrow> rbuf \<Rightarrow> (u32 list \<times> rbuf) option" where
  "pullarray32 max_len len r =
     (if len = 0 then Some ([], r)
      else if max_len < len then None
      else if 4 * unat len \<le> rb_end r - rb_pos r then pull_n pull32 (unat len) r
      else None)"

definition pullarrays32 :: "u32 \<Rightarrow> u32 \<Rightarrow> rbuf \<Rightarrow> (32 word list \<times> rbuf) option" where
  "pullarrays32 max_len len r =
     (if len = 0 then Some ([], r)
      else if max_len < len then None
      else if 4 * unat len \<le> rb_end r - rb_pos r then pull_n pulls32 (unat len) r
      else None)"

definition pusharray32 :: "u32 list \<Rightarrow> u32 \<Rightarrow> u32 \<Rightarrow> wbuf \<Rightarrow> wbuf option" where
  "pusharray32 xs max_len len w =
     (if len = 0 then Some w
      else if max_len < len then None
      else if 4 * unat len \<le> wb_end w - wb_pos w then push_all push32 (take (unat len) xs) w
      else None)"

definition pusharrays32 :: "32 word list \<Rightarrow> u32 \<Rightarrow> u32 \<Rightarrow> wbuf \<Rightarrow> wbuf option" where
  "pusharrays32 xs max_len len w =
     (if len = 0 then Some w
      else if max_len < len then None
      else if 4 * unat len \<le> wb_end w - wb_pos w then push_all pushs32 (take (unat len) xs) w
      else None)"

definition pullarray8 :: "u32 \<Rightarrow> u32 \<Rightarrow> rbuf \<Rightarrow> (u8 list \<times> rbuf) option" where
  "pullarray8 max_len len r =
     (if len = 0 then Some ([], r)
      else if max_len < len then None
      else if unat len \<le> rb_end r - rb_pos r
      then Some (take (unat len) (drop (rb_pos r) (rb_mem r)), r\<lparr>rb_pos := rb_pos r + unat len\<rparr>)
      else None)"

definition pusharray8 :: "u8 list \<Rightarrow> u32 \<Rightarrow> u32 \<Rightarrow> wbuf \<Rightarrow> wbuf option" where
  "pusharray8 xs max_len len w =
     (if len = 0 then Some w
      else if max_len < len then None
      else if unat len \<le> wb_end w - wb_pos w
      then Some (w\<lparr>wb_mem := upd_at (wb_pos w) (take (unat len) xs) (wb_mem w),
                   wb_pos := wb_pos w + unat len\<rparr>)
      else None)"

text \<open>
  \<open>array_fits n m xs\<close>: the caller asks for the first \<open>n\<close> elements of an array that
  has them, within the declared maximum \<open>m\<close>.
\<close>

definition array_fits :: "u32 \<Rightarrow> u32 \<Rightarrow> 'a list \<Rightarrow> bool" where
  "array_fits len max_len xs \<longleftrightarrow> unat len \<le> length xs \<and> len \<le> max_len"

lemma concat_be16_length [simp]: "length (concat (map be16 xs)) = 2 * length xs"
  by (induction xs) auto

lemma concat_be32_length [simp]: "length (concat (map be32 xs)) = 4 * length xs"
  by (induction xs) auto

lemma concat_single [simp]: "concat (map (\<lambda>v. [v]) xs) = xs"
  by (induction xs) auto

lemmas array_defs = pullarray8_def pullarray16_def pullarrays16_def pullarray32_def pullarrays32_def
  pusharray8_def pusharray16_def pusharrays16_def pusharray32_def pusharrays32_def

lemma writes_guarded:
  assumes "writes p bs" "length bs = k"
  shows "writes (\<lambda>w. if k \<le> wb_end w - wb_pos w then p w else None) bs"
  using assms by (auto simp: writes_def wb_room_def)

lemma reads_guarded:
  assumes "reads g x bs" "length bs = k"
  shows "reads (\<lambda>r. if k \<le> rb_end r - rb_pos r then g r else None) x bs"
  using assms by (auto simp: reads_def dest: rb_rest_room)

context codec
begin

lemma writes_array:
  assumes fits: "array_fits len m xs" and v: "\<And>x. valid x" and k: "\<And>x. length (enc x) = k"
  shows "writes (\<lambda>w. if len = 0 then Some w else if m < len then None
           else if k * unat len \<le> wb_end w - wb_pos w then push_all pack (take (unat len) xs) w
           else None) (concat (map enc (take (unat len) xs)))"
proof (cases "len = 0")
  case True
  then show ?thesis by (simp add: writes_nop)
next
  case False
  have "length (concat (map enc ys)) = k * length ys" for ys
    by (induction ys) (auto simp: k)
  then have "length (concat (map enc (take (unat len) xs))) = k * unat len"
    using fits by (simp add: array_fits_def min_def)
  from writes_guarded [OF writes_push_all this] show ?thesis
    using False fits v by (simp add: array_fits_def not_less [symmetric])
qed

lemma reads_array:
  assumes "length xs = unat len" "len \<le> m" and v: "\<And>x. valid x" and k: "\<And>x. length (enc x) = k"
  shows "reads (\<lambda>r. if len = 0 then Some ([], r) else if m < len then None
           else if k * unat len \<le> rb_end r - rb_pos r then pull_n unpack (unat len) r
           else None) xs (concat (map enc xs))"
proof (cases "len = 0")
  case True
  then show ?thesis using assms(1) by (simp add: reads_return)
next
  case False
  have "length (concat (map enc ys)) = k * length ys" for ys
    by (induction ys) (auto simp: k)
  then have "length (concat (map enc xs)) = k * unat len"
    using assms(1) by simp
  from reads_guarded [OF reads_pull_n this] have
    "reads (\<lambda>r. if k * unat len \<le> rb_end r - rb_pos r then pull_n unpack (unat len) r else None)
       xs (concat (map enc xs))"
    unfolding assms(1) using v by simp
  then show ?thesis
    using False assms(2) by (simp add: not_less [symmetric])
qed

end

lemma writes_pusharray16 [writes_intro]:
  "array_fits len m xs \<Longrightarrow> writes (pusharray16 xs m len) (concat (map be16 (take (unat len) xs)))"
  unfolding pusharray16_def [abs_def] by (rule c16.writes_array) simp_all

lemma reads_pullarray16 [reads_intro]:
  "length xs = unat len \<Longrightarrow> len \<le> m \<Longrightarrow> reads (pullarray16 m len) xs (concat (map be16 xs))"
  unfolding pullarray16_def [abs_def] by (rule c16.reads_array) simp_all

lemma writes_pusharrays16 [writes_intro]:
  "array_fits len m xs \<Longrightarrow> writes (pusharrays16 xs m len) (concat (map be16 (take (unat len) xs)))"
  unfolding pusharrays16_def [abs_def] by (rule cs16.writes_array) simp_all

lemma reads_pullarrays16 [reads_intro]:
  "length xs = unat len \<Longrightarrow> len \<le> m \<Longrightarrow> reads (pullarrays16 m len) xs (concat (map be16 xs))"
  unfolding pullarrays16_def [abs_def] by (rule cs16.reads_array) simp_all

lemma writes_pusharray32 [writes_intro]:
  "array_fits len m xs \<Longrightarrow> writes (pusharray32 xs m len) (concat (map be32 (take (unat len) xs)))"
  unfolding pusharray32_def [abs_def] by (rule c32.writes_array) simp_all

lemma reads_pullarray32 [reads_intro]:
  "length xs = unat len \<Longrightarrow> len \<le> m \<Longrightarrow> reads (pullarray32 m len) xs (concat (map be32 xs))"
  unfolding pullarray32_def [abs_def] by (rule c32.reads_array) simp_all

lemma writes_pusharrays32 [writes_intro]:
  "array_fits len m xs \<Longrightarrow> writes (pusharrays32 xs m len) (concat (map be32 (take (unat len) xs)))"
  unfolding pusharrays32_def [abs_def] by (rule cs32.writes_array) simp_all

lemma reads_pullarrays32 [reads_intro]:
  "length xs = unat len \<Longrightarrow> len \<le> m \<Longrightarrow> reads (pullarrays32 m len) xs (concat (map be32 xs))"
  unfolding pullarrays32_def [abs_def] by (rule cs32.reads_array) simp_all

lemma writes_pusharray8 [writes_intro]:
  "array_fits len m xs \<Longrightarrow> writes (pusharray8 xs m len) (take (unat len) xs)"
  by (cases "len = 0")
    (auto simp: array_fits_def array_defs writes_def wb_room_def wb_write_def min_def not_less
      [symmetric])

lemma reads_pullarray8 [reads_intro]:
  assumes "length xs = unat len" "len \<le> m"
  shows "reads (pullarray8 m len) xs xs"
proof (rule readsI)
  fix r rest assume ok: "rbuf_ok r" and rest: "rb_rest r = xs @ rest"
  have "take (length xs) (rb_rest r) = take (length xs) (drop (rb_pos r) (rb_mem r))"
    using rb_rest_room [OF ok rest] ok by (auto simp: rb_rest_def take_drop min_def rbuf_ok_def)
  then show "pullarray8 m len r = Some (xs, rb_adv (length xs) r)"
    using assms rb_rest_room [OF ok rest] rest
    by (auto simp: array_defs rb_adv_def not_less)
qed

section \<open>Arrays of structures\<close>

definition packarray :: "u16 \<Rightarrow> u16 \<Rightarrow> ('a \<Rightarrow> wbuf \<Rightarrow> wbuf option) \<Rightarrow> 'a list \<Rightarrow> wbuf \<Rightarrow> wbuf option" where
  "packarray max_count count fn xs w =
     (if max_count < count then None else push_all fn (take (unat count) xs) w)"

definition unpackarray :: "u16 \<Rightarrow> u16 \<Rightarrow> (rbuf \<Rightarrow> ('a \<times> rbuf) option) \<Rightarrow> rbuf \<Rightarrow> ('a list \<times> rbuf) option" where
  "unpackarray max_count count fn r =
     (if max_count < count then None else pull_n fn (unat count) r)"

context codec
begin

lemma writes_packarray:
  "count \<le> max_count \<Longrightarrow> (\<And>x. x \<in> set (take (unat count) xs) \<Longrightarrow> valid x) \<Longrightarrow>
   writes (packarray max_count count pack xs) (concat (map enc (take (unat count) xs)))"
  using writes_push_all [of "take (unat count) xs"]
  by (simp add: packarray_def [abs_def] not_less [symmetric])

lemma reads_unpackarray:
  "count \<le> max_count \<Longrightarrow> (\<And>x. x \<in> set xs \<Longrightarrow> valid x) \<Longrightarrow> length xs = unat count \<Longrightarrow>
   reads (unpackarray max_count count unpack) xs (concat (map enc xs))"
  using reads_pull_n [of xs] by (simp add: unpackarray_def [abs_def] not_less [symmetric])

end

section \<open>DCI payload\<close>

text \<open>
  \<open>pack_dci_payload\<close> reads the first eight payload bytes as a little-endian
  \<^verbatim>\<open>uint64_t\<close>, shifts it left so that the payload ends on a byte boundary, and
  sends the used bytes in reverse order.  The shift is done in place, so the payload is
  part of the result.  The scratch array has \<open>DCI_PAYLOAD_BYTE_LEN\<close> = 8 bytes; the
  C code indexes it without a bound, so the model is used for \<open>payloadSizeBits \<le> 64\<close>.
\<close>

primrec le_word :: "u8 list \<Rightarrow> u64" where
  "le_word [] = 0"
| "le_word (b # bs) = ucast b OR push_bit 8 (le_word bs)"

definition le_bytes :: "nat \<Rightarrow> u64 \<Rightarrow> u8 list" where
  "le_bytes n v = map (\<lambda>j. ucast (drop_bit (8 * j) v)) [0..<n]"

definition dci_byte_len :: "u16 \<Rightarrow> u8" where
  "dci_byte_len bits = ucast (((ucast bits :: u32) + 7) div 8)"

definition dci_inverted :: "nat \<Rightarrow> u8 list \<Rightarrow> u8 list" where
  "dci_inverted n bs = map (\<lambda>j. bs ! (n - 1 - j)) [0..<n]"

definition pack_dci_payload :: "u8 list \<Rightarrow> u16 \<Rightarrow> wbuf \<Rightarrow> u8 list \<times> wbuf option" where
  "pack_dci_payload payload bits w =
     (let n = dci_byte_len bits;
          payload' = (if unat bits mod 8 \<noteq> 0
                      then le_bytes 8 (push_bit (8 - unat bits mod 8) (le_word (take 8 payload)))
                           @ drop 8 payload
                      else payload)
      in (payload', pusharray8 (dci_inverted (unat n) payload') 8 (ucast n) w))"

definition unpack_dci_payload :: "u8 list \<Rightarrow> u16 \<Rightarrow> rbuf \<Rightarrow> (u8 list \<times> rbuf) option" where
  "unpack_dci_payload payload bits r =
     (let n = dci_byte_len bits in
      case pullarray8 8 (ucast n) r of None \<Rightarrow> None
      | Some (rbytes, r') \<Rightarrow>
          (let payload' = dci_inverted (unat n) rbytes @ drop (unat n) payload
           in Some (if unat bits mod 8 \<noteq> 0
                    then le_bytes 8 (drop_bit (8 - unat bits mod 8) (le_word (take 8 payload')))
                         @ drop 8 payload'
                    else payload', r')))"

lemma bit_le_word:
  "length bs \<le> 8 \<Longrightarrow> bit (le_word bs) i \<longleftrightarrow> i div 8 < length bs \<and> bit (bs ! (i div 8)) (i mod 8)"
proof (induction bs arbitrary: i)
  case Nil
  then show ?case by simp
next
  case (Cons b bs)
  show ?case
  proof (cases "i < 8")
    case True
    then show ?thesis by (simp add: bit_simps)
  next
    case False
    then have "i div 8 = Suc ((i - 8) div 8)" "i mod 8 = (i - 8) mod 8"
      by (simp_all add: le_div_geq le_mod_geq)
    moreover have "i < 64" if "(i - 8) div 8 < length bs" using that Cons.prems by auto
    moreover have "\<not> bit b i" using False bit_imp_le_length by fastforce
    ultimately show ?thesis using Cons False by (auto simp: bit_simps)
  qed
qed

lemma length_le_bytes [simp]: "length (le_bytes n v) = n"
  by (simp add: le_bytes_def)

lemma bit_le_bytes: "j < n \<Longrightarrow> bit (le_bytes n v ! j) m \<longleftrightarrow> m < 8 \<and> bit v (8 * j + m)"
  by (simp add: le_bytes_def bit_simps)

lemma le_word_bytes: "le_word (le_bytes 8 v) = v"
proof (rule bit_word_eqI)
  fix i assume "i < LENGTH(64)"
  then have "i div 8 < 8" by auto
  then show "bit (le_word (le_bytes 8 v)) i = bit v i"
    by (simp add: bit_le_word bit_le_bytes)
qed

lemma le_bytes_word: "length bs = 8 \<Longrightarrow> le_bytes 8 (le_word bs) = bs"
  by (rule nth_equalityI; simp; intro bit_word_eqI) (simp add: bit_le_bytes bit_le_word)

lemma length_dci_inverted [simp]: "length (dci_inverted n bs) = n"
  by (simp add: dci_inverted_def)

lemma dci_inverted_twice: "n \<le> length bs \<Longrightarrow> dci_inverted n (dci_inverted n bs) = take n bs"
  by (rule nth_equalityI) (auto simp: dci_inverted_def)

lemma dci_byte_len: "unat bits \<le> 64 \<Longrightarrow> unat (dci_byte_len bits) = (unat bits + 7) div 8"
  by (simp add: dci_byte_len_def unat_word_ariths unsigned_ucast_eq take_bit_eq_mod unat_div)

lemma dci_shift_fits:
  assumes "take_bit b x = (x :: u64)" "b + k \<le> 64"
  shows "drop_bit k (push_bit k x) = x"
proof (rule bit_word_eqI)
  fix i assume "i < LENGTH(64)"
  have "i < b" if "bit x i" using that by (metis assms(1) bit_take_bit_iff)
  then show "bit (drop_bit k (push_bit k x)) i = bit x i"
    using assms(2) \<open>i < LENGTH(64)\<close> by (auto simp: bit_simps)
qed

lemma dci_high_bytes:
  assumes "take_bit b x = (x :: u64)" "b + k \<le> 8 * n" "n \<le> 8"
  shows "drop n (le_bytes 8 (push_bit k x)) = replicate (8 - n) 0"
proof (rule nth_equalityI)
  fix j assume j: "j < length (drop n (le_bytes 8 (push_bit k x)))"
  then have nj: "n + j < 8" using assms(3) by simp
  have "\<not> bit (push_bit k x) (8 * (n + j) + m)" for m
  proof
    assume "bit (push_bit k x) (8 * (n + j) + m)"
    then have k: "k \<le> 8 * (n + j) + m" and "bit x (8 * (n + j) + m - k)"
      by (auto simp: bit_simps)
    then have "8 * (n + j) + m - k < b" by (metis assms(1) bit_take_bit_iff)
    then have "8 * (n + j) + m < b + k" using k by (simp add: less_diff_conv2)
    then show False using assms(2) by (simp add: distrib_left)
  qed
  then show "drop n (le_bytes 8 (push_bit k x)) ! j = replicate (8 - n) 0 ! j"
    using nj by (intro bit_word_eqI) (simp add: bit_le_bytes assms(3))
qed simp

lemma round_up8: "b mod 8 \<noteq> 0 \<Longrightarrow> b + (8 - b mod 8) = 8 * ((b + 7) div 8)" for b :: nat
proof -
  assume nz: "b mod 8 \<noteq> 0"
  obtain q m where b: "b = 8 * q + m" "m < 8" by (metis mult_div_mod_eq mod_less_divisor zero_less_numeral)
  then have m: "b mod 8 = m" "0 < m" using nz by auto
  then have "(b + 7) div 8 = Suc q" using b by (intro div_nat_eqI) auto
  then show ?thesis using b m by simp
qed

lemma round_up8_exact: "b mod 8 = 0 \<Longrightarrow> b = 8 * ((b + 7) div 8)" for b :: nat
  by (auto elim!: dvdE simp: mod_eq_0_iff_dvd)

lemma dci_aligned:
  assumes "unat bits \<le> 64" "length p = 8" "take_bit (unat bits) (le_word p) = le_word p"
    "p' = (if unat bits mod 8 \<noteq> 0 then le_bytes 8 (push_bit (8 - unat bits mod 8) (le_word p)) else p)"
  shows "length p' = 8" "drop (unat (dci_byte_len bits)) p' = replicate (8 - unat (dci_byte_len bits)) 0"
    "(if unat bits mod 8 \<noteq> 0 then le_bytes 8 (drop_bit (8 - unat bits mod 8) (le_word p')) else p') = p"
proof -
  let ?n = "unat (dci_byte_len bits)" and ?b = "unat bits"
  have n: "?n = (?b + 7) div 8" using assms(1) by (rule dci_byte_len)
  then have n8: "?n \<le> 8" using assms(1) by simp
  show "length p' = 8" using assms(2,4) by simp
  have fit: "?b + (8 - ?b mod 8) = 8 * ?n" if "?b mod 8 \<noteq> 0"
    using round_up8 [OF that] n by simp
  have fit0: "?b = 8 * ?n" if "?b mod 8 = 0"
    using round_up8_exact [OF that] n by simp
  show "drop ?n p' = replicate (8 - ?n) 0"
  proof (cases "?b mod 8 = 0")
    case True
    have "drop ?n (le_bytes 8 (push_bit 0 (le_word p))) = replicate (8 - ?n) 0"
      using assms(3) by (rule dci_high_bytes) (use fit0 [OF True] n8 in simp_all)
    then show ?thesis using True assms(2,4) by (simp add: le_bytes_word)
  next
    case False
    have "drop ?n (le_bytes 8 (push_bit (8 - ?b mod 8) (le_word p))) = replicate (8 - ?n) 0"
      using assms(3) by (rule dci_high_bytes) (use fit [OF False] n8 in simp_all)
    then show ?thesis using False assms(4) by simp
  qed
  show "(if ?b mod 8 \<noteq> 0 then le_bytes 8 (drop_bit (8 - ?b mod 8) (le_word p')) else p') = p"
  proof (cases "?b mod 8 = 0")
    case True
    then show ?thesis using assms(4) by simp
  next
    case False
    have "drop_bit (8 - ?b mod 8) (push_bit (8 - ?b mod 8) (le_word p)) = le_word p"
      using assms(3) by (rule dci_shift_fits) (use fit [OF False] n8 in simp)
    then show ?thesis using False assms(2,4) by (simp add: le_word_bytes le_bytes_word)
  qed
qed

text \<open>
  A DCI payload of at most 64 bits, held right-aligned in its eight bytes, survives
  \<open>pack_dci_payload\<close> followed by \<open>unpack_dci_payload\<close> into a cleared payload array:
  the alignment shift and the byte inversion are undone, and the read cursor stops at the
  byte where the writer stopped.
\<close>

theorem dci_payload_roundtrip:
  assumes bits: "unat bits \<le> 64" and len: "length p = 8"
    and fits: "take_bit (unat bits) (le_word p) = le_word p"
    and ok: "wbuf_ok w" and pk: "pack_dci_payload p bits w = (p', Some w')"
  shows "unpack_dci_payload (replicate 8 0) bits \<lparr>rb_mem = wb_mem w', rb_pos = wb_pos w, rb_end = wb_pos w'\<rparr>
       = Some (p, \<lparr>rb_mem = wb_mem w', rb_pos = wb_pos w', rb_end = wb_pos w'\<rparr>)"
proof -
  let ?n = "unat (dci_byte_len bits)" and ?r = "\<lparr>rb_mem = wb_mem w', rb_pos = wb_pos w, rb_end = wb_pos w'\<rparr>"
  have n8: "?n \<le> 8" using dci_byte_len [OF bits] bits by simp
  define q where "q = (if unat bits mod 8 \<noteq> 0
    then le_bytes 8 (push_bit (8 - unat bits mod 8) (le_word p)) else p)"
  note al = dci_aligned [OF bits len fits q_def]
  let ?inv = "dci_inverted ?n q" and ?len = "ucast (dci_byte_len bits) :: u32"
  have ulen: "unat ?len = ?n" by (rule unat_ucast_8_32)
  have l8: "?len \<le> 8" using n8 ulen by (simp add: word_le_nat_alt)
  have push: "pusharray8 ?inv 8 ?len w = Some w'"
    using pk len by (auto simp: pack_dci_payload_def Let_def q_def split: if_splits)
  have wr: "writes (pusharray8 ?inv 8 ?len) ?inv"
    using writes_pusharray8 [of ?len 8 ?inv] l8 ulen by (simp add: array_fits_def)
  have fit: "length ?inv \<le> wb_room w" and w': "w' = wb_write ?inv w"
    using writesD [OF wr ok] push by (auto split: if_splits)
  have "rbuf_ok ?r" "rb_rest ?r = ?inv @ []"
    using wb_write_bytes [OF ok fit] ok fit
    by (auto simp: rb_rest_def rbuf_ok_def w' wb_write_sel wbuf_ok_def wb_room_def)
  then have "pullarray8 8 ?len ?r = Some (?inv, rb_adv (length ?inv) ?r)"
    using ulen l8 by (intro readsD [OF reads_pullarray8]) simp_all
  moreover have "dci_inverted ?n ?inv @ drop ?n (replicate 8 0) = q"
    using al(1,2) n8 by (simp add: dci_inverted_twice) (metis append_take_drop_id)
  ultimately show ?thesis
    using al(1,3) by (auto simp: unpack_dci_payload_def Let_def rb_adv_def w' wb_write_sel)
qed

theorem dci_payload_roundtrip_witness:
  "unpack_dci_payload (replicate 8 0) 12 \<lparr>rb_mem = [0xCA, 0xB0, 0, 0], rb_pos = 0, rb_end = 2\<rparr>
    = Some ([0xAB, 0x0C, 0, 0, 0, 0, 0, 0], \<lparr>rb_mem = [0xCA, 0xB0, 0, 0], rb_pos = 2, rb_end = 2\<rparr>)"
proof -
  let ?w = "\<lparr>wb_mem = [0, 0, 0, 0], wb_pos = 0, wb_end = 4\<rparr>"
    and ?w' = "\<lparr>wb_mem = [0xCA, 0xB0, 0, 0], wb_pos = 2, wb_end = 4\<rparr>"
  have bits: "unat (12 :: u16) \<le> 64" and len: "length [0xAB, 0x0C, 0, 0, 0, 0, 0, 0 :: u8] = 8"
    and ok: "wbuf_ok ?w"
    by (simp_all add: wbuf_ok_def)
  have fits: "take_bit (unat (12 :: u16)) (le_word [0xAB, 0x0C, 0, 0, 0, 0, 0, 0]) =
      le_word [0xAB, 0x0C, 0, 0, 0, 0, 0, 0]" by code_simp
  have pk: "pack_dci_payload [0xAB, 0x0C, 0, 0, 0, 0, 0, 0] 12 ?w =
      ([0xB0, 0xCA, 0, 0, 0, 0, 0, 0], Some ?w')" by code_simp
  show ?thesis
    using dci_payload_roundtrip [OF bits len fits ok pk] unfolding wbuf.select_convs .
qed

end
