(* ===== verification/Nfapi_Tlv.thy ===== *)
theory Nfapi_Tlv
  imports Nfapi_Codec
begin

text \<open>
  Tag-length-value packing and unpacking, the second half of
  \<^verbatim>\<open>open-nFAPI/nfapi/src/nfapi.c\<close>.  A \<^verbatim>\<open>pack_tlv_fn\<close> argument comes
  already applied to the structure it packs.  A table \<^verbatim>\<open>unpack_fns[]\<close> is a list of pairs
  of a tag and the unpacker bound to its destination: a function that takes the header, the
  state of all destinations and the cursor.  The vendor extension callback is optional, as
  the function pointer of the codec configuration is; its integer result is kept.
  A list unpacker returns \<open>Inl (c, s)\<close> for the codes \<open>c\<close> = 0 and \<open>c\<close> = -1 of
  the code, with the destinations as far as they were filled, and \<open>Inr\<close> the
  destinations and the cursor for 1.
\<close>

record tl =
  tl_tag :: u16
  tl_length :: u16

definition pack_tl :: "tl \<Rightarrow> wbuf \<Rightarrow> wbuf option" where
  "pack_tl t w = push16 (tl_tag t) w \<bind> push16 (tl_length t)"

definition unpack_tl :: "rbuf \<Rightarrow> (tl \<times> rbuf) option" where
  "unpack_tl r = pull16 r \<bind> (\<lambda>(tag, r1). pull16 r1 \<bind> (\<lambda>(len, r2).
     Some (\<lparr>tl_tag = tag, tl_length = len\<rparr>, r2)))"

definition get_tlv_padding :: "u16 \<Rightarrow> u8" where
  "get_tlv_padding len = of_nat ((4 - unat len mod 4) mod 4)"

definition enc_tl :: "tl \<Rightarrow> u8 list" where
  "enc_tl t = be16 (tl_tag t) @ be16 (tl_length t)"

section \<open>Packing\<close>

text \<open>
  The header is written first with whatever length the structure holds and rewritten once
  the value is there.  The result of the second \<open>pack_tl\<close> is ignored by the code.
\<close>

definition tl_rewrite :: "tl \<Rightarrow> nat \<Rightarrow> wbuf \<Rightarrow> wbuf" where
  "tl_rewrite t start w =
     (case pack_tl t (w\<lparr>wb_pos := start\<rparr>) of
        Some w' \<Rightarrow> w'\<lparr>wb_pos := wb_pos w\<rparr>
      | None \<Rightarrow> w)"

definition pack_tlv :: "u16 \<Rightarrow> tl \<Rightarrow> (wbuf \<Rightarrow> wbuf option) \<Rightarrow> wbuf \<Rightarrow> (tl \<times> wbuf) option" where
  "pack_tlv tag t fn w =
     (if tl_tag t = tag then
        (case pack_tl t w of None \<Rightarrow> None
         | Some w1 \<Rightarrow>
             (case fn w1 of None \<Rightarrow> None
              | Some w2 \<Rightarrow>
                  (let t' = t\<lparr>tl_length := of_nat (wb_pos w2 - wb_pos w1)\<rparr>
                   in Some (t', tl_rewrite t' (wb_pos w) w2))))
      else Some (t, w))"

definition pack_nr_tlv :: "u16 \<Rightarrow> tl \<Rightarrow> (wbuf \<Rightarrow> wbuf option) \<Rightarrow> wbuf \<Rightarrow> (tl \<times> wbuf) option" where
  "pack_nr_tlv tag t fn w =
     (if tl_tag t = tag then
        (case pack_tl t w of None \<Rightarrow> None
         | Some w1 \<Rightarrow>
             (case fn w1 of None \<Rightarrow> None
              | Some w2 \<Rightarrow>
                  (let t' = t\<lparr>tl_length := of_nat (wb_pos w2 - wb_pos w1)\<rparr>;
                       w3 = tl_rewrite t' (wb_pos w) w2;
                       padding = unat (get_tlv_padding (tl_length t'))
                   in Some (t', if padding \<noteq> 0 then wb_write (replicate padding 0) w3 else w3))))
      else Some (t, w))"

text \<open>The vendor extension packers; \<open>None\<close> for a null extension, configuration or callback.\<close>

definition pack_vendor_extension_tlv ::
  "tl option \<Rightarrow> (wbuf \<Rightarrow> wbuf option) option \<Rightarrow> wbuf \<Rightarrow> (tl option \<times> wbuf) option" where
  "pack_vendor_extension_tlv ve cb w =
     (case (ve, cb) of
        (Some t, Some fn) \<Rightarrow>
          (case pack_tl t w of None \<Rightarrow> None
           | Some w1 \<Rightarrow>
               (case fn w1 of None \<Rightarrow> None
                | Some w2 \<Rightarrow>
                    (let t' = t\<lparr>tl_length := of_nat (wb_pos w2 - wb_pos w1)\<rparr>
                     in Some (Some t', tl_rewrite t' (wb_pos w) w2))))
      | _ \<Rightarrow> Some (ve, w))"

definition pack_p7_vendor_extension_tlv ::
  "tl option \<Rightarrow> (wbuf \<Rightarrow> wbuf option) option \<Rightarrow> wbuf \<Rightarrow> (tl option \<times> wbuf) option" where
  "pack_p7_vendor_extension_tlv ve cb w =
     (case (ve, cb) of
        (Some t, Some fn) \<Rightarrow>
          (case pack_tl t w of None \<Rightarrow> None
           | Some w1 \<Rightarrow>
               (case fn w1 of None \<Rightarrow> None
                | Some w2 \<Rightarrow>
                    (let t' = t\<lparr>tl_length := of_nat (wb_pos w2 - wb_pos w1)\<rparr>
                     in Some (Some t', tl_rewrite t' (wb_pos w) w2))))
      | _ \<Rightarrow> Some (ve, w))"

section \<open>Unpacking lists of TLVs\<close>

type_synonym 's tlv_fn = "tl \<Rightarrow> 's \<Rightarrow> rbuf \<Rightarrow> ('s \<times> rbuf) option"
type_synonym 's ve_fn = "tl \<Rightarrow> 's \<Rightarrow> rbuf \<Rightarrow> int \<times> 's \<times> rbuf"

definition unpack_vendor_extension_tlv :: "'s ve_fn option \<Rightarrow> 's ve_fn" where
  "unpack_vendor_extension_tlv cb t s r = (case cb of Some f \<Rightarrow> f t s r | None \<Rightarrow> (1, s, r))"

definition unpack_p7_vendor_extension_tlv :: "'s ve_fn option \<Rightarrow> 's ve_fn" where
  "unpack_p7_vendor_extension_tlv cb t s r = (case cb of Some f \<Rightarrow> f t s r | None \<Rightarrow> (1, s, r))"

definition MAX_BAD_TAG :: nat where "MAX_BAD_TAG = 3"

definition NFAPI_VENDOR_EXTENSION_MIN_TAG_VALUE :: u16 where
  "NFAPI_VENDOR_EXTENSION_MIN_TAG_VALUE = 0xF000"

definition NFAPI_VENDOR_EXTENSION_MAX_TAG_VALUE :: u16 where
  "NFAPI_VENDOR_EXTENSION_MAX_TAG_VALUE = 0xFFFF"

text \<open>
  The inner \<^verbatim>\<open>for\<close> loop: every entry with the tag is called, in table order.  A length
  that does not agree with what the entry consumed is only traced.  \<open>pad\<close> is the number
  of padding bytes to step over, 0 in the LTE variants.
\<close>

fun match_entries :: "(u16 \<Rightarrow> nat) \<Rightarrow> (u16 \<times> 's tlv_fn) list \<Rightarrow> tl \<Rightarrow> bool \<Rightarrow> 's \<Rightarrow> rbuf
  \<Rightarrow> (bool \<times> 's \<times> rbuf) option" where
  "match_entries pad [] t matched s r = Some (matched, s, r)"
| "match_entries pad ((tag, f) # es) t matched s r =
     (if tag = tl_tag t
      then (case f t s r of None \<Rightarrow> None
            | Some (s', r') \<Rightarrow> match_entries pad es t True s' (rb_adv (pad (tl_length t)) r'))
      else match_entries pad es t matched s r)"

text \<open>The handling of a tag nobody claims: \<open>bad\<close> is the code for too many of them.\<close>

definition skip_bad_tag :: "(u16 \<Rightarrow> nat) \<Rightarrow> int \<Rightarrow> tl \<Rightarrow> nat \<Rightarrow> 's \<Rightarrow> rbuf \<Rightarrow> (int \<times> 's) + (nat \<times> 's \<times> rbuf)" where
  "skip_bad_tag pad bad t n s r =
     (if n + 1 > MAX_BAD_TAG then Inl (bad, s)
      else if rb_pos r + unat (tl_length t) \<le> rb_end r
      then Inr (n + 1, s, rb_adv (unat (tl_length t) + pad (tl_length t)) r)
      else Inl (0, s))"

definition tlv_step :: "(u16 \<Rightarrow> nat) \<Rightarrow> int \<Rightarrow> (u16 \<times> 's tlv_fn) list \<Rightarrow> 's ve_fn \<Rightarrow> nat \<Rightarrow> 's \<Rightarrow> rbuf
  \<Rightarrow> (int \<times> 's) + (nat \<times> 's \<times> rbuf)" where
  "tlv_step pad bad es ve n s r =
     (case unpack_tl r of None \<Rightarrow> Inl (0, s)
      | Some (t, r1) \<Rightarrow>
          (case match_entries pad es t False s r1 of None \<Rightarrow> Inl (0, s)
           | Some (tagMatch, s2, r2) \<Rightarrow>
               if tagMatch then Inr (n, s2, r2)
               else if NFAPI_VENDOR_EXTENSION_MIN_TAG_VALUE \<le> tl_tag t
                     \<and> tl_tag t \<le> NFAPI_VENDOR_EXTENSION_MAX_TAG_VALUE
               then (case ve t s2 r2 of (result, s3, r3) \<Rightarrow>
                       if result = 0 then Inl (0, s3)
                       else if result < 0 then skip_bad_tag pad bad t n s3 r3
                       else Inr (n, s3, r3))
               else skip_bad_tag pad bad t n s2 r2))"

text \<open>The \<^verbatim>\<open>while\<close> loop may run forever if a callback moves the cursor back.\<close>

partial_function (option) tlv_loop :: "(u16 \<Rightarrow> nat) \<Rightarrow> int \<Rightarrow> (u16 \<times> 's tlv_fn) list \<Rightarrow> 's ve_fn
  \<Rightarrow> nat \<Rightarrow> 's \<Rightarrow> rbuf \<Rightarrow> ((int \<times> 's) + ('s \<times> rbuf)) option" where
  "tlv_loop pad bad es ve n s r =
     (if rb_pos r < rb_end r
      then (case tlv_step pad bad es ve n s r of
              Inl c \<Rightarrow> Some (Inl c)
            | Inr (n', s', r') \<Rightarrow> tlv_loop pad bad es ve n' s' r')
      else Some (Inr (s, r)))"

declare tlv_loop.simps [code]

definition unpack_tlv_list :: "(u16 \<times> 's tlv_fn) list \<Rightarrow> 's ve_fn option \<Rightarrow> 's \<Rightarrow> rbuf
  \<Rightarrow> ((int \<times> 's) + ('s \<times> rbuf)) option" where
  "unpack_tlv_list es cb s r = tlv_loop (\<lambda>_. 0) 0 es (unpack_vendor_extension_tlv cb) 0 s r"

definition unpack_nr_tlv_list :: "(u16 \<times> 's tlv_fn) list \<Rightarrow> 's ve_fn option \<Rightarrow> 's \<Rightarrow> rbuf
  \<Rightarrow> ((int \<times> 's) + ('s \<times> rbuf)) option" where
  "unpack_nr_tlv_list es cb s r =
     tlv_loop (\<lambda>l. unat (get_tlv_padding l)) 0 es (unpack_vendor_extension_tlv cb) 0 s r"

definition unpack_p7_tlv_list :: "(u16 \<times> 's tlv_fn) list \<Rightarrow> 's ve_fn option \<Rightarrow> 's \<Rightarrow> rbuf
  \<Rightarrow> ((int \<times> 's) + ('s \<times> rbuf)) option" where
  "unpack_p7_tlv_list es cb s r = tlv_loop (\<lambda>_. 0) (-1) es (unpack_p7_vendor_extension_tlv cb) 0 s r"

definition unpack_nr_p7_tlv_list :: "(u16 \<times> 's tlv_fn) list \<Rightarrow> 's ve_fn option \<Rightarrow> 's \<Rightarrow> rbuf
  \<Rightarrow> ((int \<times> 's) + ('s \<times> rbuf)) option" where
  "unpack_nr_p7_tlv_list es cb s r =
     tlv_loop (\<lambda>l. unat (get_tlv_padding l)) (-1) es (unpack_p7_vendor_extension_tlv cb) 0 s r"

section \<open>Laws of the packers\<close>

lemma length_enc_tl [simp]: "length (enc_tl t) = 4"
  by (simp add: enc_tl_def)

lemma writes_pack_tl [writes_intro]: "writes (pack_tl t) (enc_tl t)"
  unfolding pack_tl_def [abs_def] enc_tl_def by (intro writes_intro)

lemma reads_unpack_tl [reads_intro]: "reads unpack_tl t (enc_tl t)"
  unfolding unpack_tl_def [abs_def] enc_tl_def
  by (rule reads_cong, (rule reads_intro)+) (auto intro: tl.equality)

interpretation ctl: codec pack_tl unpack_tl enc_tl "\<lambda>_. True"
  by unfold_locales (rule writes_intro reads_intro)+

definition enc_tlv :: "u16 \<Rightarrow> u8 list \<Rightarrow> u8 list" where
  "enc_tlv tag bs = enc_tl \<lparr>tl_tag = tag, tl_length = of_nat (length bs)\<rparr> @ bs"

lemma length_enc_tlv [simp]: "length (enc_tlv tag bs) = 4 + length bs"
  by (simp add: enc_tlv_def)

lemma tl_rewrite_write:
  assumes ok: "wbuf_ok w" and fit: "4 + length bs \<le> wb_room w"
  shows "tl_rewrite t' (wb_pos w) (wb_write (enc_tl t @ bs) w) = wb_write (enc_tl t' @ bs) w"
proof -
  let ?w = "wb_write (enc_tl t @ bs) w\<lparr>wb_pos := wb_pos w\<rparr>"
  have "wbuf_ok ?w" "wb_room ?w = wb_room w"
    using ok fit by (auto simp: wbuf_ok_def wb_write_def wb_room_def)
  then have "pack_tl t' ?w = Some (wb_write (enc_tl t') ?w)"
    using fit by (simp add: writesD [OF writes_pack_tl])
  moreover have "wb_pos w + 4 + length bs \<le> length (wb_mem w)"
    using ok fit by (auto simp: wbuf_ok_def wb_room_def)
  ultimately show ?thesis
    using upd_at_overwrite [of "wb_pos w" "enc_tl t" bs "wb_mem w" "enc_tl t'"]
    by (simp add: tl_rewrite_def wb_write_def)
qed

lemma pack_tl_then:
  assumes fn: "writes fn bs" and ok: "wbuf_ok w"
  shows "(case pack_tl t w of None \<Rightarrow> None | Some w1 \<Rightarrow>
            (case fn w1 of None \<Rightarrow> None | Some w2 \<Rightarrow> Some (f w1 w2)))
       = (if 4 + length bs \<le> wb_room w
          then Some (f (wb_write (enc_tl t) w) (wb_write (enc_tl t @ bs) w)) else None)"
proof (cases "4 \<le> wb_room w")
  case True
  then have "wbuf_ok (wb_write (enc_tl t) w)" using ok by (simp add: wbuf_ok_write)
  then show ?thesis
    using True ok by (auto simp: writesD [OF writes_pack_tl] writesD [OF fn] wb_room_write wb_write_write)
next
  case False
  then show ?thesis using ok by (simp add: writesD [OF writes_pack_tl])
qed

lemma pack_tlv_write:
  assumes "tl_tag t = tag" and fn: "writes fn bs" and ok: "wbuf_ok w"
  shows "pack_tlv tag t fn w =
    (if 4 + length bs \<le> wb_room w
     then Some (t\<lparr>tl_length := of_nat (length bs)\<rparr>, wb_write (enc_tlv tag bs) w) else None)"
  unfolding pack_tlv_def Let_def pack_tl_then [OF fn ok] enc_tlv_def
  using assms(1) tl_rewrite_write [OF ok]
  by (auto simp: wb_write_sel enc_tl_def)

lemma pack_vendor_extension_tlv_write:
  assumes fn: "writes fn bs" and ok: "wbuf_ok w"
  shows "pack_vendor_extension_tlv (Some t) (Some fn) w =
    (if 4 + length bs \<le> wb_room w
     then Some (Some (t\<lparr>tl_length := of_nat (length bs)\<rparr>), wb_write (enc_tlv (tl_tag t) bs) w) else None)"
  unfolding pack_vendor_extension_tlv_def Let_def prod.case option.case(2) pack_tl_then [OF fn ok] enc_tlv_def
  using tl_rewrite_write [OF ok]
  by (auto simp: wb_write_sel enc_tl_def)

lemma p7_vendor_extension_same:
  "pack_p7_vendor_extension_tlv = pack_vendor_extension_tlv"
  "unpack_p7_vendor_extension_tlv = unpack_vendor_extension_tlv"
  by (simp_all add: fun_eq_iff pack_p7_vendor_extension_tlv_def pack_vendor_extension_tlv_def
      unpack_p7_vendor_extension_tlv_def unpack_vendor_extension_tlv_def)

section \<open>Laws of the list unpackers\<close>

subsection \<open>Termination\<close>

text \<open>\<open>forward f\<close>: a callback that never moves the cursor back nor the end of the message.\<close>

definition forward :: "rbuf \<Rightarrow> rbuf \<Rightarrow> bool" where
  "forward r r' \<longleftrightarrow> rb_end r' = rb_end r \<and> rb_pos r \<le> rb_pos r'"

lemma forward_trans [trans]: "forward a b \<Longrightarrow> forward b c \<Longrightarrow> forward a c"
  by (simp add: forward_def)

lemma forward_adv [simp]: "forward r (rb_adv n r)"
  by (simp add: forward_def rb_adv_def)

definition forward_entries :: "(u16 \<times> 's tlv_fn) list \<Rightarrow> bool" where
  "forward_entries es \<longleftrightarrow>
     (\<forall>(tag, f) \<in> set es. \<forall>t s r s' r'. f t s r = Some (s', r') \<longrightarrow> forward r r')"

definition forward_ve :: "'s ve_fn \<Rightarrow> bool" where
  "forward_ve ve \<longleftrightarrow> (\<forall>t s r. forward r (snd (snd (ve t s r))))"

lemma forward_entries_Cons [simp]:
  "forward_entries ((tag, f) # es) \<longleftrightarrow>
     (\<forall>t s r s' r'. f t s r = Some (s', r') \<longrightarrow> forward r r') \<and> forward_entries es"
  by (simp add: forward_entries_def)

lemma forward_refl [simp]: "forward r r"
  by (simp add: forward_def)

lemma match_entries_forward:
  "forward_entries es \<Longrightarrow> match_entries pad es t m s r = Some (m', s', r') \<Longrightarrow> forward r r'"
proof (induction pad es t m s r rule: match_entries.induct)
  case (2 pad tag f es t matched s r)
  show ?case
  proof (cases "tag = tl_tag t")
    case True
    then obtain s1 r1 where f: "f t s r = Some (s1, r1)"
      and m: "match_entries pad es t True s1 (rb_adv (pad (tl_length t)) r1) = Some (m', s', r')"
      using "2.prems"(2) by (auto split: option.splits)
    have "forward (rb_adv (pad (tl_length t)) r1) r'"
      using "2.IH"(1) [OF True f refl _ m] "2.prems"(1) by simp
    moreover have "forward r r1" using "2.prems"(1) f by force
    ultimately show ?thesis using forward_adv forward_trans by blast
  next
    case False
    then show ?thesis using "2.IH"(2) [OF False] "2.prems" by simp
  qed
qed simp

lemma unpack_tl_forward: "unpack_tl r = Some (t, r') \<Longrightarrow> r' = rb_adv 4 r"
  by (auto simp: unpack_tl_def bind_eq_Some_conv dest!: pull_adv)

lemma skip_bad_tag_forward: "skip_bad_tag pad bad t n s r = Inr (n', s', r') \<Longrightarrow> forward r r'"
  by (auto simp: skip_bad_tag_def split: if_splits)

lemma tlv_step_forward:
  assumes es: "forward_entries es" and ve: "forward_ve ve"
    and step: "tlv_step pad bad es ve n s r = Inr (n', s', r')"
  shows "rb_end r' = rb_end r \<and> rb_pos r < rb_pos r'"
proof -
  obtain t r1 where tl: "unpack_tl r = Some (t, r1)"
    using step by (auto simp: tlv_step_def split: option.splits)
  obtain m s2 r2 where me: "match_entries pad es t False s r1 = Some (m, s2, r2)"
    using step tl by (auto simp: tlv_step_def split: option.splits)
  have "forward r1 r2" using es me by (rule match_entries_forward)
  moreover have "forward r2 r'"
    using step tl me ve
    by (auto simp: tlv_step_def forward_ve_def split: if_splits prod.splits
        dest!: skip_bad_tag_forward intro: forward_trans dest: spec)
       (metis forward_trans snd_conv)+
  ultimately have "forward r1 r'" by (rule forward_trans)
  then show ?thesis using unpack_tl_forward [OF tl] by (simp add: forward_def rb_adv_def)
qed

lemma tlv_loop_returns:
  assumes es: "forward_entries es" and ve: "forward_ve ve"
  shows "\<exists>y. tlv_loop pad bad es ve n s r = Some y"
proof (induction "rb_end r - rb_pos r" arbitrary: n s r rule: less_induct)
  case less
  show ?case
  proof (cases "tlv_step pad bad es ve n s r")
    case (Inl c)
    then show ?thesis by (subst tlv_loop.simps) auto
  next
    case (Inr x)
    obtain n' s' r' where x: "x = (n', s', r')" by (cases x)
    have "rb_end r' = rb_end r \<and> rb_pos r < rb_pos r'"
      using Inr unfolding x by (rule tlv_step_forward [OF es ve])
    then have "\<exists>y. tlv_loop pad bad es ve n' s' r' = Some y" if "rb_pos r < rb_end r"
      using that by (intro less) auto
    then show ?thesis using Inr x by (subst tlv_loop.simps) auto
  qed
qed

subsection \<open>What a list of TLVs decodes to\<close>

text \<open>
  A message body is a list of items: a known TLV with its bytes and its effect on the
  destinations, or one whose tag is neither in the table nor a vendor tag.
\<close>

datatype 's tlv_item = Known u16 "u8 list" "'s \<Rightarrow> 's" | Unknown u16 "u8 list"

fun item_tag :: "'s tlv_item \<Rightarrow> u16" where
  "item_tag (Known tag bs g) = tag" | "item_tag (Unknown tag bs) = tag"

fun item_value :: "'s tlv_item \<Rightarrow> u8 list" where
  "item_value (Known tag bs g) = bs" | "item_value (Unknown tag bs) = bs"

fun item_ok :: "(u16 \<times> 's tlv_fn) list \<Rightarrow> 's tlv_item \<Rightarrow> bool" where
  "item_ok es (Known tag bs g) \<longleftrightarrow> length bs < 2 ^ 16 \<and>
     (\<exists>f. filter (\<lambda>e. fst e = tag) es = [(tag, f)] \<and>
          (\<forall>s. reads (f \<lparr>tl_tag = tag, tl_length = of_nat (length bs)\<rparr> s) (g s) bs))"
| "item_ok es (Unknown tag bs) \<longleftrightarrow> length bs < 2 ^ 16 \<and> tag < NFAPI_VENDOR_EXTENSION_MIN_TAG_VALUE \<and>
     filter (\<lambda>e. fst e = tag) es = []"

definition item_bytes :: "(u16 \<Rightarrow> nat) \<Rightarrow> 's tlv_item \<Rightarrow> u8 list" where
  "item_bytes pad i = enc_tlv (item_tag i) (item_value i)
     @ replicate (pad (of_nat (length (item_value i)))) 0"

fun item_effect :: "'s tlv_item \<Rightarrow> 's \<Rightarrow> 's" where
  "item_effect (Known tag bs g) = g" | "item_effect (Unknown tag bs) = id"

fun unknowns :: "'s tlv_item list \<Rightarrow> nat" where
  "unknowns [] = 0"
| "unknowns (Known tag bs g # is) = unknowns is"
| "unknowns (Unknown tag bs # is) = unknowns is + 1"

text \<open>The items that are stored or stepped over before the unknown one that is too many.\<close>

fun accepted :: "nat \<Rightarrow> 's tlv_item list \<Rightarrow> 's tlv_item list" where
  "accepted n [] = []"
| "accepted n (Known tag bs g # is) = Known tag bs g # accepted n is"
| "accepted n (Unknown tag bs # is) = (if n < MAX_BAD_TAG then Unknown tag bs # accepted (n + 1) is else [])"

lemma accepted_all: "n + unknowns is \<le> MAX_BAD_TAG \<Longrightarrow> accepted n is = is"
  by (induction n "is" rule: accepted.induct) auto

lemma match_entries_none:
  "filter (\<lambda>e. fst e = tl_tag t) es = [] \<Longrightarrow> match_entries pad es t m s r = Some (m, s, r)"
  by (induction pad es t m s r rule: match_entries.induct) (auto split: if_splits)

lemma match_entries_one:
  "filter (\<lambda>e. fst e = tl_tag t) es = [(tl_tag t, f)] \<Longrightarrow> f t s r = Some (s', r') \<Longrightarrow>
   match_entries pad es t m s r = Some (True, s', rb_adv (pad (tl_length t)) r')"
proof (induction pad es t m s r rule: match_entries.induct)
  case (2 pad tag g es t matched s r)
  then show ?case
    by (cases "tag = tl_tag t") (auto simp: match_entries_none)
qed simp

lemma unpack_tl_enc:
  assumes "rbuf_ok r" "rb_rest r = enc_tlv tag bs @ rest"
  shows "unpack_tl r = Some (\<lparr>tl_tag = tag, tl_length = of_nat (length bs)\<rparr>, rb_adv 4 r)"
    "rbuf_ok (rb_adv 4 r)" "rb_rest (rb_adv 4 r) = bs @ rest"
proof -
  show "unpack_tl r = Some (\<lparr>tl_tag = tag, tl_length = of_nat (length bs)\<rparr>, rb_adv 4 r)"
    using readsD [OF reads_unpack_tl assms(1)] assms(2) by (simp add: enc_tlv_def)
  show "rbuf_ok (rb_adv 4 r)"
    using length_rb_rest [OF assms(1)] assms by (simp add: rbuf_ok_adv)
  show "rb_rest (rb_adv 4 r) = bs @ rest"
    using assms(2) by (simp add: rb_rest_adv enc_tlv_def)
qed

lemma unat_of_length: "length bs < 2 ^ 16 \<Longrightarrow> unat (of_nat (length bs) :: u16) = length bs"
  by (simp add: unsigned_of_nat take_bit_nat_eq_self)

lemma tlv_step_item:
  assumes ok: "item_ok es i" and r: "rbuf_ok r" "rb_rest r = item_bytes pad i @ rest"
  shows "tlv_step pad bad es ve n s r =
    (if unknowns [i] = 1 \<and> n = MAX_BAD_TAG then Inl (bad, s)
     else if unknowns [i] = 1 \<and> n > MAX_BAD_TAG then Inl (bad, s)
     else Inr (n + unknowns [i], item_effect i s, rb_adv (length (item_bytes pad i)) r))"
proof -
  let ?v = "item_value i" and ?t = "\<lparr>tl_tag = item_tag i, tl_length = of_nat (length (item_value i))\<rparr>"
  have rest: "rb_rest r = enc_tlv (item_tag i) ?v @ replicate (pad (of_nat (length ?v))) 0 @ rest"
    using r(2) by (simp add: item_bytes_def)
  note tl = unpack_tl_enc [OF r(1) rest]
  have room: "rb_pos (rb_adv 4 r) + length ?v \<le> rb_end (rb_adv 4 r)"
    using rb_rest_room [OF tl(2,3)] tl(2) unfolding rbuf_ok_def by linarith
  show ?thesis
  proof (cases i)
    case (Known tag bs g)
    then obtain f where f: "filter (\<lambda>e. fst e = tag) es = [(tag, f)]"
      and g: "reads (f ?t s) (g s) bs"
      using ok by auto
    have "f ?t s (rb_adv 4 r) = Some (g s, rb_adv (length bs) (rb_adv 4 r))"
      using readsD [OF g tl(2)] tl(3) Known by simp
    then have "match_entries pad es ?t False s (rb_adv 4 r) =
        Some (True, g s, rb_adv (length (item_bytes pad i)) r)"
      using match_entries_one [of ?t es f] f Known by (simp add: item_bytes_def add.assoc)
    then show ?thesis using tl(1) Known by (simp add: tlv_step_def)
  next
    case (Unknown tag bs)
    have "match_entries pad es ?t False s (rb_adv 4 r) = Some (False, s, rb_adv 4 r)"
      using ok Unknown by (simp add: match_entries_none)
    then show ?thesis
      using tl(1) ok Unknown room
      by (auto simp: tlv_step_def skip_bad_tag_def item_bytes_def unat_of_length add.assoc)
  qed
qed

lemma tlv_loop_items:
  assumes "rbuf_ok r" "rb_rest r = concat (map (item_bytes pad) is)" "\<And>i. i \<in> set is \<Longrightarrow> item_ok es i"
    "n \<le> MAX_BAD_TAG"
  shows "tlv_loop pad bad es ve n s r =
    (if n + unknowns is \<le> MAX_BAD_TAG
     then Some (Inr (fold item_effect is s, rb_adv (length (concat (map (item_bytes pad) is))) r))
     else Some (Inl (bad, fold item_effect (accepted n is) s)))"
  using assms
proof (induction "is" arbitrary: n s r)
  case Nil
  then have "\<not> rb_pos r < rb_end r" using length_rb_rest [of r] by (simp add: rb_room_def)
  then show ?case using Nil by (subst tlv_loop.simps) simp
next
  case (Cons i "is")
  let ?r = "rb_adv (length (item_bytes pad i)) r"
  have rest: "rb_rest r = item_bytes pad i @ concat (map (item_bytes pad) is)"
    using Cons.prems(2) by simp
  have len: "length (item_bytes pad i) \<le> rb_room r" "0 < length (item_bytes pad i)"
    using length_rb_rest [OF Cons.prems(1)] rest by (simp_all add: item_bytes_def)
  then have more: "rb_pos r < rb_end r" unfolding rb_room_def by linarith
  have step: "tlv_step pad bad es ve n s r =
    (if unknowns [i] = 1 \<and> n = MAX_BAD_TAG then Inl (bad, s)
     else if unknowns [i] = 1 \<and> n > MAX_BAD_TAG then Inl (bad, s)
     else Inr (n + unknowns [i], item_effect i s, ?r))"
    using Cons.prems(3) [OF list.set_intros(1)] Cons.prems(1) rest by (rule tlv_step_item)
  have uk: "unknowns (i # is) = unknowns [i] + unknowns is" "unknowns [i] \<le> 1"
    by (cases i; simp)+
  show ?case
  proof (cases "unknowns [i] = 1 \<and> n = MAX_BAD_TAG")
    case True
    then have "accepted n (i # is) = []" by (cases i) auto
    then show ?thesis using step more uk True by (subst tlv_loop.simps) simp
  next
    case False
    have "tlv_loop pad bad es ve (n + unknowns [i]) (item_effect i s) ?r =
      (if n + unknowns [i] + unknowns is \<le> MAX_BAD_TAG
       then Some (Inr (fold item_effect is (item_effect i s),
              rb_adv (length (concat (map (item_bytes pad) is))) ?r))
       else Some (Inl (bad, fold item_effect (accepted (n + unknowns [i]) is) (item_effect i s))))"
    proof (rule Cons.IH)
      show "rbuf_ok ?r" using Cons.prems(1) len by (simp add: rbuf_ok_adv)
      show "rb_rest ?r = concat (map (item_bytes pad) is)" using rest by (simp add: rb_rest_adv)
    qed (use Cons.prems(3,4) False uk in auto)
    moreover have "accepted n (i # is) = i # accepted (n + unknowns [i]) is"
      using False Cons.prems(4) by (cases i) auto
    moreover have "tlv_step pad bad es ve n s r = Inr (n + unknowns [i], item_effect i s, ?r)"
      using step False Cons.prems(4) by auto
    ultimately show ?thesis using more uk by (subst tlv_loop.simps) (simp add: add.assoc)
  qed
qed

section \<open>Properties\<close>

definition lte_pad :: "u16 \<Rightarrow> nat" where "lte_pad len = 0"

definition nr_pad :: "u16 \<Rightarrow> nat" where "nr_pad len = unat (get_tlv_padding len)"

lemma list_unpackers:
  "unpack_tlv_list es cb = tlv_loop lte_pad 0 es (unpack_vendor_extension_tlv cb) 0"
  "unpack_nr_tlv_list es cb = tlv_loop nr_pad 0 es (unpack_vendor_extension_tlv cb) 0"
  "unpack_p7_tlv_list es cb = tlv_loop lte_pad (-1) es (unpack_p7_vendor_extension_tlv cb) 0"
  "unpack_nr_p7_tlv_list es cb = tlv_loop nr_pad (-1) es (unpack_p7_vendor_extension_tlv cb) 0"
  by (simp_all add: fun_eq_iff unpack_tlv_list_def unpack_nr_tlv_list_def unpack_p7_tlv_list_def
      unpack_nr_p7_tlv_list_def lte_pad_def [abs_def] nr_pad_def [abs_def])

lemma get_tlv_padding: "unat (get_tlv_padding len) = (4 - unat len mod 4) mod 4"
proof -
  have "(4 - unat len mod 4) mod 4 < 4" by simp
  then have "(4 - unat len mod 4) mod 4 < 2 ^ 8" by (rule less_trans) simp
  then show ?thesis by (simp add: get_tlv_padding_def unsigned_of_nat take_bit_nat_eq_self)
qed

lemma padded_length: "(4 + unat len + unat (get_tlv_padding len)) mod 4 = 0"
proof -
  have "(4 + x + c) mod 4 = (x mod 4 + c) mod 4" for x c :: nat
    by presburger
  moreover have "unat len mod 4 = 0 \<or> unat len mod 4 = 1 \<or> unat len mod 4 = 2 \<or> unat len mod 4 = 3"
    by (simp add: mod_less_divisor) arith
  ultimately show ?thesis unfolding get_tlv_padding by auto
qed

lemma forward_unpack_ve: "(\<And>f. cb = Some f \<Longrightarrow> forward_ve f) \<Longrightarrow> forward_ve (unpack_vendor_extension_tlv cb)"
  by (cases cb) (auto simp: forward_ve_def unpack_vendor_extension_tlv_def)

text \<open>
  C25. The four list unpackers decide a message that consists of TLVs with known tags and of
  TLVs with unknown ones, in any order: with at most \<open>MAX_BAD_TAG\<close> = 3 unknown TLVs
  every known one is stored, in message order, the unknown ones are stepped over, and the
  cursor stops at the end of the message; with a fourth, unpacking stops there, with 0 for P5
  and with -1 for P7, and what came before it has been stored.  The NR variants do so on values padded to four bytes.
\<close>

theorem tlv_lists_decode:
  assumes "\<And>i. i \<in> set is \<Longrightarrow> item_ok es i"
    and "rbuf_ok r" "rb_rest r = concat (map (item_bytes lte_pad) is)"
    and "rbuf_ok q" "rb_rest q = concat (map (item_bytes nr_pad) is)"
  shows "unpack_tlv_list es cb s r =
      Some (if unknowns is \<le> MAX_BAD_TAG then Inr (fold item_effect is s, rb_adv (rb_room r) r) else Inl (0, fold item_effect (accepted 0 is) s))
    \<and> unpack_p7_tlv_list es cb s r =
      Some (if unknowns is \<le> MAX_BAD_TAG then Inr (fold item_effect is s, rb_adv (rb_room r) r) else Inl (-1, fold item_effect (accepted 0 is) s))
    \<and> unpack_nr_tlv_list es cb s q =
      Some (if unknowns is \<le> MAX_BAD_TAG then Inr (fold item_effect is s, rb_adv (rb_room q) q) else Inl (0, fold item_effect (accepted 0 is) s))
    \<and> unpack_nr_p7_tlv_list es cb s q =
      Some (if unknowns is \<le> MAX_BAD_TAG then Inr (fold item_effect is s, rb_adv (rb_room q) q) else Inl (-1, fold item_effect (accepted 0 is) s))"
  using tlv_loop_items [OF assms(2,3,1), of 0] tlv_loop_items [OF assms(4,5,1), of 0]
    length_rb_rest [OF assms(2)] length_rb_rest [OF assms(4)] assms(3,5)
  by (simp_all add: list_unpackers)

definition one_byte_table :: "(u16 \<times> u8 list tlv_fn) list" where
  "one_byte_table = [(1, \<lambda>t s r. pull8 r \<bind> (\<lambda>(v, r'). Some (v # s, r')))]"

lemma reads_one_byte: "reads (\<lambda>r. pull8 r \<bind> (\<lambda>(v, r'). Some (v # s, r'))) (v # s) [v]"
  by (rule reads_cong, (rule reads_intro)+) simp_all

lemma one_byte_item: "item_ok one_byte_table (Known 1 [v] ((#) v))" "item_ok one_byte_table (Unknown 2 [])"
  by (simp_all add: one_byte_table_def reads_one_byte NFAPI_VENDOR_EXTENSION_MIN_TAG_VALUE_def)

lemma forward_one_byte: "forward_entries one_byte_table"
  by (auto simp: forward_entries_def one_byte_table_def bind_eq_Some_conv dest!: pull_adv)

lemma one_byte_message:
  "concat (map (item_bytes lte_pad) [Known 1 [7] ((#) 7), Unknown 2 []]) = [0, 1, 0, 1, 7, 0, 2, 0, 0]"
  "concat (map (item_bytes nr_pad) [Known 1 [7] ((#) 7), Unknown 2 []]) = [0, 1, 0, 1, 7, 0, 0, 0, 0, 2, 0, 0]"
  by code_simp+

theorem tlv_lists_decode_witness:
  "unpack_p7_tlv_list one_byte_table None [] (rb_of [0, 1, 0, 1, 7, 0, 2, 0, 0])
    = Some (Inr ([7], rb_adv 9 (rb_of [0, 1, 0, 1, 7, 0, 2, 0, 0])))"
proof -
  have ok: "item_ok one_byte_table i" if "i \<in> set [Known 1 [7] ((#) 7), Unknown 2 []]" for i
    using that one_byte_item by auto
  show ?thesis
    using tlv_lists_decode [of "[Known 1 [7] ((#) 7), Unknown 2 []]" one_byte_table, OF ok, of "rb_of [0, 1, 0, 1, 7, 0, 2, 0, 0]"
        "rb_of [0, 1, 0, 1, 7, 0, 0, 0, 0, 2, 0, 0]" None "[]"]
    unfolding one_byte_message by (simp add: MAX_BAD_TAG_def eval_nat_numeral)
qed

text \<open>
  C26. The list unpackers return on every input, however malformed, as long as the callbacks
  do not move the cursor backwards: each turn of the loop consumes at least the four header
  bytes.
\<close>

theorem tlv_lists_return:
  assumes "forward_entries es" "\<And>f. cb = Some f \<Longrightarrow> forward_ve f"
  shows "(\<exists>y. unpack_tlv_list es cb s r = Some y) \<and> (\<exists>y. unpack_nr_tlv_list es cb s r = Some y) \<and>
    (\<exists>y. unpack_p7_tlv_list es cb s r = Some y) \<and> (\<exists>y. unpack_nr_p7_tlv_list es cb s r = Some y)"
  unfolding list_unpackers p7_vendor_extension_same
  by (intro conjI tlv_loop_returns assms(1) forward_unpack_ve assms(2))

theorem tlv_lists_return_witness:
  "\<exists>y. unpack_tlv_list one_byte_table None [] (rb_of [9, 9, 9, 9, 9, 9]) = Some y"
  using tlv_lists_return [OF forward_one_byte, of None "[]" "rb_of [9, 9, 9, 9, 9, 9]"] by simp

text \<open>
  \<open>pack_nr_tlv\<close> writes the header with the true length of the value, the value and
  zero padding up to a multiple of four bytes, and touches nothing before its start.  It
  tests the space for header and value only: when these fit and the padding does not,
  it still reports success and leaves the write cursor behind the end of the buffer.
\<close>

theorem pack_nr_tlv_padding:
  assumes "tl_tag t = tag" and fn: "writes fn bs" and len: "length bs < 2 ^ 16" and ok: "wbuf_ok w"
  defines "size4 \<equiv> 4 + length bs + unat (get_tlv_padding (of_nat (length bs)))"
  shows "pack_nr_tlv tag t fn w =
      (if 4 + length bs \<le> wb_room w
       then Some (t\<lparr>tl_length := of_nat (length bs)\<rparr>,
              wb_write (replicate (nr_pad (of_nat (length bs))) 0) (wb_write (enc_tlv tag bs) w)) else None)
    \<and> size4 mod 4 = 0
    \<and> (4 + length bs \<le> wb_room w \<longrightarrow>
        (\<exists>t' w'. pack_nr_tlv tag t fn w = Some (t', w') \<and> wb_pos w' = wb_pos w + size4 \<and>
          (wb_end w' < wb_pos w' \<longleftrightarrow> wb_room w < size4)))"
proof -
  have eq: "pack_nr_tlv tag t fn w =
      (if 4 + length bs \<le> wb_room w
       then Some (t\<lparr>tl_length := of_nat (length bs)\<rparr>,
              wb_write (replicate (nr_pad (of_nat (length bs))) 0) (wb_write (enc_tlv tag bs) w)) else None)"
    unfolding pack_nr_tlv_def Let_def pack_tl_then [OF fn ok] enc_tlv_def
    using assms(1) tl_rewrite_write [OF ok]
    by (auto simp: wb_write_sel enc_tl_def nr_pad_def)
  have "size4 mod 4 = 0"
    using padded_length [of "of_nat (length bs)"] by (simp add: size4_def unat_of_length [OF len])
  then show ?thesis
    using eq ok by (auto simp: wb_write_sel size4_def nr_pad_def wb_room_def wbuf_ok_def)
qed

theorem pack_nr_tlv_padding_witness:
  "\<exists>t' w'. pack_nr_tlv 1 \<lparr>tl_tag = 1, tl_length = 0\<rparr> (push8 7)
      \<lparr>wb_mem = replicate 16 0, wb_pos = 0, wb_end = 6\<rparr> = Some (t', w') \<and> wb_end w' < wb_pos w'"
  using pack_nr_tlv_padding [OF _ writes_push8, of "\<lparr>tl_tag = 1, tl_length = 0\<rparr>" 1 7
      "\<lparr>wb_mem = replicate 16 0, wb_pos = 0, wb_end = 6\<rparr>"]
  by (auto simp: wbuf_ok_def wb_room_def get_tlv_padding)

end
