(* ===== verification/Sfn_Time.thy ===== *)
theory Sfn_Time
  imports Prelude "HOL-Library.Signed_Division"
begin

unbundle bit_operations_syntax

text \<open>
  Frame arithmetic and the \<open>time_hr\<close> clock: the macros of
  \<^verbatim>\<open>nfapi_interface.h\<close> and the small functions of \<^verbatim>\<open>pnf_p7.c\<close>,
  \<^verbatim>\<open>vnf_p7.c\<close> and \<^verbatim>\<open>src/nfapi_pnf.c\<close> that move a system frame
  number (SFN) with its subframe or slot.  A \<^verbatim>\<open>uint16_t\<close> argument is promoted to
  \<^verbatim>\<open>int\<close> in C, so the macros are functions on \<open>int\<close> with the truncating division
  \<open>sdiv\<close> and \<open>smod\<close>, and a result is cast back with \<open>of_int\<close>.  The locale
  \<open>cyclic_counter\<close> is the contract of a counter that walks through a period.
\<close>

section \<open>Macros of nfapi_interface.h\<close>

definition NFAPI_SFNSLOT2DEC :: "int \<Rightarrow> int \<Rightarrow> int" where
  "NFAPI_SFNSLOT2DEC sfn slot = sfn * 20 + slot"

definition NFAPI_SFNSLOTDEC2SFNSLOT :: "int \<Rightarrow> int" where
  "NFAPI_SFNSLOTDEC2SFNSLOT d = push_bit 6 (d sdiv 20) OR ((d - d sdiv 20 * 20) AND 0x3F)"

definition NFAPI_SFNSLOT2SFN :: "int \<Rightarrow> int" where "NFAPI_SFNSLOT2SFN s = drop_bit 6 s"

definition NFAPI_SFNSLOT2SLOT :: "int \<Rightarrow> int" where "NFAPI_SFNSLOT2SLOT s = s AND 0x3F"

definition NFAPI_SFNSLOTDEC2SFN :: "int \<Rightarrow> int" where "NFAPI_SFNSLOTDEC2SFN d = d sdiv 20"

definition NFAPI_SFNSLOTDEC2SLOT :: "int \<Rightarrow> int" where "NFAPI_SFNSLOTDEC2SLOT d = d smod 20"

definition NFAPI_SFNSLOT2HEX :: "int \<Rightarrow> int \<Rightarrow> int" where
  "NFAPI_SFNSLOT2HEX sfn slot = push_bit 6 sfn OR (slot AND 0x3F)"

definition NFAPI_SFNSF2DEC :: "int \<Rightarrow> int" where
  "NFAPI_SFNSF2DEC s = drop_bit 4 s * 10 + (s AND 0xF)"

definition NFAPI_SFNSFDEC2SFNSF :: "int \<Rightarrow> int" where
  "NFAPI_SFNSFDEC2SFNSF d = push_bit 4 (d sdiv 10) OR ((d - d sdiv 10 * 10) AND 0xF)"

definition NFAPI_SFNSF2SFN :: "int \<Rightarrow> int" where "NFAPI_SFNSF2SFN s = drop_bit 4 s"

definition NFAPI_SFNSF2SF :: "int \<Rightarrow> int" where "NFAPI_SFNSF2SF s = s AND 0xF"

definition NFAPI_MAX_SFNSFDEC :: int where "NFAPI_MAX_SFNSFDEC = 10240"

section \<open>PNF: pnf_p7.c\<close>

definition add_slot :: "u16 \<Rightarrow> u16 \<Rightarrow> int \<Rightarrow> u16 \<times> u16" where
  "add_slot frame slot offset =
     (of_int ((uint frame + (uint slot + offset) sdiv 20) smod 1024),
      of_int ((uint slot + offset) smod 20))"

definition add_sf :: "u16 \<Rightarrow> u16 \<Rightarrow> int \<Rightarrow> u16 \<times> u16" where
  "add_sf frame subframe offset =
     (of_int ((uint frame + (uint subframe + offset) sdiv 10) smod 1024),
      of_int ((uint subframe + offset) smod 10))"

definition subtract_sf :: "u16 \<Rightarrow> u16 \<Rightarrow> int \<Rightarrow> u16 \<times> u16" where
  "subtract_sf frame subframe offset =
     (if uint subframe < offset then of_int ((uint frame + 1024 - 1) smod 1024) else frame,
      of_int ((uint subframe + 10 - offset) smod 10))"

definition sfnslot_add_slot :: "u16 \<Rightarrow> u16 \<Rightarrow> int \<Rightarrow> u32" where
  "sfnslot_add_slot sfn slot offset =
     (case add_slot sfn slot offset of (sfn', slot') \<Rightarrow>
        of_int (push_bit 6 (uint sfn') OR uint slot'))"

definition sfnsf_add_sf :: "u16 \<Rightarrow> int \<Rightarrow> u16" where
  "sfnsf_add_sf sfnsf offset =
     (let sfn = of_int (NFAPI_SFNSF2SFN (uint sfnsf)); sf = of_int (NFAPI_SFNSF2SF (uint sfnsf))
      in case add_sf sfn sf offset of (sfn', sf') \<Rightarrow>
           of_int (push_bit 4 (uint sfn') OR uint sf'))"

definition sfnsf_subtract_sf :: "u16 \<Rightarrow> int \<Rightarrow> u16" where
  "sfnsf_subtract_sf sfnsf offset =
     (let sfn = of_int (NFAPI_SFNSF2SFN (uint sfnsf)); sf = of_int (NFAPI_SFNSF2SF (uint sfnsf))
      in case subtract_sf sfn sf offset of (sfn', sf') \<Rightarrow>
           of_int (push_bit 4 (uint sfn') OR uint sf'))"

section \<open>VNF: vnf_p7.c\<close>

definition increment_sfn_sf :: "u16 \<Rightarrow> u16" where
  "increment_sfn_sf sfn_sf =
     (if sfn_sf AND 0xF = 9 then (sfn_sf + 0x0010) AND 0x3FF0
      else if 9 < sfn_sf AND 0xF then sfn_sf
      else sfn_sf + 1)"

function increment_sfn_sf_by :: "u16 \<Rightarrow> u8 \<Rightarrow> u16" where
  "increment_sfn_sf_by sfn_sf increment =
     (if 0 < increment then increment_sfn_sf_by (increment_sfn_sf sfn_sf) (increment - 1) else sfn_sf)"
  by auto

termination
  by (relation "measure (\<lambda>(s, i). unat i)") (auto simp: word_gt_0 intro: measure_unat)

declare increment_sfn_sf_by.simps [simp del]

section \<open>UE proxy: src/nfapi_pnf.c\<close>

definition get_sf_delta :: "u16 \<Rightarrow> u16 \<Rightarrow> int" where
  "get_sf_delta a b =
     (let sfn_a = drop_bit 4 (uint a); sf_a = uint a AND 15;
          sfn_b = drop_bit 4 (uint b); sf_b = uint b AND 15
      in (sfn_a * 10 + sf_a) - (sfn_b * 10 + sf_b))"

definition get_slot_delta :: "u16 \<Rightarrow> u16 \<Rightarrow> int" where
  "get_slot_delta a b =
     (let sfn_a = drop_bit 6 (uint a); slot_a = uint a AND 0x3F;
          sfn_b = drop_bit 6 (uint b); slot_b = uint b AND 0x3F
      in (sfn_a * 20 + slot_a) - (sfn_b * 20 + slot_b))"

definition sfn_sf_add :: "u16 \<Rightarrow> u16 \<Rightarrow> u16" where
  "sfn_sf_add a add_val =
     (let sfn_a = of_int (drop_bit 4 (uint a)) :: u16; sf_a = of_int (uint a AND 15) :: u16;
          temp = of_int (uint sfn_a * 10 + uint sf_a + uint add_val) :: u16;
          sf = of_int (uint temp smod 10) :: u16;
          sfn = of_int ((uint temp sdiv 10) smod 1024) :: u16
      in of_int (push_bit 4 (uint sfn) OR uint sf))"

definition sfn_slot_add :: "u16 \<Rightarrow> u16 \<Rightarrow> u16 \<Rightarrow> u16 \<times> u16" where
  "sfn_slot_add sfn slot add_val =
     (of_int ((uint sfn + (uint slot + uint add_val) sdiv 20) smod 1024),
      of_int ((uint slot + uint add_val) smod 20))"

definition sfn_sf_counter :: "u16 \<times> u16 \<Rightarrow> (u16 \<times> u16) \<times> u16" where
  "sfn_sf_counter = (\<lambda>(sfn, sf).
     let sf1 = sf + 1 in
     if sf1 = 10
     then (let sfn1 = sfn + 1; sfn2 = (if sfn1 = 1024 then 0 else sfn1)
           in ((sfn2, 0), of_int (push_bit 4 (uint sfn2) OR 0)))
     else ((sfn, sf1), of_int (push_bit 4 (uint sfn) OR uint sf1)))"

definition sfn_slot_counter :: "u16 \<times> u16 \<Rightarrow> (u16 \<times> u16) \<times> u16" where
  "sfn_slot_counter = (\<lambda>(sfn, slot).
     let slot1 = slot + 1 in
     if slot1 = 20
     then (let sfn1 = sfn + 1; sfn2 = (if sfn1 = 1024 then 0 else sfn1)
           in ((sfn2, 0), of_int (push_bit 6 (uint sfn2) OR 0)))
     else ((sfn, slot1), of_int (push_bit 6 (uint sfn) OR uint slot1)))"

section \<open>The clock\<close>

text \<open>\<open>time_hr\<close>: 12 bits of seconds and 20 bits of microseconds in a \<^verbatim>\<open>uint32_t\<close>.\<close>

record timeval =
  tv_sec :: u64
  tv_usec :: u64

definition TIMEHR_SEC :: "u32 \<Rightarrow> u32" where "TIMEHR_SEC t = drop_bit 20 t"

definition TIMEHR_USEC :: "u32 \<Rightarrow> u32" where "TIMEHR_USEC t = t AND 0xFFFFF"

definition TIME2TIMEHR :: "timeval \<Rightarrow> u32" where
  "TIME2TIMEHR t = push_bit 20 (ucast (tv_sec t) AND 0xFFF) OR (ucast (tv_usec t) AND 0xFFFFF)"

definition pnf_get_slot_time :: "u32 \<Rightarrow> u32 \<Rightarrow> u32" where
  "pnf_get_slot_time now_hr slot_start_hr =
     (if now_hr < slot_start_hr then 0
      else let now_us = TIMEHR_USEC now_hr; slot_start_us = TIMEHR_USEC slot_start_hr;
               now_us' = (if now_hr < slot_start_us then now_us + 500000 else now_us)
           in now_us' - slot_start_us)"

definition pnf_get_sf_time :: "u32 \<Rightarrow> u32 \<Rightarrow> u32" where
  "pnf_get_sf_time now_hr sf_start_hr =
     (if now_hr < sf_start_hr then 0
      else let now_us = TIMEHR_USEC now_hr; sf_start_us = TIMEHR_USEC sf_start_hr;
               now_us' = (if now_hr < sf_start_us then now_us + 1000000 else now_us)
           in now_us' - sf_start_us)"

definition vnf_get_sf_time :: "u32 \<Rightarrow> u32 \<Rightarrow> u32" where
  "vnf_get_sf_time now_hr sf_start_hr =
     (if now_hr < sf_start_hr then 0
      else let now_us = TIMEHR_USEC now_hr; sf_start_us = TIMEHR_USEC sf_start_hr;
               now_us' = (if now_hr < sf_start_us then now_us + 1000000 else now_us)
           in now_us' - sf_start_us)"

definition vnf_get_slot_time :: "u32 \<Rightarrow> u32 \<Rightarrow> u32" where
  "vnf_get_slot_time now_hr slot_start_hr =
     (if now_hr < slot_start_hr then 0
      else let now_us = TIMEHR_USEC now_hr; slot_start_us = TIMEHR_USEC slot_start_hr;
               now_us' = (if now_hr < slot_start_us then now_us + 1000000 else now_us)
           in now_us' - slot_start_us)"

text \<open>The time stamps; the current time, where the code reads the clock, is an argument.\<close>

definition calculate_t1 :: "u32 \<Rightarrow> u16 \<Rightarrow> u32 \<Rightarrow> u32" where
  "calculate_t1 now sfn_sf sf_start = of_int (NFAPI_SFNSF2DEC (uint sfn_sf) * 1000) + vnf_get_sf_time now sf_start"

definition calculate_nr_t1 :: "u32 \<Rightarrow> u16 \<Rightarrow> u16 \<Rightarrow> u32 \<Rightarrow> u32" where
  "calculate_nr_t1 now sfn slot slot_start =
     of_int (NFAPI_SFNSLOT2DEC (uint sfn) (uint slot) * 500) + vnf_get_slot_time now slot_start"

definition calculate_t2 :: "u32 \<Rightarrow> u16 \<Rightarrow> u32 \<Rightarrow> u32" where
  "calculate_t2 now sfn_sf sf_start = of_int (NFAPI_SFNSF2DEC (uint sfn_sf) * 1000) + pnf_get_sf_time now sf_start"

definition calculate_nr_t2 :: "u32 \<Rightarrow> u16 \<Rightarrow> u16 \<Rightarrow> u32 \<Rightarrow> u32" where
  "calculate_nr_t2 now sfn slot slot_start =
     of_int (NFAPI_SFNSLOT2DEC (uint sfn) (uint slot) * 500) + pnf_get_slot_time now slot_start"

definition calculate_t3 :: "u32 \<Rightarrow> u16 \<Rightarrow> u32 \<Rightarrow> u32" where
  "calculate_t3 now sfn_sf sf_start = of_int (NFAPI_SFNSF2DEC (uint sfn_sf) * 1000) + pnf_get_sf_time now sf_start"

definition calculate_nr_t3 :: "u32 \<Rightarrow> u16 \<Rightarrow> u16 \<Rightarrow> u32 \<Rightarrow> u32" where
  "calculate_nr_t3 now sfn slot slot_start =
     of_int (NFAPI_SFNSLOT2DEC (uint sfn) (uint slot) * 500) + pnf_get_slot_time now slot_start"

definition calculate_t4 :: "u32 \<Rightarrow> u16 \<Rightarrow> u32 \<Rightarrow> u32" where
  "calculate_t4 now sfn_sf sf_start = of_int (NFAPI_SFNSF2DEC (uint sfn_sf) * 1000) + vnf_get_sf_time now sf_start"

definition calculate_nr_t4 :: "u32 \<Rightarrow> u16 \<Rightarrow> u16 \<Rightarrow> u32 \<Rightarrow> u32" where
  "calculate_nr_t4 now sfn slot slot_start =
     of_int (NFAPI_SFNSLOT2DEC (uint sfn) (uint slot) * 500) + vnf_get_slot_time now slot_start"

definition calculate_transmit_timestamp :: "u32 \<Rightarrow> u16 \<Rightarrow> u16 \<Rightarrow> u32 \<Rightarrow> u32" where
  "calculate_transmit_timestamp now sfn slot slot_start =
     of_int (NFAPI_SFNSLOT2DEC (uint sfn) (uint slot) * 500) + vnf_get_slot_time now slot_start"

record timespec =
  ts_sec :: int
  ts_nsec :: int

definition timespec_delta :: "timespec \<Rightarrow> timespec \<Rightarrow> timespec" where
  "timespec_delta start end' =
     (if ts_nsec end' - ts_nsec start < 0
      then \<lparr>ts_sec = ts_sec end' - ts_sec start - 1, ts_nsec = 1000000000 + ts_nsec end' - ts_nsec start\<rparr>
      else \<lparr>ts_sec = ts_sec end' - ts_sec start, ts_nsec = ts_nsec end' - ts_nsec start\<rparr>)"

definition pnf_timespec_add :: "timespec \<Rightarrow> timespec \<Rightarrow> timespec" where
  "pnf_timespec_add lhs rhs =
     (let result = \<lparr>ts_sec = ts_sec lhs + ts_sec rhs, ts_nsec = ts_nsec lhs + ts_nsec rhs\<rparr>
      in if 1000000000 < ts_nsec result
         then \<lparr>ts_sec = ts_sec result + 1, ts_nsec = ts_nsec result - 1000000000\<rparr>
         else result)"

definition pnf_timespec_sub :: "timespec \<Rightarrow> timespec \<Rightarrow> timespec" where
  "pnf_timespec_sub lhs rhs =
     (if ts_nsec lhs - ts_nsec rhs < 0
      then \<lparr>ts_sec = ts_sec lhs - ts_sec rhs - 1, ts_nsec = 1000000000 + ts_nsec lhs - ts_nsec rhs\<rparr>
      else \<lparr>ts_sec = ts_sec lhs - ts_sec rhs, ts_nsec = ts_nsec lhs - ts_nsec rhs\<rparr>)"

section \<open>Reading the encodings as numbers\<close>

lemma low_bits: "(x :: int) AND 15 = x mod 16" "(x :: int) AND 63 = x mod 64"
proof -
  have "(15 :: int) = mask 4" "(63 :: int) = mask 6" by (simp_all add: mask_eq_exp_minus_1)
  then show "x AND 15 = x mod 16" "x AND 63 = x mod 64"
    by (simp_all only: take_bit_eq_mask [symmetric] take_bit_eq_mod) simp_all
qed

lemma push_bit_or:
  assumes "0 \<le> b" "b < 2 ^ n"
  shows "push_bit n a OR b = a * 2 ^ n + (b :: int)"
proof -
  have b: "b = take_bit n b" using assms by (simp add: take_bit_int_eq_self)
  have "push_bit n a AND b = 0"
    by (rule bit_eqI) (subst b, auto simp: bit_simps)
  then have "push_bit n a OR b = push_bit n a + b"
    using plus_and_or [of "push_bit n a" b] by simp
  then show ?thesis by (simp add: push_bit_eq_mult)
qed

lemma sdiv_nonneg: "0 \<le> a \<Longrightarrow> 0 \<le> b \<Longrightarrow> a sdiv b = a div b" for a b :: int
  by (auto simp: signed_divide_int_def sgn_if)

lemma smod_nonneg: "0 \<le> a \<Longrightarrow> 0 \<le> b \<Longrightarrow> a smod b = a mod b" for a b :: int
  by (cases "a = 0") (auto simp: signed_modulo_int_def sgn_if)

lemma sfnsf_simps:
  "NFAPI_SFNSF2SFN s = s div 16" "NFAPI_SFNSF2SF s = s mod 16"
  "NFAPI_SFNSF2DEC s = s div 16 * 10 + s mod 16"
  by (simp_all add: NFAPI_SFNSF2SFN_def NFAPI_SFNSF2SF_def NFAPI_SFNSF2DEC_def drop_bit_eq_div low_bits)

lemma sfnslot_simps:
  "NFAPI_SFNSLOT2SFN s = s div 64" "NFAPI_SFNSLOT2SLOT s = s mod 64"
  by (simp_all add: NFAPI_SFNSLOT2SFN_def NFAPI_SFNSLOT2SLOT_def drop_bit_eq_div low_bits)

lemma dec2sfnsf: "0 \<le> d \<Longrightarrow> NFAPI_SFNSFDEC2SFNSF d = d div 10 * 16 + d mod 10"
proof -
  assume d: "0 \<le> d"
  have "d mod 10 < 10" "0 \<le> d mod 10" by simp_all
  moreover have "d - d div 10 * 10 = d mod 10" by (simp add: minus_div_mult_eq_mod)
  ultimately show ?thesis
    using d push_bit_or [of "d mod 10" 4 "d div 10"]
    by (simp add: NFAPI_SFNSFDEC2SFNSF_def sdiv_nonneg low_bits)
qed

lemma dec2sfnslot: "0 \<le> d \<Longrightarrow> NFAPI_SFNSLOTDEC2SFNSLOT d = d div 20 * 64 + d mod 20"
proof -
  assume d: "0 \<le> d"
  have "d mod 20 < 20" "0 \<le> d mod 20" by simp_all
  moreover have "d - d div 20 * 20 = d mod 20" by (simp add: minus_div_mult_eq_mod)
  ultimately show ?thesis
    using d push_bit_or [of "d mod 20" 6 "d div 20"]
    by (simp add: NFAPI_SFNSLOTDEC2SFNSLOT_def sdiv_nonneg low_bits)
qed

text \<open>
  A well-formed encoded SFN/SF and a well-formed pair of SFN and subframe or slot, with
  the number of subframes or slots since SFN 0 that they stand for.
\<close>

definition sfnsf_ok :: "u16 \<Rightarrow> bool" where
  "sfnsf_ok s \<longleftrightarrow> uint s < 1024 * 16 \<and> uint s mod 16 < 10"

definition sfnsf_dec :: "u16 \<Rightarrow> nat" where
  "sfnsf_dec s = nat (NFAPI_SFNSF2DEC (uint s))"

definition pair_ok :: "nat \<Rightarrow> u16 \<times> u16 \<Rightarrow> bool" where
  "pair_ok n = (\<lambda>(sfn, sf). unat sfn < 1024 \<and> unat sf < n)"

definition pair_dec :: "nat \<Rightarrow> u16 \<times> u16 \<Rightarrow> nat" where
  "pair_dec n = (\<lambda>(sfn, sf). unat sfn * n + unat sf)"

lemma sfnsf_dec_eq: "int (sfnsf_dec s) = uint s div 16 * 10 + uint s mod 16"
proof -
  have "0 \<le> uint s div 16" "0 \<le> uint s mod 16" by (simp_all add: pos_imp_zdiv_nonneg_iff)
  then have "0 \<le> uint s div 16 * 10 + uint s mod 16" by linarith
  then show ?thesis by (simp add: sfnsf_dec_def sfnsf_simps)
qed

lemma div16_less: "x < 16384 \<Longrightarrow> x div 16 < 1024" for x :: int
  by presburger

lemma sfnsf_dec_less: "sfnsf_ok s \<Longrightarrow> sfnsf_dec s < 10240"
proof -
  assume "sfnsf_ok s"
  then have "uint s div 16 < 1024" "uint s mod 16 < 10" by (simp_all add: sfnsf_ok_def div16_less)
  then have "int (sfnsf_dec s) < 10240" unfolding sfnsf_dec_eq by linarith
  then show ?thesis by simp
qed

lemma uint_of_int_small: "0 \<le> x \<Longrightarrow> x < 65536 \<Longrightarrow> uint (of_int x :: u16) = x"
  by (simp add: unsigned_of_int take_bit_int_eq_self)

text \<open>Two encodings are equal when they stand for the same count.\<close>

lemma sfnsf_eqI: "sfnsf_ok s \<Longrightarrow> sfnsf_ok t \<Longrightarrow> sfnsf_dec s = sfnsf_dec t \<Longrightarrow> s = t"
proof -
  assume ok: "sfnsf_ok s" "sfnsf_ok t" and eq: "sfnsf_dec s = sfnsf_dec t"
  have "uint s div 16 * 10 + uint s mod 16 = uint t div 16 * 10 + uint t mod 16"
    using eq by (simp add: sfnsf_dec_eq [symmetric])
  moreover have "uint s mod 16 < 10" "uint t mod 16 < 10" "0 \<le> uint s mod 16" "0 \<le> uint t mod 16"
    using ok by (simp_all add: sfnsf_ok_def)
  moreover from calculation have "uint s div 16 = uint t div 16" by linarith
  ultimately have "uint s div 16 = uint t div 16" "uint s mod 16 = uint t mod 16" by simp_all
  then have "uint s = uint t" by (metis mult_div_mod_eq)
  then show ?thesis by (simp add: word_uint_eq_iff)
qed

lemma sfnsf_join:
  assumes "0 \<le> sfn" "sfn < 1024" "0 \<le> sf" "sf < 10"
  shows "sfnsf_ok (of_int (push_bit 4 sfn OR sf))"
    "int (sfnsf_dec (of_int (push_bit 4 sfn OR sf))) = sfn * 10 + sf"
proof -
  have j: "push_bit 4 sfn OR sf = sfn * 16 + sf" using assms by (simp add: push_bit_or)
  have u: "uint (of_int (push_bit 4 sfn OR sf) :: u16) = sfn * 16 + sf"
    unfolding j using assms by (intro uint_of_int_small) auto
  have "(sfn * 16 + sf) div 16 = sfn" "(sfn * 16 + sf) mod 16 = sf" using assms by auto
  then show "sfnsf_ok (of_int (push_bit 4 sfn OR sf))"
    "int (sfnsf_dec (of_int (push_bit 4 sfn OR sf))) = sfn * 10 + sf"
    unfolding sfnsf_ok_def sfnsf_dec_eq u using assms by auto
qed

section \<open>The contract of a frame counter\<close>

locale cyclic_counter =
  fixes step :: "'a \<Rightarrow> 'a"
    and dec :: "'a \<Rightarrow> nat"
    and valid :: "'a \<Rightarrow> bool"
    and period :: nat
  assumes valid_step: "valid s \<Longrightarrow> valid (step s)"
    and dec_step: "valid s \<Longrightarrow> dec (step s) = (dec s + 1) mod period"
    and dec_less: "valid s \<Longrightarrow> dec s < period"
    and dec_inj: "valid s \<Longrightarrow> valid t \<Longrightarrow> dec s = dec t \<Longrightarrow> s = t"
begin

lemma valid_steps: "valid s \<Longrightarrow> valid ((step ^^ n) s)"
  by (induction n) (auto simp: valid_step)

lemma dec_steps: "valid s \<Longrightarrow> dec ((step ^^ n) s) = (dec s + n) mod period"
proof (induction n)
  case 0
  then show ?case by (simp add: dec_less)
next
  case (Suc n)
  then show ?case by (simp add: dec_step [OF valid_steps] mod_Suc_eq)
qed

lemma full_turn: "valid s \<Longrightarrow> (step ^^ period) s = s"
  by (rule dec_inj) (auto simp: valid_steps dec_steps dec_less)

lemma reaches:
  assumes "valid s" "valid t"
  shows "\<exists>n < period. (step ^^ n) s = t"
proof -
  let ?n = "(dec t + (period - dec s)) mod period"
  have p: "0 < period" "dec s < period" "dec t < period" using dec_less assms by fastforce+
  then have "(dec s + ?n) mod period = (dec s + (dec t + (period - dec s))) mod period"
    by (simp add: mod_add_right_eq)
  also have "\<dots> = (dec t + period) mod period" using p by (simp add: add.left_commute)
  also have "\<dots> = dec t" using p by simp
  finally have "(step ^^ ?n) s = t" using assms by (intro dec_inj) (auto simp: valid_steps dec_steps)
  then show ?thesis using p by (intro exI [of _ ?n]) simp
qed

end

subsection \<open>increment_sfn_sf\<close>

lemma uint_and_low4: "uint ((s :: u16) AND 0xF) = uint s mod 16"
  by (simp add: unsigned_and_eq low_bits)

lemma and_3FF0: "(x :: int) AND 0x3FF0 = (x mod 16384) div 16 * 16"
proof -
  have c: "(0x3FF0 :: int) = push_bit 4 (mask 10)" by (simp add: mask_eq_exp_minus_1 push_bit_eq_mult)
  have "x AND 0x3FF0 = push_bit 4 (drop_bit 4 (take_bit 14 x))"
    unfolding c by (rule bit_eqI) (auto simp: bit_simps)
  then show ?thesis by (simp add: push_bit_eq_mult drop_bit_eq_div take_bit_eq_mod)
qed

lemma step9: assumes "0 \<le> q" "q < 1024"
  shows "((q + 1) * 16 + 9) mod 16384 div 16 * 16 = (q + 1) mod 1024 * (16::int)"
proof -
  have "((q + 1) * 16 + 9) mod 16384 = (q + 1) mod 1024 * 16 + 9"
  proof (cases "q = 1023")
    case False
    then have "(q + 1) * 16 + 9 < 16384" "q + 1 < 1024" using assms by auto
    then show ?thesis using assms by simp
  qed simp
  then show ?thesis by simp
qed

lemma increment_sfn_sf_ok:
  assumes ok: "sfnsf_ok s"
  shows "sfnsf_ok (increment_sfn_sf s) \<and> sfnsf_dec (increment_sfn_sf s) = (sfnsf_dec s + 1) mod 10240"
proof -
  define q m where qm: "q = uint s div 16" "m = uint s mod 16"
  have s: "uint s = q * 16 + m" "0 \<le> q" "q < 1024" "0 \<le> m" "m < 10"
    using ok by (auto simp: qm sfnsf_ok_def div16_less pos_imp_zdiv_nonneg_iff)
  have d: "int (sfnsf_dec s) = q * 10 + m" by (simp add: sfnsf_dec_eq qm)
  have low: "uint (s AND 0xF) = m" by (simp add: uint_and_low4 qm)
  have bnd: "uint (s + 1) = q * 16 + (m + 1)" "uint (s + 0x10) = (q + 1) * 16 + m"
    using s by (simp_all add: uint_word_ariths)
  show ?thesis
  proof (cases "m = 9")
    case True
    then have c: "s AND 0xF = 9" using low by (simp add: word_uint_eq_iff)
    have "uint ((s + 0x10) AND 0x3FF0) = ((q + 1) * 16 + 9) mod 16384 div 16 * 16"
      using True bnd(2) by (simp add: unsigned_and_eq and_3FF0)
    also have "\<dots> = (q + 1) mod 1024 * 16" using s(2,3) by (rule step9)
    finally have u: "uint (increment_sfn_sf s) = (q + 1) mod 1024 * 16"
      using c by (simp add: increment_sfn_sf_def)
    have "int (sfnsf_dec (increment_sfn_sf s)) = (q + 1) mod 1024 * 10"
      unfolding sfnsf_dec_eq u by simp
    also have "\<dots> = (int (sfnsf_dec s) + 1) mod 10240"
      unfolding d using s True by (cases "q = 1023") auto
    also have "\<dots> = int ((sfnsf_dec s + 1) mod 10240)" by (simp add: zmod_int add.commute)
    finally have "sfnsf_dec (increment_sfn_sf s) = (sfnsf_dec s + 1) mod 10240"
      by (simp only: of_nat_eq_iff)
    then show ?thesis by (simp add: sfnsf_ok_def u)
  next
    case False
    then have c: "s AND 0xF \<noteq> 9" "\<not> 9 < s AND 0xF"
      using low s by (auto simp: word_less_def)
    then have u: "uint (increment_sfn_sf s) = q * 16 + (m + 1)"
      using bnd by (simp add: increment_sfn_sf_def)
    have dm: "(q * 16 + (m + 1)) div 16 = q" "(q * 16 + (m + 1)) mod 16 = m + 1"
      using s by auto
    have "int (sfnsf_dec (increment_sfn_sf s)) = int (sfnsf_dec s) + 1"
      unfolding sfnsf_dec_eq u dm using d by (simp add: sfnsf_dec_eq)
    moreover have "int (sfnsf_dec s) + 1 < 10240" using d s False by auto
    ultimately have "sfnsf_dec (increment_sfn_sf s) = sfnsf_dec s + 1 \<and> sfnsf_dec s + 1 < 10240" by linarith
    then show ?thesis using s False by (auto simp: sfnsf_ok_def u dm)
  qed
qed

interpretation sfnsf: cyclic_counter increment_sfn_sf sfnsf_dec sfnsf_ok 10240
  by unfold_locales (auto simp: increment_sfn_sf_ok sfnsf_dec_less intro: sfnsf_eqI)

lemma increment_sfn_sf_by: "increment_sfn_sf_by s n = (increment_sfn_sf ^^ unat n) s"
proof (induction s n rule: increment_sfn_sf_by.induct)
  case (1 s n)
  show ?case
  proof (cases "0 < n")
    case True
    then have "unat n = Suc (unat (n - 1))"
      by (metis Suc_pred' unat_minus_one unat_gt_0 word_neq_0_conv)
    then show ?thesis
      using 1 True by (subst increment_sfn_sf_by.simps) (simp add: funpow_Suc_right del: funpow.simps)
  next
    case False
    then show ?thesis by (subst increment_sfn_sf_by.simps) (simp add: word_gt_0)
  qed
qed

subsection \<open>sfnsf_add_sf, sfn_sf_add and sfnsf_subtract_sf\<close>

lemma sfnsf_split:
  assumes "sfnsf_ok s"
  obtains q m where "uint s = q * 16 + m" "0 \<le> q" "q < 1024" "0 \<le> m" "m < 10"
    "int (sfnsf_dec s) = q * 10 + m" "uint s div 16 = q" "uint s mod 16 = m"
proof -
  have "uint s = uint s div 16 * 16 + uint s mod 16" "0 \<le> uint s div 16" "uint s div 16 < 1024"
    "0 \<le> uint s mod 16" "uint s mod 16 < 10"
    using assms by (auto simp: sfnsf_ok_def div16_less pos_imp_zdiv_nonneg_iff)
  then show ?thesis using that sfnsf_dec_eq by blast
qed

lemma carry10: "((q + (m + k) div 10) mod 1024) * 10 + (m + k) mod 10 = (q * 10 + m + k) mod 10240" for q :: int
proof -
  define d r where "d = (m + k) div 10" and "r = (m + k) mod 10"
  then have mk: "m + k = d * 10 + r" "0 \<le> r" "r < 10" by simp_all
  have "q * 10 + m + k = (q + d) * 10 + r" using mk(1) by (simp add: distrib_right)
  then have "(q * 10 + m + k) mod 10240 = ((q + d) * 10 + r) mod (10 * 1024)" by (simp only:) simp
  also have "\<dots> = 10 * (((q + d) * 10 + r) div 10 mod 1024) + ((q + d) * 10 + r) mod 10"
    by (rule zmod_zmult2_eq) simp
  also have "((q + d) * 10 + r) mod 10 = r" using mk(2,3) by (simp add: mod_pos_pos_trivial del: distrib_right_numeral)
  also have "((q + d) * 10 + r) div 10 = q + d" using mk(2,3) by (simp del: distrib_right_numeral)
  finally show ?thesis unfolding d_def [symmetric] r_def [symmetric] by simp
qed

lemma sfnsf_join_u16:
  assumes "0 \<le> sfn" "sfn < 1024" "0 \<le> sf" "sf < 10"
  defines "r \<equiv> of_int (push_bit 4 (uint (of_int sfn :: u16)) OR uint (of_int sf :: u16)) :: u16"
  shows "sfnsf_ok r" "int (sfnsf_dec r) = sfn * 10 + sf"
  using sfnsf_join [OF assms(1-4)] assms by (simp_all add: uint_of_int_small)

lemma sfnsf_add_sf_dec:
  assumes ok: "sfnsf_ok s" and k: "0 \<le> k"
  shows "sfnsf_ok (sfnsf_add_sf s k)" "int (sfnsf_dec (sfnsf_add_sf s k)) = (int (sfnsf_dec s) + k) mod 10240"
proof -
  from ok obtain q m where s: "uint s = q * 16 + m" "0 \<le> q" "q < 1024" "0 \<le> m" "m < 10"
    "int (sfnsf_dec s) = q * 10 + m" "uint s div 16 = q" "uint s mod 16 = m" by (rule sfnsf_split)
  have "0 \<le> (m + k) div 10" using s k by (simp add: pos_imp_zdiv_nonneg_iff)
  then have eq: "sfnsf_add_sf s k = of_int (push_bit 4 (uint (of_int ((q + (m + k) div 10) mod 1024) :: u16))
      OR uint (of_int ((m + k) mod 10) :: u16))"
    using s k by (simp add: sfnsf_add_sf_def add_sf_def sfnsf_simps uint_of_int_small sdiv_nonneg smod_nonneg)
  note j = sfnsf_join_u16 [of "(q + (m + k) div 10) mod 1024" "(m + k) mod 10", folded eq]
  show "sfnsf_ok (sfnsf_add_sf s k)" using j(1) by simp
  show "int (sfnsf_dec (sfnsf_add_sf s k)) = (int (sfnsf_dec s) + k) mod 10240"
    using j(2) carry10 [of q m k] s(6) by simp
qed

lemma sfn_sf_add_dec:
  assumes ok: "sfnsf_ok s" and k: "sfnsf_dec s + unat k < 65536"
  shows "sfnsf_ok (sfn_sf_add s k)" "sfnsf_dec (sfn_sf_add s k) = (sfnsf_dec s + unat k) mod 10240"
proof -
  from ok obtain q m where s: "uint s = q * 16 + m" "0 \<le> q" "q < 1024" "0 \<le> m" "m < 10"
    "int (sfnsf_dec s) = q * 10 + m" "uint s div 16 = q" "uint s mod 16 = m" by (rule sfnsf_split)
  define t where "t = q * 10 + m + uint k"
  have uk: "uint k = int (unat k)" by simp
  have t: "0 \<le> t" "t < 65536" "t = int (sfnsf_dec s + unat k)"
    using s k unfolding t_def uk by linarith+
  have "uint (of_int t :: u16) = t" using t(1,2) by (rule uint_of_int_small)
  then have eq: "sfn_sf_add s k = of_int (push_bit 4 (uint (of_int (t div 10 mod 1024) :: u16))
      OR uint (of_int (t mod 10) :: u16))"
    using s t(1) unfolding t_def
    by (simp add: sfn_sf_add_def drop_bit_eq_div low_bits uint_of_int_small sdiv_nonneg smod_nonneg
        pos_imp_zdiv_nonneg_iff Let_def)
  note j = sfnsf_join_u16 [of "t div 10 mod 1024" "t mod 10", folded eq]
  show "sfnsf_ok (sfn_sf_add s k)" using j(1) by simp
  have "int (sfnsf_dec (sfn_sf_add s k)) = t mod 10240"
    using j(2) zmod_zmult2_eq [of 1024 t 10] by simp
  then show "sfnsf_dec (sfn_sf_add s k) = (sfnsf_dec s + unat k) mod 10240"
    unfolding t(3) by (metis of_nat_eq_iff of_nat_mod of_nat_numeral)
qed

lemma sfnsf_subtract_sf_dec:
  assumes ok: "sfnsf_ok s" and k: "0 \<le> k" "k \<le> 10"
  shows "sfnsf_ok (sfnsf_subtract_sf s k)" "int (sfnsf_dec (sfnsf_subtract_sf s k)) = (int (sfnsf_dec s) - k) mod 10240"
proof -
  from ok obtain q m where s: "uint s = q * 16 + m" "0 \<le> q" "q < 1024" "0 \<le> m" "m < 10"
    "int (sfnsf_dec s) = q * 10 + m" "uint s div 16 = q" "uint s mod 16 = m" by (rule sfnsf_split)
  define f where "f = (if m < k then (q + 1023) mod 1024 else q)"
  have eq: "sfnsf_subtract_sf s k = of_int (push_bit 4 (uint (of_int f :: u16))
      OR uint (of_int ((m + 10 - k) mod 10) :: u16))"
    using s k by (simp add: f_def sfnsf_subtract_sf_def subtract_sf_def sfnsf_simps uint_of_int_small
        smod_nonneg add.commute [of q])
  have f: "0 \<le> f" "f < 1024" using s by (auto simp: f_def)
  note j = sfnsf_join_u16 [OF f, of "(m + 10 - k) mod 10", folded eq]
  show "sfnsf_ok (sfnsf_subtract_sf s k)" using j(1) by simp
  have "f * 10 + (m + 10 - k) mod 10 = (q * 10 + m - k) mod 10240"
  proof (cases "m < k")
    case True
    then have "(m + 10 - k) mod 10 = m + 10 - k" using k s by simp
    moreover have "(q * 10 + m - k) mod 10240 = (if q = 0 then m - k + 10240 else q * 10 + m - k)"
      using True s k by (auto simp: mod_pos_neg_trivial intro!: int_mod_pos_eq [of _ _ "-1"] mod_pos_pos_trivial)
    moreover have "(q + 1023) mod 1024 = (if q = 0 then 1023 else q - 1)"
    proof (cases "q = 0")
      case False
      have "(q + 1023) mod 1024 = ((q - 1) + 1024) mod 1024" by (simp add: add.commute)
      also have "\<dots> = q - 1" unfolding mod_add_self2 using False s by (intro mod_pos_pos_trivial) auto
      finally show ?thesis using False by simp
    qed simp
    ultimately show ?thesis using True s by (auto simp: f_def)
  next
    case False
    have "(m + 10 - k) mod 10 = ((m - k) + 10) mod 10" by (simp add: algebra_simps)
    also have "\<dots> = m - k" unfolding mod_add_self2 using False s k by (intro mod_pos_pos_trivial) auto
    finally have "(m + 10 - k) mod 10 = m - k" .
    moreover have "(q * 10 + m - k) mod 10240 = q * 10 + m - k"
      using False s k by (intro mod_pos_pos_trivial) linarith+
    ultimately show ?thesis using False by (simp add: f_def)
  qed
  then show "int (sfnsf_dec (sfnsf_subtract_sf s k)) = (int (sfnsf_dec s) - k) mod 10240"
    using j(2) s(6) by simp
qed

subsection \<open>The ticks of the proxy\<close>

lemma counter_step:
  assumes n: "0 < n" "n \<le> 32" and ok: "pair_ok n p"
    and step: "step = (\<lambda>(sfn :: u16, sf :: u16). if sf + 1 = of_nat n then (if sfn + 1 = 1024 then 0 else sfn + 1, 0) else (sfn, sf + 1))"
  shows "pair_ok n (step p) \<and> pair_dec n (step p) = (pair_dec n p + 1) mod (1024 * n)"
proof -
  obtain a b where p: "p = (a, b)" "unat a < 1024" "unat b < n"
    using ok by (cases p) (auto simp: pair_ok_def)
  have ab: "unat (a + 1) = unat a + 1" "unat (b + 1) = unat b + 1"
    using p(2,3) n by (simp_all add: unat_word_ariths)
  have un: "unat (of_nat n :: u16) = n" using n by (simp add: unsigned_of_nat take_bit_nat_eq_self)
  have b1: "b + 1 = of_nat n \<longleftrightarrow> unat b + 1 = n" unfolding word_unat_eq_iff [of "b + 1"] ab un ..
  have a1: "a + 1 = 1024 \<longleftrightarrow> unat a = 1023" unfolding word_unat_eq_iff [of "a + 1"] ab by auto
  have lt: "unat a * n + n \<le> 1024 * n" using p(2) mult_le_mono1 [of "unat a + 1" 1024 n] by simp
  show ?thesis
  proof (cases "unat b + 1 = n")
    case True
    have "(unat a + 1) * n mod (1024 * n) = (if unat a = 1023 then 0 else (unat a + 1) * n)"
      using p(2) n by (auto intro!: mod_less)
    then show ?thesis
      using True p n by (auto simp: step b1 a1 ab pair_ok_def pair_dec_def) (simp_all add: add.commute)
  next
    case False
    then have "unat a * n + unat b + 1 < 1024 * n" using lt p(3) by linarith
    then show ?thesis using False p by (simp add: step b1 pair_ok_def pair_dec_def ab)
  qed
qed

lemma pair_dec_less: "pair_ok n p \<Longrightarrow> pair_dec n p < 1024 * n"
proof -
  assume "pair_ok n p"
  then obtain a b where p: "p = (a, b)" "unat a < 1024" "unat b < n"
    by (cases p) (auto simp: pair_ok_def)
  then have "(unat a + 1) * n \<le> 1024 * n" by (intro mult_le_mono1) simp
  then have "unat a * n + n \<le> 1024 * n" by (simp add: distrib_right)
  then show ?thesis using p(3) unfolding pair_dec_def p(1) prod.case by linarith
qed

lemma pair_dec_inj: "pair_ok n p \<Longrightarrow> pair_ok n q \<Longrightarrow> pair_dec n p = pair_dec n q \<Longrightarrow> p = q"
proof -
  assume ok: "pair_ok n p" "pair_ok n q" and eq: "pair_dec n p = pair_dec n q"
  obtain a b c d where p: "p = (a, b)" "unat b < n" "q = (c, d)" "unat d < n"
    using ok by (cases p; cases q) (auto simp: pair_ok_def)
  have "(unat a * n + unat b) div n = (unat c * n + unat d) div n"
    "(unat a * n + unat b) mod n = (unat c * n + unat d) mod n"
    using eq p by (simp_all add: pair_dec_def)
  then show ?thesis using p by (simp add: word_unat_eq_iff)
qed

lemma fst_sfn_sf_counter:
  "fst (sfn_sf_counter p) = (\<lambda>(sfn, sf). if sf + 1 = of_nat 10 then (if sfn + 1 = 1024 then 0 else sfn + 1, 0)
     else (sfn, sf + 1)) p"
  by (cases p) (simp add: sfn_sf_counter_def Let_def)

lemma fst_sfn_slot_counter:
  "fst (sfn_slot_counter p) = (\<lambda>(sfn, sf). if sf + 1 = of_nat 20 then (if sfn + 1 = 1024 then 0 else sfn + 1, 0)
     else (sfn, sf + 1)) p"
  by (cases p) (simp add: sfn_slot_counter_def Let_def)

lemma lte_tick_step:
  "pair_ok 10 p \<Longrightarrow> pair_ok 10 (fst (sfn_sf_counter p)) \<and>
     pair_dec 10 (fst (sfn_sf_counter p)) = (pair_dec 10 p + 1) mod 10240"
  using counter_step [of 10 p, OF _ _ _ ext [OF fst_sfn_sf_counter]] by simp

lemma nr_tick_step:
  "pair_ok 20 p \<Longrightarrow> pair_ok 20 (fst (sfn_slot_counter p)) \<and>
     pair_dec 20 (fst (sfn_slot_counter p)) = (pair_dec 20 p + 1) mod 20480"
  using counter_step [of 20 p, OF _ _ _ ext [OF fst_sfn_slot_counter]] by simp

interpretation lte_tick: cyclic_counter "\<lambda>p. fst (sfn_sf_counter p)" "pair_dec 10" "pair_ok 10" 10240
proof
  show "pair_dec 10 p < 10240" if "pair_ok 10 p" for p using pair_dec_less [OF that] by simp
qed (blast dest: lte_tick_step pair_dec_inj)+

interpretation nr_tick: cyclic_counter "\<lambda>p. fst (sfn_slot_counter p)" "pair_dec 20" "pair_ok 20" 20480
proof
  show "pair_dec 20 p < 20480" if "pair_ok 20 p" for p using pair_dec_less [OF that] by simp
qed (blast dest: nr_tick_step pair_dec_inj)+

lemma unat_less_uint: "unat (x :: u16) < n \<longleftrightarrow> uint x < int n"
  by (metis of_nat_less_iff uint_nat)

lemma snd_sfn_sf_counter:
  assumes "fst (sfn_sf_counter p) = (sfn, sf)" "pair_ok 10 (sfn, sf)"
  shows "sfnsf_ok (snd (sfn_sf_counter p)) \<and> sfnsf_dec (snd (sfn_sf_counter p)) = pair_dec 10 (sfn, sf)"
proof -
  have "snd (sfn_sf_counter p) = of_int (push_bit 4 (uint sfn) OR uint sf)"
    using assms(1) by (cases p) (auto simp: sfn_sf_counter_def Let_def split: if_splits)
  moreover have "uint sfn < 1024" "uint sf < 10"
    using assms(2) by (simp_all add: pair_ok_def unat_less_uint)
  ultimately have "sfnsf_ok (snd (sfn_sf_counter p))"
    "int (sfnsf_dec (snd (sfn_sf_counter p))) = uint sfn * 10 + uint sf"
    using sfnsf_join [of "uint sfn" "uint sf"] by simp_all
  moreover have "int (pair_dec 10 (sfn, sf)) = uint sfn * 10 + uint sf"
    by (simp add: pair_dec_def)
  ultimately show ?thesis by (metis of_nat_eq_iff)
qed

section \<open>The clock\<close>

lemma usec_le: "TIMEHR_USEC t \<le> t"
  by (simp add: TIMEHR_USEC_def word_and_le2)

lemma elapsed_eq:
  "pnf_get_slot_time now start = (if now < start then 0 else TIMEHR_USEC now - TIMEHR_USEC start)"
  "pnf_get_sf_time now start = (if now < start then 0 else TIMEHR_USEC now - TIMEHR_USEC start)"
  "vnf_get_sf_time now start = (if now < start then 0 else TIMEHR_USEC now - TIMEHR_USEC start)"
  "vnf_get_slot_time now start = (if now < start then 0 else TIMEHR_USEC now - TIMEHR_USEC start)"
  using usec_le [of start]
  by (auto simp: pnf_get_slot_time_def pnf_get_sf_time_def vnf_get_sf_time_def vnf_get_slot_time_def
      Let_def not_less)

lemma unat_time2timehr:
  assumes "unat (tv_usec t) < 1000000"
  shows "unat (TIME2TIMEHR t) = unat (tv_sec t) mod 4096 * 2 ^ 20 + unat (tv_usec t)"
    "TIMEHR_USEC (TIME2TIMEHR t) = ucast (tv_usec t)"
    "unat (ucast (tv_usec t) :: u32) = unat (tv_usec t)"
proof -
  let ?s = "ucast (tv_sec t) :: u32" and ?u = "ucast (tv_usec t) :: u32"
  have m: "(0xFFF :: u32) = mask 12" "(0xFFFFF :: u32) = mask 20" by (simp_all add: mask_eq_exp_minus_1)
  show u: "unat ?u = unat (tv_usec t)"
    using assms by (simp add: unsigned_ucast_eq take_bit_nat_eq_self)
  have small: "?u AND mask 20 = ?u"
    using assms u by (simp add: take_bit_eq_mask [symmetric] unsigned_take_bit_eq word_unat_eq_iff take_bit_nat_eq_self)
  have disj: "push_bit 20 (?s AND mask 12) AND (?u AND mask 20) = 0"
    by (rule bit_word_eqI) (auto simp: bit_simps)
  have eq: "TIME2TIMEHR t = push_bit 20 (?s AND mask 12) + ?u"
    unfolding TIME2TIMEHR_def m using disj small
    by (metis add.right_neutral add.left_neutral word_plus_and_or)
  have "(push_bit 20 (?s AND mask 12) OR ?u AND mask 20) AND mask 20 = ?u AND mask 20"
    by (rule bit_word_eqI) (auto simp: bit_simps)
  then show "TIMEHR_USEC (TIME2TIMEHR t) = ucast (tv_usec t)"
    unfolding TIME2TIMEHR_def TIMEHR_USEC_def m small .
  have "unat (?s AND mask 12) = unat (tv_sec t) mod 4096"
    unfolding take_bit_eq_mask [symmetric] unsigned_take_bit_eq unsigned_ucast_eq
    by (simp add: take_bit_eq_mod mod_mod_cancel)
  then show "unat (TIME2TIMEHR t) = unat (tv_sec t) mod 4096 * 2 ^ 20 + unat (tv_usec t)"
    unfolding eq using u assms
    by (simp add: unat_word_ariths push_bit_eq_mult) 
qed

section \<open>Properties\<close>

text \<open>
  C24. The three components agree on frame arithmetic: on a well-formed encoded SFN/SF the
  VNF's loop \<open>increment_sfn_sf_by\<close>, the PNF's \<open>sfnsf_add_sf\<close> and the
  proxy's \<open>sfn_sf_add\<close> return the same encoding, it is well formed, and it stands
  for the count of subframes advanced by the argument modulo 10240.
\<close>

theorem frame_arithmetic_agree:
  assumes ok: "sfnsf_ok s"
  shows "sfnsf_add_sf s (uint n) = increment_sfn_sf_by s n \<and> sfn_sf_add s (ucast n) = increment_sfn_sf_by s n \<and>
    sfnsf_ok (increment_sfn_sf_by s n) \<and>
    sfnsf_dec (increment_sfn_sf_by s n) = (sfnsf_dec s + unat n) mod 10240"
proof -
  have v: "sfnsf_ok (increment_sfn_sf_by s n)"
    "sfnsf_dec (increment_sfn_sf_by s n) = (sfnsf_dec s + unat n) mod 10240"
    unfolding increment_sfn_sf_by by (rule sfnsf.valid_steps [OF ok], rule sfnsf.dec_steps [OF ok])
  have un: "unat (ucast n :: u16) = unat n" "unat n < 256" "sfnsf_dec s < 10240"
    using unsigned_less [of n, where ?'a = nat] sfnsf_dec_less [OF ok]
    by (simp_all add: unsigned_ucast_eq take_bit_nat_eq_self)
  have a: "sfnsf_ok (sfn_sf_add s (ucast n))" "sfnsf_dec (sfn_sf_add s (ucast n)) = (sfnsf_dec s + unat n) mod 10240"
    using sfn_sf_add_dec [OF ok, of "ucast n"] un by auto
  have "int (sfnsf_dec (sfnsf_add_sf s (uint n))) = int ((sfnsf_dec s + unat n) mod 10240)"
    using sfnsf_add_sf_dec(2) [OF ok, of "uint n"] by (simp add: zmod_int)
  then have "sfnsf_dec (sfnsf_add_sf s (uint n)) = (sfnsf_dec s + unat n) mod 10240"
    by (simp only: of_nat_eq_iff)
  then show ?thesis
    using v a sfnsf_add_sf_dec(1) [OF ok, of "uint n"] by (auto intro: sfnsf_eqI)
qed

theorem frame_arithmetic_agree_witness:
  "sfnsf_add_sf 0x3FF8 (uint (5 :: u8)) = increment_sfn_sf_by 0x3FF8 5 \<and> sfnsf_dec 0x3FF8 = 10238"
  using frame_arithmetic_agree [of "0x3FF8" 5] by (simp add: sfnsf_ok_def sfnsf_dec_def sfnsf_simps)

text \<open>
  \<open>sfnsf_subtract_sf\<close> undoes \<open>sfnsf_add_sf\<close> for offsets of up to ten
  subframes, across the SFN wrap.  It borrows a single frame only, so the bound is sharp:
  eleven subframes before SFN 0 it returns no well-formed encoding.
\<close>

theorem sfnsf_subtract_inverse:
  assumes ok: "sfnsf_ok s" and k: "0 \<le> k" "k \<le> 10"
  shows "sfnsf_subtract_sf (sfnsf_add_sf s k) k = s \<and> sfnsf_add_sf (sfnsf_subtract_sf s k) k = s \<and>
    \<not> sfnsf_ok (sfnsf_subtract_sf 0 11)"
proof -
  have d: "int (sfnsf_dec s) mod 10240 = int (sfnsf_dec s)" using sfnsf_dec_less [OF ok] by simp
  note add = sfnsf_add_sf_dec [OF ok k(1)] and sub = sfnsf_subtract_sf_dec [OF ok k]
  have "int (sfnsf_dec (sfnsf_subtract_sf (sfnsf_add_sf s k) k)) = int (sfnsf_dec s)"
    unfolding sfnsf_subtract_sf_dec(2) [OF add(1) k] add(2) mod_diff_left_eq using d by simp
  moreover have "int (sfnsf_dec (sfnsf_add_sf (sfnsf_subtract_sf s k) k)) = int (sfnsf_dec s)"
    unfolding sfnsf_add_sf_dec(2) [OF sub(1) k(1)] sub(2) mod_add_left_eq using d by simp
  moreover have "\<not> sfnsf_ok (sfnsf_subtract_sf 0 11)" by code_simp
  ultimately show ?thesis
    using sfnsf_subtract_sf_dec(1) [OF add(1) k] sfnsf_add_sf_dec(1) [OF sub(1) k(1)] ok
    by (simp add: sfnsf_eqI)
qed

theorem sfnsf_subtract_inverse_witness:
  "sfnsf_subtract_sf (sfnsf_add_sf 0x3FF8 4) 4 = 0x3FF8"
  using sfnsf_subtract_inverse [of "0x3FF8" 4] by (simp add: sfnsf_ok_def)

text \<open>
  C38. The tick counters of the proxy number the frames without gap: started at SFN 0, the
  (n+1)-th call of \<open>sfn_sf_counter\<close> returns a well-formed encoding that stands for
  n + 1 modulo 10240, and \<open>sfn_slot_counter\<close> leaves the pair that stands for
  n + 1 modulo 20480.
\<close>

theorem proxy_ticks:
  defines "lte \<equiv> \<lambda>n. ((\<lambda>p. fst (sfn_sf_counter p)) ^^ n) (0, 0)"
    and "nr \<equiv> \<lambda>n. ((\<lambda>p. fst (sfn_slot_counter p)) ^^ n) (0, 0)"
  shows "sfnsf_ok (snd (sfn_sf_counter (lte n))) \<and>
    sfnsf_dec (snd (sfn_sf_counter (lte n))) = (n + 1) mod 10240 \<and>
    pair_ok 20 (nr n) \<and> pair_dec 20 (nr n) = n mod 20480"
proof -
  have ok: "pair_ok 10 (0, 0)" "pair_ok 20 (0, 0)" "pair_dec 10 (0, 0) = 0" "pair_dec 20 (0, 0) = 0"
    by (simp_all add: pair_ok_def pair_dec_def)
  have v: "pair_ok 10 (lte n)" "pair_dec 10 (lte n) = n mod 10240"
    using lte_tick.valid_steps [OF ok(1)] lte_tick.dec_steps [OF ok(1)] ok by (simp_all add: lte_def)
  have "pair_ok 10 (fst (sfn_sf_counter (lte n)))"
    "pair_dec 10 (fst (sfn_sf_counter (lte n))) = (n + 1) mod 10240"
    using lte_tick_step [OF v(1)] v(2) by (simp_all add: mod_Suc_eq)
  moreover have "pair_ok 20 (nr n)" "pair_dec 20 (nr n) = n mod 20480"
    using nr_tick.valid_steps [OF ok(2)] nr_tick.dec_steps [OF ok(2)] ok by (simp_all add: nr_def)
  ultimately show ?thesis
    using snd_sfn_sf_counter [OF prod.collapse [symmetric]] by simp
qed

text \<open>
  The time since the start of a subframe or slot, as all four \<open>get_sf_time\<close> and
  \<open>get_slot_time\<close> functions compute it.  Within the second in which the slot started it
  is the true difference in microseconds.  Once the clock has moved on to the next second
  the adjustment for the wrapped microseconds is never applied, because the code compares
  the whole time stamp with the start's microseconds: the result underflows to
  \<open>2^32\<close> minus the distance.
\<close>

theorem elapsed_time:
  assumes usec: "unat (tv_usec a) < 1000000" "unat (tv_usec b) < 1000000"
    and later: "TIME2TIMEHR a \<le> TIME2TIMEHR b"
    and f: "f \<in> {pnf_get_slot_time, pnf_get_sf_time, vnf_get_sf_time, vnf_get_slot_time}"
  shows "(tv_usec a \<le> tv_usec b \<longrightarrow> unat (f (TIME2TIMEHR b) (TIME2TIMEHR a)) = unat (tv_usec b) - unat (tv_usec a)) \<and>
    (tv_usec b < tv_usec a \<longrightarrow>
       unat (f (TIME2TIMEHR b) (TIME2TIMEHR a)) = 2 ^ 32 - (unat (tv_usec a) - unat (tv_usec b)))"
proof -
  let ?ua = "ucast (tv_usec a) :: u32" and ?ub = "ucast (tv_usec b) :: u32"
  note a = unat_time2timehr [OF usec(1)] and b = unat_time2timehr [OF usec(2)]
  have f: "f (TIME2TIMEHR b) (TIME2TIMEHR a) = ?ub - ?ua"
    using f later a(2) b(2) by (auto simp: elapsed_eq not_less [symmetric])
  have "unat (?ub - ?ua) = (if unat ?ua \<le> unat ?ub then unat ?ub - unat ?ua else unat ?ub + 2 ^ 32 - unat ?ua)"
    using unat_sub_if' [of ?ub ?ua] by simp
  then show ?thesis
    unfolding f a(3) b(3) using usec by (auto simp: word_le_nat_alt word_less_nat_alt)
qed

theorem elapsed_time_witness:
  "unat (vnf_get_sf_time (TIME2TIMEHR \<lparr>tv_sec = 8, tv_usec = 100\<rparr>) (TIME2TIMEHR \<lparr>tv_sec = 7, tv_usec = 999900\<rparr>))
    = 2 ^ 32 - 999800"
  using elapsed_time [of "\<lparr>tv_sec = 7, tv_usec = 999900\<rparr>" "\<lparr>tv_sec = 8, tv_usec = 100\<rparr>" vnf_get_sf_time]
  by (simp add: TIME2TIMEHR_def)

text \<open>
  Adding back a difference of normalised times: \<open>pnf_timespec_sub\<close> is normalised and
  \<open>pnf_timespec_add\<close> restores the total number of nanoseconds, but it carries only when the
  nanoseconds exceed \<open>10^9\<close>.  So the sum is the minuend exactly when no
  carry lands on \<open>10^9\<close>; otherwise it keeps \<open>10^9\<close> nanoseconds.
\<close>

theorem timespec_add_sub:
  assumes a: "0 \<le> ts_nsec a" "ts_nsec a < 1000000000" and b: "0 \<le> ts_nsec b" "ts_nsec b < 1000000000"
  defines "d \<equiv> pnf_timespec_sub a b"
  shows "0 \<le> ts_nsec d \<and> ts_nsec d < 1000000000 \<and> d = timespec_delta b a \<and>
    ts_sec (pnf_timespec_add d b) * 1000000000 + ts_nsec (pnf_timespec_add d b) = ts_sec a * 1000000000 + ts_nsec a \<and>
    (pnf_timespec_add d b = a \<longleftrightarrow> \<not> (ts_nsec a = 0 \<and> ts_nsec b \<noteq> 0))"
  using a b unfolding d_def
  by (cases a; cases b) (auto simp: pnf_timespec_add_def pnf_timespec_sub_def timespec_delta_def Let_def)

theorem timespec_add_sub_witness:
  "pnf_timespec_add (pnf_timespec_sub \<lparr>ts_sec = 5, ts_nsec = 0\<rparr> \<lparr>ts_sec = 1, ts_nsec = 7\<rparr>) \<lparr>ts_sec = 1, ts_nsec = 7\<rparr>
    \<noteq> \<lparr>ts_sec = 5, ts_nsec = 0\<rparr>"
  using timespec_add_sub [of "\<lparr>ts_sec = 5, ts_nsec = 0\<rparr>" "\<lparr>ts_sec = 1, ts_nsec = 7\<rparr>",
      THEN conjunct2, THEN conjunct2, THEN conjunct2, THEN conjunct2] by simp

end
