(* ===== verification/Queue.thy ===== *)
theory Queue
  imports Prelude
begin

text \<open>
  The fixed-size queue of the proxy, \<^verbatim>\<open>src/queue.c\<close>: a ring of
  \<open>MAX_QUEUE_SIZE\<close> slots in which NULL (\<open>None\<close>) marks a free slot.  Whether
  \<^verbatim>\<open>pthread_mutex_lock\<close> succeeds is the argument \<open>lock_ok\<close>; an operation is one
  atomic step.  A failed \<^verbatim>\<open>assert\<close> is the result \<open>None\<close>.
  The abstract queue is a list, head first; \<open>queue_rep\<close> relates the ring to it.
  The locale \<open>bounded_queue\<close> is the contract the rest of the proxy relies on.
\<close>

definition MAX_QUEUE_SIZE :: nat where "MAX_QUEUE_SIZE = 512"

record 'a queue =
  items :: "'a option list"
  read_index :: nat
  write_index :: nat
  num_items :: nat

definition init_queue :: "'a queue" where
  "init_queue = \<lparr>items = replicate MAX_QUEUE_SIZE None, read_index = 0, write_index = 0, num_items = 0\<rparr>"

definition put_queue :: "bool \<Rightarrow> 'a option \<Rightarrow> 'a queue \<Rightarrow> (bool \<times> 'a queue) option" where
  "put_queue lock_ok item q =
     (if item = None then None
      else if \<not> lock_ok then Some (False, q)
      else if MAX_QUEUE_SIZE \<le> num_items q then Some (False, q)
      else if items q ! write_index q \<noteq> None then None
      else Some (True, q\<lparr>items := (items q)[write_index q := item],
                         write_index := (write_index q + 1) mod MAX_QUEUE_SIZE,
                         num_items := num_items q + 1\<rparr>))"

definition get_queue :: "bool \<Rightarrow> 'a queue \<Rightarrow> ('a option \<times> 'a queue) option" where
  "get_queue lock_ok q =
     (if \<not> lock_ok then Some (None, q)
      else if 0 < num_items q then
        (let item = items q ! read_index q in
         if item = None then None
         else Some (item, q\<lparr>items := (items q)[read_index q := None],
                            read_index := (read_index q + 1) mod MAX_QUEUE_SIZE,
                            num_items := num_items q - 1\<rparr>))
      else Some (None, q))"

definition requeue :: "bool \<Rightarrow> 'a option \<Rightarrow> 'a queue \<Rightarrow> (bool \<times> 'a queue) option" where
  "requeue lock_ok item q =
     (if item = None then None
      else if \<not> lock_ok then Some (False, q)
      else if MAX_QUEUE_SIZE \<le> num_items q then Some (False, q)
      else let ri = (read_index q + MAX_QUEUE_SIZE - 1) mod MAX_QUEUE_SIZE in
           if items q ! ri \<noteq> None then None
           else Some (True, q\<lparr>read_index := ri, items := (items q)[ri := item],
                              num_items := num_items q + 1\<rparr>))"

definition unqueue :: "bool \<Rightarrow> 'a queue \<Rightarrow> 'a option \<times> 'a queue" where
  "unqueue lock_ok q =
     (if \<not> lock_ok then (None, q)
      else if 0 < num_items q then
        (let wi = (write_index q + MAX_QUEUE_SIZE - 1) mod MAX_QUEUE_SIZE in
         (items q ! wi, q\<lparr>write_index := wi, items := (items q)[wi := None],
                          num_items := num_items q - 1\<rparr>))
      else (None, q))"

text \<open>
  The inner loop of \<open>unqueue_matching\<close> moves the younger items down by one slot, starting
  at \<open>endi\<close>, until the write index is reached.
\<close>

partial_function (option) move_down :: "nat \<Rightarrow> 'a queue \<Rightarrow> 'a queue option" where
  "move_down endi q =
     (let j = (endi + 1) mod MAX_QUEUE_SIZE in
      if j = write_index q
      then Some (q\<lparr>items := (items q)[endi := None], write_index := endi, num_items := num_items q - 1\<rparr>)
      else move_down j (q\<lparr>items := (items q)[endi := items q ! j]\<rparr>))"

fun match_loop :: "('a option \<Rightarrow> bool) \<Rightarrow> nat \<Rightarrow> nat \<Rightarrow> nat \<Rightarrow> 'a queue \<Rightarrow> ('a option \<times> 'a queue) option" where
  "match_loop matcher 0 max_depth endi q = Some (None, q)"
| "match_loop matcher (Suc left) max_depth endi q =
     (if max_depth = 0 then Some (None, q)
      else let endi' = (endi + MAX_QUEUE_SIZE - 1) mod MAX_QUEUE_SIZE; candidate = items q ! endi' in
           if matcher candidate
           then (case move_down endi' q of None \<Rightarrow> None | Some q' \<Rightarrow> Some (candidate, q'))
           else match_loop matcher left (max_depth - 1) endi' q)"

definition unqueue_matching :: "bool \<Rightarrow> nat \<Rightarrow> ('a option \<Rightarrow> bool) \<Rightarrow> 'a queue \<Rightarrow> ('a option \<times> 'a queue) option" where
  "unqueue_matching lock_ok max_depth matcher q =
     (if \<not> lock_ok then Some (None, q)
      else match_loop matcher (num_items q) max_depth (write_index q) q)"

section \<open>The abstract queue\<close>

definition spec_put :: "'a \<Rightarrow> 'a list \<Rightarrow> bool \<times> 'a list" where
  "spec_put x xs = (if length xs < MAX_QUEUE_SIZE then (True, xs @ [x]) else (False, xs))"

definition spec_requeue :: "'a \<Rightarrow> 'a list \<Rightarrow> bool \<times> 'a list" where
  "spec_requeue x xs = (if length xs < MAX_QUEUE_SIZE then (True, x # xs) else (False, xs))"

definition spec_get :: "'a list \<Rightarrow> 'a option \<times> 'a list" where
  "spec_get xs = (case xs of [] \<Rightarrow> (None, []) | x # ys \<Rightarrow> (Some x, ys))"

definition spec_unqueue :: "'a list \<Rightarrow> 'a option \<times> 'a list" where
  "spec_unqueue xs = (if xs = [] then (None, []) else (Some (last xs), butlast xs))"

text \<open>The youngest match among the last \<open>depth\<close> items, counted from the tail.\<close>

fun spec_match :: "('a \<Rightarrow> bool) \<Rightarrow> nat \<Rightarrow> nat \<Rightarrow> 'a list \<Rightarrow> 'a option \<times> 'a list" where
  "spec_match P 0 depth xs = (None, xs)"
| "spec_match P (Suc k) depth xs =
     (if depth = 0 then (None, xs)
      else if P (xs ! k) then (Some (xs ! k), take k xs @ drop (Suc k) xs)
      else spec_match P k (depth - 1) xs)"

definition spec_unqueue_matching :: "nat \<Rightarrow> ('a \<Rightarrow> bool) \<Rightarrow> 'a list \<Rightarrow> 'a option \<times> 'a list" where
  "spec_unqueue_matching depth P xs = spec_match P (length xs) depth xs"

definition slot :: "nat \<Rightarrow> nat \<Rightarrow> nat" where
  "slot r i = (r + i) mod MAX_QUEUE_SIZE"

definition queue_rep :: "'a queue \<Rightarrow> 'a list \<Rightarrow> bool" where
  "queue_rep q xs \<longleftrightarrow>
     length (items q) = MAX_QUEUE_SIZE \<and> read_index q < MAX_QUEUE_SIZE \<and>
     num_items q = length xs \<and> length xs \<le> MAX_QUEUE_SIZE \<and>
     write_index q = slot (read_index q) (length xs) \<and>
     (\<forall>i < MAX_QUEUE_SIZE. items q ! slot (read_index q) i = (if i < length xs then Some (xs ! i) else None))"

section \<open>Slots\<close>

lemma slot_less [simp]: "slot r i < MAX_QUEUE_SIZE"
  by (simp add: slot_def MAX_QUEUE_SIZE_def)

lemma slot_inj:
  assumes "i < MAX_QUEUE_SIZE" "j < MAX_QUEUE_SIZE"
  shows "slot r i = slot r j \<longleftrightarrow> i = j"
proof
  have le: "a = b" if "slot r a = slot r b" "a \<le> b" "b < MAX_QUEUE_SIZE" for a b
  proof -
    have "MAX_QUEUE_SIZE dvd (r + b) - (r + a)"
      using that by (subst mod_eq_dvd_iff_nat [symmetric]) (simp_all add: slot_def)
    then show ?thesis using that by (auto dest: dvd_imp_le)
  qed
  assume "slot r i = slot r j"
  then show "i = j" using le [of i j] le [of j i] assms by (cases "i \<le> j") auto
qed simp

lemma slot_0: "r < MAX_QUEUE_SIZE \<Longrightarrow> slot r 0 = r"
  by (simp add: slot_def)

lemma slot_next: "Suc (slot r i) mod MAX_QUEUE_SIZE = slot r (Suc i)"
  by (simp add: slot_def mod_simps)

lemma slot_prev: "(slot r (Suc i) + MAX_QUEUE_SIZE - Suc 0) mod MAX_QUEUE_SIZE = slot r i"
  by (simp add: slot_def MAX_QUEUE_SIZE_def mod_simps)

lemma slot_full: "slot r MAX_QUEUE_SIZE = slot r 0"
  by (simp add: slot_def)

lemma slot_Suc_start: "slot (slot r (Suc 0)) i = slot r (Suc i)"
  by (simp add: slot_def mod_simps)

lemma nth_update_slot:
  assumes "length xs = MAX_QUEUE_SIZE" "i < MAX_QUEUE_SIZE" "k < MAX_QUEUE_SIZE"
  shows "xs[slot r k := v] ! slot r i = (if i = k then v else xs ! slot r i)"
  using assms slot_inj [of i k r] by (auto simp: nth_list_update)

section \<open>Refinement\<close>

lemma queue_repD:
  assumes "queue_rep q xs"
  shows "length (items q) = MAX_QUEUE_SIZE" "read_index q < MAX_QUEUE_SIZE" "num_items q = length xs"
    "length xs \<le> MAX_QUEUE_SIZE" "write_index q = slot (read_index q) (length xs)"
    "slot (read_index q) 0 = read_index q"
    "i < MAX_QUEUE_SIZE \<Longrightarrow> items q ! slot (read_index q) i = (if i < length xs then Some (xs ! i) else None)"
  using assms by (auto simp: queue_rep_def slot_0)

lemma init_rep: "queue_rep init_queue []"
  by (simp add: queue_rep_def init_queue_def slot_def MAX_QUEUE_SIZE_def)

lemma put_rep:
  assumes rep: "queue_rep q xs"
  shows "\<exists>q'. put_queue True (Some x) q = Some (fst (spec_put x xs), q') \<and> queue_rep q' (snd (spec_put x xs))"
proof (cases "length xs < MAX_QUEUE_SIZE")
  case True
  note r = queue_repD [OF rep]
  let ?q = "q\<lparr>items := (items q)[write_index q := Some x], write_index := (write_index q + 1) mod MAX_QUEUE_SIZE,
    num_items := num_items q + 1\<rparr>"
  have "items q ! write_index q = None" using r(5) r(7) [OF True] by simp
  then have put: "put_queue True (Some x) q = Some (True, ?q)" using True r(3) by (simp add: put_queue_def)
  have "queue_rep ?q (xs @ [x])"
    using True r unfolding queue_rep_def r(5)
    by (auto simp: nth_update_slot nth_append slot_next)
  then show ?thesis using put True by (simp add: spec_put_def)
next
  case False
  then show ?thesis using rep by (auto simp: put_queue_def spec_put_def queue_repD(3))
qed

lemma get_rep:
  assumes rep: "queue_rep q xs"
  shows "\<exists>q'. get_queue True q = Some (fst (spec_get xs), q') \<and> queue_rep q' (snd (spec_get xs))"
proof (cases xs)
  case Nil
  then show ?thesis using rep by (auto simp: get_queue_def spec_get_def queue_repD(3))
next
  case (Cons x ys)
  note r = queue_repD [OF rep]
  let ?r = "read_index q"
  let ?q = "q\<lparr>items := (items q)[?r := None], read_index := (?r + 1) mod MAX_QUEUE_SIZE,
    num_items := num_items q - 1\<rparr>"
  have len: "length ys < MAX_QUEUE_SIZE" using r(4) Cons by simp
  have r1: "Suc ?r mod MAX_QUEUE_SIZE = slot ?r (Suc 0)" by (simp add: slot_def)
  have "items q ! ?r = Some x" using r(6) r(7) [of 0] Cons by (simp add: MAX_QUEUE_SIZE_def)
  then have get: "get_queue True q = Some (Some x, ?q)" using r(3) Cons by (simp add: get_queue_def Let_def)
  have "(items q)[?r := None] ! slot ?r (Suc i) = (if i < length ys then Some (ys ! i) else None)"
    if i: "i < MAX_QUEUE_SIZE" for i
  proof (cases "Suc i < MAX_QUEUE_SIZE")
    case True
    then show ?thesis
      using r(1) r(7) [OF True] nth_update_slot [of "items q" "Suc i" 0 ?r None] r(6) i Cons by auto
  next
    case False
    then have "Suc i = MAX_QUEUE_SIZE" using i by simp
    then show ?thesis using r(1,6) slot_full [of ?r] len i r(2) by auto
  qed
  then have "queue_rep ?q ys"
    using r len Cons unfolding queue_rep_def by (auto simp: slot_Suc_start r1)
  then show ?thesis using get Cons by (simp add: spec_get_def)
qed

lemma requeue_rep:
  assumes rep: "queue_rep q xs"
  shows "\<exists>q'. requeue True (Some x) q = Some (fst (spec_requeue x xs), q') \<and> queue_rep q' (snd (spec_requeue x xs))"
proof (cases "length xs < MAX_QUEUE_SIZE")
  case True
  note r = queue_repD [OF rep]
  let ?r = "read_index q"
  define p where "p = (?r + MAX_QUEUE_SIZE - Suc 0) mod MAX_QUEUE_SIZE"
  have p: "p < MAX_QUEUE_SIZE" "slot p 0 = p"
    by (simp_all add: p_def slot_def MAX_QUEUE_SIZE_def)
  have p_Suc: "slot p (Suc i) = slot ?r i" for i
  proof -
    have "slot p (Suc i) = (?r + MAX_QUEUE_SIZE - Suc 0 + Suc i) mod MAX_QUEUE_SIZE"
      unfolding p_def slot_def mod_add_left_eq ..
    also have "?r + MAX_QUEUE_SIZE - Suc 0 + Suc i = ?r + i + MAX_QUEUE_SIZE"
      by (simp add: MAX_QUEUE_SIZE_def)
    finally show ?thesis by (simp add: slot_def add.commute)
  qed
  have last: "p = slot ?r (MAX_QUEUE_SIZE - 1)" by (simp add: p_def slot_def MAX_QUEUE_SIZE_def add.commute)
  let ?q = "q\<lparr>read_index := p, items := (items q)[p := Some x], num_items := num_items q + 1\<rparr>"
  have "items q ! p = None"
    unfolding last using r(7) [of "MAX_QUEUE_SIZE - 1"] True by (auto simp: MAX_QUEUE_SIZE_def)
  then have put: "requeue True (Some x) q = Some (True, ?q)"
    using True r(3) by (simp add: requeue_def Let_def p_def)
  have "(items q)[p := Some x] ! slot p i = (if i < Suc (length xs) then Some ((x # xs) ! i) else None)"
    if i: "i < MAX_QUEUE_SIZE" for i
  proof (cases i)
    case 0
    then show ?thesis using p r(1) by simp
  next
    case (Suc j)
    then have "slot ?r j \<noteq> p" unfolding last using i slot_inj [of j "MAX_QUEUE_SIZE - 1" ?r] by auto
    then show ?thesis using r(7) [of j] Suc i p_Suc by simp
  qed
  then have "queue_rep ?q (x # xs)"
    using True r p p_Suc unfolding queue_rep_def by auto
  then show ?thesis using put True by (simp add: spec_requeue_def)
next
  case False
  then show ?thesis using rep by (auto simp: requeue_def spec_requeue_def queue_repD(3))
qed

lemma unqueue_rep:
  assumes rep: "queue_rep q xs"
  shows "\<exists>q'. unqueue True q = (fst (spec_unqueue xs), q') \<and> queue_rep q' (snd (spec_unqueue xs))"
proof (cases xs rule: rev_exhaust)
  case Nil
  then show ?thesis using rep by (auto simp: unqueue_def spec_unqueue_def queue_repD(3))
next
  case (snoc ys y)
  note r = queue_repD [OF rep]
  let ?wi = "slot (read_index q) (length ys)"
  let ?q = "q\<lparr>write_index := ?wi, items := (items q)[?wi := None], num_items := num_items q - 1\<rparr>"
  have len: "length ys < MAX_QUEUE_SIZE" using r(4) snoc by simp
  have "(write_index q + MAX_QUEUE_SIZE - Suc 0) mod MAX_QUEUE_SIZE = ?wi"
    using r(5) snoc slot_prev by simp
  moreover have "items q ! ?wi = Some y" using r(7) [OF len] snoc by simp
  ultimately have "unqueue True q = (Some y, ?q)"
    using r(3) snoc by (simp add: unqueue_def Let_def)
  moreover have "queue_rep ?q ys"
    using r len snoc unfolding queue_rep_def by (auto simp: nth_update_slot nth_append)
  ultimately show ?thesis using snoc by (simp add: spec_unqueue_def)
qed

text \<open>Removing the item at index \<open>k\<close>, one overwritten slot at a time.\<close>

lemma remove_shift:
  "Suc k < length xs \<Longrightarrow>
   take (Suc k) (xs[k := xs ! Suc k]) @ drop (Suc (Suc k)) (xs[k := xs ! Suc k]) = take k xs @ drop (Suc k) xs"
  by (simp add: take_Suc_conv_app_nth Cons_nth_drop_Suc)

lemma move_down_rep:
  assumes "queue_rep q xs" "k < length xs"
  shows "\<exists>q'. move_down (slot (read_index q) k) q = Some q' \<and> queue_rep q' (take k xs @ drop (Suc k) xs)"
  using assms
proof (induction "length xs - k" arbitrary: k q xs)
  case 0
  then show ?case by simp
next
  case (Suc n)
  note r = queue_repD [OF Suc.prems(1)]
  let ?r = "read_index q" and ?k = "slot (read_index q) k"
  have j: "(?k + 1) mod MAX_QUEUE_SIZE = slot ?r (Suc k)" by (simp add: slot_next)
  have k: "k < MAX_QUEUE_SIZE" using Suc.prems(2) r(4) by simp
  show ?case
  proof (cases "Suc k = length xs")
    case True
    let ?q = "q\<lparr>items := (items q)[?k := None], write_index := ?k, num_items := num_items q - 1\<rparr>"
    have "move_down ?k q = Some ?q"
      by (subst move_down.simps) (simp add: slot_next r(5) True)
    moreover have "queue_rep ?q (take k xs)"
      using r k True unfolding queue_rep_def by (auto simp: nth_update_slot)
    ultimately show ?thesis using True by simp
  next
    case False
    then have lt: "Suc k < length xs" using Suc.prems(2) by simp
    let ?q = "q\<lparr>items := (items q)[?k := items q ! slot ?r (Suc k)]\<rparr>"
    let ?ys = "xs[k := xs ! Suc k]"
    have "slot ?r (Suc k) \<noteq> write_index q"
    proof (cases "length xs = MAX_QUEUE_SIZE")
      case True
      then show ?thesis unfolding r(5) using slot_full [of ?r] slot_inj [of "Suc k" 0 ?r] lt by auto
    next
      case False
      then show ?thesis unfolding r(5) using slot_inj [of "Suc k" "length xs" ?r] lt r(4) by auto
    qed
    then have step: "move_down ?k q = move_down (slot ?r (Suc k)) ?q"
      by (subst move_down.simps) (simp add: slot_next Let_def)
    have "items q ! slot ?r (Suc k) = Some (xs ! Suc k)"
      using r(7) [of "Suc k"] lt r(4) by simp
    then have "items ?q ! slot ?r i = (if i < length xs then Some (?ys ! i) else None)"
      if "i < MAX_QUEUE_SIZE" for i
      using r(7) [OF that] nth_update_slot [OF r(1) that k] lt by (cases "i = k") simp_all
    then have "queue_rep ?q ?ys"
      using r unfolding queue_rep_def by simp
    moreover have "n = length ?ys - Suc k" "Suc k < length ?ys" using Suc.hyps(2) lt by simp_all
    ultimately have "\<exists>q'. move_down (slot (read_index ?q) (Suc k)) ?q = Some q' \<and>
        queue_rep q' (take (Suc k) ?ys @ drop (Suc (Suc k)) ?ys)"
      by (intro Suc.hyps(1))
    then show ?thesis unfolding step remove_shift [OF lt] by simp
  qed
qed

lemma match_loop_rep:
  assumes rep: "queue_rep q xs" and "left \<le> length xs"
  shows "\<exists>q'. match_loop matcher left depth (slot (read_index q) left) q =
      Some (fst (spec_match (\<lambda>x. matcher (Some x)) left depth xs), q') \<and>
    queue_rep q' (snd (spec_match (\<lambda>x. matcher (Some x)) left depth xs))"
  using assms(2)
proof (induction left arbitrary: depth)
  case 0
  then show ?case using rep by simp
next
  case (Suc k)
  have it: "items q ! slot (read_index q) k = Some (xs ! k)"
    using queue_repD(4) [OF rep] queue_repD(7) [OF rep, of k] Suc.prems by simp
  show ?case
  proof (cases "depth = 0 \<or> \<not> matcher (Some (xs ! k))")
    case True
    then show ?thesis
      using Suc.IH [of "depth - 1"] Suc.prems rep by (auto simp: slot_prev it Let_def)
  next
    case False
    obtain q' where "move_down (slot (read_index q) k) q = Some q'" "queue_rep q' (take k xs @ drop (Suc k) xs)"
      using move_down_rep [OF rep, of k] Suc.prems by auto
    then show ?thesis using False by (auto simp: slot_prev it Let_def)
  qed
qed

lemma unqueue_matching_rep:
  assumes rep: "queue_rep q xs"
  shows "\<exists>q'. unqueue_matching True depth matcher q =
      Some (fst (spec_unqueue_matching depth (\<lambda>x. matcher (Some x)) xs), q') \<and>
    queue_rep q' (snd (spec_unqueue_matching depth (\<lambda>x. matcher (Some x)) xs))"
  using match_loop_rep [OF rep, of "length xs" matcher depth] queue_repD(3,5) [OF rep]
  by (simp add: unqueue_matching_def spec_unqueue_matching_def)

section \<open>The contract of the queue\<close>

fun put_all :: "('a \<Rightarrow> 'q \<Rightarrow> (bool \<times> 'q) option) \<Rightarrow> 'a list \<Rightarrow> 'q \<Rightarrow> 'q option" where
  "put_all put [] q = Some q"
| "put_all put (x # xs) q =
     (case put x q of Some (True, q') \<Rightarrow> put_all put xs q' | _ \<Rightarrow> None)"

fun get_all :: "('q \<Rightarrow> ('a option \<times> 'q) option) \<Rightarrow> nat \<Rightarrow> 'q \<Rightarrow> ('a list \<times> 'q) option" where
  "get_all get 0 q = Some ([], q)"
| "get_all get (Suc n) q =
     (case get q of
        Some (Some x, q') \<Rightarrow>
          (case get_all get n q' of Some (xs, q'') \<Rightarrow> Some (x # xs, q'') | None \<Rightarrow> None)
      | _ \<Rightarrow> None)"

locale bounded_queue =
  fixes new :: "'q"
    and put :: "'a \<Rightarrow> 'q \<Rightarrow> (bool \<times> 'q) option"
    and get :: "'q \<Rightarrow> ('a option \<times> 'q) option"
    and rep :: "'q \<Rightarrow> 'a list \<Rightarrow> bool"
  assumes new_rep: "rep new []"
    and put_spec: "rep q xs \<Longrightarrow> \<exists>q'. put x q = Some (fst (spec_put x xs), q') \<and> rep q' (snd (spec_put x xs))"
    and get_spec: "rep q xs \<Longrightarrow> \<exists>q'. get q = Some (fst (spec_get xs), q') \<and> rep q' (snd (spec_get xs))"
begin

lemma put_all_rep:
  "rep q xs \<Longrightarrow> length xs + length ys \<le> MAX_QUEUE_SIZE \<Longrightarrow> \<exists>q'. put_all put ys q = Some q' \<and> rep q' (xs @ ys)"
proof (induction ys arbitrary: q xs)
  case (Cons y ys)
  obtain q1 where "put y q = Some (True, q1)" "rep q1 (xs @ [y])"
    using put_spec [OF Cons.prems(1), of y] Cons.prems(2) by (auto simp: spec_put_def split: if_splits)
  then show ?case using Cons.IH [of q1 "xs @ [y]"] Cons.prems(2) by simp
qed simp

lemma get_all_rep:
  "rep q (xs @ ys) \<Longrightarrow> \<exists>q'. get_all get (length xs) q = Some (xs, q') \<and> rep q' ys"
proof (induction xs arbitrary: q)
  case (Cons x xs)
  obtain q1 where "get q = Some (Some x, q1)" "rep q1 (xs @ ys)"
    using get_spec [OF Cons.prems] by (auto simp: spec_get_def)
  then show ?case using Cons.IH [of q1] by auto
qed simp

lemma fifo:
  assumes "rep q xs" "length xs + length ys \<le> MAX_QUEUE_SIZE"
  shows "\<exists>q1 q2. put_all put ys q = Some q1 \<and> get_all get (length xs + length ys) q1 = Some (xs @ ys, q2) \<and> rep q2 []"
proof -
  obtain q1 where q1: "put_all put ys q = Some q1" "rep q1 (xs @ ys)"
    using put_all_rep [OF assms] by blast
  then show ?thesis using get_all_rep [of q1 "xs @ ys" "[]"] by auto
qed

end

locale bounded_deque = bounded_queue new put get rep
  for new :: "'q" and put :: "'a \<Rightarrow> 'q \<Rightarrow> (bool \<times> 'q) option"
    and get :: "'q \<Rightarrow> ('a option \<times> 'q) option" and rep :: "'q \<Rightarrow> 'a list \<Rightarrow> bool" +
  fixes unget :: "'a \<Rightarrow> 'q \<Rightarrow> (bool \<times> 'q) option"
    and unput :: "'q \<Rightarrow> 'a option \<times> 'q"
  assumes unget_spec: "rep q xs \<Longrightarrow> \<exists>q'. unget x q = Some (fst (spec_requeue x xs), q') \<and> rep q' (snd (spec_requeue x xs))"
    and unput_spec: "rep q xs \<Longrightarrow> \<exists>q'. unput q = (fst (spec_unqueue xs), q') \<and> rep q' (snd (spec_unqueue xs))"
begin

lemma unget_get:
  assumes "rep q (x # xs)" "length xs < MAX_QUEUE_SIZE"
  shows "\<exists>q1 q2. get q = Some (Some x, q1) \<and> unget x q1 = Some (True, q2) \<and> rep q2 (x # xs)"
proof -
  obtain q1 where "get q = Some (Some x, q1)" "rep q1 xs"
    using get_spec [OF assms(1)] by (auto simp: spec_get_def)
  then show ?thesis using unget_spec [of q1 xs x] assms(2) by (auto simp: spec_requeue_def)
qed

lemma unput_put:
  assumes "rep q xs" "length xs < MAX_QUEUE_SIZE"
  shows "\<exists>q1 q2. put x q = Some (True, q1) \<and> unput q1 = (Some x, q2) \<and> rep q2 xs"
proof -
  obtain q1 where q1: "put x q = Some (True, q1)" "rep q1 (xs @ [x])"
    using put_spec [OF assms(1), of x] assms(2) by (auto simp: spec_put_def)
  then show ?thesis using unput_spec [of q1 "xs @ [x]"] by (auto simp: spec_unqueue_def)
qed

end

interpretation rq: bounded_deque init_queue "\<lambda>x. put_queue True (Some x)" "get_queue True" queue_rep
  "\<lambda>x. requeue True (Some x)" "unqueue True"
  by unfold_locales (rule init_rep put_rep get_rep requeue_rep unqueue_rep; assumption?)+

lemma spec_match_cases:
  "k \<le> length xs \<Longrightarrow>
   (case spec_match P k depth xs of
      (Some x, ys) \<Rightarrow> \<exists>i. i < k \<and> k \<le> i + depth \<and> x = xs ! i \<and> P x \<and> ys = take i xs @ drop (Suc i) xs \<and>
         (\<forall>j. i < j \<and> j < k \<longrightarrow> \<not> P (xs ! j))
    | (None, ys) \<Rightarrow> ys = xs \<and> (\<forall>j. j < k \<and> k \<le> j + depth \<longrightarrow> \<not> P (xs ! j)))"
proof (induction P k depth xs rule: spec_match.induct)
  case (2 P k depth xs)
  show ?case
  proof (cases "depth = 0 \<or> P (xs ! k)")
    case True
    then show ?thesis using "2.prems" by auto
  next
    case False
    then have step: "spec_match P (Suc k) depth xs = spec_match P k (depth - 1) xs" by simp
    have IH: "case spec_match P k (depth - 1) xs of
        (Some x, ys) \<Rightarrow> \<exists>i. i < k \<and> k \<le> i + (depth - 1) \<and> x = xs ! i \<and> P x \<and> ys = take i xs @ drop (Suc i) xs \<and>
           (\<forall>j. i < j \<and> j < k \<longrightarrow> \<not> P (xs ! j))
      | (None, ys) \<Rightarrow> ys = xs \<and> (\<forall>j. j < k \<and> k \<le> j + (depth - 1) \<longrightarrow> \<not> P (xs ! j))"
      using "2.IH" False "2.prems" by simp
    obtain r ys where res: "spec_match P k (depth - 1) xs = (r, ys)" by fastforce
    show ?thesis
    proof (cases r)
      case None
      then have "ys = xs" "\<forall>j. j < k \<and> k \<le> j + (depth - 1) \<longrightarrow> \<not> P (xs ! j)" using IH res by auto
      then show ?thesis unfolding step res None using False by (auto simp: less_Suc_eq)
    next
      case (Some x)
      then obtain i where "i < k" "k \<le> i + (depth - 1)" "x = xs ! i" "P x" "ys = take i xs @ drop (Suc i) xs"
        "\<forall>j. i < j \<and> j < k \<longrightarrow> \<not> P (xs ! j)" using IH res by auto
      then show ?thesis unfolding step res Some using False by (auto simp: less_Suc_eq intro!: exI [of _ i])
    qed
  qed
qed simp

section \<open>Runs\<close>

text \<open>
  Any interleaving of operations of the threads that share a queue is a list of operations,
  each with the outcome of its lock.  \<open>run_queue\<close> is \<open>None\<close> when an assertion fails.
\<close>

datatype 'a queue_op =
    Put bool 'a
  | Get bool
  | Requeue bool 'a
  | Unqueue bool
  | UnqueueMatching bool nat "'a option \<Rightarrow> bool"

definition queue_step :: "'a queue_op \<Rightarrow> 'a queue \<Rightarrow> 'a queue option" where
  "queue_step op q =
     (case op of
        Put l x \<Rightarrow> map_option snd (put_queue l (Some x) q)
      | Get l \<Rightarrow> map_option snd (get_queue l q)
      | Requeue l x \<Rightarrow> map_option snd (requeue l (Some x) q)
      | Unqueue l \<Rightarrow> Some (snd (unqueue l q))
      | UnqueueMatching l d m \<Rightarrow> map_option snd (unqueue_matching l d m q))"

fun run_queue :: "'a queue_op list \<Rightarrow> 'a queue \<Rightarrow> 'a queue option" where
  "run_queue [] q = Some q"
| "run_queue (op # ops) q = (case queue_step op q of None \<Rightarrow> None | Some q' \<Rightarrow> run_queue ops q')"

fun spec_step :: "'a queue_op \<Rightarrow> 'a list \<Rightarrow> 'a list" where
  "spec_step (Put l x) xs = (if l then snd (spec_put x xs) else xs)"
| "spec_step (Get l) xs = (if l then snd (spec_get xs) else xs)"
| "spec_step (Requeue l x) xs = (if l then snd (spec_requeue x xs) else xs)"
| "spec_step (Unqueue l) xs = (if l then snd (spec_unqueue xs) else xs)"
| "spec_step (UnqueueMatching l d m) xs =
     (if l then snd (spec_unqueue_matching d (\<lambda>x. m (Some x)) xs) else xs)"

lemma lock_failed:
  "put_queue False (Some x) q = Some (False, q)" "get_queue False q = Some (None, q)"
  "requeue False (Some x) q = Some (False, q)" "unqueue False q = (None, q)"
  "unqueue_matching False d m q = Some (None, q)"
  by (simp_all add: put_queue_def get_queue_def requeue_def unqueue_def unqueue_matching_def)

lemma queue_step_rep:
  assumes "queue_rep q xs"
  shows "\<exists>q'. queue_step op q = Some q' \<and> queue_rep q' (spec_step op xs)"
proof (cases op)
  case (Put l x)
  then show ?thesis using put_rep [OF assms, of x] assms
    by (cases l) (auto simp: queue_step_def lock_failed)
next
  case (Get l)
  then show ?thesis using get_rep [OF assms] assms by (cases l) (auto simp: queue_step_def lock_failed)
next
  case (Requeue l x)
  then show ?thesis using requeue_rep [OF assms, of x] assms
    by (cases l) (auto simp: queue_step_def lock_failed)
next
  case (Unqueue l)
  then show ?thesis using unqueue_rep [OF assms] assms by (cases l) (auto simp: queue_step_def lock_failed)
next
  case (UnqueueMatching l d m)
  then show ?thesis using unqueue_matching_rep [OF assms, of d m] assms
    by (cases l) (auto simp: queue_step_def lock_failed)
qed

lemma run_queue_rep:
  "queue_rep q xs \<Longrightarrow> \<exists>q'. run_queue ops q = Some q' \<and> queue_rep q' (fold spec_step ops xs)"
proof (induction ops arbitrary: q xs)
  case (Cons op ops)
  obtain q1 where "queue_step op q = Some q1" "queue_rep q1 (spec_step op xs)"
    using queue_step_rep [OF Cons.prems] by blast
  then show ?case using Cons.IH by auto
qed simp

section \<open>Properties\<close>

text \<open>
  C21. No assertion of the queue ever fails and no loop of it runs forever: whatever
  operations the threads perform in whatever order, and whichever locks fail, a run that
  starts from \<open>init_queue\<close> completes, and it leaves the ring representing the list that the
  abstract operations produce, with at most \<open>MAX_QUEUE_SIZE\<close> items.
\<close>

theorem queue_runs:
  "\<exists>q. run_queue ops init_queue = Some q \<and> queue_rep q (fold spec_step ops []) \<and>
     num_items q = length (fold spec_step ops []) \<and> num_items q \<le> MAX_QUEUE_SIZE"
proof -
  obtain q where q: "run_queue ops init_queue = Some q" "queue_rep q (fold spec_step ops [])"
    using run_queue_rep [OF init_rep] by blast
  then show ?thesis using queue_repD(3,4) [OF q(2)] by auto
qed

text \<open>
  The queue is first-in first-out up to its capacity: items put on a queue that has
  room for them are all accepted and come out behind the older ones, in the order they
  were put, until the queue is empty.
\<close>

theorem queue_fifo:
  assumes "queue_rep q xs" "length xs + length ys \<le> MAX_QUEUE_SIZE"
  shows "\<exists>q1 q2. put_all (\<lambda>x. put_queue True (Some x)) ys q = Some q1 \<and>
    get_all (get_queue True) (length xs + length ys) q1 = Some (xs @ ys, q2) \<and> queue_rep q2 []"
  using assms by (rule rq.fifo)

theorem queue_fifo_witness:
  "\<exists>q1 q2. put_all (\<lambda>x. put_queue True (Some x)) [3, 1, 2 :: nat] init_queue = Some q1 \<and>
    get_all (get_queue True) 3 q1 = Some ([3, 1, 2], q2)"
  using queue_fifo [OF init_rep, of "[3, 1, 2 :: nat]"]
  by (auto simp: MAX_QUEUE_SIZE_def numeral_3_eq_3)

text \<open>
  \<open>requeue\<close> undoes \<open>get_queue\<close> and \<open>unqueue\<close> undoes \<open>put_queue\<close>: an item
  taken from the head goes back in front of the others, the item queued last is the one that
  \<open>unqueue\<close> returns, and the other items keep their order.
\<close>

theorem queue_undo:
  assumes "queue_rep q (x # xs)" "length (x # xs) < MAX_QUEUE_SIZE"
  shows "(\<exists>q1 q2. get_queue True q = Some (Some x, q1) \<and> requeue True (Some x) q1 = Some (True, q2) \<and>
      queue_rep q2 (x # xs)) \<and>
    (\<exists>q1 q2. put_queue True (Some y) q = Some (True, q1) \<and> unqueue True q1 = (Some y, q2) \<and>
      queue_rep q2 (x # xs))"
  using rq.unget_get [OF assms(1)] rq.unput_put [OF assms(1), of y] assms(2) by auto

theorem queue_undo_witness:
  "\<exists>q. queue_rep q [5 :: nat] \<and> (\<exists>q1 q2. get_queue True q = Some (Some 5, q1) \<and>
     requeue True (Some 5) q1 = Some (True, q2) \<and> queue_rep q2 [5])"
proof -
  obtain q where "queue_rep q [5 :: nat]"
    using put_rep [OF init_rep, of 5] by (auto simp: spec_put_def MAX_QUEUE_SIZE_def)
  then show ?thesis using queue_undo [of q 5 "[]"] by (auto simp: MAX_QUEUE_SIZE_def)
qed

text \<open>
  \<open>unqueue_matching\<close> returns the youngest matching item among the last
  \<open>max_depth\<close> ones and takes exactly that item out, the others keeping their order; it
  returns NULL and leaves the queue alone exactly when none of the last \<open>max_depth\<close> items
  matches.
\<close>

theorem unqueue_matching_youngest:
  assumes "queue_rep q xs"
  shows "\<exists>r q' ys. unqueue_matching True depth matcher q = Some (r, q') \<and> queue_rep q' ys \<and>
    (case r of
       Some x \<Rightarrow> \<exists>i. i < length xs \<and> length xs \<le> i + depth \<and> x = xs ! i \<and> matcher (Some x) \<and>
         ys = take i xs @ drop (Suc i) xs \<and> (\<forall>j. i < j \<and> j < length xs \<longrightarrow> \<not> matcher (Some (xs ! j)))
     | None \<Rightarrow> ys = xs \<and> (\<forall>j. j < length xs \<and> length xs \<le> j + depth \<longrightarrow> \<not> matcher (Some (xs ! j))))"
proof -
  let ?P = "\<lambda>x. matcher (Some x)"
  obtain r ys where res: "spec_unqueue_matching depth ?P xs = (r, ys)" by fastforce
  obtain q' where "unqueue_matching True depth matcher q = Some (r, q')" "queue_rep q' ys"
    using unqueue_matching_rep [OF assms, of depth matcher] res by auto
  then show ?thesis
    using spec_match_cases [of "length xs" xs depth ?P] res
    by (intro exI [of _ r] exI [of _ q'] exI [of _ ys])
       (auto simp: spec_unqueue_matching_def split: option.splits)
qed

theorem unqueue_matching_youngest_witness:
  "\<exists>q. queue_rep q [5 :: nat] \<and>
     (\<exists>q'. unqueue_matching True 1 (\<lambda>c. c = Some 5) q = Some (Some 5, q') \<and> queue_rep q' [])"
proof -
  obtain q where q: "queue_rep q [5 :: nat]"
    using put_rep [OF init_rep, of 5] by (auto simp: spec_put_def MAX_QUEUE_SIZE_def)
  show ?thesis
    using unqueue_matching_youngest [OF q, of 1 "\<lambda>c. c = Some 5"] q
    by (auto split: option.splits)
qed

end
