(* ===== verification/P7_Header.thy ===== *)
theory P7_Header
  imports Nfapi_Tlv
begin

unbundle bit_operations_syntax

text \<open>
  The P7 message frame of \<^verbatim>\<open>nfapi_p7.c\<close>: the 16-byte header, its pack and unpack
  routines with the length field that is patched once the body is there, the checksum and the
  time stamp that are patched before sending, and the segmentation field (more flag, segment
  number, sequence number) of \<^verbatim>\<open>nfapi_interface.h\<close>.  \<^verbatim>\<open>crc32\<close> is the zlib
  function, a parameter \<open>crc\<close>.  The body packer that the message id selects is an
  argument of the frame functions; P7_Messages selects it.
\<close>

definition NFAPI_P7_HEADER_LENGTH :: nat where "NFAPI_P7_HEADER_LENGTH = 16"

record p7_header =
  phy_id :: u16
  message_id :: u16
  message_length :: u16
  m_segment_sequence :: u16
  checksum :: u32
  transmit_timestamp :: u32

section \<open>The segmentation field\<close>

definition NFAPI_P7_GET_MORE :: "u16 \<Rightarrow> u16" where
  "NFAPI_P7_GET_MORE mss = drop_bit 15 (mss AND 0x8000)"

definition NFAPI_P7_GET_SEGMENT :: "u16 \<Rightarrow> u16" where
  "NFAPI_P7_GET_SEGMENT mss = drop_bit 8 (mss AND 0x7F00)"

definition NFAPI_P7_GET_SEQUENCE :: "u16 \<Rightarrow> u16" where
  "NFAPI_P7_GET_SEQUENCE mss = mss AND 0x00FF"

definition NFAPI_P7_SET_MSS :: "u32 \<Rightarrow> u32 \<Rightarrow> u32 \<Rightarrow> u32" where
  "NFAPI_P7_SET_MSS m segm sequ =
     (push_bit 7 (m AND 0x1) OR push_bit 4 (segm AND 0x7)) OR (sequ AND 0xF)"

section \<open>Header\<close>

definition pack_p7_header :: "p7_header \<Rightarrow> wbuf \<Rightarrow> wbuf option" where
  "pack_p7_header h w =
     push16 (phy_id h) w \<bind> (\<lambda>w. push16 (message_id h) w \<bind> (\<lambda>w. push16 0 w \<bind>
     (\<lambda>w. push16 (m_segment_sequence h) w \<bind> (\<lambda>w. push32 0 w \<bind> push32 (transmit_timestamp h)))))"

definition unpack_p7_header :: "rbuf \<Rightarrow> (p7_header \<times> rbuf) option" where
  "unpack_p7_header r =
     pull16 r \<bind> (\<lambda>(a, r). pull16 r \<bind> (\<lambda>(b, r). pull16 r \<bind> (\<lambda>(c, r). pull16 r \<bind> (\<lambda>(d, r).
     pull32 r \<bind> (\<lambda>(e, r). pull32 r \<bind> (\<lambda>(f, r).
     Some (\<lparr>phy_id = a, message_id = b, message_length = c, m_segment_sequence = d,
            checksum = e, transmit_timestamp = f\<rparr>, r)))))))"

definition nfapi_p7_message_header_unpack :: "u8 list \<Rightarrow> p7_header option" where
  "nfapi_p7_message_header_unpack msg =
     (if length msg < NFAPI_P7_HEADER_LENGTH then None
      else map_option fst (unpack_p7_header (rb_of msg)))"

section \<open>Frame\<close>

text \<open>
  The part that \<open>nfapi_p7_message_pack\<close> and \<open>nfapi_nr_p7_message_pack\<close> share: header,
  body, length check, length field.  \<open>body\<close> is the packer selected by the message id.
  The result is the message with its length set, the buffer and the packed length.
\<close>

definition p7_frame_pack :: "(wbuf \<Rightarrow> wbuf option) \<Rightarrow> p7_header \<Rightarrow> u8 list
  \<Rightarrow> (p7_header \<times> u8 list \<times> nat) option" where
  "p7_frame_pack body h buf =
     (case pack_p7_header h \<lparr>wb_mem = buf, wb_pos = 0, wb_end = length buf\<rparr> of None \<Rightarrow> None
      | Some w1 \<Rightarrow>
          (case body w1 of None \<Rightarrow> None
           | Some w2 \<Rightarrow>
               if 0xFFFF < wb_pos w2 \<or> length buf < wb_pos w2 then None
               else (let len16 = of_nat (wb_pos w2) in
                     case push16 len16 (w2\<lparr>wb_pos := 4\<rparr>) of None \<Rightarrow> None
                     | Some w3 \<Rightarrow> Some (h\<lparr>message_length := len16\<rparr>, wb_mem w3, wb_pos w2))))"

text \<open>The part that the two unpack functions share: length checks and header.\<close>

definition p7_frame_unpack :: "u8 list \<Rightarrow> (p7_header \<times> rbuf) option" where
  "p7_frame_unpack msg =
     (if length msg < NFAPI_P7_HEADER_LENGTH then None
      else case unpack_p7_header (rb_of msg) of None \<Rightarrow> None
           | Some (h, r) \<Rightarrow> if length msg < unat (message_length h) then None else Some (h, r))"

section \<open>Checksum and time stamp\<close>

definition nfapi_calculate_checksum :: "(u32 \<Rightarrow> u8 list \<Rightarrow> u32) \<Rightarrow> u8 list \<Rightarrow> u16 \<Rightarrow> u32" where
  "nfapi_calculate_checksum crc buffer len =
     (let c1 = crc 0 (take 8 buffer);
          c2 = crc c1 [0, 0, 0, 0];
          c3 = crc c2 (take (unat len - NFAPI_P7_HEADER_LENGTH) (drop NFAPI_P7_HEADER_LENGTH buffer))
      in NOT c3)"

definition nfapi_p7_calculate_checksum :: "(u32 \<Rightarrow> u8 list \<Rightarrow> u32) \<Rightarrow> u8 list \<Rightarrow> u32 \<Rightarrow> u32" where
  "nfapi_p7_calculate_checksum crc buffer len = nfapi_calculate_checksum crc buffer (ucast len)"

definition nfapi_p7_update_checksum :: "(u32 \<Rightarrow> u8 list \<Rightarrow> u32) \<Rightarrow> u8 list \<Rightarrow> u32 \<Rightarrow> u8 list option" where
  "nfapi_p7_update_checksum crc buffer len =
     map_option wb_mem (push32 (nfapi_calculate_checksum crc buffer (ucast len))
                               \<lparr>wb_mem = buffer, wb_pos = 8, wb_end = unat len\<rparr>)"

definition nfapi_p7_update_transmit_timestamp :: "u8 list \<Rightarrow> u32 \<Rightarrow> u8 list option" where
  "nfapi_p7_update_transmit_timestamp buffer timestamp =
     map_option wb_mem (push32 timestamp \<lparr>wb_mem = buffer, wb_pos = 12, wb_end = 16\<rparr>)"

section \<open>Laws\<close>

definition enc_p7_header :: "p7_header \<Rightarrow> u8 list" where
  "enc_p7_header h = be16 (phy_id h) @ be16 (message_id h) @ be16 (message_length h) @
     be16 (m_segment_sequence h) @ be32 (checksum h) @ be32 (transmit_timestamp h)"

lemma length_enc_p7_header [simp]: "length (enc_p7_header h) = 16"
  by (simp add: enc_p7_header_def)

lemma writes_pack_p7_header [writes_intro]:
  "writes (pack_p7_header h) (enc_p7_header (h\<lparr>message_length := 0, checksum := 0\<rparr>))"
  unfolding pack_p7_header_def [abs_def]
  by (rule writes_cong, (rule writes_intro)+) (simp add: enc_p7_header_def)

lemma reads_unpack_p7_header [reads_intro]: "reads unpack_p7_header h (enc_p7_header h)"
  unfolding unpack_p7_header_def [abs_def] enc_p7_header_def
  by (rule reads_cong, (rule reads_intro)+) (auto intro: p7_header.equality)

interpretation chdr: codec pack_p7_header unpack_p7_header enc_p7_header
  "\<lambda>h. message_length h = 0 \<and> checksum h = 0"
proof
  fix h :: p7_header assume "message_length h = 0 \<and> checksum h = 0"
  then have "h\<lparr>message_length := 0, checksum := 0\<rparr> = h" by (auto intro: p7_header.equality)
  then show "writes (pack_p7_header h) (enc_p7_header h)"
    using writes_pack_p7_header [of h] by simp
qed (rule reads_intro)

lemma header_unpack_enc:
  "nfapi_p7_message_header_unpack (enc_p7_header h @ rest) = Some h"
  using readsD [OF reads_unpack_p7_header, of "rb_of (enc_p7_header h @ rest)" h rest]
  by (simp add: nfapi_p7_message_header_unpack_def NFAPI_P7_HEADER_LENGTH_def)

lemma frame_unpack_enc:
  "unat (message_length h) \<le> 16 + length rest \<Longrightarrow>
   p7_frame_unpack (enc_p7_header h @ rest) = Some (h, rb_adv 16 (rb_of (enc_p7_header h @ rest)))"
  using readsD [OF reads_unpack_p7_header, of "rb_of (enc_p7_header h @ rest)" h rest]
  by (simp add: p7_frame_unpack_def NFAPI_P7_HEADER_LENGTH_def)

section \<open>The frame laws\<close>

lemma frame_pack_writes:
  assumes body: "writes body bs" and len: "16 + length bs \<le> length buf" "16 + length bs \<le> 0xFFFF"
  defines "l \<equiv> of_nat (16 + length bs) :: u16"
  shows "p7_frame_pack body h buf =
    Some (h\<lparr>message_length := l\<rparr>,
      (enc_p7_header (h\<lparr>message_length := l, checksum := 0\<rparr>) @ bs) @ drop (16 + length bs) buf, 16 + length bs)"
proof -
  let ?w = "\<lparr>wb_mem = buf, wb_pos = 0, wb_end = length buf\<rparr>"
  let ?hz = "h\<lparr>message_length := 0, checksum := 0\<rparr>" and ?h = "h\<lparr>message_length := l, checksum := 0\<rparr>"
  let ?hd = "be16 (phy_id h) @ be16 (message_id h)"
  let ?tl = "be16 (m_segment_sequence h) @ be32 0 @ be32 (transmit_timestamp h)"
  have ok: "wbuf_ok ?w" "wb_room ?w = length buf" by (simp_all add: wbuf_ok_def wb_room_def)
  have w1: "pack_p7_header h ?w = Some (wb_write (enc_p7_header ?hz) ?w)"
    using len ok by (simp add: writesD [OF writes_pack_p7_header])
  have ok1: "wbuf_ok (wb_write (enc_p7_header ?hz) ?w)"
    using len ok by (simp add: wbuf_ok_write)
  have w2: "body (wb_write (enc_p7_header ?hz) ?w) = Some (wb_write (enc_p7_header ?hz @ bs) ?w)"
    using len ok by (simp add: writesD [OF body ok1] wb_room_write wb_write_write)
  let ?w2 = "wb_write (enc_p7_header ?hz @ bs) ?w"
  have w3: "push16 l (?w2\<lparr>wb_pos := 4\<rparr>) = Some (wb_write (be16 l) (?w2\<lparr>wb_pos := 4\<rparr>))"
    using len by (subst writesD [OF writes_push16]) (auto simp: wbuf_ok_def wb_room_def wb_write_def)
  have mem: "wb_mem ?w2 = ?hd @ be16 0 @ ?tl @ bs @ drop (16 + length bs) buf"
    by (simp add: wb_write_def upd_at_def enc_p7_header_def)
  have "wb_mem (wb_write (be16 l) (?w2\<lparr>wb_pos := 4\<rparr>)) = ?hd @ be16 l @ ?tl @ bs @ drop (16 + length bs) buf"
    unfolding wb_write_sel(3) by (simp add: mem upd_at_def)
  then show ?thesis
    using len w1 w2 w3 unfolding p7_frame_pack_def l_def
    by (simp add: wb_write_sel enc_p7_header_def Let_def)
qed

lemma frame_pack_fails:
  assumes body: "writes body bs" and len: "length buf < 16 + length bs \<or> 0xFFFF < 16 + length bs"
  shows "p7_frame_pack body h buf = None"
proof (cases "16 \<le> length buf")
  case True
  let ?w = "\<lparr>wb_mem = buf, wb_pos = 0, wb_end = length buf\<rparr>"
    and ?hz = "h\<lparr>message_length := 0, checksum := 0\<rparr>"
  have ok: "wbuf_ok ?w" "wb_room ?w = length buf" by (simp_all add: wbuf_ok_def wb_room_def)
  have w1: "pack_p7_header h ?w = Some (wb_write (enc_p7_header ?hz) ?w)"
    using True ok by (simp add: writesD [OF writes_pack_p7_header])
  have ok1: "wbuf_ok (wb_write (enc_p7_header ?hz) ?w)" using True ok by (simp add: wbuf_ok_write)
  show ?thesis
    using len True ok unfolding p7_frame_pack_def w1
    by (auto simp: writesD [OF body ok1] wb_room_write wb_write_sel)
next
  case False
  let ?w = "\<lparr>wb_mem = buf, wb_pos = 0, wb_end = length buf\<rparr>"
  have "wbuf_ok ?w" "wb_room ?w = length buf" by (simp_all add: wbuf_ok_def wb_room_def)
  then show ?thesis
    using False by (simp add: p7_frame_pack_def writesD [OF writes_pack_p7_header])
qed

section \<open>Laws of the checksum\<close>

lemma update_checksum_eq:
  assumes "16 \<le> length bs" "length bs \<le> 0xFFFF"
  shows "nfapi_p7_update_checksum crc (bs @ rest) (of_nat (length bs)) =
    Some (upd_at 8 (be32 (nfapi_calculate_checksum crc (bs @ rest) (of_nat (length bs)))) (bs @ rest))"
proof -
  have u: "unat (of_nat (length bs) :: u32) = length bs" "(ucast (of_nat (length bs) :: u32) :: u16) = of_nat (length bs)"
    using assms by (simp_all add: unsigned_of_nat take_bit_nat_eq_self unsigned_ucast_eq word_unat_eq_iff)
  show ?thesis
    unfolding nfapi_p7_update_checksum_def u
    by (subst writesD [OF writes_push32]) (use assms in \<open>auto simp: wbuf_ok_def wb_room_def wb_write_def\<close>)
qed

lemma update_timestamp_eq:
  "16 \<le> length bs \<Longrightarrow> nfapi_p7_update_transmit_timestamp bs t = Some (upd_at 12 (be32 t) bs)"
  unfolding nfapi_p7_update_transmit_timestamp_def
  by (subst writesD [OF writes_push32]) (auto simp: wbuf_ok_def wb_room_def wb_write_def)

lemma upd_header:
  "upd_at 8 (be32 c) (enc_p7_header h @ rest) = enc_p7_header (h\<lparr>checksum := c\<rparr>) @ rest"
  "upd_at 12 (be32 t) (enc_p7_header h @ rest) = enc_p7_header (h\<lparr>transmit_timestamp := t\<rparr>) @ rest"
  by (simp_all add: upd_at_def enc_p7_header_def)

lemma checksum_header:
  "nfapi_calculate_checksum crc (enc_p7_header h @ rest) len = nfapi_calculate_checksum crc
     (enc_p7_header (h\<lparr>checksum := c, transmit_timestamp := t\<rparr>) @ rest) len"
  by (simp add: nfapi_calculate_checksum_def enc_p7_header_def NFAPI_P7_HEADER_LENGTH_def)

lemma be16_surj: "length xs = 2 \<Longrightarrow> \<exists>v. xs = be16 v"
proof -
  assume "length xs = 2"
  then obtain a b where "xs = [a, b]" by (auto simp: length_Suc_conv numeral_2_eq_2)
  then show ?thesis
    using be16_split [of a b]
    by (intro exI [of _ "ucast (push_bit 8 (ucast a) OR ucast b :: u32)"]) (simp add: be16_def)
qed

lemma be32_split:
  fixes a b c d :: u8
  defines "v \<equiv> push_bit 24 (ucast a) OR (push_bit 16 (ucast b) OR (push_bit 8 (ucast c) OR ucast d)) :: u32"
  shows "ucast (drop_bit 24 v) = a" "ucast (drop_bit 16 v) = b" "ucast (drop_bit 8 v) = c" "ucast v = d"
  unfolding v_def by (rule bit_word_eqI, auto simp: bit_simps dest: bit_imp_le_length)+

lemma be32_surj: "length xs = 4 \<Longrightarrow> \<exists>v. xs = be32 v"
proof -
  assume "length xs = 4"
  then obtain a b c d where "xs = [a, b, c, d]" by (auto simp: length_Suc_conv eval_nat_numeral)
  then have "xs = be32 (push_bit 24 (ucast a) OR (push_bit 16 (ucast b) OR (push_bit 8 (ucast c) OR ucast d)))"
    unfolding be32_def be32_split by simp
  then show ?thesis by blast
qed

lemma header_split:
  assumes "16 \<le> length bs"
  obtains h rest where "bs = enc_p7_header h @ rest"
proof -
  define d where "d n m = take n (drop m bs)" for n m
  have "\<exists>v. d 2 m = be16 v" if "m \<le> 14" for m
    using assms that by (intro be16_surj) (simp add: d_def)
  moreover have "\<exists>v. d 4 m = be32 v" if "m \<le> 12" for m
    using assms that by (intro be32_surj) (simp add: d_def)
  ultimately obtain v1 v2 v3 v4 v5 v6 where v: "d 2 0 = be16 v1" "d 2 2 = be16 v2" "d 2 4 = be16 v3"
    "d 2 6 = be16 v4" "d 4 8 = be32 v5" "d 4 12 = be32 v6"
    by (metis (no_types) le0 numeral_le_iff semiring_norm(68,69,71,72,73))
  have split: "drop m bs = d n m @ drop (m + n) bs" for n m
    by (simp add: d_def) (metis add.commute append_take_drop_id drop_drop)
  have "bs = d 2 0 @ drop 2 bs" using split [of 0 2] unfolding drop0 add_0 .
  also have "drop 2 bs = d 2 2 @ drop 4 bs" using split [of 2 2] by simp
  also have "drop 4 bs = d 2 4 @ drop 6 bs" using split [of 4 2] by simp
  also have "drop 6 bs = d 2 6 @ drop 8 bs" using split [of 6 2] by simp
  also have "drop 8 bs = d 4 8 @ drop 12 bs" using split [of 8 4] by simp
  also have "drop 12 bs = d 4 12 @ drop 16 bs" using split [of 12 4] by simp
  finally have "bs = d 2 0 @ d 2 2 @ d 2 4 @ d 2 6 @ d 4 8 @ d 4 12 @ drop 16 bs" .
  then have "bs = enc_p7_header \<lparr>phy_id = v1, message_id = v2, message_length = v3, m_segment_sequence = v4,
      checksum = v5, transmit_timestamp = v6\<rparr> @ drop 16 bs"
    unfolding v by (simp add: enc_p7_header_def)
  then show ?thesis using that by blast
qed

section \<open>Properties\<close>



text \<open>
  C40. What \<open>nfapi_p7_update_checksum\<close> writes into a message of 16 to 65535 bytes is the
  value that the receiver recomputes and compares with, whatever CRC function is used, and
  it stays so when the time stamp is updated afterwards: neither the checksum field
  nor the time stamp is covered by the checksum.
\<close>

theorem checksum_verifies:
  assumes len: "length bs = n" "16 \<le> n" "n \<le> 0xFFFF"
  shows "\<exists>bs' bs''. nfapi_p7_update_checksum crc bs (of_nat n) = Some bs' \<and>
    nfapi_p7_update_transmit_timestamp bs' t = Some bs'' \<and>
    map_option checksum (nfapi_p7_message_header_unpack bs') = Some (nfapi_p7_calculate_checksum crc bs' (of_nat n)) \<and>
    map_option checksum (nfapi_p7_message_header_unpack bs'') = Some (nfapi_p7_calculate_checksum crc bs'' (of_nat n))"
proof -
  obtain h rest where bs: "bs = enc_p7_header h @ rest" using header_split len by blast
  let ?n = "of_nat n :: u32"
  define c where "c = nfapi_calculate_checksum crc bs (of_nat n)"
  have n: "(ucast ?n :: u16) = of_nat n"
    using len by (simp add: unsigned_of_nat take_bit_nat_eq_self unsigned_ucast_eq word_unat_eq_iff)
  have up: "nfapi_p7_update_checksum crc bs ?n = Some (enc_p7_header (h\<lparr>checksum := c\<rparr>) @ rest)"
    using update_checksum_eq [of bs crc "[]"] len(2,3) unfolding append_Nil2 len(1) c_def
    by (simp add: bs upd_header)
  have ts: "nfapi_p7_update_transmit_timestamp (enc_p7_header (h\<lparr>checksum := c\<rparr>) @ rest) t =
      Some (enc_p7_header (h\<lparr>checksum := c, transmit_timestamp := t\<rparr>) @ rest)"
    by (simp add: update_timestamp_eq upd_header)
  have "nfapi_p7_calculate_checksum crc (enc_p7_header (h\<lparr>checksum := c\<rparr>) @ rest) ?n = c"
    using checksum_header [where c = c and t = "transmit_timestamp h", of crc h rest "of_nat n"]
    by (simp add: nfapi_p7_calculate_checksum_def n c_def bs)
  moreover have "nfapi_p7_calculate_checksum crc (enc_p7_header (h\<lparr>checksum := c, transmit_timestamp := t\<rparr>) @ rest) ?n = c"
    using checksum_header [where c = c and t = t, of crc h rest "of_nat n"]
    by (simp add: nfapi_p7_calculate_checksum_def n c_def bs)
  ultimately show ?thesis using up ts by (simp add: header_unpack_enc)
qed

theorem checksum_verifies_witness:
  "\<exists>bs' bs''. nfapi_p7_update_checksum (\<lambda>c bs. c + of_nat (sum_list (map unat bs))) [0, 1, 0, 0x84, 0, 18, 0, 5, 0, 0, 0, 0, 0, 0, 0, 7, 2, 3] 18 = Some bs' \<and>
    nfapi_p7_update_transmit_timestamp bs' 99 = Some bs''"
  using checksum_verifies [of "[0, 1, 0, 0x84, 0, 18, 0, 5, 0, 0, 0, 0, 0, 0, 0, 7, 2, 3]" 18
      "\<lambda>c bs. c + of_nat (sum_list (map unat bs))" 99] by auto

text \<open>
  The writer and the readers of the segmentation field disagree:
  \<open>NFAPI_P7_SET_MSS\<close> uses the layout with the more flag in bit 7, the readers the one with it in
  bit 15.  Read back, a value of \<open>NFAPI_P7_SET_MSS\<close> never has a more flag or a segment
  number, and its sequence number is the low four bits of the one that was stored, so
  messages whose sequence numbers are equal modulo 16 cannot be told apart.
\<close>

theorem mss_layout:
  fixes m g s :: u32
  defines "mss \<equiv> ucast (NFAPI_P7_SET_MSS m g s) :: u16"
  shows "NFAPI_P7_GET_MORE mss = 0 \<and> NFAPI_P7_GET_SEGMENT mss = 0 \<and>
    NFAPI_P7_GET_SEQUENCE (ucast (NFAPI_P7_SET_MSS 0 0 s)) = ucast (s AND 0xF)"
proof -
  have masks: "(0x8000 :: u16) = push_bit 15 (mask 1)" "(0x7F00 :: u16) = push_bit 8 (mask 7)"
    "(0xFF :: u16) = mask 8"
    by (simp_all add: mask_eq_exp_minus_1)
  have set: "NFAPI_P7_SET_MSS a b c = (push_bit 7 (take_bit 1 a) OR push_bit 4 (take_bit 3 b)) OR take_bit 4 c"
    for a b c
    by (simp add: NFAPI_P7_SET_MSS_def take_bit_eq_mask mask_eq_exp_minus_1)
  have low: "s AND 0xF = take_bit 4 s" by (simp add: take_bit_eq_mask mask_eq_exp_minus_1)
  show ?thesis
    unfolding mss_def NFAPI_P7_GET_MORE_def NFAPI_P7_GET_SEGMENT_def NFAPI_P7_GET_SEQUENCE_def set masks low
    by (intro conjI; rule bit_word_eqI) (auto simp: bit_simps)
qed

end
