(* ===== verification/P7_Segment.thy ===== *)
theory P7_Segment
  imports P7_Header Sfn_Time
begin

unbundle bit_operations_syntax

text \<open>
  Segmentation of P7 messages and their reassembly: the sending functions of
  \<^verbatim>\<open>pnf_p7.c\<close> and \<^verbatim>\<open>vnf_p7.c\<close>, the reassembly queues of both and the
  receiving halves of \<^verbatim>\<open>pnf_handle_p7_message\<close> and its siblings.  A datagram is a
  list of bytes; the sending functions return the datagrams they hand to the socket.
  \<^verbatim>\<open>segment_size\<close> is a natural number above 16 (at 16 the C code divides by zero).
  A result \<open>None\<close> of a receiving function is undefined behaviour of C: a copy from a null
  pointer, of a negative length, or past the end of an array or buffer.  Except for the
  reassembly buffer, whose failed allocation the code handles, allocation succeeds.
\<close>

section \<open>Sending\<close>

text \<open>The number of segments of a message of \<open>len\<close> bytes.\<close>

definition segment_count :: "nat \<Rightarrow> nat \<Rightarrow> nat" where
  "segment_count len seg_size =
     (let msg_body_len = len - NFAPI_P7_HEADER_LENGTH; seg_body_len = seg_size - NFAPI_P7_HEADER_LENGTH
      in msg_body_len div seg_body_len + (if msg_body_len mod seg_body_len \<noteq> 0 then 1 else 0))"

text \<open>One turn of the loop: the size of segment \<open>segment\<close> and its bytes, checksum apart.\<close>

definition segment_body_size :: "nat \<Rightarrow> nat \<Rightarrow> nat \<Rightarrow> u16" where
  "segment_body_size len seg_size segment =
     (let msg_body_len = len - NFAPI_P7_HEADER_LENGTH; seg_body_len = seg_size - NFAPI_P7_HEADER_LENGTH
      in if segment + 1 = segment_count len seg_size
         then of_nat (msg_body_len - seg_body_len * segment)
         else of_nat (seg_size - NFAPI_P7_HEADER_LENGTH))"

definition build_segment :: "u8 list \<Rightarrow> nat \<Rightarrow> nat \<Rightarrow> nat \<Rightarrow> nat \<Rightarrow> u8 list" where
  "build_segment tx len seg_size offset segment =
     (let last = (segment + 1 = segment_count len seg_size);
          size = segment_body_size len seg_size segment;
          segment_size = size + of_nat NFAPI_P7_HEADER_LENGTH :: u16;
          hdr = (take NFAPI_P7_HEADER_LENGTH tx)
                  [4 := ucast (drop_bit 8 ((ucast segment_size :: u32) AND 0xFF00)),
                   5 := ucast ((ucast segment_size :: u32) AND 0xFF),
                   6 := (if last then 0 else 0x80) + of_nat segment]
      in hdr @ take (unat size) (drop offset tx))"

definition set_checksum :: "(u32 \<Rightarrow> u8 list \<Rightarrow> u32) \<Rightarrow> bool \<Rightarrow> u8 list \<Rightarrow> nat \<Rightarrow> u8 list" where
  "set_checksum crc enabled buffer len =
     (if enabled then (case nfapi_p7_update_checksum crc buffer (of_nat len) of Some b \<Rightarrow> b | None \<Rightarrow> buffer)
      else buffer)"

fun send_segments :: "(u32 \<Rightarrow> u8 list \<Rightarrow> u32) \<Rightarrow> bool \<Rightarrow> u8 list \<Rightarrow> nat \<Rightarrow> nat \<Rightarrow> nat list \<Rightarrow> nat \<Rightarrow> u8 list list" where
  "send_segments crc cs tx len seg_size [] offset = []"
| "send_segments crc cs tx len seg_size (segment # ss) offset =
     (let d = build_segment tx len seg_size offset segment
      in set_checksum crc cs d (length d)
         # send_segments crc cs tx len seg_size ss (offset + unat (segment_body_size len seg_size segment)))"

record pnf_tx =
  tx_message_buffer :: "u8 list"
  sequence_number :: u32
  segment_size :: nat
  checksum_enabled :: bool

text \<open>
  \<open>pnf_p7_pack_and_send_p7_message\<close>: the return value, the datagrams sent, the header and the
  sender state.  \<open>lock_ok\<close> and \<open>unlock_ok\<close> are the outcomes of the mutex calls; when packing
  fails the bytes it left in the transmit buffer are never sent and are not recorded.
\<close>

definition pnf_p7_pack_and_send_p7_message ::
  "(u32 \<Rightarrow> u8 list \<Rightarrow> u32) \<Rightarrow> bool \<Rightarrow> bool \<Rightarrow> (wbuf \<Rightarrow> wbuf option) \<Rightarrow> p7_header \<Rightarrow> pnf_tx
   \<Rightarrow> int \<times> u8 list list \<times> p7_header \<times> pnf_tx" where
  "pnf_p7_pack_and_send_p7_message crc lock_ok unlock_ok body header st =
     (let header = header\<lparr>m_segment_sequence := ucast (NFAPI_P7_SET_MSS 0 0 (sequence_number st))\<rparr> in
      if \<not> lock_ok then (-1, [], header, st)
      else case p7_frame_pack body header (tx_message_buffer st) of
        None \<Rightarrow> (-1, [], header, st)
      | Some (header, tx, len) \<Rightarrow>
          if segment_size st < len
          then (if unlock_ok then 0 else -1,
                send_segments (crc) (checksum_enabled st) tx len (segment_size st)
                  [0..<segment_count len (segment_size st)] NFAPI_P7_HEADER_LENGTH,
                header, st\<lparr>tx_message_buffer := tx, sequence_number := sequence_number st + 1\<rparr>)
          else (let tx = set_checksum crc (checksum_enabled st) tx len
                in (if unlock_ok then 0 else -1, [take len tx], header,
                    st\<lparr>tx_message_buffer := tx, sequence_number := sequence_number st + 1\<rparr>)))"

text \<open>The NR function differs in the pack function it calls, which is the argument \<open>body\<close>.\<close>

definition pnf_nr_p7_pack_and_send_p7_message ::
  "(u32 \<Rightarrow> u8 list \<Rightarrow> u32) \<Rightarrow> bool \<Rightarrow> bool \<Rightarrow> (wbuf \<Rightarrow> wbuf option) \<Rightarrow> p7_header \<Rightarrow> pnf_tx
   \<Rightarrow> int \<times> u8 list list \<times> p7_header \<times> pnf_tx" where
  "pnf_nr_p7_pack_and_send_p7_message = pnf_p7_pack_and_send_p7_message"

text \<open>
  The VNF updates the time stamp of the packed message after it has copied the header into the
  segment it is about to send.  \<open>stamp i\<close> is the time stamp computed in turn \<open>i\<close>.
\<close>

definition set_timestamp :: "u8 list \<Rightarrow> u32 \<Rightarrow> u8 list" where
  "set_timestamp buffer t =
     (case nfapi_p7_update_transmit_timestamp buffer t of Some b \<Rightarrow> b | None \<Rightarrow> buffer)"

fun vnf_send_segments :: "(u32 \<Rightarrow> u8 list \<Rightarrow> u32) \<Rightarrow> bool \<Rightarrow> (nat \<Rightarrow> u32) \<Rightarrow> u8 list \<Rightarrow> nat \<Rightarrow> nat \<Rightarrow> nat list \<Rightarrow> nat
  \<Rightarrow> u8 list list" where
  "vnf_send_segments crc cs stamp buffer len seg_size [] offset = []"
| "vnf_send_segments crc cs stamp buffer len seg_size (segment # ss) offset =
     (let d = build_segment buffer len seg_size offset segment
      in set_checksum crc cs d (length d)
         # vnf_send_segments crc cs stamp (set_timestamp buffer (stamp segment)) len seg_size ss
             (offset + unat (segment_body_size len seg_size segment)))"

definition vnf_send_packed :: "(u32 \<Rightarrow> u8 list \<Rightarrow> u32) \<Rightarrow> bool \<Rightarrow> (nat \<Rightarrow> u32) \<Rightarrow> nat \<Rightarrow> u8 list \<Rightarrow> nat \<Rightarrow> u8 list list" where
  "vnf_send_packed crc cs stamp seg_size buffer len =
     (if seg_size < len
      then vnf_send_segments crc cs stamp buffer len seg_size [0..<segment_count len seg_size] NFAPI_P7_HEADER_LENGTH
      else [take len (set_timestamp (set_checksum crc cs buffer len) (stamp 0))])"

section \<open>Reassembly queue\<close>

record rx_message =
  rx_sequence_number :: u8
  num_segments_received :: u8
  num_segments_expected :: u8
  segments :: "u8 list option list"
  rx_hr_time :: u32

definition MAX_SEGMENTS :: nat where "MAX_SEGMENTS = 128"

text \<open>The fields that a further segment of a queued message changes.\<close>

definition rx_store :: "nat \<Rightarrow> bool \<Rightarrow> u8 list \<Rightarrow> rx_message \<Rightarrow> rx_message" where
  "rx_store sg m data msg =
     msg\<lparr>segments := (segments msg)[sg := Some data],
         num_segments_received := num_segments_received msg + 1,
         num_segments_expected := (if m then num_segments_expected msg else of_nat sg + 1)\<rparr>"

definition rx_new :: "u32 \<Rightarrow> u8 \<Rightarrow> nat \<Rightarrow> bool \<Rightarrow> u8 list \<Rightarrow> rx_message" where
  "rx_new now sq sg m data =
     \<lparr>rx_sequence_number = sq, num_segments_received = 1,
      num_segments_expected = (if m then 255 else of_nat sg + 1),
      segments = (replicate MAX_SEGMENTS None)[sg := Some data], rx_hr_time = now\<rparr>"

fun update_queued :: "u8 \<Rightarrow> (rx_message \<Rightarrow> rx_message) \<Rightarrow> rx_message list \<Rightarrow> (rx_message \<times> rx_message list) option" where
  "update_queued sq f [] = None"
| "update_queued sq f (msg # q) =
     (if rx_sequence_number msg = sq then Some (f msg, f msg # q)
      else map_option (\<lambda>(msg', q'). (msg', msg # q')) (update_queued sq f q))"

definition rx_reassembly_queue_add_segment ::
  "u32 \<Rightarrow> u8 \<Rightarrow> nat \<Rightarrow> bool \<Rightarrow> u8 list \<Rightarrow> rx_message list \<Rightarrow> rx_message \<times> rx_message list" where
  "rx_reassembly_queue_add_segment now sq sg m data queue =
     (case update_queued sq (rx_store sg m data) queue of
        Some (msg, q) \<Rightarrow> (msg, q)
      | None \<Rightarrow> (let msg = rx_new now sq sg m data in (msg, msg # queue)))"

fun rx_reassembly_queue_remove_msg :: "u8 \<Rightarrow> rx_message list \<Rightarrow> rx_message list" where
  "rx_reassembly_queue_remove_msg sq [] = []"
| "rx_reassembly_queue_remove_msg sq (msg # q) =
     (if rx_sequence_number msg = sq then q else msg # rx_reassembly_queue_remove_msg sq q)"

definition rx_reassembly_queue_remove_old_msgs :: "u32 \<Rightarrow> u32 \<Rightarrow> rx_message list \<Rightarrow> rx_message list" where
  "rx_reassembly_queue_remove_old_msgs now delta q = filter (\<lambda>msg. \<not> delta < now - rx_hr_time msg) q"

section \<open>Receiving\<close>

record rx_state =
  msg_queue :: "rx_message list"
  reassembly_buffer :: bool
  reassembly_buffer_size :: nat

fun rx_length :: "bool \<Rightarrow> u8 list option list \<Rightarrow> u16" where
  "rx_length first [] = 0"
| "rx_length first (s # ss) =
     of_nat (case s of None \<Rightarrow> 0 | Some d \<Rightarrow> length d) - (if first then 0 else of_nat NFAPI_P7_HEADER_LENGTH)
     + rx_length False ss"

fun rx_copy :: "bool \<Rightarrow> u8 list option list \<Rightarrow> nat \<Rightarrow> u8 list option" where
  "rx_copy first [] room = Some []"
| "rx_copy first (s # ss) room =
     (case s of None \<Rightarrow> None
      | Some d \<Rightarrow>
          (let part = (if first then d else drop NFAPI_P7_HEADER_LENGTH d) in
           if (\<not> first \<and> length d < NFAPI_P7_HEADER_LENGTH) \<or> room < length part then None
           else map_option (append part) (rx_copy False ss (room - length part))))"

text \<open>
  All segments are there: make the buffer large enough, copy, and return the bytes to
  dispatch; an inner \<open>None\<close> is the early return after a failed allocation.
\<close>

definition rx_deliver :: "bool \<Rightarrow> rx_message \<Rightarrow> rx_state \<Rightarrow> (u8 list option \<times> rx_state) option" where
  "rx_deliver alloc_ok msg st =
     (let n = unat (num_segments_expected msg) in
      if length (segments msg) < n then None
      else let segs = take n (segments msg); len = rx_length True segs;
               st1 = (if reassembly_buffer_size st < unat len then st\<lparr>reassembly_buffer := False\<rparr> else st)
           in if \<not> reassembly_buffer st1 \<and> \<not> alloc_ok then Some (None, st1)
              else let st2 = (if reassembly_buffer st1 then st1
                              else st1\<lparr>reassembly_buffer := True, reassembly_buffer_size := unat len\<rparr>)
                   in case rx_copy True segs (reassembly_buffer_size st2) of
                        None \<Rightarrow> None
                      | Some bytes \<Rightarrow> Some (Some (take (unat len) bytes), st2))"

text \<open>
  The branch for a segment, with the removal of stale messages that follows it.  The result
  is the state and the complete messages dispatched, with their receive time.
\<close>

definition rx_segment :: "bool \<Rightarrow> u32 \<Rightarrow> u8 \<Rightarrow> nat \<Rightarrow> bool \<Rightarrow> u8 list \<Rightarrow> rx_state \<Rightarrow> (rx_state \<times> (u8 list \<times> u32) list) option" where
  "rx_segment alloc_ok now sequence_num segment_num m data st =
     (case rx_reassembly_queue_add_segment now sequence_num segment_num m data (msg_queue st) of (rx_msg, q) \<Rightarrow>
        let st = st\<lparr>msg_queue := q\<rparr> in
        if num_segments_received rx_msg = num_segments_expected rx_msg then
          (case rx_deliver alloc_ok rx_msg st of None \<Rightarrow> None
           | Some (None, st) \<Rightarrow> Some (st, [])
           | Some (Some bytes, st) \<Rightarrow>
               Some (st\<lparr>msg_queue := rx_reassembly_queue_remove_old_msgs now 1000
                          (rx_reassembly_queue_remove_msg (rx_sequence_number rx_msg) q)\<rparr>,
                     [(bytes, rx_hr_time rx_msg)]))
        else Some (st\<lparr>msg_queue := rx_reassembly_queue_remove_old_msgs now 1000 q\<rparr>, []))"

definition checksum_ok :: "(u32 \<Rightarrow> u8 list \<Rightarrow> u32) \<Rightarrow> bool \<Rightarrow> u8 list \<Rightarrow> p7_header \<Rightarrow> bool" where
  "checksum_ok crc enabled msg h \<longleftrightarrow>
     (enabled \<longrightarrow> nfapi_p7_calculate_checksum crc msg (of_nat (length msg)) = checksum h)"

text \<open>\<open>pnf_handle_p7_message\<close> up to the calls of the dispatcher.\<close>

definition pnf_receive :: "(u32 \<Rightarrow> u8 list \<Rightarrow> u32) \<Rightarrow> bool \<Rightarrow> bool \<Rightarrow> u8 list \<Rightarrow> u32 \<Rightarrow> rx_state
  \<Rightarrow> (rx_state \<times> (u8 list \<times> u32) list) option" where
  "pnf_receive crc cs alloc_ok msg now st =
     (if length msg < 4 then Some (st, [])
      else case nfapi_p7_message_header_unpack msg of None \<Rightarrow> Some (st, [])
      | Some h \<Rightarrow>
          (let m = ucast (NFAPI_P7_GET_MORE (m_segment_sequence h)) :: u8;
               sequence_num = ucast (NFAPI_P7_GET_SEQUENCE (m_segment_sequence h)) :: u8;
               segment_num = ucast (NFAPI_P7_GET_SEGMENT (m_segment_sequence h)) :: u8
           in if \<not> checksum_ok crc cs msg h then Some (st, [])
              else if m = 0 \<and> segment_num = 0
              then (if length msg < 8 then Some (st, [])
                    else Some (st\<lparr>msg_queue := rx_reassembly_queue_remove_old_msgs now 1000 (msg_queue st)\<rparr>,
                               [(msg, now)]))
              else rx_segment alloc_ok now sequence_num (unat segment_num) (m \<noteq> 0) msg st))"

text \<open>
  The VNF: the stale messages are removed in the segment branch only, and a segment from an
  unknown PHY (\<open>phy = None\<close>) is dropped.  \<open>phy\<close> is the reassembly state of the connection
  found for the PHY id of the header.
\<close>

definition vnf_receive :: "(u32 \<Rightarrow> u8 list \<Rightarrow> u32) \<Rightarrow> bool \<Rightarrow> bool \<Rightarrow> u8 list \<Rightarrow> u32 \<Rightarrow> rx_state option
  \<Rightarrow> (rx_state option \<times> u8 list list) option" where
  "vnf_receive crc cs alloc_ok msg now phy =
     (if length msg < 4 then Some (phy, [])
      else case nfapi_p7_message_header_unpack msg of None \<Rightarrow> Some (phy, [])
      | Some h \<Rightarrow>
          (if \<not> checksum_ok crc cs msg h then Some (phy, [])
           else let m = ucast (NFAPI_P7_GET_MORE (m_segment_sequence h)) :: u8;
                    segment_num = ucast (NFAPI_P7_GET_SEGMENT (m_segment_sequence h)) :: u8;
                    sequence_num = ucast (NFAPI_P7_GET_SEQUENCE (m_segment_sequence h)) :: u8
                in if m = 0 \<and> segment_num = 0
                   then (if length msg < 8 then Some (phy, []) else Some (phy, [msg]))
                   else case phy of None \<Rightarrow> Some (None, [])
                        | Some st \<Rightarrow>
                            map_option (\<lambda>(st', out). (Some st', map fst out))
                              (rx_segment alloc_ok now sequence_num (unat segment_num) (m \<noteq> 0) msg st)))"

section \<open>Reassembly of a segmented message\<close>

definition assembled :: "(nat \<Rightarrow> u8 list) \<Rightarrow> nat \<Rightarrow> u8 list" where
  "assembled D n = D 0 @ concat (map (\<lambda>i. drop 16 (D i)) [1..<n])"

text \<open>\<open>D 0\<close>, ..., \<open>D (n - 1)\<close> are datagrams that the receiver takes for the segments of one message.\<close>

definition is_segmentation :: "(u32 \<Rightarrow> u8 list \<Rightarrow> u32) \<Rightarrow> bool \<Rightarrow> nat \<Rightarrow> u8 \<Rightarrow> (nat \<Rightarrow> u8 list) \<Rightarrow> bool" where
  "is_segmentation crc cs n sq D \<longleftrightarrow> 2 \<le> n \<and> n \<le> 128 \<and> length (assembled D n) < 65536 \<and>
     (\<forall>i < n. 16 \<le> length (D i) \<and>
        (\<exists>h. nfapi_p7_message_header_unpack (D i) = Some h \<and> checksum_ok crc cs (D i) h \<and>
             NFAPI_P7_GET_MORE (m_segment_sequence h) = (if i + 1 = n then 0 else 1) \<and>
             NFAPI_P7_GET_SEGMENT (m_segment_sequence h) = of_nat i \<and>
             NFAPI_P7_GET_SEQUENCE (m_segment_sequence h) = ucast sq))"

lemma u8_of_nat: "i < 128 \<Longrightarrow> unat (ucast (of_nat i :: u16) :: u8) = i"
  by (simp add: unsigned_ucast_eq unsigned_of_nat take_bit_nat_eq_self)

lemma pnf_receive_segment:
  assumes seg: "is_segmentation crc cs n sq D" and i: "i < n"
  shows "pnf_receive crc cs alloc_ok (D i) now st = rx_segment alloc_ok now sq i (i + 1 \<noteq> n) (D i) st"
proof -
  obtain h where h: "nfapi_p7_message_header_unpack (D i) = Some h" "checksum_ok crc cs (D i) h"
    "NFAPI_P7_GET_MORE (m_segment_sequence h) = (if i + 1 = n then 0 else 1)"
    "NFAPI_P7_GET_SEGMENT (m_segment_sequence h) = of_nat i"
    "NFAPI_P7_GET_SEQUENCE (m_segment_sequence h) = ucast sq"
    and len: "16 \<le> length (D i)"
    using seg i unfolding is_segmentation_def by blast
  have i128: "i < 128" "2 \<le> n" using seg i by (auto simp: is_segmentation_def)
  have sq: "(ucast (ucast sq :: u16) :: u8) = sq" by (rule bit_word_eqI) (auto simp: bit_simps)
  have "(ucast (of_nat i :: u16) :: u8) = 0 \<longleftrightarrow> i = 0"
    using u8_of_nat [OF i128(1)] by (metis unat_eq_zero)
  then show ?thesis
    using h len i128 u8_of_nat [OF i128(1)]
    by (auto simp: pnf_receive_def Let_def sq)
qed

lemma rx_length_all:
  "\<forall>d \<in> set ds. 16 \<le> length d \<Longrightarrow> rx_length False (map Some ds) = of_nat (length (concat (map (drop 16) ds)))"
  by (induction ds) (auto simp: NFAPI_P7_HEADER_LENGTH_def of_nat_diff)

lemma rx_copy_all:
  "\<forall>d \<in> set ds. 16 \<le> length d \<Longrightarrow> length (concat (map (drop 16) ds)) \<le> room \<Longrightarrow>
   rx_copy False (map Some ds) room = Some (concat (map (drop 16) ds))"
  by (induction ds arbitrary: room) (auto simp: NFAPI_P7_HEADER_LENGTH_def Let_def)

text \<open>The queue entry after the segments in \<open>S\<close> have arrived.\<close>

definition rx_entry :: "nat \<Rightarrow> u8 \<Rightarrow> (nat \<Rightarrow> u8 list) \<Rightarrow> u32 \<Rightarrow> nat set \<Rightarrow> rx_message" where
  "rx_entry n sq D time S =
     \<lparr>rx_sequence_number = sq, num_segments_received = of_nat (card S),
      num_segments_expected = (if n - 1 \<in> S then of_nat n else 255),
      segments = map (\<lambda>i. if i \<in> S then Some (D i) else None) [0..<MAX_SEGMENTS], rx_hr_time = time\<rparr>"

lemma rx_new_entry:
  assumes "2 \<le> n" "n \<le> 128" "i < n"
  shows "rx_new now sq i (i + 1 \<noteq> n) (D i) = rx_entry n sq D now {i}"
  using assms
  by (auto simp: rx_new_def rx_entry_def MAX_SEGMENTS_def list_eq_iff_nth_eq nth_list_update)

lemma rx_store_entry:
  assumes "2 \<le> n" "n \<le> 128" "i < n" "i \<notin> S" "finite S"
  shows "rx_store i (i + 1 \<noteq> n) (D i) (rx_entry n sq D time S) = rx_entry n sq D time (insert i S)"
  using assms
  by (auto simp: rx_store_def rx_entry_def MAX_SEGMENTS_def list_eq_iff_nth_eq nth_list_update add.commute)

lemma rx_entry_incomplete:
  assumes "n \<le> 128" "S \<subset> {..<n}"
  shows "num_segments_received (rx_entry n sq D time S) \<noteq> num_segments_expected (rx_entry n sq D time S)"
proof -
  have c: "card S < n" using psubset_card_mono [OF _ assms(2)] by simp
  have "unat (of_nat (card S) :: u8) = card S" "unat (of_nat n :: u8) = n"
    using c assms(1) by (simp_all add: unsigned_of_nat take_bit_nat_eq_self)
  moreover have "unat (255 :: u8) = 255" by simp
  ultimately show ?thesis using c assms(1) by (auto simp: rx_entry_def word_unat_eq_iff)
qed

lemma rx_entry_complete:
  assumes "2 \<le> n" "n \<le> 128"
  shows "num_segments_received (rx_entry n sq D time {..<n}) = num_segments_expected (rx_entry n sq D time {..<n})"
    "unat (num_segments_expected (rx_entry n sq D time {..<n})) = n"
    "take n (segments (rx_entry n sq D time {..<n})) = Some (D 0) # map Some (map D [1..<n])"
proof -
  show "num_segments_received (rx_entry n sq D time {..<n}) = num_segments_expected (rx_entry n sq D time {..<n})"
    "unat (num_segments_expected (rx_entry n sq D time {..<n})) = n"
    using assms by (simp_all add: rx_entry_def unsigned_of_nat take_bit_nat_eq_self)
  have "take n (segments (rx_entry n sq D time {..<n})) = map (\<lambda>i. Some (D i)) [0..<n]"
    using assms by (simp add: rx_entry_def take_map MAX_SEGMENTS_def min_def)
  also have "[0..<n] = 0 # [1..<n]" using assms by (simp add: upt_conv_Cons)
  finally show "take n (segments (rx_entry n sq D time {..<n})) = Some (D 0) # map Some (map D [1..<n])"
    by (simp add: comp_def)
qed

lemma rx_deliver_complete:
  assumes seg: "is_segmentation crc cs n sq D" and alloc: "alloc_ok"
  shows "\<exists>st'. rx_deliver alloc_ok (rx_entry n sq D time {..<n}) st = Some (Some (assembled D n), st')
     \<and> msg_queue st' = msg_queue st"
proof -
  have n: "2 \<le> n" "n \<le> 128" and len: "length (assembled D n) < 65536"
    and sz: "\<forall>d \<in> set (map D [1..<n]). 16 \<le> length d" "16 \<le> length (D 0)"
    using seg by (auto simp: is_segmentation_def)
  have a: "assembled D n = D 0 @ concat (map (drop 16) (map D [1..<n]))"
    by (simp add: assembled_def comp_def)
  have ul: "unat (of_nat (length (assembled D n)) :: u16) = length (assembled D n)"
    using len by (simp add: unsigned_of_nat take_bit_nat_eq_self)
  define segs where "segs = Some (D 0) # map Some (map D [1..<n])"
  have rl: "rx_length True segs = of_nat (length (assembled D n))"
    using rx_length_all [OF sz(1)] by (simp add: a segs_def)
  have rc: "rx_copy True segs room = Some (assembled D n)" if "length (assembled D n) \<le> room" for room
    using rx_copy_all [OF sz(1), of "room - length (D 0)"] that unfolding a segs_def
    by (simp add: Let_def)
  have ls: "\<not> length (segments (rx_entry n sq D time {..<n})) < n"
    using n by (simp add: rx_entry_def MAX_SEGMENTS_def)
  show ?thesis
    unfolding rx_deliver_def Let_def rx_entry_complete(2,3) [OF n] segs_def [symmetric] rl ul
    using alloc ls rc by auto
qed

fun pnf_receive_all :: "(u32 \<Rightarrow> u8 list \<Rightarrow> u32) \<Rightarrow> bool \<Rightarrow> bool \<Rightarrow> (u8 list \<times> u32) list \<Rightarrow> rx_state
  \<Rightarrow> (rx_state \<times> (u8 list \<times> u32) list) option" where
  "pnf_receive_all crc cs alloc_ok [] st = Some (st, [])"
| "pnf_receive_all crc cs alloc_ok ((d, t) # ds) st =
     (case pnf_receive crc cs alloc_ok d t st of None \<Rightarrow> None
      | Some (st', out) \<Rightarrow>
          (case pnf_receive_all crc cs alloc_ok ds st' of None \<Rightarrow> None
           | Some (st'', out') \<Rightarrow> Some (st'', out @ out')))"

definition no_entry :: "u8 \<Rightarrow> rx_message list \<Rightarrow> bool" where
  "no_entry sq q \<longleftrightarrow> (\<forall>m \<in> set q. rx_sequence_number m \<noteq> sq)"

lemma update_queued_none: "no_entry sq q \<Longrightarrow> update_queued sq f q = None"
  by (induction q) (auto simp: no_entry_def)

lemma no_entry_old: "no_entry sq q \<Longrightarrow> no_entry sq (rx_reassembly_queue_remove_old_msgs now d q)"
  by (auto simp: no_entry_def rx_reassembly_queue_remove_old_msgs_def)

lemma remove_old_Cons:
  "rx_reassembly_queue_remove_old_msgs now d (m # q) =
     (if d < now - rx_hr_time m then rx_reassembly_queue_remove_old_msgs now d q
      else m # rx_reassembly_queue_remove_old_msgs now d q)"
  by (simp add: rx_reassembly_queue_remove_old_msgs_def)

lemma rx_entry_simps [simp]:
  "rx_sequence_number (rx_entry n sq D time S) = sq" "rx_hr_time (rx_entry n sq D time S) = time"
  by (simp_all add: rx_entry_def)

lemma single_psubset: "2 \<le> n \<Longrightarrow> i < n \<Longrightarrow> {i} \<subset> {..<n :: nat}"
proof (rule psubsetI)
  assume n: "2 \<le> n" "i < n"
  then show "{i} \<subseteq> {..<n}" by simp
  have "card {i} \<noteq> card {..<n}" using n by simp
  then show "{i} \<noteq> {..<n}" by metis
qed

lemma rx_segment_first:
  assumes seg: "is_segmentation crc cs n sq D" and i: "i < n" and none: "no_entry sq (msg_queue st)"
  shows "\<exists>q. rx_segment alloc_ok now sq i (i + 1 \<noteq> n) (D i) st =
    Some (st\<lparr>msg_queue := rx_entry n sq D now {i} # q\<rparr>, []) \<and> no_entry sq q"
proof -
  have n: "2 \<le> n" "n \<le> 128" using seg by (auto simp: is_segmentation_def)
  from single_psubset [OF n(1) i] have inc: "num_segments_received (rx_entry n sq D now {i}) \<noteq> num_segments_expected (rx_entry n sq D now {i})"
    by (rule rx_entry_incomplete [OF n(2)])
  have add: "rx_reassembly_queue_add_segment now sq i (i + 1 \<noteq> n) (D i) (msg_queue st) =
      (rx_entry n sq D now {i}, rx_entry n sq D now {i} # msg_queue st)"
    by (simp only: rx_reassembly_queue_add_segment_def update_queued_none [OF none] rx_new_entry [OF n i]
        option.case Let_def)
  show ?thesis
    unfolding rx_segment_def add prod.case Let_def if_not_P [OF inc]
    by (intro exI [of _ "rx_reassembly_queue_remove_old_msgs now 1000 (msg_queue st)"])
       (simp add: no_entry_old [OF none] remove_old_Cons)
qed

lemma rx_segment_next:
  assumes seg: "is_segmentation crc cs n sq D" and i: "i < n" "i \<notin> S" and S: "finite S"
    and q: "msg_queue st = rx_entry n sq D time S # q" "no_entry sq q" and fresh: "now - time \<le> 1000"
    and more_to_come: "insert i S \<subset> {..<n}"
  shows "\<exists>q'. rx_segment alloc_ok now sq i (i + 1 \<noteq> n) (D i) st =
    Some (st\<lparr>msg_queue := rx_entry n sq D time (insert i S) # q'\<rparr>, []) \<and> no_entry sq q'"
proof -
  have n: "2 \<le> n" "n \<le> 128" using seg by (auto simp: is_segmentation_def)
  note inc = rx_entry_incomplete [OF n(2) more_to_come]
  have add: "rx_reassembly_queue_add_segment now sq i (i + 1 \<noteq> n) (D i) (msg_queue st) =
      (rx_entry n sq D time (insert i S), rx_entry n sq D time (insert i S) # q)"
    by (simp only: rx_reassembly_queue_add_segment_def q(1) update_queued.simps rx_entry_simps
        rx_store_entry [OF n i S] refl if_True option.case prod.case)
  show ?thesis
    unfolding rx_segment_def add prod.case Let_def if_not_P [OF inc]
    by (intro exI [of _ "rx_reassembly_queue_remove_old_msgs now 1000 q"])
       (use fresh in \<open>simp add: no_entry_old [OF q(2)] remove_old_Cons not_less\<close>)
qed

lemma rx_segment_last:
  assumes seg: "is_segmentation crc cs n sq D" and i: "i < n" "i \<notin> S" and S: "finite S"
    and q: "msg_queue st = rx_entry n sq D time S # q" "no_entry sq q"
    and full: "insert i S = {..<n}"
  shows "\<exists>st'. rx_segment True now sq i (i + 1 \<noteq> n) (D i) st = Some (st', [(assembled D n, time)])
    \<and> no_entry sq (msg_queue st')"
proof -
  have n: "2 \<le> n" "n \<le> 128" using seg by (auto simp: is_segmentation_def)
  let ?e = "rx_entry n sq D time {..<n}"
  have add: "rx_reassembly_queue_add_segment now sq i (i + 1 \<noteq> n) (D i) (msg_queue st) = (?e, ?e # q)"
    by (simp add: rx_reassembly_queue_add_segment_def q(1) rx_store_entry [OF n i S, simplified] full)
  obtain st' where d: "rx_deliver True ?e (st\<lparr>msg_queue := ?e # q\<rparr>) = Some (Some (assembled D n), st')"
    using rx_deliver_complete [OF seg, of True] by blast
  show ?thesis
    unfolding rx_segment_def add
    using rx_entry_complete(1) [OF n] d no_entry_old [OF q(2)]
    by (simp add: Let_def)
qed

lemma pnf_receive_rest:
  assumes seg: "is_segmentation crc cs n sq D"
  shows "distinct (map fst evs) \<Longrightarrow> fst ` set evs = {..<n} - S \<Longrightarrow> S \<subset> {..<n} \<Longrightarrow>
    msg_queue st = rx_entry n sq D time S # q \<Longrightarrow> no_entry sq q \<Longrightarrow>
    (\<And>i t. (i, t) \<in> set evs \<Longrightarrow> t - time \<le> 1000) \<Longrightarrow>
    \<exists>st'. pnf_receive_all crc cs True (map (\<lambda>(i, t). (D i, t)) evs) st = Some (st', [(assembled D n, time)])
      \<and> no_entry sq (msg_queue st')"
proof (induction evs arbitrary: S st q)
  case Nil
  then show ?case by auto
next
  case (Cons ev evs)
  obtain i t where ev: "ev = (i, t)" by (cases ev)
  have i: "i < n" "i \<notin> S" and fin: "finite S" and fresh: "t - time \<le> 1000"
    using Cons.prems(2,3,6) ev finite_subset [of S "{..<n}"] by auto
  have "insert i (fst ` set evs) = {..<n} - S" "i \<notin> fst ` set evs"
    using Cons.prems(1,2) unfolding ev by simp_all
  then have rest: "fst ` set evs = {..<n} - insert i S" by (metis Diff_insert Diff_insert_absorb)
  note rc = pnf_receive_segment [OF seg i(1)]
  show ?case
  proof (cases "insert i S = {..<n}")
    case True
    then have "evs = []" using rest by simp
    then show ?thesis
      using rx_segment_last [OF seg i fin Cons.prems(4,5) True, of t] by (auto simp: ev rc)
  next
    case False
    then have sub: "insert i S \<subset> {..<n}" using Cons.prems(3) i by auto
    obtain q' where q': "rx_segment True t sq i (i + 1 \<noteq> n) (D i) st =
        Some (st\<lparr>msg_queue := rx_entry n sq D time (insert i S) # q'\<rparr>, [])" "no_entry sq q'"
      using rx_segment_next [OF seg i fin Cons.prems(4,5) fresh sub] by blast
    have "\<exists>st'. pnf_receive_all crc cs True (map (\<lambda>(i, t). (D i, t)) evs)
        (st\<lparr>msg_queue := rx_entry n sq D time (insert i S) # q'\<rparr>) = Some (st', [(assembled D n, time)])
      \<and> no_entry sq (msg_queue st')"
      using Cons.prems(1,6) rest sub q'(2) by (intro Cons.IH) auto
    then show ?thesis using q'(1) by (auto simp: ev rc)
  qed
qed

lemma pnf_receive_any_order:
  assumes seg: "is_segmentation crc cs n sq D" and none: "no_entry sq (msg_queue st)"
    and evs: "distinct (map fst evs)" "fst ` set evs = {..<n}"
    and fresh: "\<And>i t. (i, t) \<in> set evs \<Longrightarrow> t - snd (hd evs) \<le> 1000"
  shows "\<exists>st'. pnf_receive_all crc cs True (map (\<lambda>(i, t). (D i, t)) evs) st =
      Some (st', [(assembled D n, snd (hd evs))]) \<and> no_entry sq (msg_queue st')"
proof -
  have n: "2 \<le> n" using seg by (auto simp: is_segmentation_def)
  have "0 \<in> fst ` set evs" using evs(2) n by simp
  then obtain i t rest where evs': "evs = (i, t) # rest"
    by (cases evs) auto
  have i: "i < n" using evs(2) evs' by auto
  obtain q where q: "rx_segment True t sq i (i + 1 \<noteq> n) (D i) st =
      Some (st\<lparr>msg_queue := rx_entry n sq D t {i} # q\<rparr>, [])" "no_entry sq q"
    using rx_segment_first [OF seg i none] by blast
  note sub = single_psubset [OF n i]
  have "insert i (fst ` set rest) = {..<n}" "i \<notin> fst ` set rest"
    using evs unfolding evs' by simp_all
  then have rest: "fst ` set rest = {..<n} - {i}" by (metis Diff_insert_absorb)
  have fr: "t' - t \<le> 1000" if "(i', t') \<in> set rest" for i' t'
    using fresh [of i' t'] that unfolding evs' by simp
  have "\<exists>st'. pnf_receive_all crc cs True (map (\<lambda>(i, t). (D i, t)) rest)
      (st\<lparr>msg_queue := rx_entry n sq D t {i} # q\<rparr>) = Some (st', [(assembled D n, t)]) \<and> no_entry sq (msg_queue st')"
    using evs(1) by (intro pnf_receive_rest [OF seg _ rest sub _ q(2)]) (simp_all add: evs' fr)
  then show ?thesis
    using q(1) by (auto simp: evs' pnf_receive_segment [OF seg i])
qed

section \<open>Duplicated segments\<close>

lemma pnf_receive_partial:
  assumes seg: "is_segmentation crc cs n sq D"
  shows "distinct (map fst evs) \<Longrightarrow> fst ` set evs \<inter> S = {} \<Longrightarrow> fst ` set evs \<union> S \<subset> {..<n} \<Longrightarrow>
    msg_queue st = rx_entry n sq D time S # q \<Longrightarrow> no_entry sq q \<Longrightarrow>
    (\<And>i t. (i, t) \<in> set evs \<Longrightarrow> t - time \<le> 1000) \<Longrightarrow>
    \<exists>st' q'. pnf_receive_all crc cs True (map (\<lambda>(i, t). (D i, t)) evs) st = Some (st', []) \<and>
      msg_queue st' = rx_entry n sq D time (fst ` set evs \<union> S) # q' \<and> no_entry sq q'"
proof (induction evs arbitrary: S st q)
  case Nil
  then show ?case by auto
next
  case (Cons ev evs)
  obtain i t where ev: "ev = (i, t)" by (cases ev)
  have i: "i < n" "i \<notin> S" and fin: "finite S" and fresh: "t - time \<le> 1000"
    using Cons.prems(2,3,6) ev finite_subset [of S "{..<n}"] by auto
  have un: "fst ` set (ev # evs) \<union> S = fst ` set evs \<union> insert i S" by (simp add: ev)
  have sub: "insert i S \<subset> {..<n}" using Cons.prems(3) unfolding un by blast
  obtain q' where q': "rx_segment True t sq i (i + 1 \<noteq> n) (D i) st =
      Some (st\<lparr>msg_queue := rx_entry n sq D time (insert i S) # q'\<rparr>, [])" "no_entry sq q'"
    using rx_segment_next [OF seg i fin Cons.prems(4,5) fresh sub] by blast
  have "\<exists>st' q''. pnf_receive_all crc cs True (map (\<lambda>(i, t). (D i, t)) evs)
      (st\<lparr>msg_queue := rx_entry n sq D time (insert i S) # q'\<rparr>) = Some (st', []) \<and>
    msg_queue st' = rx_entry n sq D time (fst ` set evs \<union> insert i S) # q'' \<and> no_entry sq q''"
    using Cons.prems(1,2,6) Cons.prems(3) [unfolded un] q'(2) by (intro Cons.IH) (auto simp: ev)
  then show ?case using q'(1) unfolding un by (auto simp: ev pnf_receive_segment [OF seg i(1)])
qed

lemma rx_copy_missing: "i < length ss \<Longrightarrow> ss ! i = None \<Longrightarrow> rx_copy first ss room = None"
  by (induction ss arbitrary: i first room) (auto simp: nth_Cons Let_def split: nat.splits option.splits)

lemma rx_segment_duplicate:
  assumes seg: "is_segmentation crc cs n sq D" and S: "S = {..<n} - {j}" "j < n - 1" and i: "i \<in> S"
    and q: "msg_queue st = rx_entry n sq D time S # q"
  shows "rx_segment True now sq i (i + 1 \<noteq> n) (D i) st = None"
proof -
  have n: "2 \<le> n" "n \<le> 128" using seg by (auto simp: is_segmentation_def)
  let ?e = "rx_store i (i + 1 \<noteq> n) (D i) (rx_entry n sq D time S)"
  have "card S = n - 1" using S n by simp
  then have num: "num_segments_received ?e = of_nat n" "num_segments_expected ?e = of_nat n"
    using n S i by (auto simp: rx_store_def rx_entry_def of_nat_diff)
  have un: "unat (of_nat n :: u8) = n" using n by (simp add: unsigned_of_nat take_bit_nat_eq_self)
  have ij: "i \<noteq> j" using i S by simp
  have "segments ?e ! j = None" "length (segments ?e) = 128"
    using S n ij by (simp_all add: rx_store_def rx_entry_def MAX_SEGMENTS_def)
  then have "rx_copy True (take n (segments ?e)) room = None" for room
    using S n by (intro rx_copy_missing [of j]) auto
  then have "rx_deliver True ?e st' = None" for st'
    unfolding rx_deliver_def num un Let_def by simp
  then show ?thesis
    using num by (simp add: rx_segment_def rx_reassembly_queue_add_segment_def q Let_def)
qed

lemma receive_all_append:
  "pnf_receive_all crc cs al ds st = Some (st', out) \<Longrightarrow>
   pnf_receive_all crc cs al (ds @ es) st =
     map_option (\<lambda>(st'', out'). (st'', out @ out')) (pnf_receive_all crc cs al es st')"
  by (induction ds arbitrary: st out) (auto simp: option.map_id split: option.splits prod.splits)

section \<open>The segments that are sent\<close>

text \<open>The body of segment \<open>i\<close> and the header it is sent with.\<close>

definition chunk :: "nat \<Rightarrow> nat \<Rightarrow> u8 list \<Rightarrow> nat \<Rightarrow> u8 list" where
  "chunk n b body i = (if i + 1 = n then drop (b * i) body else take b (drop (b * i) body))"

definition segment_mss :: "nat \<Rightarrow> nat \<Rightarrow> u16 \<Rightarrow> u16" where
  "segment_mss n i mss =
     ucast (push_bit 8 (ucast ((if i + 1 = n then 0 else 0x80) + of_nat i :: u8)) OR ucast (ucast mss :: u8) :: u32)"

definition segment_header :: "nat \<Rightarrow> nat \<Rightarrow> u8 list \<Rightarrow> p7_header \<Rightarrow> nat \<Rightarrow> p7_header" where
  "segment_header n b body h i = h\<lparr>message_length := of_nat (16 + length (chunk n b body i)),
     m_segment_sequence := segment_mss n i (m_segment_sequence h)\<rparr>"

lemma segment_count_bounds:
  assumes "16 < seg" "seg < len"
  defines "n \<equiv> segment_count len seg" and "b \<equiv> seg - 16" and "B \<equiv> len - 16"
  shows "2 \<le> n" "b * (n - 1) < B" "B \<le> b * n" "0 < b"
proof -
  show b: "0 < b" using assms by simp
  define q r where "q = B div b" and "r = B mod b"
  then have B: "B = b * q + r" "r < b" using b by simp_all
  have n: "n = q + (if r \<noteq> 0 then 1 else 0)"
    by (simp add: n_def segment_count_def NFAPI_P7_HEADER_LENGTH_def q_def r_def B_def b_def Let_def)
  have "0 < B" "b < B" using assms by auto
  then show lt: "b * (n - 1) < B"
    using B b n by (cases "r = 0"; cases q) auto
  show le: "B \<le> b * n" using B n by auto
  have "n \<noteq> 0" using le \<open>0 < B\<close> by (metis mult_0_right not_le)
  moreover have "n \<noteq> 1" using le \<open>b < B\<close> by auto
  ultimately show "2 \<le> n" by linarith
qed

lemma length_chunk:
  assumes "16 < seg" "seg < len" "length body = len - 16" "i < segment_count len seg"
  shows "length (chunk (segment_count len seg) (seg - 16) body i) =
    (if i + 1 = segment_count len seg then len - 16 - (seg - 16) * i else seg - 16)"
proof (cases "i + 1 = segment_count len seg")
  case True
  then show ?thesis using assms by (simp add: chunk_def)
next
  case False
  note n = segment_count_bounds [OF assms(1,2)]
  have "i + 1 \<le> segment_count len seg - 1" using False assms(4) by linarith
  then have "(seg - 16) * (i + 1) \<le> (seg - 16) * (segment_count len seg - 1)" by (rule mult_le_mono2)
  then have "(seg - 16) * i + (seg - 16) \<le> len - 16" using n(2) by simp
  then show ?thesis using False assms(3) by (simp add: chunk_def)
qed

lemma segment_body_size_eq:
  assumes "16 < seg" "seg < len" "seg < 65536" "len < 65536" "length body = len - 16" "i < segment_count len seg"
  shows "segment_body_size len seg i = of_nat (length (chunk (segment_count len seg) (seg - 16) body i))"
    "unat (segment_body_size len seg i) = length (chunk (segment_count len seg) (seg - 16) body i)"
proof -
  show eq: "segment_body_size len seg i = of_nat (length (chunk (segment_count len seg) (seg - 16) body i))"
    using length_chunk [OF assms(1,2,5,6)]
    by (simp add: segment_body_size_def NFAPI_P7_HEADER_LENGTH_def Let_def)
  have "length (chunk (segment_count len seg) (seg - 16) body i) < 65536"
    unfolding length_chunk [OF assms(1,2,5,6)] using assms(3,4) by auto
  then show "unat (segment_body_size len seg i) = length (chunk (segment_count len seg) (seg - 16) body i)"
    unfolding eq by (simp add: unsigned_of_nat take_bit_nat_eq_self)
qed

lemma be16_segment_mss:
  "be16 (segment_mss n i mss) = [(if i + 1 = n then 0 else 0x80) + of_nat i, ucast mss]"
  unfolding segment_mss_def be16_def be16_split by simp

lemma build_segment_eq:
  assumes "16 < seg" "seg < len" "seg < 65536" "len < 65536" "length body = len - 16" "i < segment_count len seg"
  defines "n \<equiv> segment_count len seg" and "b \<equiv> seg - 16"
  shows "build_segment (enc_p7_header h @ body @ rest) len seg (16 + b * i) i =
    enc_p7_header (segment_header n b body h i) @ chunk n b body i"
proof -
  note sz = segment_body_size_eq [OF assms(1-6), folded n_def b_def]
  have "length (chunk n b body i) \<le> length body - b * i"
    by (simp add: chunk_def)
  moreover have "take (length (chunk n b body i)) (drop (b * i) body) = chunk n b body i"
    by (cases "b \<le> length body - b * i") (auto simp: chunk_def)
  moreover have "b * i \<le> length body"
  proof -
    have "i \<le> n - 1" using assms(6) by (simp add: n_def)
    then have "b * i \<le> b * (n - 1)" by (rule mult_le_mono2)
    then show ?thesis
      using segment_count_bounds(2) [OF assms(1,2), folded n_def b_def] unfolding assms(5) by linarith
  qed
  ultimately have body: "take (length (chunk n b body i)) (drop (b * i) (body @ rest)) = chunk n b body i"
    by simp
  have hdr: "(enc_p7_header h)[4 := ucast (drop_bit 8 v), 5 := ucast v, 6 := a] =
      enc_p7_header (h\<lparr>message_length := v, m_segment_sequence := w\<rparr>)"
    if "be16 w = [a, ucast (m_segment_sequence h)]" for v a w
    using that by (simp add: enc_p7_header_def) (simp add: be16_def)
  show ?thesis
    unfolding build_segment_def Let_def sz(2) be16_masked NFAPI_P7_HEADER_LENGTH_def segment_header_def
    unfolding sz(1)
    using body hdr [OF be16_segment_mss [of n i]]
    by (simp add: n_def add.commute)
qed

lemma send_segments_eq:
  assumes "16 < seg" "seg < len" "seg < 65536" "len < 65536" "length body = len - 16"
    and k: "k \<le> segment_count len seg"
  defines "n \<equiv> segment_count len seg" and "b \<equiv> seg - 16"
  shows "send_segments crc cs (enc_p7_header h @ body @ rest) len seg [k..<n] (16 + b * k) =
    map (\<lambda>i. let d = enc_p7_header (segment_header n b body h i) @ chunk n b body i
             in set_checksum crc cs d (length d)) [k..<n]"
  using k
proof (induction "n - k" arbitrary: k)
  case 0
  then show ?case by (simp add: n_def)
next
  case (Suc m)
  then have kn: "k < n" by simp
  have IH: "send_segments crc cs (enc_p7_header h @ body @ rest) len seg [Suc k..<n] (16 + b * Suc k) =
    map (\<lambda>i. let d = enc_p7_header (segment_header n b body h i) @ chunk n b body i
             in set_checksum crc cs d (length d)) [Suc k..<n]"
    using Suc.hyps(2) kn by (intro Suc.hyps(1)) (auto simp: n_def)
  have step: "send_segments crc cs (enc_p7_header h @ body @ rest) len seg [Suc k..<n]
      (16 + b * k + unat (segment_body_size len seg k)) =
    send_segments crc cs (enc_p7_header h @ body @ rest) len seg [Suc k..<n] (16 + b * Suc k)"
  proof (cases "Suc k = n")
    case False
    then have "unat (segment_body_size len seg k) = b"
      using segment_body_size_eq(2) [OF assms(1-5), of k] length_chunk [OF assms(1,2,5), of k] kn
      by (simp add: n_def b_def)
    then have "16 + b * k + unat (segment_body_size len seg k) = 16 + b * Suc k" by simp
    then show ?thesis by (simp only:)
  qed simp
  show ?case
    unfolding upt_conv_Cons [OF kn] send_segments.simps step IH list.map
    using build_segment_eq [OF assms(1-5), of k h rest] kn by (simp add: n_def b_def Let_def)
qed

lemma concat_chunks:
  assumes "16 < seg" "seg < len" "length body = len - 16"
  defines "n \<equiv> segment_count len seg" and "b \<equiv> seg - 16"
  shows "concat (map (chunk n b body) [0..<n]) = body"
proof -
  note bnd = segment_count_bounds [OF assms(1,2), folded n_def b_def]
  have "concat (map (chunk n b body) [0..<k]) = take (b * k) body" if "k < n" for k
    using that
  proof (induction k)
    case (Suc k)
    have "take (b * k + b) body = take (b * k) body @ take b (drop (b * k) body)" by (rule take_add)
    then show ?case using Suc by (simp add: chunk_def add.commute)
  qed simp
  moreover obtain k where "n = Suc k" using bnd(1) by (cases n) auto
  ultimately show ?thesis by (simp add: chunk_def)
qed

section \<open>Sent segments are taken for a segmentation\<close>

lemma u8_more_bit:
  assumes "i < 128"
  shows "(0x80 :: u8) + of_nat i = 0x80 OR of_nat i" "take_bit 7 (of_nat i :: u8) = of_nat i"
    "\<not> bit (of_nat i :: u8) 7"
proof -
  show t: "take_bit 7 (of_nat i :: u8) = of_nat i"
    using assms by (simp add: word_unat_eq_iff unsigned_take_bit_eq unsigned_of_nat take_bit_nat_eq_self)
  then show nb: "\<not> bit (of_nat i :: u8) 7" by (metis bit_take_bit_iff less_irrefl)
  have "(0x80 :: u8) = push_bit 7 1" by simp
  then have "bit (0x80 :: u8) j \<longleftrightarrow> j = 7" for j
    by (simp only: bit_push_bit_iff) (auto simp: bit_1_iff)
  then have "(0x80 :: u8) AND of_nat i = 0"
    using nb by (intro bit_word_eqI) (simp only: bit_and_iff bit_0_eq, auto)
  then show "(0x80 :: u8) + of_nat i = 0x80 OR of_nat i"
    using word_plus_and_or [of "0x80 :: u8" "of_nat i"] by simp
qed

lemma segment_mss_get:
  assumes "i < 128"
  shows "NFAPI_P7_GET_MORE (segment_mss n i mss) = (if i + 1 = n then 0 else 1)"
    "NFAPI_P7_GET_SEGMENT (segment_mss n i mss) = of_nat i"
    "NFAPI_P7_GET_SEQUENCE (segment_mss n i mss) = ucast (ucast mss :: u8)"
proof -
  define a :: u8 where "a = (if i + 1 = n then 0 else 0x80) + of_nat i"
  have c: "(0x80 :: u8) = push_bit 7 1" by simp
  have a: "a = push_bit 7 (of_bool (i + 1 \<noteq> n)) OR of_nat i"
    using u8_more_bit(1) [OF assms] by (simp add: a_def)
  have masks: "(0x8000 :: u16) = push_bit 15 (mask 1)" "(0x7F00 :: u16) = push_bit 8 (mask 7)"
    "(0xFF :: u16) = mask 8"
    by (simp_all add: mask_eq_exp_minus_1)
  have b7: "bit a 7 \<longleftrightarrow> i + 1 \<noteq> n"
    using u8_more_bit(3) [OF assms] by (auto simp: a bit_simps)
  have t7: "take_bit 7 a = of_nat i"
  proof -
    have "take_bit 7 (push_bit 7 (of_bool (i + 1 \<noteq> n)) :: u8) = 0"
      by (rule bit_word_eqI) (auto simp: bit_simps)
    then show ?thesis using u8_more_bit(2) [OF assms] by (simp add: a)
  qed
  have v: "segment_mss n i mss = ucast (push_bit 8 (ucast a) OR ucast (ucast mss :: u8) :: u32)"
    by (simp add: segment_mss_def a_def)
  have "NFAPI_P7_GET_MORE (segment_mss n i mss) = of_bool (bit a 7)"
    unfolding NFAPI_P7_GET_MORE_def v masks
    by (rule bit_word_eqI) (auto simp: bit_simps)
  then show "NFAPI_P7_GET_MORE (segment_mss n i mss) = (if i + 1 = n then 0 else 1)" by (simp add: b7)
  have "NFAPI_P7_GET_SEGMENT (segment_mss n i mss) = ucast (take_bit 7 a)"
    unfolding NFAPI_P7_GET_SEGMENT_def v masks
    by (rule bit_word_eqI) (auto simp: bit_simps)
  also have "\<dots> = of_nat i"
    using assms by (simp add: t7 word_unat_eq_iff unsigned_ucast_eq unsigned_of_nat take_bit_nat_eq_self)
  finally show "NFAPI_P7_GET_SEGMENT (segment_mss n i mss) = of_nat i" .
  show "NFAPI_P7_GET_SEQUENCE (segment_mss n i mss) = ucast (ucast mss :: u8)"
    unfolding NFAPI_P7_GET_SEQUENCE_def v masks
    by (rule bit_word_eqI) (auto simp: bit_simps)
qed

lemma set_checksum_header:
  fixes h :: p7_header
  assumes "16 + length c \<le> 0xFFFF"
  defines "d \<equiv> enc_p7_header h @ c"
  shows "\<exists>cks. set_checksum crc cs d (length d) = enc_p7_header (h\<lparr>checksum := cks\<rparr>) @ c \<and>
    checksum_ok crc cs (set_checksum crc cs d (length d)) (h\<lparr>checksum := cks\<rparr>)"
proof (cases cs)
  case True
  define k where "k = nfapi_calculate_checksum crc d (of_nat (length d))"
  have d: "16 \<le> length d" "length d \<le> 0xFFFF" "length d = 16 + length c" using assms by (simp_all add: d_def)
  have n: "(ucast (of_nat (length d) :: u32) :: u16) = of_nat (length d)"
    using d(2) by (simp only: word_unat_eq_iff unsigned_ucast_eq unsigned_of_nat) (simp add: take_bit_nat_eq_self)
  have up: "upd_at 8 (be32 k) d = enc_p7_header (h\<lparr>checksum := k\<rparr>) @ c"
    by (simp add: d_def upd_header)
  have e: "set_checksum crc cs d (length d) = enc_p7_header (h\<lparr>checksum := k\<rparr>) @ c"
    using update_checksum_eq [OF d(1,2), of crc "[]"] True
    unfolding append_Nil2 k_def [symmetric] up by (simp only: set_checksum_def if_True option.case)
  have "nfapi_calculate_checksum crc (enc_p7_header (h\<lparr>checksum := k\<rparr>) @ c) (of_nat (length d)) = k"
    using checksum_header [where c = k and t = "transmit_timestamp h", of crc h c "of_nat (length d)"]
    by (simp add: k_def d_def)
  moreover have l: "length (enc_p7_header (h\<lparr>checksum := k\<rparr>) @ c) = length d" by (simp add: d_def)
  ultimately have "checksum_ok crc cs (set_checksum crc cs d (length d)) (h\<lparr>checksum := k\<rparr>)"
    unfolding e checksum_ok_def nfapi_p7_calculate_checksum_def l n by simp
  then show ?thesis using e by blast
next
  case False
  have "h\<lparr>checksum := checksum h\<rparr> = h" by simp
  then show ?thesis using False by (auto simp: set_checksum_def checksum_ok_def d_def intro!: exI [of _ "checksum h"])
qed

lemma sent_is_segmentation:
  fixes h :: p7_header and rest :: "u8 list" and crc :: "u32 \<Rightarrow> u8 list \<Rightarrow> u32" and cs :: bool
  assumes seg: "16 < seg" "seg < len" "seg < 65536" "len \<le> 0xFFFF" and body: "length body = len - 16"
    and n128: "segment_count len seg \<le> 128"
  defines "n \<equiv> segment_count len seg" and "b \<equiv> seg - 16"
  defines "ds \<equiv> send_segments crc cs (enc_p7_header h @ body @ rest) len seg [0..<n] 16"
  shows "is_segmentation crc cs n (ucast (m_segment_sequence h)) (nth ds) \<and> length ds = n \<and>
    (\<exists>h'. assembled (nth ds) n = enc_p7_header h' @ body \<and> phy_id h' = phy_id h \<and> message_id h' = message_id h \<and>
       transmit_timestamp h' = transmit_timestamp h)"
proof -
  let ?d = "\<lambda>i. enc_p7_header (segment_header n b body h i) @ chunk n b body i"
  let ?s = "\<lambda>i. set_checksum crc cs (?d i) (length (?d i))"
  have len: "len < 65536" using seg(4) by simp
  have n: "2 \<le> n" "n \<le> 128" using segment_count_bounds(1) [OF seg(1,2)] n128 by (simp_all add: n_def)
  have ds: "ds = map ?s [0..<n]"
    using send_segments_eq [OF seg(1-3) len body, of 0 crc cs h rest] by (simp add: ds_def n_def b_def Let_def)
  then have lds: "length ds = n" by simp
  have "length (chunk n b body i) \<le> len - 16" if "i < n" for i
  proof -
    have "length (chunk n b body i) \<le> length body" by (auto simp: chunk_def min_def)
    then show ?thesis by (simp add: body)
  qed
  then have "\<exists>cks. ?s i = enc_p7_header ((segment_header n b body h i)\<lparr>checksum := cks\<rparr>) @ chunk n b body i \<and>
      checksum_ok crc cs (?s i) ((segment_header n b body h i)\<lparr>checksum := cks\<rparr>)" if "i < n" for i
    using that seg(1,2,4) by (intro set_checksum_header) fastforce
  then obtain cks where cks: "\<And>i. i < n \<Longrightarrow> ds ! i = enc_p7_header ((segment_header n b body h i)\<lparr>checksum := cks i\<rparr>) @ chunk n b body i"
    "\<And>i. i < n \<Longrightarrow> checksum_ok crc cs (ds ! i) ((segment_header n b body h i)\<lparr>checksum := cks i\<rparr>)"
    unfolding ds by simp metis
  have tail: "map (\<lambda>i. drop 16 (ds ! i)) [1..<n] = map (chunk n b body) [1..<n]"
    using cks(1) by (intro map_cong) auto
  have "[0..<n] = 0 # [1..<n]" using n by (simp add: upt_conv_Cons)
  then have ch: "chunk n b body 0 @ concat (map (chunk n b body) [1..<n]) = body"
    using concat_chunks [OF seg(1,2) body] by (simp add: n_def b_def)
  have asm: "assembled (nth ds) n = enc_p7_header ((segment_header n b body h 0)\<lparr>checksum := cks 0\<rparr>) @ body"
    unfolding assembled_def tail using cks(1) [of 0] n ch by simp
  have "is_segmentation crc cs n (ucast (m_segment_sequence h)) (nth ds)"
    unfolding is_segmentation_def
  proof (intro conjI allI impI)
    show "length (assembled (nth ds) n) < 65536" using asm body seg(1,2,4) by simp
    fix i assume i: "i < n"
    let ?h = "(segment_header n b body h i)\<lparr>checksum := cks i\<rparr>"
    have "m_segment_sequence ?h = segment_mss n i (m_segment_sequence h)" by (simp add: segment_header_def)
    then show "\<exists>g. nfapi_p7_message_header_unpack (ds ! i) = Some g \<and> checksum_ok crc cs (ds ! i) g \<and>
        NFAPI_P7_GET_MORE (m_segment_sequence g) = (if i + 1 = n then 0 else 1) \<and>
        NFAPI_P7_GET_SEGMENT (m_segment_sequence g) = of_nat i \<and>
        NFAPI_P7_GET_SEQUENCE (m_segment_sequence g) = ucast (ucast (m_segment_sequence h) :: u8)"
      using cks [OF i] i n segment_mss_get [of i n] header_unpack_enc [of ?h "chunk n b body i"]
      by (intro exI [of _ ?h]) simp
    show "16 \<le> length (ds ! i)" using cks(1) [OF i] by simp
  qed (use n in simp_all)
  then show ?thesis using lds asm by (auto simp: segment_header_def)
qed

section \<open>Properties\<close>



text \<open>
  Segments are counted, not recorded: when all segments but one (not the last one) of a
  message have arrived once and one of them arrives a second time, the receiver takes the
  message for complete and copies from the null pointer of the missing segment.
\<close>

theorem duplicate_segment_undefined:
  assumes seg: "is_segmentation crc cs n sq D" and none: "no_entry sq (msg_queue st)"
    and evs: "distinct (map fst evs)" "fst ` set evs = {..<n} - {j}" "j < n - 1"
    and dup: "i \<in> fst ` set evs"
    and fresh: "\<And>i t. (i, t) \<in> set evs \<Longrightarrow> t - snd (hd evs) \<le> 1000"
  shows "pnf_receive_all crc cs True (map (\<lambda>(i, t). (D i, t)) (evs @ [(i, t)])) st = None"
proof -
  have n: "2 \<le> n" using seg by (auto simp: is_segmentation_def)
  obtain k u rest where evs': "evs = (k, u) # rest" using dup by (cases evs) auto
  have "k \<in> {..<n} - {j}" "i \<in> {..<n} - {j}" using dup evs(2) unfolding evs' by (metis fst_conv image_eqI list.set_intros(1))+
  then have k: "k < n" "k \<noteq> j" "i < n" by simp_all
  obtain q where q: "rx_segment True u sq k (k + 1 \<noteq> n) (D k) st =
      Some (st\<lparr>msg_queue := rx_entry n sq D u {k} # q\<rparr>, [])" "no_entry sq q"
    using rx_segment_first [OF seg k(1) none] by blast
  have fr: "t' - u \<le> 1000" if "(i', t') \<in> set rest" for i' t'
    using fresh [of i' t'] that unfolding evs' by simp
  have un: "fst ` set rest \<union> {k} = {..<n} - {j}" "fst ` set rest \<inter> {k} = {}"
    using evs(1,2) unfolding evs' by simp_all
  have "j \<in> {..<n}" using evs(3) by simp
  then have sub: "{..<n} - {j} \<subset> {..<n}" by (metis Diff_iff Diff_subset psubsetI singletonI)
  have "\<exists>st' q'. pnf_receive_all crc cs True (map (\<lambda>(i, t). (D i, t)) rest)
      (st\<lparr>msg_queue := rx_entry n sq D u {k} # q\<rparr>) = Some (st', []) \<and>
    msg_queue st' = rx_entry n sq D u (fst ` set rest \<union> {k}) # q' \<and> no_entry sq q'"
    by (rule pnf_receive_partial [OF seg _ un(2) _ _ q(2)]) (use evs(1) un(1) sub fr in \<open>simp_all add: evs'\<close>)
  then obtain st' q' where st': "pnf_receive_all crc cs True (map (\<lambda>(i, t). (D i, t)) evs) st = Some (st', [])"
    "msg_queue st' = rx_entry n sq D u ({..<n} - {j}) # q'"
    using q(1) unfolding un(1) by (auto simp: evs' pnf_receive_segment [OF seg k(1)])
  have "pnf_receive crc cs True (D i) t st' = None"
    unfolding pnf_receive_segment [OF seg k(3)]
    using rx_segment_duplicate [OF seg refl evs(3) _ st'(2)] dup evs(2) by simp
  then show ?thesis by (simp add: receive_all_append [OF st'(1)])
qed

theorem duplicate_segment_undefined_witness:
  "pnf_receive_all (\<lambda>_ _. 7) False True
     [([0, 1, 0, 0x84, 0, 18, 1, 5, 0, 0, 0, 0, 0, 0, 0, 7, 2, 3], 5), ([0, 1, 0, 0x84, 0, 18, 1, 5, 0, 0, 0, 0, 0, 0, 0, 7, 2, 3], 9)]
     \<lparr>msg_queue = [], reassembly_buffer = False, reassembly_buffer_size = 0\<rparr> = None"
proof -
  let ?a = "[0, 1, 0, 0x84, 0, 18, 0x80, 5, 0, 0, 0, 0, 0, 0, 0, 7, 2, 3] :: u8 list"
    and ?b = "[0, 1, 0, 0x84, 0, 18, 1, 5, 0, 0, 0, 0, 0, 0, 0, 7, 2, 3] :: u8 list"
  let ?D = "\<lambda>i::nat. if i = 0 then ?a else ?b"
  have "nfapi_p7_message_header_unpack ?a = Some \<lparr>phy_id = 1, message_id = 0x84, message_length = 18,
      m_segment_sequence = 0x8005, checksum = 0, transmit_timestamp = 7\<rparr>"
    "nfapi_p7_message_header_unpack ?b = Some \<lparr>phy_id = 1, message_id = 0x84, message_length = 18,
      m_segment_sequence = 0x0105, checksum = 0, transmit_timestamp = 7\<rparr>"
    by code_simp+
  moreover have "NFAPI_P7_GET_MORE 0x8005 = 1" "NFAPI_P7_GET_SEGMENT 0x8005 = 0" "NFAPI_P7_GET_SEQUENCE 0x8005 = 5"
    "NFAPI_P7_GET_MORE 0x0105 = 0" "NFAPI_P7_GET_SEGMENT 0x0105 = 1" "NFAPI_P7_GET_SEQUENCE 0x0105 = 5"
    by code_simp+
  moreover have "i < 2 \<longleftrightarrow> i = 0 \<or> i = 1" for i :: nat by linarith
  moreover have "length (assembled ?D 2) = 20" by code_simp
  ultimately have "is_segmentation (\<lambda>_ _. 7) False 2 5 ?D"
    unfolding is_segmentation_def by (simp add: checksum_ok_def)
  from duplicate_segment_undefined [OF this, of "\<lparr>msg_queue = [], reassembly_buffer = False, reassembly_buffer_size = 0\<rparr>"
      "[(1, 5)]" 0 1 9]
  moreover have "{Suc 0} = {..<2} - {0}" by (auto simp: lessThan_nat_numeral lessThan_Suc)
  ultimately show ?thesis by (simp del: pnf_receive_all.simps add: no_entry_def)
qed

end
