(* ===== verification/P7_Pdu.thy ===== *)
theory P7_Pdu
  imports Nfapi_Tlv
begin

text \<open>
  The shape that the uplink indications of \<^verbatim>\<open>nfapi_p7.c\<close> share.  A C structure that begins
  with an \<^verbatim>\<open>nfapi_tl_t\<close> is a pair \<open>'a tlv\<close> of the header and the rest.  A PDU is an
  instance length and a structure of such TLVs, a body a count and a list of PDUs, a message
  the \<^verbatim>\<open>sfn_sf\<close>, the body TLV and an optional vendor extension.  C repeats the same loops
  for each message; they are defined once here, with the packer of the TLVs or the table
  of unpackers as an argument, and the locale \<open>tlv_pdu\<close> proves once what they do.
  An array in a structure is the list of its elements up to the count that goes with it.
\<close>

record 'a tlv =
  tlv_hdr :: tl
  tlv_val :: 'a

record 'p pdu =
  instance_length :: u16
  pdu_tlvs :: 'p

record ('n, 'p) pdu_list =
  number_of_pdus :: 'n
  pdus :: "'p list"

record 'b indication =
  ind_sfn_sf :: u16
  ind_body :: "'b tlv"
  ind_vendor_extension :: "tl option"

definition zero_tlv :: "'a \<Rightarrow> 'a tlv" where
  "zero_tlv v = \<lparr>tlv_hdr = \<lparr>tl_tag = 0, tl_length = 0\<rparr>, tlv_val = v\<rparr>"

section \<open>TLV members\<close>

text \<open>
  \<^verbatim>\<open>pack_tlv(tag, &x, ...)\<close>; the length that it leaves in the structure is not returned,
  no caller reads it before it is computed again.
\<close>

definition pack_member :: "u16 \<Rightarrow> ('a \<Rightarrow> wbuf \<Rightarrow> wbuf option) \<Rightarrow> 'a tlv \<Rightarrow> wbuf \<Rightarrow> wbuf option" where
  "pack_member tag fn x w = map_option snd (pack_tlv tag (tlv_hdr x) (fn (tlv_val x)) w)"

text \<open>A line of a table \<^verbatim>\<open>unpack_fns[]\<close>: the header is stored with the value.\<close>

definition member_entry :: "u16 \<Rightarrow> (rbuf \<Rightarrow> ('a \<times> rbuf) option) \<Rightarrow> ('a tlv \<Rightarrow> 's \<Rightarrow> 's) \<Rightarrow> u16 \<times> 's tlv_fn" where
  "member_entry tag fn put =
     (tag, \<lambda>t s r. map_option (\<lambda>(v, r'). (put \<lparr>tlv_hdr = t, tlv_val = v\<rparr> s, r')) (fn r))"

text \<open>The same for an unpacker that looks at the header.\<close>

definition body_entry :: "u16 \<Rightarrow> (tl \<Rightarrow> rbuf \<Rightarrow> ('a \<times> rbuf) option) \<Rightarrow> ('a tlv \<Rightarrow> 's \<Rightarrow> 's) \<Rightarrow> u16 \<times> 's tlv_fn" where
  "body_entry tag fn put =
     (tag, \<lambda>t s r. map_option (\<lambda>(v, r'). (put \<lparr>tlv_hdr = t, tlv_val = v\<rparr> s, r')) (fn t r))"

section \<open>PDUs\<close>

text \<open>
  The instance length is written as the structure has it and rewritten when the
  TLVs are there; the result of the second write is ignored.
\<close>

definition pack_instance :: "('p \<Rightarrow> wbuf \<Rightarrow> wbuf option) \<Rightarrow> 'p pdu \<Rightarrow> wbuf \<Rightarrow> wbuf option" where
  "pack_instance pack_tlvs p w =
     push16 (instance_length p) w \<bind> (\<lambda>w1. pack_tlvs (pdu_tlvs p) w1 \<bind> (\<lambda>w2.
       Some (case push16 (of_nat (wb_pos w2 - wb_pos w - 2)) (w2\<lparr>wb_pos := wb_pos w\<rparr>) of
               Some w3 \<Rightarrow> w3\<lparr>wb_pos := wb_pos w2\<rparr> | None \<Rightarrow> w2)))"

text \<open>
  The end of the instance is computed from the length field and is not compared with the
  end of the message.  \<open>z\<close> is the zeroed structure.
\<close>

definition unpack_instance :: "(u16 \<times> 'p tlv_fn) list \<Rightarrow> 'p \<Rightarrow> rbuf \<Rightarrow> ('p pdu \<times> rbuf) option" where
  "unpack_instance es z r =
     pull16 r \<bind> (\<lambda>(il, r1).
       case unpack_tlv_list es None z (r1\<lparr>rb_end := rb_pos r1 + unat il\<rparr>) of
         Some (Inr (s, r2)) \<Rightarrow> Some (\<lparr>instance_length = il, pdu_tlvs = s\<rparr>, r2\<lparr>rb_end := rb_end r\<rparr>)
       | _ \<Rightarrow> None)"

section \<open>Bodies\<close>

definition pack_pdus :: "('n :: len word \<Rightarrow> wbuf \<Rightarrow> wbuf option) \<Rightarrow> ('p \<Rightarrow> wbuf \<Rightarrow> wbuf option)
  \<Rightarrow> ('n word, 'p) pdu_list \<Rightarrow> wbuf \<Rightarrow> wbuf option" where
  "pack_pdus push_count pack_pdu v w =
     push_count (number_of_pdus v) w \<bind> push_all pack_pdu (take (unat (number_of_pdus v)) (pdus v))"

text \<open>
  \<open>max_pdu\<close> is the limit on the count and \<open>alloc\<close> says for a count whether the list of PDUs
  is there after the allocation that the code makes for it.
\<close>

definition unpack_pdus :: "(rbuf \<Rightarrow> ('n :: len word \<times> rbuf) option) \<Rightarrow> nat \<Rightarrow> (nat \<Rightarrow> bool)
  \<Rightarrow> (rbuf \<Rightarrow> ('p \<times> rbuf) option) \<Rightarrow> tl \<Rightarrow> rbuf \<Rightarrow> (('n word, 'p) pdu_list \<times> rbuf) option" where
  "unpack_pdus pull_count max_pdu alloc unpack_pdu t r =
     (if rb_end r < rb_pos r + unat (tl_length t) then None
      else pull_count r \<bind> (\<lambda>(n, r1).
        if max_pdu < unat n then None
        else if \<not> alloc (unat n) then None
        else pull_n unpack_pdu (unat n) r1 \<bind> (\<lambda>(ps, r2).
          Some (\<lparr>number_of_pdus = n, pdus = ps\<rparr>, r2))))"

text \<open>An allocation that is skipped for a count of zero, and one that is not: \<open>nfapi_p7_allocate\<close> returns null for size 0.\<close>

definition alloc_if_any :: "bool \<Rightarrow> nat \<Rightarrow> bool" where
  "alloc_if_any alloc_ok n \<longleftrightarrow> n = 0 \<or> alloc_ok"

definition alloc_always :: "bool \<Rightarrow> nat \<Rightarrow> bool" where
  "alloc_always alloc_ok n \<longleftrightarrow> n \<noteq> 0 \<and> alloc_ok"

section \<open>Messages\<close>

definition pack_indication :: "u16 \<Rightarrow> ('b \<Rightarrow> wbuf \<Rightarrow> wbuf option) \<Rightarrow> (wbuf \<Rightarrow> wbuf option) option
  \<Rightarrow> 'b indication \<Rightarrow> wbuf \<Rightarrow> wbuf option" where
  "pack_indication tag pack_body ve m w =
     push16 (ind_sfn_sf m) w \<bind> (\<lambda>w. pack_member tag pack_body (ind_body m) w \<bind>
     (\<lambda>w. map_option snd (pack_p7_vendor_extension_tlv (ind_vendor_extension m) ve w)))"

text \<open>
  The result of a P7 list unpacker as the operand of \<^verbatim>\<open>&&\<close>: the code -1 is true, so the
  message is accepted with what had been stored.
\<close>

definition p7_accept :: "((int \<times> 's) + ('s \<times> rbuf)) option \<Rightarrow> 's option" where
  "p7_accept res = (case res of
       Some (Inr (s, r)) \<Rightarrow> Some s
     | Some (Inl (c, s)) \<Rightarrow> if c = 0 then None else Some s
     | None \<Rightarrow> None)"

definition unpack_indication :: "u16 \<Rightarrow> (tl \<Rightarrow> rbuf \<Rightarrow> ('b \<times> rbuf) option) \<Rightarrow> 'b indication ve_fn option
  \<Rightarrow> 'b indication \<Rightarrow> rbuf \<Rightarrow> 'b indication option" where
  "unpack_indication tag unpack_body ve z r =
     pull16 r \<bind> (\<lambda>(sf, r1).
       p7_accept (unpack_p7_tlv_list [body_entry tag unpack_body (\<lambda>b m. m\<lparr>ind_body := b\<rparr>)] ve
         (z\<lparr>ind_sfn_sf := sf\<rparr>) r1))"

section \<open>Laws\<close>

text \<open>What the receiver gets for a member: nothing but the zeroed structure when its tag is not set.\<close>

definition sent_member :: "u16 \<Rightarrow> ('a \<Rightarrow> u8 list) \<Rightarrow> 'a \<Rightarrow> 'a tlv \<Rightarrow> 'a tlv" where
  "sent_member tag enc z x =
     (if tl_tag (tlv_hdr x) = tag
      then \<lparr>tlv_hdr = \<lparr>tl_tag = tag, tl_length = of_nat (length (enc (tlv_val x)))\<rparr>, tlv_val = tlv_val x\<rparr>
      else zero_tlv z)"

definition member_items :: "u16 \<Rightarrow> ('a \<Rightarrow> u8 list) \<Rightarrow> ('a tlv \<Rightarrow> 's \<Rightarrow> 's) \<Rightarrow> 'a tlv \<Rightarrow> 's tlv_item list" where
  "member_items tag enc put x =
     (if tl_tag (tlv_hdr x) = tag
      then [Known tag (enc (tlv_val x))
              (put \<lparr>tlv_hdr = \<lparr>tl_tag = tag, tl_length = of_nat (length (enc (tlv_val x)))\<rparr>, tlv_val = tlv_val x\<rparr>)]
      else [])"

definition member_bytes :: "u16 \<Rightarrow> ('a \<Rightarrow> u8 list) \<Rightarrow> 'a tlv \<Rightarrow> u8 list" where
  "member_bytes tag enc x = (if tl_tag (tlv_hdr x) = tag then enc_tlv tag (enc (tlv_val x)) else [])"

lemma item_bytes_members [simp]:
  "concat (map (item_bytes lte_pad) (member_items tag enc put x)) = member_bytes tag enc x"
  by (simp add: member_items_def member_bytes_def item_bytes_def lte_pad_def)

lemma unknowns_append [simp]: "unknowns (is @ js) = unknowns is + unknowns js"
  by (induction "is" rule: unknowns.induct) auto

lemma unknowns_members [simp]: "unknowns (member_items tag enc put x) = 0"
  by (simp add: member_items_def)

lemma fold_members [simp]:
  "fold item_effect (member_items tag enc put x) s =
     (if tl_tag (tlv_hdr x) = tag then put (sent_member tag enc z x) s else s)"
  by (simp add: member_items_def sent_member_def)

lemma writes_pack_member [writes_intro]:
  assumes "tl_tag (tlv_hdr x) = tag \<Longrightarrow> writes (fn (tlv_val x)) (enc (tlv_val x))"
  shows "writes (pack_member tag fn x) (member_bytes tag enc x)"
proof (cases "tl_tag (tlv_hdr x) = tag")
  case True
  then show ?thesis
    using pack_tlv_write [OF True assms [OF True]]
    by (auto simp: writes_def pack_member_def [abs_def] member_bytes_def)
next
  case False
  then show ?thesis by (simp add: pack_member_def [abs_def] member_bytes_def pack_tlv_def writes_def)
qed

lemma member_item_ok:
  assumes "i \<in> set (member_items tag enc put x)"
    and "filter (\<lambda>e. fst e = tag) es = [member_entry tag fn put]"
    and "tl_tag (tlv_hdr x) = tag \<Longrightarrow> reads fn (tlv_val x) (enc (tlv_val x))"
    and "length (item_value i) < 2 ^ 16"
  shows "item_ok es i"
  using assms by (auto simp: member_items_def member_entry_def reads_def split: if_splits)

lemma writes_pack_instance:
  assumes tlvs: "writes (pack_tlvs (pdu_tlvs p)) bs"
  shows "writes (pack_instance pack_tlvs p) (be16 (of_nat (length bs)) @ bs)"
proof (rule writesI)
  fix w assume ok: "wbuf_ok w"
  show "pack_instance pack_tlvs p w = (if length (be16 (of_nat (length bs)) @ bs) \<le> wb_room w
      then Some (wb_write (be16 (of_nat (length bs)) @ bs) w) else None)"
  proof (cases "2 \<le> wb_room w")
    case True
    let ?w1 = "wb_write (be16 (instance_length p)) w"
    have ok1: "wbuf_ok ?w1" using True ok by (simp add: wbuf_ok_write)
    let ?w2 = "wb_write (be16 (instance_length p) @ bs) w"
    let ?w3 = "?w2\<lparr>wb_pos := wb_pos w\<rparr>"
    have push: "push16 v ?w3 = Some (wb_write (be16 v) ?w3)" if "2 + length bs \<le> wb_room w" for v
      using ok that by (subst writesD [OF writes_push16]) (auto simp: wbuf_ok_def wb_room_def wb_write_def)
    have mem: "wb_pos w + 2 + length bs \<le> length (wb_mem w)" if "2 + length bs \<le> wb_room w"
      using ok that by (auto simp: wbuf_ok_def wb_room_def)
    have "wb_write (be16 v) ?w3\<lparr>wb_pos := wb_pos ?w2\<rparr> = wb_write (be16 v @ bs) w"
      if "2 + length bs \<le> wb_room w" for v
      using upd_at_overwrite [of "wb_pos w" "be16 (instance_length p)" bs "wb_mem w" "be16 v"] mem that
      by (simp add: wb_write_def)
    then show ?thesis
      using True ok push
      by (auto simp: pack_instance_def writesD [OF writes_push16] writesD [OF tlvs ok1] wb_room_write
          wb_write_write wb_write_sel)
  next
    case False
    then show ?thesis using ok by (simp add: pack_instance_def writesD [OF writes_push16])
  qed
qed

lemma reads_unpack_instance:
  assumes ok: "\<And>i. i \<in> set is \<Longrightarrow> item_ok es i" and few: "unknowns is \<le> MAX_BAD_TAG"
    and len: "length (concat (map (item_bytes lte_pad) is)) < 2 ^ 16"
  defines "bs \<equiv> concat (map (item_bytes lte_pad) is)"
  shows "reads (unpack_instance es z) \<lparr>instance_length = of_nat (length bs), pdu_tlvs = fold item_effect is z\<rparr>
    (be16 (of_nat (length bs)) @ bs)"
proof (rule readsI)
  fix r rest assume r: "rbuf_ok r" and rest: "rb_rest r = (be16 (of_nat (length bs)) @ bs) @ rest"
  let ?l = "of_nat (length bs) :: u16"
  have ul: "unat ?l = length bs" using len by (simp add: bs_def unsigned_of_nat take_bit_nat_eq_self)
  have p: "pull16 r = Some (?l, rb_adv 2 r)"
    using readsD [OF reads_pull16 r, of ?l "bs @ rest"] rest by simp
  let ?q = "rb_adv 2 r\<lparr>rb_end := rb_pos (rb_adv 2 r) + unat ?l\<rparr>"
  have room: "2 + length bs \<le> rb_room r" using length_rb_rest [OF r] rest by simp
  have q: "rbuf_ok ?q" using r room by (auto simp: rbuf_ok_def rb_room_def rb_adv_def ul)
  have "rb_rest (rb_adv 2 r) = bs @ rest" using rest by (simp add: rb_rest_adv)
  then have "take (length bs) (rb_rest (rb_adv 2 r)) = bs" by simp
  moreover have "take (length bs) (rb_rest (rb_adv 2 r)) = rb_rest ?q"
    using room unfolding rb_rest_def ul rb_room_def take_drop take_take
    by (simp add: rb_adv_def min_absorb1 add.commute)
  ultimately have "rb_rest ?q = bs" by simp
  then have "unpack_tlv_list es None z ?q = Some (Inr (fold item_effect is z, rb_adv (rb_room ?q) ?q))"
    using tlv_loop_items [OF q _ ok, where n = 0 and pad = lte_pad] few length_rb_rest [OF q]
    by (simp add: list_unpackers(1) bs_def)
  then show "unpack_instance es z r = Some (\<lparr>instance_length = ?l, pdu_tlvs = fold item_effect is z\<rparr>,
      rb_adv (length (be16 ?l @ bs)) r)"
    by (simp add: unpack_instance_def p) (simp add: rb_adv_def rb_room_def ul)
qed

section \<open>Lists\<close>

lemma writes_push_all_of:
  "(\<And>x. x \<in> set xs \<Longrightarrow> writes (p x) (enc x)) \<Longrightarrow> writes (push_all p xs) (concat (map enc xs))"
proof (induction xs)
  case Nil
  show ?case by (simp add: push_all_eta writes_nop)
next
  case (Cons x xs)
  show ?case
    unfolding push_all_eta list.map concat.simps
    by (rule writes_bind [OF Cons.prems Cons.IH]) (simp_all add: Cons.prems)
qed

lemma reads_pull_n_of:
  "(\<And>x. x \<in> set xs \<Longrightarrow> reads g (f x) (enc x)) \<Longrightarrow> reads (pull_n g (length xs)) (map f xs) (concat (map enc xs))"
proof (induction xs)
  case Nil
  show ?case by (simp add: pull_n_eta reads_return)
next
  case (Cons x xs)
  have IH: "reads (pull_n g (length xs)) (map f xs) (concat (map enc xs))"
    using Cons by simp
  have "reads (\<lambda>r. pull_n g (length xs) r \<bind> (\<lambda>(ys, r'). Some (f x # ys, r'))) (f x # map f xs)
      (concat (map enc xs) @ [])"
    by (rule reads_bind [OF IH reads_return])
  then have "reads (pull_n g (Suc (length xs))) (f x # map f xs) (enc x @ concat (map enc xs) @ [])"
    unfolding pull_n_eta by (rule reads_bind [OF Cons.prems [OF list.set_intros(1)]])
  then show ?case unfolding append_Nil2 list.size list.map concat.simps add_Suc_right add_0_right .
qed

section \<open>The contract of an indication\<close>

text \<open>The bytes of the parts and what the receiver makes of them.\<close>

definition pdu_bytes :: "('p \<Rightarrow> 'p tlv_item list) \<Rightarrow> 'p pdu \<Rightarrow> u8 list" where
  "pdu_bytes items p =
     (let bs = concat (map (item_bytes lte_pad) (items (pdu_tlvs p))) in be16 (of_nat (length bs)) @ bs)"

definition sent_pdu :: "('p \<Rightarrow> 'p tlv_item list) \<Rightarrow> 'p \<Rightarrow> 'p pdu \<Rightarrow> 'p pdu" where
  "sent_pdu items z p =
     \<lparr>instance_length = of_nat (length (concat (map (item_bytes lte_pad) (items (pdu_tlvs p))))),
      pdu_tlvs = fold item_effect (items (pdu_tlvs p)) z\<rparr>"

definition list_bytes :: "('n :: len word \<Rightarrow> u8 list) \<Rightarrow> ('p \<Rightarrow> 'p tlv_item list) \<Rightarrow> ('n word, 'p pdu) pdu_list \<Rightarrow> u8 list" where
  "list_bytes enc_count items v = enc_count (number_of_pdus v) @
     concat (map (pdu_bytes items) (take (unat (number_of_pdus v)) (pdus v)))"

definition sent_list :: "('p \<Rightarrow> 'p tlv_item list) \<Rightarrow> 'p \<Rightarrow> ('n :: len word, 'p pdu) pdu_list \<Rightarrow> ('n word, 'p pdu) pdu_list" where
  "sent_list items z v = \<lparr>number_of_pdus = number_of_pdus v,
     pdus = map (sent_pdu items z) (take (unat (number_of_pdus v)) (pdus v))\<rparr>"

definition indication_bytes :: "u16 \<Rightarrow> ('b \<Rightarrow> u8 list) \<Rightarrow> 'b indication \<Rightarrow> u8 list" where
  "indication_bytes tag enc m = be16 (ind_sfn_sf m) @ enc_tlv tag (enc (tlv_val (ind_body m)))"

text \<open>A body the sender may send: as many PDUs as it says, each of them well formed, and a length that fits.\<close>

definition valid_list :: "('p \<Rightarrow> 'p tlv_item list) \<Rightarrow> ('p \<Rightarrow> bool) \<Rightarrow> nat \<Rightarrow> ('n :: len word \<Rightarrow> u8 list)
  \<Rightarrow> ('n word, 'p pdu) pdu_list \<Rightarrow> bool" where
  "valid_list items valid max_pdu enc_count v \<longleftrightarrow>
     unat (number_of_pdus v) \<le> length (pdus v) \<and> unat (number_of_pdus v) \<le> max_pdu \<and>
     (\<forall>p \<in> set (pdus v). valid (pdu_tlvs p)) \<and> length (list_bytes enc_count items v) < 2 ^ 16"

text \<open>What the packer and the unpacker of a body promise to the message they are in.\<close>

locale body_codec =
  fixes pack_body :: "'b \<Rightarrow> wbuf \<Rightarrow> wbuf option"
    and unpack_body :: "tl \<Rightarrow> rbuf \<Rightarrow> ('b \<times> rbuf) option"
    and enc :: "'b \<Rightarrow> u8 list"
    and got :: "'b \<Rightarrow> 'b"
    and valid :: "'b \<Rightarrow> bool"
    and tag :: u16
  assumes writes_body: "valid v \<Longrightarrow> writes (pack_body v) (enc v)"
    and reads_body: "valid v \<Longrightarrow>
      reads (unpack_body \<lparr>tl_tag = tag, tl_length = of_nat (length (enc v))\<rparr>) (got v) (enc v)"
    and small_body: "valid v \<Longrightarrow> length (enc v) < 2 ^ 16"
begin

lemma writes_message:
  assumes v: "valid (tlv_val (ind_body m))"
    and tag: "tl_tag (tlv_hdr (ind_body m)) = tag" and ve: "ind_vendor_extension m = None"
  shows "writes (pack_indication tag pack_body cb m) (indication_bytes tag enc m)"
proof -
  have "writes (pack_member tag pack_body (ind_body m)) (member_bytes tag enc (ind_body m))"
    by (intro writes_pack_member writes_body v)
  then have "writes (\<lambda>w. pack_member tag pack_body (ind_body m) w \<bind> Some) (enc_tlv tag (enc (tlv_val (ind_body m))) @ [])"
    by (intro writes_bind writes_nop) (simp add: member_bytes_def tag)
  from writes_bind [OF writes_push16 this]
  show ?thesis by (simp add: pack_indication_def [abs_def] indication_bytes_def ve pack_p7_vendor_extension_tlv_def)
qed

lemma reads_message:
  fixes m m0 :: "'b indication"
  assumes v: "valid (tlv_val (ind_body m))" and r: "rbuf_ok r" and rest: "rb_rest r = indication_bytes tag enc m"
  shows "unpack_indication tag unpack_body cb m0 r =
      Some (m0\<lparr>ind_sfn_sf := ind_sfn_sf m,
        ind_body := \<lparr>tlv_hdr = \<lparr>tl_tag = tag, tl_length = of_nat (length (enc (tlv_val (ind_body m))))\<rparr>,
                     tlv_val = got (tlv_val (ind_body m))\<rparr>\<rparr>)"
proof -
  let ?v = "tlv_val (ind_body m)"
  let ?b = "enc ?v" and ?es = "[body_entry tag unpack_body (\<lambda>b m. m\<lparr>ind_body := b\<rparr>)]"
  let ?h = "\<lparr>tl_tag = tag, tl_length = of_nat (length ?b)\<rparr>"
  let ?put = "\<lambda>m :: 'b indication. m\<lparr>ind_body := \<lparr>tlv_hdr = ?h, tlv_val = got ?v\<rparr>\<rparr>"
  have ok: "item_ok ?es i" if "i \<in> set [Known tag ?b ?put]" for i
    using that reads_body [OF v] small_body [OF v] by (auto simp: body_entry_def reads_def)
  have rest': "rb_rest r = be16 (ind_sfn_sf m) @ enc_tlv tag ?b"
    using rest by (simp add: indication_bytes_def)
  have p: "pull16 r = Some (ind_sfn_sf m, rb_adv 2 r)"
    using readsD [OF reads_pull16 r rest'] by simp
  have q: "rbuf_ok (rb_adv 2 r)" using length_rb_rest [OF r] rest' r by (simp add: rbuf_ok_adv)
  have "rb_rest (rb_adv 2 r) = concat (map (item_bytes lte_pad) [Known tag ?b ?put])"
    by (simp add: rb_rest_adv rest' item_bytes_def lte_pad_def)
  from tlv_loop_items [OF q this ok, where n = 0 and bad = "-1" and ve = "unpack_p7_vendor_extension_tlv cb"
      and s = "m0\<lparr>ind_sfn_sf := ind_sfn_sf m\<rparr>"]
  have "unpack_p7_tlv_list ?es cb (m0\<lparr>ind_sfn_sf := ind_sfn_sf m\<rparr>) (rb_adv 2 r) =
      Some (Inr (?put (m0\<lparr>ind_sfn_sf := ind_sfn_sf m\<rparr>),
        rb_adv (length (concat (map (item_bytes lte_pad) [Known tag ?b ?put]))) (rb_adv 2 r)))"
    by (simp add: list_unpackers)
  then show ?thesis by (simp add: unpack_indication_def p p7_accept_def)
qed

lemma message_roundtrip:
  fixes m m0 :: "'b indication"
  assumes v: "valid (tlv_val (ind_body m))"
    and tag: "tl_tag (tlv_hdr (ind_body m)) = tag" and ve: "ind_vendor_extension m = None"
    and w: "wbuf_ok w" and pk: "pack_indication tag pack_body cb m w = Some w'"
  shows "unpack_indication tag unpack_body cb' m0 \<lparr>rb_mem = wb_mem w', rb_pos = wb_pos w, rb_end = wb_pos w'\<rparr> =
      Some (m0\<lparr>ind_sfn_sf := ind_sfn_sf m,
        ind_body := \<lparr>tlv_hdr = \<lparr>tl_tag = tag, tl_length = of_nat (length (enc (tlv_val (ind_body m))))\<rparr>,
                     tlv_val = got (tlv_val (ind_body m))\<rparr>\<rparr>)"
proof -
  let ?bs = "indication_bytes tag enc m"
  let ?r = "\<lparr>rb_mem = wb_mem w', rb_pos = wb_pos w, rb_end = wb_pos w'\<rparr>"
  have fits: "length ?bs \<le> wb_room w" and w': "w' = wb_write ?bs w"
    using writesD [OF writes_message [OF v tag ve] w, of cb] pk by (auto split: if_splits)
  have "rb_rest ?r = ?bs"
    using wb_write_bytes [OF w fits] w by (simp add: rb_rest_def w' wb_write_sel wbuf_ok_def)
  moreover have "rbuf_ok ?r"
    using w fits by (auto simp: rbuf_ok_def wbuf_ok_def wb_room_def w' wb_write_sel)
  ultimately show ?thesis by (intro reads_message v)
qed

end

locale tlv_pdu =
  fixes pack_tlvs :: "'p \<Rightarrow> wbuf \<Rightarrow> wbuf option"
    and table :: "(u16 \<times> 'p tlv_fn) list"
    and z :: 'p
    and items :: "'p \<Rightarrow> 'p tlv_item list"
    and valid :: "'p \<Rightarrow> bool"
  assumes writes_tlvs: "valid p \<Longrightarrow> writes (pack_tlvs p) (concat (map (item_bytes lte_pad) (items p)))"
    and items_ok: "valid p \<Longrightarrow> i \<in> set (items p) \<Longrightarrow> item_ok table i"
    and all_known: "unknowns (items p) = 0"
    and small: "valid p \<Longrightarrow> length (concat (map (item_bytes lte_pad) (items p))) < 2 ^ 16"
begin

lemma writes_pdu: "valid (pdu_tlvs p) \<Longrightarrow> writes (pack_instance pack_tlvs p) (pdu_bytes items p)"
  unfolding pdu_bytes_def Let_def by (rule writes_pack_instance [OF writes_tlvs])

lemma reads_pdu: "valid (pdu_tlvs p) \<Longrightarrow> reads (unpack_instance table z) (sent_pdu items z p) (pdu_bytes items p)"
  unfolding pdu_bytes_def sent_pdu_def Let_def
  using small [of "pdu_tlvs p"] by (intro reads_unpack_instance) (auto simp: all_known intro: items_ok)

lemma writes_list:
  assumes v: "valid_list items valid max_pdu enc_count v" and c: "\<And>n. writes (push_count n) (enc_count n)"
  shows "writes (pack_pdus push_count (pack_instance pack_tlvs) v) (list_bytes enc_count items v)"
  unfolding pack_pdus_def [abs_def] list_bytes_def
  by (rule writes_bind [OF c writes_push_all_of [OF writes_pdu]])
     (use v in \<open>auto simp: valid_list_def dest: in_set_takeD\<close>)

lemma reads_list:
  assumes v: "valid_list items valid max_pdu enc_count v" and c: "\<And>n. reads pull_count n (enc_count n)"
    and alloc: "alloc (unat (number_of_pdus v))"
  shows "reads (unpack_pdus pull_count max_pdu alloc (unpack_instance table z)
      \<lparr>tl_tag = tag, tl_length = of_nat (length (list_bytes enc_count items v))\<rparr>) (sent_list items z v)
      (list_bytes enc_count items v)"
proof (rule readsI)
  fix r rest assume r: "rbuf_ok r" and rest: "rb_rest r = list_bytes enc_count items v @ rest"
  let ?ps = "take (unat (number_of_pdus v)) (pdus v)"
  have n: "length ?ps = unat (number_of_pdus v)" using v by (simp add: valid_list_def)
  have ps: "reads (pull_n (unpack_instance table z) (length ?ps)) (map (sent_pdu items z) ?ps) (concat (map (pdu_bytes items) ?ps))"
    using v by (intro reads_pull_n_of reads_pdu) (auto simp: valid_list_def dest: in_set_takeD)
  have rest': "rb_rest r = enc_count (number_of_pdus v) @ concat (map (pdu_bytes items) ?ps) @ rest"
    using rest by (simp add: list_bytes_def)
  note c1 = readsD [OF c r rest']
  let ?r1 = "rb_adv (length (enc_count (number_of_pdus v))) r"
  have r1: "rbuf_ok ?r1" using length_rb_rest [OF r] rest' r by (simp add: rbuf_ok_adv)
  have rest1: "rb_rest ?r1 = concat (map (pdu_bytes items) ?ps) @ rest" using rest' by (simp add: rb_rest_adv)
  have len: "unat (of_nat (length (list_bytes enc_count items v)) :: u16) = length (list_bytes enc_count items v)"
    using v unfolding valid_list_def by (intro unat_of_length) simp
  have room: "\<not> rb_end r < rb_pos r + length (list_bytes enc_count items v)"
    using rb_rest_room [OF r rest] r unfolding rbuf_ok_def by linarith
  show "unpack_pdus pull_count max_pdu alloc (unpack_instance table z)
      \<lparr>tl_tag = tag, tl_length = of_nat (length (list_bytes enc_count items v))\<rparr> r =
      Some (sent_list items z v, rb_adv (length (list_bytes enc_count items v)) r)"
    using v alloc room readsD [OF ps r1 rest1] c1
    by (simp add: unpack_pdus_def len valid_list_def n sent_list_def) (simp add: list_bytes_def)
qed

lemma list_body:
  assumes c: "\<And>n. writes (push_count n) (enc_count n)" "\<And>n. reads pull_count n (enc_count n)"
  shows "body_codec (pack_pdus push_count (pack_instance pack_tlvs))
    (unpack_pdus pull_count max_pdu alloc (unpack_instance table z)) (list_bytes enc_count items) (sent_list items z)
    (\<lambda>v. valid_list items valid max_pdu enc_count v \<and> alloc (unat (number_of_pdus v))) tag"
  by (intro body_codec.intro writes_list reads_list c) (auto simp: valid_list_def)

lemmas packed_roundtrip = body_codec.message_roundtrip [OF list_body, OF _ _ conjI]

end

section \<open>Bad input\<close>

text \<open>An unpacker that never moves the cursor back.\<close>

definition moves_forward :: "(rbuf \<Rightarrow> ('a \<times> rbuf) option) \<Rightarrow> bool" where
  "moves_forward g \<longleftrightarrow> (\<forall>r v r'. g r = Some (v, r') \<longrightarrow> forward r r')"

named_theorems forward_intro \<open>rules for unpackers that move forward\<close>

lemma moves_forward_pull [forward_intro]:
  "moves_forward pull8" "moves_forward pull16" "moves_forward pull32"
  by (auto simp: moves_forward_def dest!: pull_adv)

lemma moves_forward_bind [forward_intro]:
  "moves_forward g \<Longrightarrow> (\<And>a. moves_forward (h a)) \<Longrightarrow> moves_forward (\<lambda>r. g r \<bind> (\<lambda>(a, r). h a r))"
  unfolding moves_forward_def by (fastforce simp: bind_eq_Some_conv intro: forward_trans)

lemma moves_forward_return [forward_intro]:
  "moves_forward (\<lambda>r. Some (x, r))" "moves_forward (\<lambda>r. None)"
  by (simp_all add: moves_forward_def)

lemma moves_forward_if [forward_intro]:
  "moves_forward g \<Longrightarrow> moves_forward h \<Longrightarrow> moves_forward (\<lambda>r. if c then g r else h r)"
  by (simp add: moves_forward_def)

lemma moves_forward_pull_n [forward_intro]: "moves_forward g \<Longrightarrow> moves_forward (pull_n g n)"
proof (induction n)
  case 0
  then show ?case by (simp add: pull_n_eta moves_forward_return)
next
  case (Suc n)
  then show ?case unfolding pull_n_eta by (intro forward_intro)
qed

lemma moves_forward_array [forward_intro]: "moves_forward (pullarray8 m n)" "moves_forward (pullarray16 m n)"
proof -
  show "moves_forward (pullarray8 m n)"
    by (auto simp: moves_forward_def pullarray8_def forward_def split: if_splits)
  have "moves_forward (pull_n pull16 (unat n))" by (intro forward_intro)
  then show "moves_forward (pullarray16 m n)"
    by (auto simp: moves_forward_def pullarray16_def split: if_splits)
qed

lemma forward_member: "moves_forward fn \<Longrightarrow> forward_entries es \<Longrightarrow> forward_entries (member_entry tag fn put # es)"
  by (auto simp: member_entry_def moves_forward_def)

lemma forward_Nil: "forward_entries []"
  by (simp add: forward_entries_def)

text \<open>The loop ends behind the end it was given, and an instance ends where its length says or later.\<close>

lemma tlv_loop_end:
  assumes es: "forward_entries es" and ve: "forward_ve ve"
  shows "tlv_loop pad bad es ve n s r = Some (Inr (s', r')) \<Longrightarrow> rb_end r' = rb_end r \<and> rb_end r \<le> rb_pos r'"
proof (induction "rb_end r - rb_pos r" arbitrary: n s r rule: less_induct)
  case less
  show ?case
  proof (cases "rb_pos r < rb_end r")
    case True
    then obtain n1 s1 r1 where st: "tlv_step pad bad es ve n s r = Inr (n1, s1, r1)"
      and lp: "tlv_loop pad bad es ve n1 s1 r1 = Some (Inr (s', r'))"
      using less.prems by (subst (asm) tlv_loop.simps) (auto split: sum.splits)
    from tlv_step_forward [OF es ve st] have f: "rb_end r1 = rb_end r \<and> rb_pos r < rb_pos r1" .
    then have "rb_end r1 - rb_pos r1 < rb_end r - rb_pos r" using True by arith
    from less.hyps [OF this lp] show ?thesis using f by simp
  next
    case False
    then show ?thesis using less.prems by (subst (asm) tlv_loop.simps) auto
  qed
qed

lemma forward_no_ve: "forward_ve (unpack_vendor_extension_tlv None)"
  by (simp add: forward_ve_def unpack_vendor_extension_tlv_def)

lemma unpack_instance_end:
  assumes es: "forward_entries es" and u: "unpack_instance es z r = Some (p, r')"
  shows "rb_pos r + 2 + unat (instance_length p) \<le> rb_pos r'"
proof -
  obtain il r1 where pl: "pull16 r = Some (il, r1)" using u by (auto simp: unpack_instance_def bind_eq_Some_conv)
  let ?l = "unpack_tlv_list es None z (r1\<lparr>rb_end := rb_pos r1 + unat il\<rparr>)"
  obtain x where x: "?l = Some (Inr x)"
    using u pl by (cases "?l") (auto simp: unpack_instance_def split: sum.split_asm)
  obtain s r2 where "x = (s, r2)" by (cases x)
  then have lp: "?l = Some (Inr (s, r2))" and p: "p = \<lparr>instance_length = il, pdu_tlvs = s\<rparr>" "r' = r2\<lparr>rb_end := rb_end r\<rparr>"
    using u pl x by (simp_all add: unpack_instance_def)
  have "rb_pos r1 + unat il \<le> rb_pos r2"
    using tlv_loop_end [OF es forward_no_ve lp [unfolded list_unpackers(1)]] by simp
  then show ?thesis using pull_adv(2) [OF pl] p by (simp add: rb_adv_def)
qed

text \<open>Nothing but unknown TLVs: after the fourth the code -1 is taken for success.\<close>

lemma unpack_indication_bad_tags:
  fixes m0 :: "'b indication"
  assumes r: "rbuf_ok r" "rb_rest r = be16 sf @ concat (map (\<lambda>(t, bs). enc_tlv t bs) ts)"
    and ts: "\<And>t bs. (t, bs) \<in> set ts \<Longrightarrow> length bs < 2 ^ 16 \<and> t \<noteq> tag \<and> t < NFAPI_VENDOR_EXTENSION_MIN_TAG_VALUE"
    and many: "3 < length ts"
  shows "unpack_indication tag unpack_body cb m0 r = Some (m0\<lparr>ind_sfn_sf := sf\<rparr>)"
proof -
  let ?is = "map (\<lambda>(t, bs). Unknown t bs) ts :: 'b indication tlv_item list"
  let ?es = "[body_entry tag unpack_body (\<lambda>b (m :: 'b indication). m\<lparr>ind_body := b\<rparr>)]"
  have p: "pull16 r = Some (sf, rb_adv 2 r)" using readsD [OF reads_pull16 r] by simp
  have q: "rbuf_ok (rb_adv 2 r)" using length_rb_rest [OF r(1)] r(2) r(1) by (simp add: rbuf_ok_adv)
  have b: "concat (map (item_bytes lte_pad) ?is) = concat (map (\<lambda>(t, bs). enc_tlv t bs) ts)"
    by (induction ts) (auto simp: item_bytes_def lte_pad_def)
  have rest: "rb_rest (rb_adv 2 r) = concat (map (item_bytes lte_pad) ?is)"
    unfolding b by (simp add: rb_rest_adv r(2))
  have uk: "unknowns ?is = length ts" by (induction ts) auto
  have eff: "fold item_effect (accepted n ?is) s = s" for n s
    by (induction ts arbitrary: n) auto
  have ok: "item_ok ?es i" if i0: "i \<in> set ?is" for i
  proof -
    obtain t bs where i: "i = Unknown t bs" "(t, bs) \<in> set ts" using i0 by auto
    show ?thesis using ts [OF i(2)] by (auto simp: i(1) body_entry_def)
  qed
  have "unpack_p7_tlv_list ?es cb (m0\<lparr>ind_sfn_sf := sf\<rparr>) (rb_adv 2 r) = Some (Inl (-1, m0\<lparr>ind_sfn_sf := sf\<rparr>))"
    using tlv_loop_items [OF q rest ok, where n = 0 and bad = "-1" and ve = "unpack_p7_vendor_extension_tlv cb"
        and s = "m0\<lparr>ind_sfn_sf := sf\<rparr>"] many
    by (simp add: list_unpackers uk eff MAX_BAD_TAG_def)
  then show ?thesis by (simp add: unpack_indication_def p p7_accept_def)
qed

end
