(* ===== verification/P7_Indications.thy ===== *)
theory P7_Indications
  imports P7_Pdu
begin

text \<open>
  The uplink indications of \<^verbatim>\<open>nfapi_p7.c\<close> whose PDUs are lists of TLVs: HARQ, CRC, SR, RACH,
  SRS and NB-HARQ, from \<^verbatim>\<open>pack_rx_ue_information_value\<close> to
  \<^verbatim>\<open>unpack_nb_harq_indication\<close>.  For each TLV its structure, the packer and the unpacker of
  the value and their laws; for each PDU the chain of packers, the table of unpackers and
  the interpretation of \<open>tlv_pdu\<close>; for each message the instances of the functions of
  \<open>P7_Pdu\<close>.  An argument \<open>alloc_ok\<close> says whether the allocations succeed.
\<close>

section \<open>Tags and limits\<close>

definition NFAPI_RX_UE_INFORMATION_TAG :: u16 where "NFAPI_RX_UE_INFORMATION_TAG = 0x2038"
definition NFAPI_HARQ_INDICATION_TDD_REL8_TAG :: u16 where "NFAPI_HARQ_INDICATION_TDD_REL8_TAG = 0x2027"
definition NFAPI_HARQ_INDICATION_TDD_REL9_TAG :: u16 where "NFAPI_HARQ_INDICATION_TDD_REL9_TAG = 0x2028"
definition NFAPI_HARQ_INDICATION_TDD_REL13_TAG :: u16 where "NFAPI_HARQ_INDICATION_TDD_REL13_TAG = 0x204F"
definition NFAPI_HARQ_INDICATION_FDD_REL8_TAG :: u16 where "NFAPI_HARQ_INDICATION_FDD_REL8_TAG = 0x2029"
definition NFAPI_HARQ_INDICATION_FDD_REL9_TAG :: u16 where "NFAPI_HARQ_INDICATION_FDD_REL9_TAG = 0x202A"
definition NFAPI_HARQ_INDICATION_FDD_REL13_TAG :: u16 where "NFAPI_HARQ_INDICATION_FDD_REL13_TAG = 0x2050"
definition NFAPI_UL_CQI_INFORMATION_TAG :: u16 where "NFAPI_UL_CQI_INFORMATION_TAG = 0x2052"
definition NFAPI_HARQ_INDICATION_BODY_TAG :: u16 where "NFAPI_HARQ_INDICATION_BODY_TAG = 0x2026"
definition NFAPI_CRC_INDICATION_REL8_TAG :: u16 where "NFAPI_CRC_INDICATION_REL8_TAG = 0x202C"
definition NFAPI_CRC_INDICATION_BODY_TAG :: u16 where "NFAPI_CRC_INDICATION_BODY_TAG = 0x202B"
definition NFAPI_SR_INDICATION_BODY_TAG :: u16 where "NFAPI_SR_INDICATION_BODY_TAG = 0x202D"
definition NFAPI_PREAMBLE_REL8_TAG :: u16 where "NFAPI_PREAMBLE_REL8_TAG = 0x2032"
definition NFAPI_PREAMBLE_REL9_TAG :: u16 where "NFAPI_PREAMBLE_REL9_TAG = 0x2033"
definition NFAPI_PREAMBLE_REL13_TAG :: u16 where "NFAPI_PREAMBLE_REL13_TAG = 0x2051"
definition NFAPI_RACH_INDICATION_BODY_TAG :: u16 where "NFAPI_RACH_INDICATION_BODY_TAG = 0x2031"
definition NFAPI_SRS_INDICATION_FDD_REL8_TAG :: u16 where "NFAPI_SRS_INDICATION_FDD_REL8_TAG = 0x2035"
definition NFAPI_SRS_INDICATION_FDD_REL9_TAG :: u16 where "NFAPI_SRS_INDICATION_FDD_REL9_TAG = 0x2036"
definition NFAPI_SRS_INDICATION_TDD_REL10_TAG :: u16 where "NFAPI_SRS_INDICATION_TDD_REL10_TAG = 0x2037"
definition NFAPI_SRS_INDICATION_FDD_REL11_TAG :: u16 where "NFAPI_SRS_INDICATION_FDD_REL11_TAG = 0x2053"
definition NFAPI_TDD_CHANNEL_MEASUREMENT_TAG :: u16 where "NFAPI_TDD_CHANNEL_MEASUREMENT_TAG = 0x2054"
definition NFAPI_SRS_INDICATION_BODY_TAG :: u16 where "NFAPI_SRS_INDICATION_BODY_TAG = 0x2034"
definition NFAPI_NB_HARQ_INDICATION_FDD_REL13_TAG :: u16 where "NFAPI_NB_HARQ_INDICATION_FDD_REL13_TAG = 0x2064"
definition NFAPI_NB_HARQ_INDICATION_BODY_TAG :: u16 where "NFAPI_NB_HARQ_INDICATION_BODY_TAG = 0x2063"

lemmas tag_values = NFAPI_RX_UE_INFORMATION_TAG_def NFAPI_HARQ_INDICATION_TDD_REL8_TAG_def
  NFAPI_HARQ_INDICATION_TDD_REL9_TAG_def NFAPI_HARQ_INDICATION_TDD_REL13_TAG_def
  NFAPI_HARQ_INDICATION_FDD_REL8_TAG_def NFAPI_HARQ_INDICATION_FDD_REL9_TAG_def
  NFAPI_HARQ_INDICATION_FDD_REL13_TAG_def NFAPI_UL_CQI_INFORMATION_TAG_def
  NFAPI_CRC_INDICATION_REL8_TAG_def NFAPI_PREAMBLE_REL8_TAG_def NFAPI_PREAMBLE_REL9_TAG_def
  NFAPI_PREAMBLE_REL13_TAG_def NFAPI_SRS_INDICATION_FDD_REL8_TAG_def
  NFAPI_SRS_INDICATION_FDD_REL9_TAG_def NFAPI_SRS_INDICATION_TDD_REL10_TAG_def
  NFAPI_SRS_INDICATION_FDD_REL11_TAG_def NFAPI_TDD_CHANNEL_MEASUREMENT_TAG_def
  NFAPI_NB_HARQ_INDICATION_FDD_REL13_TAG_def

definition NFAPI_HARQ_IND_MAX_PDU :: nat where "NFAPI_HARQ_IND_MAX_PDU = 100"
definition NFAPI_CRC_IND_MAX_PDU :: nat where "NFAPI_CRC_IND_MAX_PDU = 100"
definition NFAPI_SR_IND_MAX_PDU :: nat where "NFAPI_SR_IND_MAX_PDU = 100"
definition NFAPI_PREAMBLE_MAX_PDU :: nat where "NFAPI_PREAMBLE_MAX_PDU = 100"
definition NFAPI_SRS_IND_MAX_PDU :: nat where "NFAPI_SRS_IND_MAX_PDU = 16"

definition NFAPI_HARQ_ACK_NACK_REL9_MAX :: u32 where "NFAPI_HARQ_ACK_NACK_REL9_MAX = 10"
definition NFAPI_HARQ_ACK_NACK_REL13_MAX :: u32 where "NFAPI_HARQ_ACK_NACK_REL13_MAX = 22"
definition NFAPI_NUM_RB_MAX :: u32 where "NFAPI_NUM_RB_MAX = 1000"
definition NFAPI_MAX_NUM_PHYSICAL_ANTENNAS :: u32 where "NFAPI_MAX_NUM_PHYSICAL_ANTENNAS = 8"
definition NFAPI_MAX_NUM_SUBBANDS :: nat where "NFAPI_MAX_NUM_SUBBANDS = 13"
definition NFAPI_MAX_NUMBER_ACK_NACK_TDD :: nat where "NFAPI_MAX_NUMBER_ACK_NACK_TDD = 8"

lemmas array_max = NFAPI_HARQ_ACK_NACK_REL9_MAX_def NFAPI_HARQ_ACK_NACK_REL13_MAX_def NFAPI_NUM_RB_MAX_def
  NFAPI_MAX_NUM_PHYSICAL_ANTENNAS_def

section \<open>Values of TLVs\<close>


record rx_ue_information =
  ue_handle :: u32
  ue_rnti :: u16

definition pack_rx_ue_information_value :: "rx_ue_information \<Rightarrow> wbuf \<Rightarrow> wbuf option" where
  "pack_rx_ue_information_value v w =
     push32 (ue_handle v) w \<bind>
     push16 (ue_rnti v)"

definition unpack_rx_ue_information_value :: "rbuf \<Rightarrow> (rx_ue_information \<times> rbuf) option" where
  "unpack_rx_ue_information_value r =
     pull32 r \<bind> (\<lambda>(x1, r).
     pull16 r \<bind> (\<lambda>(x2, r).
     Some (\<lparr>ue_handle = x1, ue_rnti = x2\<rparr>, r)))"

definition enc_rx_ue_information :: "rx_ue_information \<Rightarrow> u8 list" where
  "enc_rx_ue_information v = be32 (ue_handle v) @ be16 (ue_rnti v)"

definition zero_rx_ue_information :: rx_ue_information where
  "zero_rx_ue_information = \<lparr>ue_handle = 0, ue_rnti = 0\<rparr>"

lemma writes_pack_rx_ue_information_value [writes_intro]: "writes (pack_rx_ue_information_value v) (enc_rx_ue_information v)"
  unfolding pack_rx_ue_information_value_def [abs_def] enc_rx_ue_information_def by (intro writes_intro)

lemma reads_unpack_rx_ue_information_value [reads_intro]: "reads unpack_rx_ue_information_value v (enc_rx_ue_information v)"
  unfolding unpack_rx_ue_information_value_def [abs_def] enc_rx_ue_information_def
  by (rule reads_cong, (rule reads_intro)+) (auto intro: rx_ue_information.equality)

lemma forward_unpack_rx_ue_information_value [forward_intro]: "moves_forward unpack_rx_ue_information_value"
  unfolding unpack_rx_ue_information_value_def [abs_def] by (intro forward_intro)

record ul_cqi_information =
  ul_cqi :: u8
  cqi_channel :: u8

definition pack_ul_cqi_information_value :: "ul_cqi_information \<Rightarrow> wbuf \<Rightarrow> wbuf option" where
  "pack_ul_cqi_information_value v w =
     push8 (ul_cqi v) w \<bind>
     push8 (cqi_channel v)"

definition unpack_ul_cqi_information_value :: "rbuf \<Rightarrow> (ul_cqi_information \<times> rbuf) option" where
  "unpack_ul_cqi_information_value r =
     pull8 r \<bind> (\<lambda>(x1, r).
     pull8 r \<bind> (\<lambda>(x2, r).
     Some (\<lparr>ul_cqi = x1, cqi_channel = x2\<rparr>, r)))"

definition enc_ul_cqi_information :: "ul_cqi_information \<Rightarrow> u8 list" where
  "enc_ul_cqi_information v = [ul_cqi v] @ [cqi_channel v]"

definition zero_ul_cqi_information :: ul_cqi_information where
  "zero_ul_cqi_information = \<lparr>ul_cqi = 0, cqi_channel = 0\<rparr>"

lemma writes_pack_ul_cqi_information_value [writes_intro]: "writes (pack_ul_cqi_information_value v) (enc_ul_cqi_information v)"
  unfolding pack_ul_cqi_information_value_def [abs_def] enc_ul_cqi_information_def by (intro writes_intro)

lemma reads_unpack_ul_cqi_information_value [reads_intro]: "reads unpack_ul_cqi_information_value v (enc_ul_cqi_information v)"
  unfolding unpack_ul_cqi_information_value_def [abs_def] enc_ul_cqi_information_def
  by (rule reads_cong, (rule reads_intro)+) (auto intro: ul_cqi_information.equality)

lemma forward_unpack_ul_cqi_information_value [forward_intro]: "moves_forward unpack_ul_cqi_information_value"
  unfolding unpack_ul_cqi_information_value_def [abs_def] by (intro forward_intro)

subsection \<open>HARQ\<close>

text \<open>
  The union of the rel8 structure is its storage of four bytes, the alternatives start at the
  same address; in the other two every alternative is one byte.
\<close>

record harq_data_union =
  value_0 :: u8
  value_1 :: u8
  value_2 :: u8
  value_3 :: u8

record harq_indication_tdd_rel8 =
  tdd8_mode :: u8
  tdd8_number_of_ack_nack :: u8
  tdd8_harq_data :: harq_data_union

record harq_indication_tdd_rel9 =
  tdd9_mode :: u8
  tdd9_number_of_ack_nack :: u8
  tdd9_harq_data :: "u8 list"

record harq_indication_tdd_rel13 =
  tdd13_mode :: u8
  tdd13_number_of_ack_nack :: u16
  tdd13_harq_data :: "u8 list"

definition FORMAT_BUNDLING :: u8 where "FORMAT_BUNDLING = 0"
definition FORMAT_MULIPLEXING :: u8 where "FORMAT_MULIPLEXING = 1"
definition FORMAT_SPECIAL_BUNDLING :: u8 where "FORMAT_SPECIAL_BUNDLING = 2"
definition FORMAT_CHANNEL_SELECTION :: u8 where "FORMAT_CHANNEL_SELECTION = 3"
definition FORMAT_FORMAT_3 :: u8 where "FORMAT_FORMAT_3 = 4"
definition FORMAT_FORMAT_4 :: u8 where "FORMAT_FORMAT_4 = 5"
definition FORMAT_FORMAT_5 :: u8 where "FORMAT_FORMAT_5 = 6"

lemmas formats = FORMAT_BUNDLING_def FORMAT_MULIPLEXING_def FORMAT_SPECIAL_BUNDLING_def
  FORMAT_CHANNEL_SELECTION_def FORMAT_FORMAT_3_def FORMAT_FORMAT_4_def FORMAT_FORMAT_5_def

definition pack_harq_indication_tdd_harq_data_bundling :: "harq_data_union \<Rightarrow> wbuf \<Rightarrow> wbuf option" where
  "pack_harq_indication_tdd_harq_data_bundling d w = push8 (value_0 d) w \<bind> push8 (value_1 d)"

definition pack_harq_indication_tdd_harq_data_multiplexing :: "harq_data_union \<Rightarrow> wbuf \<Rightarrow> wbuf option" where
  "pack_harq_indication_tdd_harq_data_multiplexing d w =
     push8 (value_0 d) w \<bind> (\<lambda>w. push8 (value_1 d) w \<bind> (\<lambda>w. push8 (value_2 d) w \<bind> push8 (value_3 d)))"

definition pack_harq_indication_tdd_harq_data_special_bundling :: "u8 \<Rightarrow> wbuf \<Rightarrow> wbuf option" where
  "pack_harq_indication_tdd_harq_data_special_bundling x w = push8 x w"

definition pack_harq_indication_tdd_harq_data :: "u8 \<Rightarrow> wbuf \<Rightarrow> wbuf option" where
  "pack_harq_indication_tdd_harq_data x w = push8 x w"

definition pack_harq_indication_tdd_rel8_value :: "harq_indication_tdd_rel8 \<Rightarrow> wbuf \<Rightarrow> wbuf option" where
  "pack_harq_indication_tdd_rel8_value v w =
     push8 (tdd8_mode v) w \<bind> (\<lambda>w. push8 (tdd8_number_of_ack_nack v) w \<bind> (\<lambda>w.
       if tdd8_mode v = FORMAT_BUNDLING then pack_harq_indication_tdd_harq_data_bundling (tdd8_harq_data v) w
       else if tdd8_mode v = FORMAT_MULIPLEXING then pack_harq_indication_tdd_harq_data_multiplexing (tdd8_harq_data v) w
       else if tdd8_mode v = FORMAT_SPECIAL_BUNDLING
       then pack_harq_indication_tdd_harq_data_special_bundling (value_0 (tdd8_harq_data v)) w
       else if tdd8_mode v = FORMAT_CHANNEL_SELECTION \<or> tdd8_mode v = FORMAT_FORMAT_3 then Some w
       else None))"

text \<open>The body of the loops for rel9 and rel13.\<close>

definition pack_harq_entry_rel9 :: "u8 \<Rightarrow> u8 \<Rightarrow> wbuf \<Rightarrow> wbuf option" where
  "pack_harq_entry_rel9 mode x w =
     (if mode = FORMAT_SPECIAL_BUNDLING then pack_harq_indication_tdd_harq_data_special_bundling x w
      else if mode = FORMAT_BUNDLING \<or> mode = FORMAT_MULIPLEXING \<or> mode = FORMAT_CHANNEL_SELECTION \<or> mode = FORMAT_FORMAT_3
      then pack_harq_indication_tdd_harq_data x w else None)"

definition pack_harq_entry_rel13 :: "u8 \<Rightarrow> u8 \<Rightarrow> wbuf \<Rightarrow> wbuf option" where
  "pack_harq_entry_rel13 mode x w =
     (if mode = FORMAT_SPECIAL_BUNDLING then pack_harq_indication_tdd_harq_data_special_bundling x w
      else if mode = FORMAT_BUNDLING \<or> mode = FORMAT_MULIPLEXING \<or> mode = FORMAT_CHANNEL_SELECTION \<or> mode = FORMAT_FORMAT_3
        \<or> mode = FORMAT_FORMAT_4 \<or> mode = FORMAT_FORMAT_5
      then pack_harq_indication_tdd_harq_data x w else None)"

definition pack_harq_indication_tdd_rel9_value :: "harq_indication_tdd_rel9 \<Rightarrow> wbuf \<Rightarrow> wbuf option" where
  "pack_harq_indication_tdd_rel9_value v w =
     push8 (tdd9_mode v) w \<bind> (\<lambda>w. push8 (tdd9_number_of_ack_nack v) w \<bind>
       push_all (pack_harq_entry_rel9 (tdd9_mode v)) (take (unat (tdd9_number_of_ack_nack v)) (tdd9_harq_data v)))"

definition pack_harq_indication_tdd_rel13_value :: "harq_indication_tdd_rel13 \<Rightarrow> wbuf \<Rightarrow> wbuf option" where
  "pack_harq_indication_tdd_rel13_value v w =
     push8 (tdd13_mode v) w \<bind> (\<lambda>w. push16 (tdd13_number_of_ack_nack v) w \<bind>
       push_all (pack_harq_entry_rel13 (tdd13_mode v)) (take (unat (tdd13_number_of_ack_nack v)) (tdd13_harq_data v)))"

definition unpack_harq_indication_tdd_harq_data_bundling :: "rbuf \<Rightarrow> (harq_data_union \<times> rbuf) option" where
  "unpack_harq_indication_tdd_harq_data_bundling r =
     pull8 r \<bind> (\<lambda>(a, r). pull8 r \<bind> (\<lambda>(b, r). Some (\<lparr>value_0 = a, value_1 = b, value_2 = 0, value_3 = 0\<rparr>, r)))"

definition unpack_harq_indication_tdd_harq_data_multiplexing :: "rbuf \<Rightarrow> (harq_data_union \<times> rbuf) option" where
  "unpack_harq_indication_tdd_harq_data_multiplexing r =
     pull8 r \<bind> (\<lambda>(a, r). pull8 r \<bind> (\<lambda>(b, r). pull8 r \<bind> (\<lambda>(c, r). pull8 r \<bind> (\<lambda>(d, r).
       Some (\<lparr>value_0 = a, value_1 = b, value_2 = c, value_3 = d\<rparr>, r)))))"

definition unpack_harq_indication_tdd_harq_data_special_bundling :: "rbuf \<Rightarrow> (u8 \<times> rbuf) option" where
  "unpack_harq_indication_tdd_harq_data_special_bundling r = pull8 r"

definition unpack_harq_indication_tdd_harq_data :: "rbuf \<Rightarrow> (u8 \<times> rbuf) option" where
  "unpack_harq_indication_tdd_harq_data r = pull8 r"

definition zero_harq_data :: harq_data_union where
  "zero_harq_data = \<lparr>value_0 = 0, value_1 = 0, value_2 = 0, value_3 = 0\<rparr>"

definition unpack_harq_data_rel8 :: "u8 \<Rightarrow> rbuf \<Rightarrow> (harq_data_union \<times> rbuf) option" where
  "unpack_harq_data_rel8 mode r =
     (if mode = FORMAT_BUNDLING then unpack_harq_indication_tdd_harq_data_bundling r
      else if mode = FORMAT_MULIPLEXING then unpack_harq_indication_tdd_harq_data_multiplexing r
      else if mode = FORMAT_SPECIAL_BUNDLING
      then unpack_harq_indication_tdd_harq_data_special_bundling r \<bind> (\<lambda>(a, r). Some (zero_harq_data\<lparr>value_0 := a\<rparr>, r))
      else if mode = FORMAT_FORMAT_3 \<or> mode = FORMAT_CHANNEL_SELECTION then Some (zero_harq_data, r)
      else None)"

definition unpack_harq_indication_tdd_rel8_value :: "rbuf \<Rightarrow> (harq_indication_tdd_rel8 \<times> rbuf) option" where
  "unpack_harq_indication_tdd_rel8_value r =
     pull8 r \<bind> (\<lambda>(mode, r). pull8 r \<bind> (\<lambda>(n, r). unpack_harq_data_rel8 mode r \<bind> (\<lambda>(d, r).
       Some (\<lparr>tdd8_mode = mode, tdd8_number_of_ack_nack = n, tdd8_harq_data = d\<rparr>, r))))"

definition unpack_harq_entry_rel9 :: "u8 \<Rightarrow> rbuf \<Rightarrow> (u8 \<times> rbuf) option" where
  "unpack_harq_entry_rel9 mode r =
     (if mode = FORMAT_SPECIAL_BUNDLING then unpack_harq_indication_tdd_harq_data_special_bundling r
      else if mode = FORMAT_BUNDLING \<or> mode = FORMAT_MULIPLEXING \<or> mode = FORMAT_CHANNEL_SELECTION \<or> mode = FORMAT_FORMAT_3
      then unpack_harq_indication_tdd_harq_data r else None)"

definition unpack_harq_entry_rel13 :: "u8 \<Rightarrow> rbuf \<Rightarrow> (u8 \<times> rbuf) option" where
  "unpack_harq_entry_rel13 mode r =
     (if mode = FORMAT_SPECIAL_BUNDLING then unpack_harq_indication_tdd_harq_data_special_bundling r
      else if mode = FORMAT_BUNDLING \<or> mode = FORMAT_MULIPLEXING \<or> mode = FORMAT_CHANNEL_SELECTION \<or> mode = FORMAT_FORMAT_3
        \<or> mode = FORMAT_FORMAT_4 \<or> mode = FORMAT_FORMAT_5
      then unpack_harq_indication_tdd_harq_data r else None)"

definition unpack_harq_indication_tdd_rel9_value :: "rbuf \<Rightarrow> (harq_indication_tdd_rel9 \<times> rbuf) option" where
  "unpack_harq_indication_tdd_rel9_value r =
     pull8 r \<bind> (\<lambda>(mode, r). pull8 r \<bind> (\<lambda>(n, r).
       if NFAPI_MAX_NUMBER_ACK_NACK_TDD < unat n then None
       else pull_n (unpack_harq_entry_rel9 mode) (unat n) r \<bind> (\<lambda>(d, r).
         Some (\<lparr>tdd9_mode = mode, tdd9_number_of_ack_nack = n, tdd9_harq_data = d\<rparr>, r))))"

definition unpack_harq_indication_tdd_rel13_value :: "rbuf \<Rightarrow> (harq_indication_tdd_rel13 \<times> rbuf) option" where
  "unpack_harq_indication_tdd_rel13_value r =
     pull8 r \<bind> (\<lambda>(mode, r). pull16 r \<bind> (\<lambda>(n, r).
       if NFAPI_MAX_NUMBER_ACK_NACK_TDD < unat n then None
       else pull_n (unpack_harq_entry_rel13 mode) (unat n) r \<bind> (\<lambda>(d, r).
         Some (\<lparr>tdd13_mode = mode, tdd13_number_of_ack_nack = n, tdd13_harq_data = d\<rparr>, r))))"

definition enc_harq_data_rel8 :: "u8 \<Rightarrow> harq_data_union \<Rightarrow> u8 list" where
  "enc_harq_data_rel8 mode d =
     (if mode = FORMAT_BUNDLING then [value_0 d, value_1 d]
      else if mode = FORMAT_MULIPLEXING then [value_0 d, value_1 d, value_2 d, value_3 d]
      else if mode = FORMAT_SPECIAL_BUNDLING then [value_0 d] else [])"

definition enc_harq_indication_tdd_rel8 :: "harq_indication_tdd_rel8 \<Rightarrow> u8 list" where
  "enc_harq_indication_tdd_rel8 v =
     [tdd8_mode v, tdd8_number_of_ack_nack v] @ enc_harq_data_rel8 (tdd8_mode v) (tdd8_harq_data v)"

definition enc_harq_indication_tdd_rel9 :: "harq_indication_tdd_rel9 \<Rightarrow> u8 list" where
  "enc_harq_indication_tdd_rel9 v = [tdd9_mode v] @ [tdd9_number_of_ack_nack v] @ tdd9_harq_data v"

definition enc_harq_indication_tdd_rel13 :: "harq_indication_tdd_rel13 \<Rightarrow> u8 list" where
  "enc_harq_indication_tdd_rel13 v = [tdd13_mode v] @ be16 (tdd13_number_of_ack_nack v) @ tdd13_harq_data v"

text \<open>Well formed: a known format and, as the receiver zeroes it, no content in unused storage.\<close>

definition valid_harq_indication_tdd_rel8 :: "harq_indication_tdd_rel8 \<Rightarrow> bool" where
  "valid_harq_indication_tdd_rel8 v \<longleftrightarrow> tdd8_mode v \<le> FORMAT_FORMAT_3 \<and>
     (let d = tdd8_harq_data v; k = length (enc_harq_data_rel8 (tdd8_mode v) d)
      in (k < 1 \<longrightarrow> value_0 d = 0) \<and> (k < 2 \<longrightarrow> value_1 d = 0) \<and> (k < 3 \<longrightarrow> value_2 d = 0 \<and> value_3 d = 0))"

definition valid_harq_indication_tdd_rel9 :: "harq_indication_tdd_rel9 \<Rightarrow> bool" where
  "valid_harq_indication_tdd_rel9 v \<longleftrightarrow> tdd9_mode v \<le> FORMAT_FORMAT_3 \<and>
     length (tdd9_harq_data v) = unat (tdd9_number_of_ack_nack v) \<and>
     unat (tdd9_number_of_ack_nack v) \<le> NFAPI_MAX_NUMBER_ACK_NACK_TDD"

definition valid_harq_indication_tdd_rel13 :: "harq_indication_tdd_rel13 \<Rightarrow> bool" where
  "valid_harq_indication_tdd_rel13 v \<longleftrightarrow> tdd13_mode v \<le> FORMAT_FORMAT_5 \<and>
     length (tdd13_harq_data v) = unat (tdd13_number_of_ack_nack v) \<and>
     unat (tdd13_number_of_ack_nack v) \<le> NFAPI_MAX_NUMBER_ACK_NACK_TDD"

definition zero_harq_indication_tdd_rel8 :: harq_indication_tdd_rel8 where
  "zero_harq_indication_tdd_rel8 = \<lparr>tdd8_mode = 0, tdd8_number_of_ack_nack = 0, tdd8_harq_data = zero_harq_data\<rparr>"

definition zero_harq_indication_tdd_rel9 :: harq_indication_tdd_rel9 where
  "zero_harq_indication_tdd_rel9 = \<lparr>tdd9_mode = 0, tdd9_number_of_ack_nack = 0, tdd9_harq_data = []\<rparr>"

definition zero_harq_indication_tdd_rel13 :: harq_indication_tdd_rel13 where
  "zero_harq_indication_tdd_rel13 = \<lparr>tdd13_mode = 0, tdd13_number_of_ack_nack = 0, tdd13_harq_data = []\<rparr>"

lemma u8_le_cases: "(m :: u8) \<le> 4 \<Longrightarrow> m = 0 \<or> m = 1 \<or> m = 2 \<or> m = 3 \<or> m = 4"
  "(m :: u8) \<le> 6 \<Longrightarrow> m = 0 \<or> m = 1 \<or> m = 2 \<or> m = 3 \<or> m = 4 \<or> m = 5 \<or> m = 6"
proof -
  show "m \<le> 4 \<Longrightarrow> m = 0 \<or> m = 1 \<or> m = 2 \<or> m = 3 \<or> m = 4"
  proof -
    assume "m \<le> 4"
    then have "unat m \<le> 4" by (simp add: word_le_nat_alt)
    then have "unat m = 0 \<or> unat m = 1 \<or> unat m = 2 \<or> unat m = 3 \<or> unat m = 4" by linarith
    then show ?thesis by (simp add: word_unat_eq_iff)
  qed
  show "m \<le> 6 \<Longrightarrow> m = 0 \<or> m = 1 \<or> m = 2 \<or> m = 3 \<or> m = 4 \<or> m = 5 \<or> m = 6"
  proof -
    assume "m \<le> 6"
    then have "unat m \<le> 6" by (simp add: word_le_nat_alt)
    then have "unat m = 0 \<or> unat m = 1 \<or> unat m = 2 \<or> unat m = 3 \<or> unat m = 4 \<or> unat m = 5 \<or> unat m = 6" by linarith
    then show ?thesis by (simp add: word_unat_eq_iff)
  qed
qed

lemma writes_pack_harq_indication_tdd_rel8_value [writes_intro]:
  assumes "valid_harq_indication_tdd_rel8 v"
  shows "writes (pack_harq_indication_tdd_rel8_value v) (enc_harq_indication_tdd_rel8 v)"
proof -
  let ?m = "tdd8_mode v" and ?d = "tdd8_harq_data v"
  consider "?m = 0" | "?m = 1" | "?m = 2" | "?m = 3" | "?m = 4"
    using assms u8_le_cases(1) [of ?m] by (auto simp: valid_harq_indication_tdd_rel8_def formats)
  then have "writes (\<lambda>w. if ?m = FORMAT_BUNDLING then pack_harq_indication_tdd_harq_data_bundling ?d w
       else if ?m = FORMAT_MULIPLEXING then pack_harq_indication_tdd_harq_data_multiplexing ?d w
       else if ?m = FORMAT_SPECIAL_BUNDLING then pack_harq_indication_tdd_harq_data_special_bundling (value_0 ?d) w
       else if ?m = FORMAT_CHANNEL_SELECTION \<or> ?m = FORMAT_FORMAT_3 then Some w else None)
     (enc_harq_data_rel8 ?m ?d)"
    by cases (simp_all add: formats enc_harq_data_rel8_def pack_harq_indication_tdd_harq_data_bundling_def
        pack_harq_indication_tdd_harq_data_multiplexing_def pack_harq_indication_tdd_harq_data_special_bundling_def
        writes_push8 writes_nop,
      (rule writes_cong, (rule writes_intro)+, simp)+)
  note this [writes_intro]
  show ?thesis
    unfolding pack_harq_indication_tdd_rel8_value_def [abs_def] enc_harq_indication_tdd_rel8_def
    by (rule writes_cong, (rule writes_intro)+) (simp add: enc_harq_indication_tdd_rel8_def)
qed

lemma reads_unpack_harq_indication_tdd_rel8_value [reads_intro]:
  assumes v: "valid_harq_indication_tdd_rel8 v"
  shows "reads unpack_harq_indication_tdd_rel8_value v (enc_harq_indication_tdd_rel8 v)"
proof -
  let ?m = "tdd8_mode v" and ?d = "tdd8_harq_data v"
  note defs = formats enc_harq_data_rel8_def unpack_harq_data_rel8_def [abs_def] unpack_harq_indication_tdd_harq_data_bundling_def
    unpack_harq_indication_tdd_harq_data_multiplexing_def unpack_harq_indication_tdd_harq_data_special_bundling_def
  consider "?m = 0" | "?m = 1" | "?m = 2" | "?m = 3" | "?m = 4"
    using v u8_le_cases(1) [of ?m] by (auto simp: valid_harq_indication_tdd_rel8_def formats)
  then have "reads (unpack_harq_data_rel8 ?m) ?d (enc_harq_data_rel8 ?m ?d)"
    using v unfolding valid_harq_indication_tdd_rel8_def Let_def
    by cases (simp_all add: defs,
      (rule reads_cong, (rule reads_intro)+, simp, simp add: zero_harq_data_def)+)
  note this [reads_intro]
  show ?thesis
    unfolding unpack_harq_indication_tdd_rel8_value_def [abs_def] enc_harq_indication_tdd_rel8_def
    by (rule reads_cong, (rule reads_intro)+) (auto intro: harq_indication_tdd_rel8.equality)
qed

lemma writes_pack_harq_indication_tdd_rel9_value [writes_intro]:
  assumes v: "valid_harq_indication_tdd_rel9 v"
  shows "writes (pack_harq_indication_tdd_rel9_value v) (enc_harq_indication_tdd_rel9 v)"
proof -
  have e: "writes (pack_harq_entry_rel9 (tdd9_mode v) x) [x]" for x
    using v u8_le_cases(1) [of "tdd9_mode v"] unfolding valid_harq_indication_tdd_rel9_def pack_harq_entry_rel9_def [abs_def]
    by (auto simp: formats pack_harq_indication_tdd_harq_data_special_bundling_def [abs_def]
        pack_harq_indication_tdd_harq_data_def [abs_def] writes_push8)
  have "writes (push_all (pack_harq_entry_rel9 (tdd9_mode v)) xs) xs" for xs
    using writes_push_all_of [where xs = xs and p = "pack_harq_entry_rel9 (tdd9_mode v)" and enc = "\<lambda>x. [x]", OF e] by simp
  note this [writes_intro]
  show ?thesis
    unfolding pack_harq_indication_tdd_rel9_value_def [abs_def]
    by (rule writes_cong, (rule writes_intro)+)
       (use v in \<open>simp add: enc_harq_indication_tdd_rel9_def valid_harq_indication_tdd_rel9_def\<close>)
qed

lemma reads_unpack_harq_indication_tdd_rel9_value [reads_intro]:
  assumes v: "valid_harq_indication_tdd_rel9 v"
  shows "reads unpack_harq_indication_tdd_rel9_value v (enc_harq_indication_tdd_rel9 v)"
proof -
  let ?m = "tdd9_mode v" and ?n = "tdd9_number_of_ack_nack v" and ?d = "tdd9_harq_data v"
  have e: "reads (unpack_harq_entry_rel9 ?m) x [x]" for x
    using v u8_le_cases(1) [of ?m] unfolding valid_harq_indication_tdd_rel9_def unpack_harq_entry_rel9_def [abs_def]
    by (auto simp: formats unpack_harq_indication_tdd_harq_data_special_bundling_def [abs_def]
        unpack_harq_indication_tdd_harq_data_def [abs_def] reads_pull8)
  have "reads (pull_n (unpack_harq_entry_rel9 ?m) (length ?d)) ?d ?d"
    using reads_pull_n_of [where xs = ?d and g = "unpack_harq_entry_rel9 ?m" and f = "\<lambda>x. x" and enc = "\<lambda>x. [x]", OF e] by simp
  then have d: "reads (pull_n (unpack_harq_entry_rel9 ?m) (unat ?n)) ?d ?d"
    using v by (simp add: valid_harq_indication_tdd_rel9_def)
  have "reads (\<lambda>r. pull_n (unpack_harq_entry_rel9 ?m) (unat ?n) r \<bind> (\<lambda>(d, r).
         Some (\<lparr>tdd9_mode = ?m, tdd9_number_of_ack_nack = ?n, tdd9_harq_data = d\<rparr>, r))) v (?d @ [])"
    by (rule reads_bind [OF d], rule reads_cong [OF reads_return]) simp_all
  then have "reads (\<lambda>r. if NFAPI_MAX_NUMBER_ACK_NACK_TDD < unat ?n then None
       else pull_n (unpack_harq_entry_rel9 ?m) (unat ?n) r \<bind> (\<lambda>(d, r).
         Some (\<lparr>tdd9_mode = ?m, tdd9_number_of_ack_nack = ?n, tdd9_harq_data = d\<rparr>, r))) v (?d @ [])"
    using v by (simp add: valid_harq_indication_tdd_rel9_def)
  note loop = this [unfolded append_Nil2]
  show ?thesis
    unfolding unpack_harq_indication_tdd_rel9_value_def [abs_def] enc_harq_indication_tdd_rel9_def
    by (rule reads_bind, rule reads_pull8, rule reads_bind, rule reads_pull8, rule loop)
qed

lemma writes_pack_harq_indication_tdd_rel13_value [writes_intro]:
  assumes v: "valid_harq_indication_tdd_rel13 v"
  shows "writes (pack_harq_indication_tdd_rel13_value v) (enc_harq_indication_tdd_rel13 v)"
proof -
  have e: "writes (pack_harq_entry_rel13 (tdd13_mode v) x) [x]" for x
    using v u8_le_cases(2) [of "tdd13_mode v"] unfolding valid_harq_indication_tdd_rel13_def pack_harq_entry_rel13_def [abs_def]
    by (auto simp: formats pack_harq_indication_tdd_harq_data_special_bundling_def [abs_def]
        pack_harq_indication_tdd_harq_data_def [abs_def] writes_push8)
  have "writes (push_all (pack_harq_entry_rel13 (tdd13_mode v)) xs) xs" for xs
    using writes_push_all_of [where xs = xs and p = "pack_harq_entry_rel13 (tdd13_mode v)" and enc = "\<lambda>x. [x]", OF e] by simp
  note this [writes_intro]
  show ?thesis
    unfolding pack_harq_indication_tdd_rel13_value_def [abs_def]
    by (rule writes_cong, (rule writes_intro)+)
       (use v in \<open>simp add: enc_harq_indication_tdd_rel13_def valid_harq_indication_tdd_rel13_def\<close>)
qed

lemma reads_unpack_harq_indication_tdd_rel13_value [reads_intro]:
  assumes v: "valid_harq_indication_tdd_rel13 v"
  shows "reads unpack_harq_indication_tdd_rel13_value v (enc_harq_indication_tdd_rel13 v)"
proof -
  let ?m = "tdd13_mode v" and ?n = "tdd13_number_of_ack_nack v" and ?d = "tdd13_harq_data v"
  have e: "reads (unpack_harq_entry_rel13 ?m) x [x]" for x
    using v u8_le_cases(2) [of ?m] unfolding valid_harq_indication_tdd_rel13_def unpack_harq_entry_rel13_def [abs_def]
    by (auto simp: formats unpack_harq_indication_tdd_harq_data_special_bundling_def [abs_def]
        unpack_harq_indication_tdd_harq_data_def [abs_def] reads_pull8)
  have "reads (pull_n (unpack_harq_entry_rel13 ?m) (length ?d)) ?d ?d"
    using reads_pull_n_of [where xs = ?d and g = "unpack_harq_entry_rel13 ?m" and f = "\<lambda>x. x" and enc = "\<lambda>x. [x]", OF e] by simp
  then have d: "reads (pull_n (unpack_harq_entry_rel13 ?m) (unat ?n)) ?d ?d"
    using v by (simp add: valid_harq_indication_tdd_rel13_def)
  have "reads (\<lambda>r. pull_n (unpack_harq_entry_rel13 ?m) (unat ?n) r \<bind> (\<lambda>(d, r).
         Some (\<lparr>tdd13_mode = ?m, tdd13_number_of_ack_nack = ?n, tdd13_harq_data = d\<rparr>, r))) v (?d @ [])"
    by (rule reads_bind [OF d], rule reads_cong [OF reads_return]) simp_all
  then have "reads (\<lambda>r. if NFAPI_MAX_NUMBER_ACK_NACK_TDD < unat ?n then None
       else pull_n (unpack_harq_entry_rel13 ?m) (unat ?n) r \<bind> (\<lambda>(d, r).
         Some (\<lparr>tdd13_mode = ?m, tdd13_number_of_ack_nack = ?n, tdd13_harq_data = d\<rparr>, r))) v (?d @ [])"
    using v by (simp add: valid_harq_indication_tdd_rel13_def)
  note loop = this [unfolded append_Nil2]
  show ?thesis
    unfolding unpack_harq_indication_tdd_rel13_value_def [abs_def] enc_harq_indication_tdd_rel13_def
    by (rule reads_bind, rule reads_pull8, rule reads_bind, rule reads_pull16, rule loop)
qed

lemma forward_unpack_tdd [forward_intro]:
  "moves_forward unpack_harq_indication_tdd_rel8_value" "moves_forward unpack_harq_indication_tdd_rel9_value"
  "moves_forward unpack_harq_indication_tdd_rel13_value"
proof -
  have e: "moves_forward (unpack_harq_entry_rel9 m)" "moves_forward (unpack_harq_entry_rel13 m)"
    "moves_forward (unpack_harq_data_rel8 m)" for m
    unfolding unpack_harq_entry_rel9_def [abs_def] unpack_harq_entry_rel13_def [abs_def] unpack_harq_data_rel8_def [abs_def]
      unpack_harq_indication_tdd_harq_data_special_bundling_def [abs_def] unpack_harq_indication_tdd_harq_data_def [abs_def]
      unpack_harq_indication_tdd_harq_data_bundling_def [abs_def] unpack_harq_indication_tdd_harq_data_multiplexing_def [abs_def]
    by (intro forward_intro)+
  show "moves_forward unpack_harq_indication_tdd_rel8_value" "moves_forward unpack_harq_indication_tdd_rel9_value"
    "moves_forward unpack_harq_indication_tdd_rel13_value"
    unfolding unpack_harq_indication_tdd_rel8_value_def [abs_def] unpack_harq_indication_tdd_rel9_value_def [abs_def]
      unpack_harq_indication_tdd_rel13_value_def [abs_def]
    by (intro forward_intro e)+
qed

record harq_indication_fdd_rel8 =
  harq_tb1 :: u8
  harq_tb2 :: u8

definition pack_harq_indication_fdd_rel8_value :: "harq_indication_fdd_rel8 \<Rightarrow> wbuf \<Rightarrow> wbuf option" where
  "pack_harq_indication_fdd_rel8_value v w =
     push8 (harq_tb1 v) w \<bind>
     push8 (harq_tb2 v)"

definition unpack_harq_indication_fdd_rel8_value :: "rbuf \<Rightarrow> (harq_indication_fdd_rel8 \<times> rbuf) option" where
  "unpack_harq_indication_fdd_rel8_value r =
     pull8 r \<bind> (\<lambda>(x1, r).
     pull8 r \<bind> (\<lambda>(x2, r).
     Some (\<lparr>harq_tb1 = x1, harq_tb2 = x2\<rparr>, r)))"

definition enc_harq_indication_fdd_rel8 :: "harq_indication_fdd_rel8 \<Rightarrow> u8 list" where
  "enc_harq_indication_fdd_rel8 v = [harq_tb1 v] @ [harq_tb2 v]"

definition zero_harq_indication_fdd_rel8 :: harq_indication_fdd_rel8 where
  "zero_harq_indication_fdd_rel8 = \<lparr>harq_tb1 = 0, harq_tb2 = 0\<rparr>"

lemma writes_pack_harq_indication_fdd_rel8_value [writes_intro]: "writes (pack_harq_indication_fdd_rel8_value v) (enc_harq_indication_fdd_rel8 v)"
  unfolding pack_harq_indication_fdd_rel8_value_def [abs_def] enc_harq_indication_fdd_rel8_def by (intro writes_intro)

lemma reads_unpack_harq_indication_fdd_rel8_value [reads_intro]: "reads unpack_harq_indication_fdd_rel8_value v (enc_harq_indication_fdd_rel8 v)"
  unfolding unpack_harq_indication_fdd_rel8_value_def [abs_def] enc_harq_indication_fdd_rel8_def
  by (rule reads_cong, (rule reads_intro)+) (auto intro: harq_indication_fdd_rel8.equality)

lemma forward_unpack_harq_indication_fdd_rel8_value [forward_intro]: "moves_forward unpack_harq_indication_fdd_rel8_value"
  unfolding unpack_harq_indication_fdd_rel8_value_def [abs_def] by (intro forward_intro)

record harq_indication_fdd_rel9 =
  fdd9_mode :: u8
  fdd9_number_of_ack_nack :: u8
  fdd9_harq_tb_n :: "u8 list"

definition pack_harq_indication_fdd_rel9_value :: "harq_indication_fdd_rel9 \<Rightarrow> wbuf \<Rightarrow> wbuf option" where
  "pack_harq_indication_fdd_rel9_value v w =
     push8 (fdd9_mode v) w \<bind> (\<lambda>w.
     push8 (fdd9_number_of_ack_nack v) w \<bind>
     pusharray8 (fdd9_harq_tb_n v) NFAPI_HARQ_ACK_NACK_REL9_MAX (ucast (fdd9_number_of_ack_nack v)))"

definition unpack_harq_indication_fdd_rel9_value :: "rbuf \<Rightarrow> (harq_indication_fdd_rel9 \<times> rbuf) option" where
  "unpack_harq_indication_fdd_rel9_value r =
     pull8 r \<bind> (\<lambda>(x1, r).
     pull8 r \<bind> (\<lambda>(x2, r).
     pullarray8 NFAPI_HARQ_ACK_NACK_REL9_MAX (ucast x2) r \<bind> (\<lambda>(x3, r).
     Some (\<lparr>fdd9_mode = x1, fdd9_number_of_ack_nack = x2, fdd9_harq_tb_n = x3\<rparr>, r))))"

definition enc_harq_indication_fdd_rel9 :: "harq_indication_fdd_rel9 \<Rightarrow> u8 list" where
  "enc_harq_indication_fdd_rel9 v = [fdd9_mode v] @ [fdd9_number_of_ack_nack v] @ fdd9_harq_tb_n v"

definition valid_harq_indication_fdd_rel9 :: "harq_indication_fdd_rel9 \<Rightarrow> bool" where
  "valid_harq_indication_fdd_rel9 v \<longleftrightarrow> length (fdd9_harq_tb_n v) = unat (fdd9_number_of_ack_nack v) \<and> unat (fdd9_number_of_ack_nack v) \<le> unat NFAPI_HARQ_ACK_NACK_REL9_MAX"

definition zero_harq_indication_fdd_rel9 :: harq_indication_fdd_rel9 where
  "zero_harq_indication_fdd_rel9 = \<lparr>fdd9_mode = 0, fdd9_number_of_ack_nack = 0, fdd9_harq_tb_n = []\<rparr>"

lemma writes_pack_harq_indication_fdd_rel9_value [writes_intro]: "valid_harq_indication_fdd_rel9 v \<Longrightarrow> writes (pack_harq_indication_fdd_rel9_value v) (enc_harq_indication_fdd_rel9 v)"
  unfolding pack_harq_indication_fdd_rel9_value_def [abs_def] enc_harq_indication_fdd_rel9_def
  by (rule writes_cong, (rule writes_intro)+) (auto simp: array_fits_def valid_harq_indication_fdd_rel9_def array_max word_le_nat_alt)

lemma reads_unpack_harq_indication_fdd_rel9_value [reads_intro]: "valid_harq_indication_fdd_rel9 v \<Longrightarrow> reads unpack_harq_indication_fdd_rel9_value v (enc_harq_indication_fdd_rel9 v)"
  unfolding unpack_harq_indication_fdd_rel9_value_def [abs_def] enc_harq_indication_fdd_rel9_def
  by (rule reads_cong, (rule reads_intro)+) (auto simp: valid_harq_indication_fdd_rel9_def array_max word_le_nat_alt reads_return_iff intro: harq_indication_fdd_rel9.equality)

lemma forward_unpack_harq_indication_fdd_rel9_value [forward_intro]: "moves_forward unpack_harq_indication_fdd_rel9_value"
  unfolding unpack_harq_indication_fdd_rel9_value_def [abs_def] by (intro forward_intro)

record harq_indication_fdd_rel13 =
  fdd13_mode :: u8
  fdd13_number_of_ack_nack :: u16
  fdd13_harq_tb_n :: "u8 list"

definition pack_harq_indication_fdd_rel13_value :: "harq_indication_fdd_rel13 \<Rightarrow> wbuf \<Rightarrow> wbuf option" where
  "pack_harq_indication_fdd_rel13_value v w =
     push8 (fdd13_mode v) w \<bind> (\<lambda>w.
     push16 (fdd13_number_of_ack_nack v) w \<bind>
     pusharray8 (fdd13_harq_tb_n v) NFAPI_HARQ_ACK_NACK_REL13_MAX (ucast (fdd13_number_of_ack_nack v)))"

definition unpack_harq_indication_fdd_rel13_value :: "rbuf \<Rightarrow> (harq_indication_fdd_rel13 \<times> rbuf) option" where
  "unpack_harq_indication_fdd_rel13_value r =
     pull8 r \<bind> (\<lambda>(x1, r).
     pull16 r \<bind> (\<lambda>(x2, r).
     pullarray8 NFAPI_HARQ_ACK_NACK_REL13_MAX (ucast x2) r \<bind> (\<lambda>(x3, r).
     Some (\<lparr>fdd13_mode = x1, fdd13_number_of_ack_nack = x2, fdd13_harq_tb_n = x3\<rparr>, r))))"

definition enc_harq_indication_fdd_rel13 :: "harq_indication_fdd_rel13 \<Rightarrow> u8 list" where
  "enc_harq_indication_fdd_rel13 v = [fdd13_mode v] @ be16 (fdd13_number_of_ack_nack v) @ fdd13_harq_tb_n v"

definition valid_harq_indication_fdd_rel13 :: "harq_indication_fdd_rel13 \<Rightarrow> bool" where
  "valid_harq_indication_fdd_rel13 v \<longleftrightarrow> length (fdd13_harq_tb_n v) = unat (fdd13_number_of_ack_nack v) \<and> unat (fdd13_number_of_ack_nack v) \<le> unat NFAPI_HARQ_ACK_NACK_REL13_MAX"

definition zero_harq_indication_fdd_rel13 :: harq_indication_fdd_rel13 where
  "zero_harq_indication_fdd_rel13 = \<lparr>fdd13_mode = 0, fdd13_number_of_ack_nack = 0, fdd13_harq_tb_n = []\<rparr>"

lemma writes_pack_harq_indication_fdd_rel13_value [writes_intro]: "valid_harq_indication_fdd_rel13 v \<Longrightarrow> writes (pack_harq_indication_fdd_rel13_value v) (enc_harq_indication_fdd_rel13 v)"
  unfolding pack_harq_indication_fdd_rel13_value_def [abs_def] enc_harq_indication_fdd_rel13_def
  by (rule writes_cong, (rule writes_intro)+) (auto simp: array_fits_def valid_harq_indication_fdd_rel13_def array_max word_le_nat_alt)

lemma reads_unpack_harq_indication_fdd_rel13_value [reads_intro]: "valid_harq_indication_fdd_rel13 v \<Longrightarrow> reads unpack_harq_indication_fdd_rel13_value v (enc_harq_indication_fdd_rel13 v)"
  unfolding unpack_harq_indication_fdd_rel13_value_def [abs_def] enc_harq_indication_fdd_rel13_def
  by (rule reads_cong, (rule reads_intro)+) (auto simp: valid_harq_indication_fdd_rel13_def array_max word_le_nat_alt reads_return_iff intro: harq_indication_fdd_rel13.equality)

lemma forward_unpack_harq_indication_fdd_rel13_value [forward_intro]: "moves_forward unpack_harq_indication_fdd_rel13_value"
  unfolding unpack_harq_indication_fdd_rel13_value_def [abs_def] by (intro forward_intro)

subsection \<open>CRC, RACH, NB-HARQ\<close>

record crc_indication_rel8 =
  crc_flag :: u8

definition pack_crc_indication_rel8_body :: "crc_indication_rel8 \<Rightarrow> wbuf \<Rightarrow> wbuf option" where
  "pack_crc_indication_rel8_body v w =
     push8 (crc_flag v) w"

definition unpack_crc_indication_rel8_value :: "rbuf \<Rightarrow> (crc_indication_rel8 \<times> rbuf) option" where
  "unpack_crc_indication_rel8_value r =
     pull8 r \<bind> (\<lambda>(x1, r).
     Some (\<lparr>crc_flag = x1\<rparr>, r))"

definition enc_crc_indication_rel8 :: "crc_indication_rel8 \<Rightarrow> u8 list" where
  "enc_crc_indication_rel8 v = [crc_flag v]"

definition zero_crc_indication_rel8 :: crc_indication_rel8 where
  "zero_crc_indication_rel8 = \<lparr>crc_flag = 0\<rparr>"

lemma writes_pack_crc_indication_rel8_body [writes_intro]: "writes (pack_crc_indication_rel8_body v) (enc_crc_indication_rel8 v)"
  unfolding pack_crc_indication_rel8_body_def [abs_def] enc_crc_indication_rel8_def by (rule writes_intro)

lemma reads_unpack_crc_indication_rel8_value [reads_intro]: "reads unpack_crc_indication_rel8_value v (enc_crc_indication_rel8 v)"
  unfolding unpack_crc_indication_rel8_value_def [abs_def] enc_crc_indication_rel8_def
  by (rule reads_cong, (rule reads_intro)+) (auto intro: crc_indication_rel8.equality)

lemma forward_unpack_crc_indication_rel8_value [forward_intro]: "moves_forward unpack_crc_indication_rel8_value"
  unfolding unpack_crc_indication_rel8_value_def [abs_def] by (intro forward_intro)

record preamble_pdu_rel8 =
  pre_rnti :: u16
  preamble :: u8
  pre_timing_advance :: u16

definition pack_preamble_pdu_rel8_value :: "preamble_pdu_rel8 \<Rightarrow> wbuf \<Rightarrow> wbuf option" where
  "pack_preamble_pdu_rel8_value v w =
     push16 (pre_rnti v) w \<bind> (\<lambda>w.
     push8 (preamble v) w \<bind>
     push16 (pre_timing_advance v))"

definition unpack_preamble_pdu_rel8_value :: "rbuf \<Rightarrow> (preamble_pdu_rel8 \<times> rbuf) option" where
  "unpack_preamble_pdu_rel8_value r =
     pull16 r \<bind> (\<lambda>(x1, r).
     pull8 r \<bind> (\<lambda>(x2, r).
     pull16 r \<bind> (\<lambda>(x3, r).
     Some (\<lparr>pre_rnti = x1, preamble = x2, pre_timing_advance = x3\<rparr>, r))))"

definition enc_preamble_pdu_rel8 :: "preamble_pdu_rel8 \<Rightarrow> u8 list" where
  "enc_preamble_pdu_rel8 v = be16 (pre_rnti v) @ [preamble v] @ be16 (pre_timing_advance v)"

definition zero_preamble_pdu_rel8 :: preamble_pdu_rel8 where
  "zero_preamble_pdu_rel8 = \<lparr>pre_rnti = 0, preamble = 0, pre_timing_advance = 0\<rparr>"

lemma writes_pack_preamble_pdu_rel8_value [writes_intro]: "writes (pack_preamble_pdu_rel8_value v) (enc_preamble_pdu_rel8 v)"
  unfolding pack_preamble_pdu_rel8_value_def [abs_def] enc_preamble_pdu_rel8_def by (intro writes_intro)

lemma reads_unpack_preamble_pdu_rel8_value [reads_intro]: "reads unpack_preamble_pdu_rel8_value v (enc_preamble_pdu_rel8 v)"
  unfolding unpack_preamble_pdu_rel8_value_def [abs_def] enc_preamble_pdu_rel8_def
  by (rule reads_cong, (rule reads_intro)+) (auto intro: preamble_pdu_rel8.equality)

lemma forward_unpack_preamble_pdu_rel8_value [forward_intro]: "moves_forward unpack_preamble_pdu_rel8_value"
  unfolding unpack_preamble_pdu_rel8_value_def [abs_def] by (intro forward_intro)

record preamble_pdu_rel9 =
  pre_timing_advance_r9 :: u16

definition pack_preamble_pdu_rel9_value :: "preamble_pdu_rel9 \<Rightarrow> wbuf \<Rightarrow> wbuf option" where
  "pack_preamble_pdu_rel9_value v w =
     push16 (pre_timing_advance_r9 v) w"

definition unpack_preamble_pdu_rel9_value :: "rbuf \<Rightarrow> (preamble_pdu_rel9 \<times> rbuf) option" where
  "unpack_preamble_pdu_rel9_value r =
     pull16 r \<bind> (\<lambda>(x1, r).
     Some (\<lparr>pre_timing_advance_r9 = x1\<rparr>, r))"

definition enc_preamble_pdu_rel9 :: "preamble_pdu_rel9 \<Rightarrow> u8 list" where
  "enc_preamble_pdu_rel9 v = be16 (pre_timing_advance_r9 v)"

definition zero_preamble_pdu_rel9 :: preamble_pdu_rel9 where
  "zero_preamble_pdu_rel9 = \<lparr>pre_timing_advance_r9 = 0\<rparr>"

lemma writes_pack_preamble_pdu_rel9_value [writes_intro]: "writes (pack_preamble_pdu_rel9_value v) (enc_preamble_pdu_rel9 v)"
  unfolding pack_preamble_pdu_rel9_value_def [abs_def] enc_preamble_pdu_rel9_def by (rule writes_intro)

lemma reads_unpack_preamble_pdu_rel9_value [reads_intro]: "reads unpack_preamble_pdu_rel9_value v (enc_preamble_pdu_rel9 v)"
  unfolding unpack_preamble_pdu_rel9_value_def [abs_def] enc_preamble_pdu_rel9_def
  by (rule reads_cong, (rule reads_intro)+) (auto intro: preamble_pdu_rel9.equality)

lemma forward_unpack_preamble_pdu_rel9_value [forward_intro]: "moves_forward unpack_preamble_pdu_rel9_value"
  unfolding unpack_preamble_pdu_rel9_value_def [abs_def] by (intro forward_intro)

record preamble_pdu_rel13 =
  rach_resource_type :: u8

definition pack_preamble_pdu_rel13_value :: "preamble_pdu_rel13 \<Rightarrow> wbuf \<Rightarrow> wbuf option" where
  "pack_preamble_pdu_rel13_value v w =
     push8 (rach_resource_type v) w"

definition unpack_preamble_pdu_rel13_value :: "rbuf \<Rightarrow> (preamble_pdu_rel13 \<times> rbuf) option" where
  "unpack_preamble_pdu_rel13_value r =
     pull8 r \<bind> (\<lambda>(x1, r).
     Some (\<lparr>rach_resource_type = x1\<rparr>, r))"

definition enc_preamble_pdu_rel13 :: "preamble_pdu_rel13 \<Rightarrow> u8 list" where
  "enc_preamble_pdu_rel13 v = [rach_resource_type v]"

definition zero_preamble_pdu_rel13 :: preamble_pdu_rel13 where
  "zero_preamble_pdu_rel13 = \<lparr>rach_resource_type = 0\<rparr>"

lemma writes_pack_preamble_pdu_rel13_value [writes_intro]: "writes (pack_preamble_pdu_rel13_value v) (enc_preamble_pdu_rel13 v)"
  unfolding pack_preamble_pdu_rel13_value_def [abs_def] enc_preamble_pdu_rel13_def by (rule writes_intro)

lemma reads_unpack_preamble_pdu_rel13_value [reads_intro]: "reads unpack_preamble_pdu_rel13_value v (enc_preamble_pdu_rel13 v)"
  unfolding unpack_preamble_pdu_rel13_value_def [abs_def] enc_preamble_pdu_rel13_def
  by (rule reads_cong, (rule reads_intro)+) (auto intro: preamble_pdu_rel13.equality)

lemma forward_unpack_preamble_pdu_rel13_value [forward_intro]: "moves_forward unpack_preamble_pdu_rel13_value"
  unfolding unpack_preamble_pdu_rel13_value_def [abs_def] by (intro forward_intro)

record nb_harq_indication_fdd_rel13 =
  nb_harq_tb1 :: u8

definition pack_nb_harq_indication_fdd_rel13_value :: "nb_harq_indication_fdd_rel13 \<Rightarrow> wbuf \<Rightarrow> wbuf option" where
  "pack_nb_harq_indication_fdd_rel13_value v w =
     push8 (nb_harq_tb1 v) w"

definition unpack_nb_harq_indication_fdd_rel13_value :: "rbuf \<Rightarrow> (nb_harq_indication_fdd_rel13 \<times> rbuf) option" where
  "unpack_nb_harq_indication_fdd_rel13_value r =
     pull8 r \<bind> (\<lambda>(x1, r).
     Some (\<lparr>nb_harq_tb1 = x1\<rparr>, r))"

definition enc_nb_harq_indication_fdd_rel13 :: "nb_harq_indication_fdd_rel13 \<Rightarrow> u8 list" where
  "enc_nb_harq_indication_fdd_rel13 v = [nb_harq_tb1 v]"

definition zero_nb_harq_indication_fdd_rel13 :: nb_harq_indication_fdd_rel13 where
  "zero_nb_harq_indication_fdd_rel13 = \<lparr>nb_harq_tb1 = 0\<rparr>"

lemma writes_pack_nb_harq_indication_fdd_rel13_value [writes_intro]: "writes (pack_nb_harq_indication_fdd_rel13_value v) (enc_nb_harq_indication_fdd_rel13 v)"
  unfolding pack_nb_harq_indication_fdd_rel13_value_def [abs_def] enc_nb_harq_indication_fdd_rel13_def by (rule writes_intro)

lemma reads_unpack_nb_harq_indication_fdd_rel13_value [reads_intro]: "reads unpack_nb_harq_indication_fdd_rel13_value v (enc_nb_harq_indication_fdd_rel13 v)"
  unfolding unpack_nb_harq_indication_fdd_rel13_value_def [abs_def] enc_nb_harq_indication_fdd_rel13_def
  by (rule reads_cong, (rule reads_intro)+) (auto intro: nb_harq_indication_fdd_rel13.equality)

lemma forward_unpack_nb_harq_indication_fdd_rel13_value [forward_intro]: "moves_forward unpack_nb_harq_indication_fdd_rel13_value"
  unfolding unpack_nb_harq_indication_fdd_rel13_value_def [abs_def] by (intro forward_intro)

subsection \<open>SRS\<close>

record srs_indication_fdd_rel8 =
  doppler_estimation :: u16
  srs_timing_advance :: u16
  number_of_resource_blocks :: u8
  rb_start :: u8
  snr :: "u8 list"

definition pack_srs_indication_fdd_rel8_value :: "srs_indication_fdd_rel8 \<Rightarrow> wbuf \<Rightarrow> wbuf option" where
  "pack_srs_indication_fdd_rel8_value v w =
     push16 (doppler_estimation v) w \<bind> (\<lambda>w.
     push16 (srs_timing_advance v) w \<bind> (\<lambda>w.
     push8 (number_of_resource_blocks v) w \<bind> (\<lambda>w.
     push8 (rb_start v) w \<bind>
     pusharray8 (snr v) NFAPI_NUM_RB_MAX (ucast (number_of_resource_blocks v)))))"

definition unpack_srs_indication_fdd_rel8_value :: "rbuf \<Rightarrow> (srs_indication_fdd_rel8 \<times> rbuf) option" where
  "unpack_srs_indication_fdd_rel8_value r =
     pull16 r \<bind> (\<lambda>(x1, r).
     pull16 r \<bind> (\<lambda>(x2, r).
     pull8 r \<bind> (\<lambda>(x3, r).
     pull8 r \<bind> (\<lambda>(x4, r).
     pullarray8 NFAPI_NUM_RB_MAX (ucast x3) r \<bind> (\<lambda>(x5, r).
     Some (\<lparr>doppler_estimation = x1, srs_timing_advance = x2, number_of_resource_blocks = x3, rb_start = x4, snr = x5\<rparr>, r))))))"

definition enc_srs_indication_fdd_rel8 :: "srs_indication_fdd_rel8 \<Rightarrow> u8 list" where
  "enc_srs_indication_fdd_rel8 v = be16 (doppler_estimation v) @ be16 (srs_timing_advance v) @ [number_of_resource_blocks v] @ [rb_start v] @ snr v"

definition valid_srs_indication_fdd_rel8 :: "srs_indication_fdd_rel8 \<Rightarrow> bool" where
  "valid_srs_indication_fdd_rel8 v \<longleftrightarrow> length (snr v) = unat (number_of_resource_blocks v) \<and> unat (number_of_resource_blocks v) \<le> unat NFAPI_NUM_RB_MAX"

definition zero_srs_indication_fdd_rel8 :: srs_indication_fdd_rel8 where
  "zero_srs_indication_fdd_rel8 = \<lparr>doppler_estimation = 0, srs_timing_advance = 0, number_of_resource_blocks = 0, rb_start = 0, snr = []\<rparr>"

lemma writes_pack_srs_indication_fdd_rel8_value [writes_intro]: "valid_srs_indication_fdd_rel8 v \<Longrightarrow> writes (pack_srs_indication_fdd_rel8_value v) (enc_srs_indication_fdd_rel8 v)"
  unfolding pack_srs_indication_fdd_rel8_value_def [abs_def] enc_srs_indication_fdd_rel8_def
  by (rule writes_cong, (rule writes_intro)+) (auto simp: array_fits_def valid_srs_indication_fdd_rel8_def array_max word_le_nat_alt)

lemma reads_unpack_srs_indication_fdd_rel8_value [reads_intro]: "valid_srs_indication_fdd_rel8 v \<Longrightarrow> reads unpack_srs_indication_fdd_rel8_value v (enc_srs_indication_fdd_rel8 v)"
  unfolding unpack_srs_indication_fdd_rel8_value_def [abs_def] enc_srs_indication_fdd_rel8_def
  by (rule reads_cong, (rule reads_intro)+) (auto simp: valid_srs_indication_fdd_rel8_def array_max word_le_nat_alt reads_return_iff intro: srs_indication_fdd_rel8.equality)

lemma forward_unpack_srs_indication_fdd_rel8_value [forward_intro]: "moves_forward unpack_srs_indication_fdd_rel8_value"
  unfolding unpack_srs_indication_fdd_rel8_value_def [abs_def] by (intro forward_intro)

record srs_indication_fdd_rel9 =
  srs_timing_advance_r9 :: u16

definition pack_srs_indication_fdd_rel9_value :: "srs_indication_fdd_rel9 \<Rightarrow> wbuf \<Rightarrow> wbuf option" where
  "pack_srs_indication_fdd_rel9_value v w =
     push16 (srs_timing_advance_r9 v) w"

definition unpack_srs_indication_fdd_rel9_value :: "rbuf \<Rightarrow> (srs_indication_fdd_rel9 \<times> rbuf) option" where
  "unpack_srs_indication_fdd_rel9_value r =
     pull16 r \<bind> (\<lambda>(x1, r).
     Some (\<lparr>srs_timing_advance_r9 = x1\<rparr>, r))"

definition enc_srs_indication_fdd_rel9 :: "srs_indication_fdd_rel9 \<Rightarrow> u8 list" where
  "enc_srs_indication_fdd_rel9 v = be16 (srs_timing_advance_r9 v)"

definition zero_srs_indication_fdd_rel9 :: srs_indication_fdd_rel9 where
  "zero_srs_indication_fdd_rel9 = \<lparr>srs_timing_advance_r9 = 0\<rparr>"

lemma writes_pack_srs_indication_fdd_rel9_value [writes_intro]: "writes (pack_srs_indication_fdd_rel9_value v) (enc_srs_indication_fdd_rel9 v)"
  unfolding pack_srs_indication_fdd_rel9_value_def [abs_def] enc_srs_indication_fdd_rel9_def by (rule writes_intro)

lemma reads_unpack_srs_indication_fdd_rel9_value [reads_intro]: "reads unpack_srs_indication_fdd_rel9_value v (enc_srs_indication_fdd_rel9 v)"
  unfolding unpack_srs_indication_fdd_rel9_value_def [abs_def] enc_srs_indication_fdd_rel9_def
  by (rule reads_cong, (rule reads_intro)+) (auto intro: srs_indication_fdd_rel9.equality)

lemma forward_unpack_srs_indication_fdd_rel9_value [forward_intro]: "moves_forward unpack_srs_indication_fdd_rel9_value"
  unfolding unpack_srs_indication_fdd_rel9_value_def [abs_def] by (intro forward_intro)

record srs_indication_tdd_rel10 =
  uppts_symbol :: u8

definition pack_srs_indication_tdd_rel10_value :: "srs_indication_tdd_rel10 \<Rightarrow> wbuf \<Rightarrow> wbuf option" where
  "pack_srs_indication_tdd_rel10_value v w =
     push8 (uppts_symbol v) w"

definition unpack_srs_indication_tdd_rel10_value :: "rbuf \<Rightarrow> (srs_indication_tdd_rel10 \<times> rbuf) option" where
  "unpack_srs_indication_tdd_rel10_value r =
     pull8 r \<bind> (\<lambda>(x1, r).
     Some (\<lparr>uppts_symbol = x1\<rparr>, r))"

definition enc_srs_indication_tdd_rel10 :: "srs_indication_tdd_rel10 \<Rightarrow> u8 list" where
  "enc_srs_indication_tdd_rel10 v = [uppts_symbol v]"

definition zero_srs_indication_tdd_rel10 :: srs_indication_tdd_rel10 where
  "zero_srs_indication_tdd_rel10 = \<lparr>uppts_symbol = 0\<rparr>"

lemma writes_pack_srs_indication_tdd_rel10_value [writes_intro]: "writes (pack_srs_indication_tdd_rel10_value v) (enc_srs_indication_tdd_rel10 v)"
  unfolding pack_srs_indication_tdd_rel10_value_def [abs_def] enc_srs_indication_tdd_rel10_def by (rule writes_intro)

lemma reads_unpack_srs_indication_tdd_rel10_value [reads_intro]: "reads unpack_srs_indication_tdd_rel10_value v (enc_srs_indication_tdd_rel10 v)"
  unfolding unpack_srs_indication_tdd_rel10_value_def [abs_def] enc_srs_indication_tdd_rel10_def
  by (rule reads_cong, (rule reads_intro)+) (auto intro: srs_indication_tdd_rel10.equality)

lemma forward_unpack_srs_indication_tdd_rel10_value [forward_intro]: "moves_forward unpack_srs_indication_tdd_rel10_value"
  unfolding unpack_srs_indication_tdd_rel10_value_def [abs_def] by (intro forward_intro)

record srs_indication_fdd_rel11 =
  ul_rtoa :: u16

definition pack_srs_indication_fdd_rel11_value :: "srs_indication_fdd_rel11 \<Rightarrow> wbuf \<Rightarrow> wbuf option" where
  "pack_srs_indication_fdd_rel11_value v w =
     push16 (ul_rtoa v) w"

definition unpack_srs_indication_fdd_rel11_value :: "rbuf \<Rightarrow> (srs_indication_fdd_rel11 \<times> rbuf) option" where
  "unpack_srs_indication_fdd_rel11_value r =
     pull16 r \<bind> (\<lambda>(x1, r).
     Some (\<lparr>ul_rtoa = x1\<rparr>, r))"

definition enc_srs_indication_fdd_rel11 :: "srs_indication_fdd_rel11 \<Rightarrow> u8 list" where
  "enc_srs_indication_fdd_rel11 v = be16 (ul_rtoa v)"

definition zero_srs_indication_fdd_rel11 :: srs_indication_fdd_rel11 where
  "zero_srs_indication_fdd_rel11 = \<lparr>ul_rtoa = 0\<rparr>"

lemma writes_pack_srs_indication_fdd_rel11_value [writes_intro]: "writes (pack_srs_indication_fdd_rel11_value v) (enc_srs_indication_fdd_rel11 v)"
  unfolding pack_srs_indication_fdd_rel11_value_def [abs_def] enc_srs_indication_fdd_rel11_def by (rule writes_intro)

lemma reads_unpack_srs_indication_fdd_rel11_value [reads_intro]: "reads unpack_srs_indication_fdd_rel11_value v (enc_srs_indication_fdd_rel11 v)"
  unfolding unpack_srs_indication_fdd_rel11_value_def [abs_def] enc_srs_indication_fdd_rel11_def
  by (rule reads_cong, (rule reads_intro)+) (auto intro: srs_indication_fdd_rel11.equality)

lemma forward_unpack_srs_indication_fdd_rel11_value [forward_intro]: "moves_forward unpack_srs_indication_fdd_rel11_value"
  unfolding unpack_srs_indication_fdd_rel11_value_def [abs_def] by (intro forward_intro)

record subband =
  subband_index :: u8
  sub_channel :: "u16 list"

record tdd_channel_measurement =
  num_prb_per_subband :: u8
  number_of_subbands :: u8
  num_atennas :: u8
  subands :: "subband list"

definition pack_subband :: "u8 \<Rightarrow> subband \<Rightarrow> wbuf \<Rightarrow> wbuf option" where
  "pack_subband num s w =
     push8 (subband_index s) w \<bind> pusharray16 (sub_channel s) NFAPI_MAX_NUM_PHYSICAL_ANTENNAS (ucast num)"

definition unpack_subband :: "u8 \<Rightarrow> rbuf \<Rightarrow> (subband \<times> rbuf) option" where
  "unpack_subband num r =
     pull8 r \<bind> (\<lambda>(i, r). pullarray16 NFAPI_MAX_NUM_PHYSICAL_ANTENNAS (ucast num) r \<bind> (\<lambda>(c, r).
       Some (\<lparr>subband_index = i, sub_channel = c\<rparr>, r)))"

definition pack_tdd_channel_measurement_value :: "tdd_channel_measurement \<Rightarrow> wbuf \<Rightarrow> wbuf option" where
  "pack_tdd_channel_measurement_value v w =
     push8 (num_prb_per_subband v) w \<bind> (\<lambda>w. push8 (number_of_subbands v) w \<bind> (\<lambda>w. push8 (num_atennas v) w \<bind>
       push_all (pack_subband (num_atennas v)) (take (unat (number_of_subbands v)) (subands v))))"

definition unpack_tdd_channel_measurement_value :: "rbuf \<Rightarrow> (tdd_channel_measurement \<times> rbuf) option" where
  "unpack_tdd_channel_measurement_value r =
     pull8 r \<bind> (\<lambda>(prb, r). pull8 r \<bind> (\<lambda>(n, r). pull8 r \<bind> (\<lambda>(a, r).
       if NFAPI_MAX_NUM_SUBBANDS < unat n then None
       else if NFAPI_MAX_NUM_PHYSICAL_ANTENNAS < ucast a then None
       else pull_n (unpack_subband a) (unat n) r \<bind> (\<lambda>(ss, r).
         Some (\<lparr>num_prb_per_subband = prb, number_of_subbands = n, num_atennas = a, subands = ss\<rparr>, r)))))"

definition enc_subband :: "subband \<Rightarrow> u8 list" where
  "enc_subband s = [subband_index s] @ concat (map be16 (sub_channel s))"

definition enc_tdd_channel_measurement :: "tdd_channel_measurement \<Rightarrow> u8 list" where
  "enc_tdd_channel_measurement v =
     [num_prb_per_subband v] @ [number_of_subbands v] @ [num_atennas v] @ concat (map enc_subband (subands v))"

definition valid_tdd_channel_measurement :: "tdd_channel_measurement \<Rightarrow> bool" where
  "valid_tdd_channel_measurement v \<longleftrightarrow> length (subands v) = unat (number_of_subbands v) \<and>
     unat (number_of_subbands v) \<le> NFAPI_MAX_NUM_SUBBANDS \<and> unat (num_atennas v) \<le> 8 \<and>
     (\<forall>s \<in> set (subands v). length (sub_channel s) = unat (num_atennas v))"

definition zero_tdd_channel_measurement :: tdd_channel_measurement where
  "zero_tdd_channel_measurement = \<lparr>num_prb_per_subband = 0, number_of_subbands = 0, num_atennas = 0, subands = []\<rparr>"

lemma writes_pack_subband:
  assumes "length (sub_channel s) = unat num" "unat num \<le> 8"
  shows "writes (pack_subband num s) (enc_subband s)"
  unfolding pack_subband_def [abs_def] enc_subband_def
  by (rule writes_cong, (rule writes_intro)+) (use assms in \<open>auto simp: array_fits_def array_max word_le_nat_alt\<close>)

lemma reads_unpack_subband:
  assumes "length (sub_channel s) = unat num" "unat num \<le> 8"
  shows "reads (unpack_subband num) s (enc_subband s)"
  unfolding unpack_subband_def [abs_def] enc_subband_def
  by (rule reads_cong, (rule reads_intro)+) (use assms in \<open>auto simp: array_max word_le_nat_alt reads_return_iff\<close>)

lemma writes_pack_tdd_channel_measurement_value [writes_intro]:
  assumes v: "valid_tdd_channel_measurement v"
  shows "writes (pack_tdd_channel_measurement_value v) (enc_tdd_channel_measurement v)"
proof -
  have "writes (push_all (pack_subband (num_atennas v)) (subands v)) (concat (map enc_subband (subands v)))"
    using v by (intro writes_push_all_of writes_pack_subband) (auto simp: valid_tdd_channel_measurement_def)
  note this [writes_intro]
  show ?thesis
    using v unfolding pack_tdd_channel_measurement_value_def [abs_def] enc_tdd_channel_measurement_def
    by (simp add: valid_tdd_channel_measurement_def) (rule writes_cong, (rule writes_intro)+, simp)
qed

lemma reads_unpack_tdd_channel_measurement_value [reads_intro]:
  assumes v: "valid_tdd_channel_measurement v"
  shows "reads unpack_tdd_channel_measurement_value v (enc_tdd_channel_measurement v)"
proof -
  let ?n = "number_of_subbands v" and ?a = "num_atennas v" and ?s = "subands v"
  have "reads (pull_n (unpack_subband ?a) (length ?s)) (map (\<lambda>s. s) ?s) (concat (map enc_subband ?s))"
    using v by (intro reads_pull_n_of reads_unpack_subband) (auto simp: valid_tdd_channel_measurement_def)
  then have s: "reads (pull_n (unpack_subband ?a) (unat ?n)) ?s (concat (map enc_subband ?s))"
    using v by (simp add: valid_tdd_channel_measurement_def)
  have "\<not> (NFAPI_MAX_NUM_PHYSICAL_ANTENNAS < ucast ?a)"
    using v by (simp add: array_max valid_tdd_channel_measurement_def word_less_nat_alt)
  moreover have "reads (\<lambda>r. pull_n (unpack_subband ?a) (unat ?n) r \<bind> (\<lambda>(ss, r).
         Some (\<lparr>num_prb_per_subband = num_prb_per_subband v, number_of_subbands = ?n, num_atennas = ?a, subands = ss\<rparr>, r)))
     v (concat (map enc_subband ?s) @ [])"
    by (rule reads_bind [OF s]) (rule reads_cong [OF reads_return], simp_all)
  ultimately have "reads (\<lambda>r. if NFAPI_MAX_NUM_SUBBANDS < unat ?n then None
       else if NFAPI_MAX_NUM_PHYSICAL_ANTENNAS < ucast ?a then None
       else pull_n (unpack_subband ?a) (unat ?n) r \<bind> (\<lambda>(ss, r).
         Some (\<lparr>num_prb_per_subband = num_prb_per_subband v, number_of_subbands = ?n, num_atennas = ?a, subands = ss\<rparr>, r)))
     v (concat (map enc_subband ?s) @ [])"
    using v by (simp add: valid_tdd_channel_measurement_def)
  note loop = this [unfolded append_Nil2]
  show ?thesis
    unfolding unpack_tdd_channel_measurement_value_def [abs_def] enc_tdd_channel_measurement_def
    by (rule reads_bind, rule reads_pull8, rule reads_bind, rule reads_pull8, rule reads_bind, rule reads_pull8, rule loop)
qed

lemma forward_unpack_tdd_channel [forward_intro]: "moves_forward unpack_tdd_channel_measurement_value"
  unfolding unpack_tdd_channel_measurement_value_def [abs_def] unpack_subband_def [abs_def] by (intro forward_intro)

section \<open>PDUs\<close>

lemma fst_member_entry [simp]: "fst (member_entry tag fn put) = tag"
  by (simp add: member_entry_def)

lemma item_value_le: "i \<in> set is \<Longrightarrow> length (item_value i) \<le> length (concat (map (item_bytes pad) is))"
proof (induction "is")
  case (Cons j "is")
  have "length (item_value j) \<le> length (item_bytes pad j)" by (simp add: item_bytes_def)
  then show ?case using Cons by auto
qed simp

record harq_tlvs =
  harq_rx_ue_information :: "rx_ue_information tlv"
  harq_indication_tdd_rel8_tlv :: "harq_indication_tdd_rel8 tlv"
  harq_indication_tdd_rel9_tlv :: "harq_indication_tdd_rel9 tlv"
  harq_indication_tdd_rel13_tlv :: "harq_indication_tdd_rel13 tlv"
  harq_indication_fdd_rel8_tlv :: "harq_indication_fdd_rel8 tlv"
  harq_indication_fdd_rel9_tlv :: "harq_indication_fdd_rel9 tlv"
  harq_indication_fdd_rel13_tlv :: "harq_indication_fdd_rel13 tlv"
  harq_ul_cqi_information :: "ul_cqi_information tlv"

definition pack_harq_tlvs :: "harq_tlvs \<Rightarrow> wbuf \<Rightarrow> wbuf option" where
  "pack_harq_tlvs p w =
     pack_member NFAPI_RX_UE_INFORMATION_TAG pack_rx_ue_information_value (harq_rx_ue_information p) w \<bind> (\<lambda>w.
     pack_member NFAPI_HARQ_INDICATION_TDD_REL8_TAG pack_harq_indication_tdd_rel8_value (harq_indication_tdd_rel8_tlv p) w \<bind> (\<lambda>w.
     pack_member NFAPI_HARQ_INDICATION_TDD_REL9_TAG pack_harq_indication_tdd_rel9_value (harq_indication_tdd_rel9_tlv p) w \<bind> (\<lambda>w.
     pack_member NFAPI_HARQ_INDICATION_TDD_REL13_TAG pack_harq_indication_tdd_rel13_value (harq_indication_tdd_rel13_tlv p) w \<bind> (\<lambda>w.
     pack_member NFAPI_HARQ_INDICATION_FDD_REL8_TAG pack_harq_indication_fdd_rel8_value (harq_indication_fdd_rel8_tlv p) w \<bind> (\<lambda>w.
     pack_member NFAPI_HARQ_INDICATION_FDD_REL9_TAG pack_harq_indication_fdd_rel9_value (harq_indication_fdd_rel9_tlv p) w \<bind> (\<lambda>w.
     pack_member NFAPI_HARQ_INDICATION_FDD_REL13_TAG pack_harq_indication_fdd_rel13_value (harq_indication_fdd_rel13_tlv p) w \<bind>
     pack_member NFAPI_UL_CQI_INFORMATION_TAG pack_ul_cqi_information_value (harq_ul_cqi_information p)))))))"

definition harq_table :: "(u16 \<times> harq_tlvs tlv_fn) list" where
  "harq_table =
     [member_entry NFAPI_RX_UE_INFORMATION_TAG unpack_rx_ue_information_value (\<lambda>x s. s\<lparr>harq_rx_ue_information := x\<rparr>),
      member_entry NFAPI_HARQ_INDICATION_TDD_REL8_TAG unpack_harq_indication_tdd_rel8_value (\<lambda>x s. s\<lparr>harq_indication_tdd_rel8_tlv := x\<rparr>),
      member_entry NFAPI_HARQ_INDICATION_TDD_REL9_TAG unpack_harq_indication_tdd_rel9_value (\<lambda>x s. s\<lparr>harq_indication_tdd_rel9_tlv := x\<rparr>),
      member_entry NFAPI_HARQ_INDICATION_TDD_REL13_TAG unpack_harq_indication_tdd_rel13_value (\<lambda>x s. s\<lparr>harq_indication_tdd_rel13_tlv := x\<rparr>),
      member_entry NFAPI_HARQ_INDICATION_FDD_REL8_TAG unpack_harq_indication_fdd_rel8_value (\<lambda>x s. s\<lparr>harq_indication_fdd_rel8_tlv := x\<rparr>),
      member_entry NFAPI_HARQ_INDICATION_FDD_REL9_TAG unpack_harq_indication_fdd_rel9_value (\<lambda>x s. s\<lparr>harq_indication_fdd_rel9_tlv := x\<rparr>),
      member_entry NFAPI_HARQ_INDICATION_FDD_REL13_TAG unpack_harq_indication_fdd_rel13_value (\<lambda>x s. s\<lparr>harq_indication_fdd_rel13_tlv := x\<rparr>),
      member_entry NFAPI_UL_CQI_INFORMATION_TAG unpack_ul_cqi_information_value (\<lambda>x s. s\<lparr>harq_ul_cqi_information := x\<rparr>)]"

definition zero_harq_tlvs :: harq_tlvs where
  "zero_harq_tlvs = \<lparr>harq_rx_ue_information = zero_tlv zero_rx_ue_information, harq_indication_tdd_rel8_tlv = zero_tlv zero_harq_indication_tdd_rel8, harq_indication_tdd_rel9_tlv = zero_tlv zero_harq_indication_tdd_rel9, harq_indication_tdd_rel13_tlv = zero_tlv zero_harq_indication_tdd_rel13, harq_indication_fdd_rel8_tlv = zero_tlv zero_harq_indication_fdd_rel8, harq_indication_fdd_rel9_tlv = zero_tlv zero_harq_indication_fdd_rel9, harq_indication_fdd_rel13_tlv = zero_tlv zero_harq_indication_fdd_rel13, harq_ul_cqi_information = zero_tlv zero_ul_cqi_information\<rparr>"

definition harq_items :: "harq_tlvs \<Rightarrow> harq_tlvs tlv_item list" where
  "harq_items p =
     member_items NFAPI_RX_UE_INFORMATION_TAG enc_rx_ue_information (\<lambda>x s. s\<lparr>harq_rx_ue_information := x\<rparr>) (harq_rx_ue_information p) @
     member_items NFAPI_HARQ_INDICATION_TDD_REL8_TAG enc_harq_indication_tdd_rel8 (\<lambda>x s. s\<lparr>harq_indication_tdd_rel8_tlv := x\<rparr>) (harq_indication_tdd_rel8_tlv p) @
     member_items NFAPI_HARQ_INDICATION_TDD_REL9_TAG enc_harq_indication_tdd_rel9 (\<lambda>x s. s\<lparr>harq_indication_tdd_rel9_tlv := x\<rparr>) (harq_indication_tdd_rel9_tlv p) @
     member_items NFAPI_HARQ_INDICATION_TDD_REL13_TAG enc_harq_indication_tdd_rel13 (\<lambda>x s. s\<lparr>harq_indication_tdd_rel13_tlv := x\<rparr>) (harq_indication_tdd_rel13_tlv p) @
     member_items NFAPI_HARQ_INDICATION_FDD_REL8_TAG enc_harq_indication_fdd_rel8 (\<lambda>x s. s\<lparr>harq_indication_fdd_rel8_tlv := x\<rparr>) (harq_indication_fdd_rel8_tlv p) @
     member_items NFAPI_HARQ_INDICATION_FDD_REL9_TAG enc_harq_indication_fdd_rel9 (\<lambda>x s. s\<lparr>harq_indication_fdd_rel9_tlv := x\<rparr>) (harq_indication_fdd_rel9_tlv p) @
     member_items NFAPI_HARQ_INDICATION_FDD_REL13_TAG enc_harq_indication_fdd_rel13 (\<lambda>x s. s\<lparr>harq_indication_fdd_rel13_tlv := x\<rparr>) (harq_indication_fdd_rel13_tlv p) @
     member_items NFAPI_UL_CQI_INFORMATION_TAG enc_ul_cqi_information (\<lambda>x s. s\<lparr>harq_ul_cqi_information := x\<rparr>) (harq_ul_cqi_information p)"

definition valid_harq_tlvs :: "harq_tlvs \<Rightarrow> bool" where
  "valid_harq_tlvs p \<longleftrightarrow> (tl_tag (tlv_hdr (harq_indication_tdd_rel8_tlv p)) = NFAPI_HARQ_INDICATION_TDD_REL8_TAG \<longrightarrow> valid_harq_indication_tdd_rel8 (tlv_val (harq_indication_tdd_rel8_tlv p))) \<and>
     (tl_tag (tlv_hdr (harq_indication_tdd_rel9_tlv p)) = NFAPI_HARQ_INDICATION_TDD_REL9_TAG \<longrightarrow> valid_harq_indication_tdd_rel9 (tlv_val (harq_indication_tdd_rel9_tlv p))) \<and>
     (tl_tag (tlv_hdr (harq_indication_tdd_rel13_tlv p)) = NFAPI_HARQ_INDICATION_TDD_REL13_TAG \<longrightarrow> valid_harq_indication_tdd_rel13 (tlv_val (harq_indication_tdd_rel13_tlv p))) \<and>
     (tl_tag (tlv_hdr (harq_indication_fdd_rel9_tlv p)) = NFAPI_HARQ_INDICATION_FDD_REL9_TAG \<longrightarrow> valid_harq_indication_fdd_rel9 (tlv_val (harq_indication_fdd_rel9_tlv p))) \<and>
     (tl_tag (tlv_hdr (harq_indication_fdd_rel13_tlv p)) = NFAPI_HARQ_INDICATION_FDD_REL13_TAG \<longrightarrow> valid_harq_indication_fdd_rel13 (tlv_val (harq_indication_fdd_rel13_tlv p))) \<and>
     length (concat (map (item_bytes lte_pad) (harq_items p))) < 2 ^ 16"

definition sent_harq_tlvs :: "harq_tlvs \<Rightarrow> harq_tlvs" where
  "sent_harq_tlvs p =
     \<lparr>harq_rx_ue_information = sent_member NFAPI_RX_UE_INFORMATION_TAG enc_rx_ue_information zero_rx_ue_information (harq_rx_ue_information p),
      harq_indication_tdd_rel8_tlv = sent_member NFAPI_HARQ_INDICATION_TDD_REL8_TAG enc_harq_indication_tdd_rel8 zero_harq_indication_tdd_rel8 (harq_indication_tdd_rel8_tlv p),
      harq_indication_tdd_rel9_tlv = sent_member NFAPI_HARQ_INDICATION_TDD_REL9_TAG enc_harq_indication_tdd_rel9 zero_harq_indication_tdd_rel9 (harq_indication_tdd_rel9_tlv p),
      harq_indication_tdd_rel13_tlv = sent_member NFAPI_HARQ_INDICATION_TDD_REL13_TAG enc_harq_indication_tdd_rel13 zero_harq_indication_tdd_rel13 (harq_indication_tdd_rel13_tlv p),
      harq_indication_fdd_rel8_tlv = sent_member NFAPI_HARQ_INDICATION_FDD_REL8_TAG enc_harq_indication_fdd_rel8 zero_harq_indication_fdd_rel8 (harq_indication_fdd_rel8_tlv p),
      harq_indication_fdd_rel9_tlv = sent_member NFAPI_HARQ_INDICATION_FDD_REL9_TAG enc_harq_indication_fdd_rel9 zero_harq_indication_fdd_rel9 (harq_indication_fdd_rel9_tlv p),
      harq_indication_fdd_rel13_tlv = sent_member NFAPI_HARQ_INDICATION_FDD_REL13_TAG enc_harq_indication_fdd_rel13 zero_harq_indication_fdd_rel13 (harq_indication_fdd_rel13_tlv p),
      harq_ul_cqi_information = sent_member NFAPI_UL_CQI_INFORMATION_TAG enc_ul_cqi_information zero_ul_cqi_information (harq_ul_cqi_information p)\<rparr>"

lemma sent_harq: "fold item_effect (harq_items p) zero_harq_tlvs = sent_harq_tlvs p"
  by (simp add: harq_items_def zero_harq_tlvs_def sent_harq_tlvs_def member_items_def sent_member_def)

lemma harq_filter:
  "filter (\<lambda>e. fst e = NFAPI_RX_UE_INFORMATION_TAG) harq_table = [member_entry NFAPI_RX_UE_INFORMATION_TAG unpack_rx_ue_information_value (\<lambda>x s. s\<lparr>harq_rx_ue_information := x\<rparr>)]"
  "filter (\<lambda>e. fst e = NFAPI_HARQ_INDICATION_TDD_REL8_TAG) harq_table = [member_entry NFAPI_HARQ_INDICATION_TDD_REL8_TAG unpack_harq_indication_tdd_rel8_value (\<lambda>x s. s\<lparr>harq_indication_tdd_rel8_tlv := x\<rparr>)]"
  "filter (\<lambda>e. fst e = NFAPI_HARQ_INDICATION_TDD_REL9_TAG) harq_table = [member_entry NFAPI_HARQ_INDICATION_TDD_REL9_TAG unpack_harq_indication_tdd_rel9_value (\<lambda>x s. s\<lparr>harq_indication_tdd_rel9_tlv := x\<rparr>)]"
  "filter (\<lambda>e. fst e = NFAPI_HARQ_INDICATION_TDD_REL13_TAG) harq_table = [member_entry NFAPI_HARQ_INDICATION_TDD_REL13_TAG unpack_harq_indication_tdd_rel13_value (\<lambda>x s. s\<lparr>harq_indication_tdd_rel13_tlv := x\<rparr>)]"
  "filter (\<lambda>e. fst e = NFAPI_HARQ_INDICATION_FDD_REL8_TAG) harq_table = [member_entry NFAPI_HARQ_INDICATION_FDD_REL8_TAG unpack_harq_indication_fdd_rel8_value (\<lambda>x s. s\<lparr>harq_indication_fdd_rel8_tlv := x\<rparr>)]"
  "filter (\<lambda>e. fst e = NFAPI_HARQ_INDICATION_FDD_REL9_TAG) harq_table = [member_entry NFAPI_HARQ_INDICATION_FDD_REL9_TAG unpack_harq_indication_fdd_rel9_value (\<lambda>x s. s\<lparr>harq_indication_fdd_rel9_tlv := x\<rparr>)]"
  "filter (\<lambda>e. fst e = NFAPI_HARQ_INDICATION_FDD_REL13_TAG) harq_table = [member_entry NFAPI_HARQ_INDICATION_FDD_REL13_TAG unpack_harq_indication_fdd_rel13_value (\<lambda>x s. s\<lparr>harq_indication_fdd_rel13_tlv := x\<rparr>)]"
  "filter (\<lambda>e. fst e = NFAPI_UL_CQI_INFORMATION_TAG) harq_table = [member_entry NFAPI_UL_CQI_INFORMATION_TAG unpack_ul_cqi_information_value (\<lambda>x s. s\<lparr>harq_ul_cqi_information := x\<rparr>)]"
  by (simp_all add: harq_table_def tag_values)

lemma forward_harq_table: "forward_entries harq_table"
  unfolding harq_table_def by (intro forward_member forward_Nil forward_intro)

interpretation harq: tlv_pdu pack_harq_tlvs harq_table zero_harq_tlvs harq_items valid_harq_tlvs
proof
  fix p assume v: "valid_harq_tlvs p"
  show "writes (pack_harq_tlvs p) (concat (map (item_bytes lte_pad) (harq_items p)))"
    unfolding pack_harq_tlvs_def [abs_def] harq_items_def map_append concat_append item_bytes_members
    by (intro writes_intro) (use v in \<open>simp_all add: valid_harq_tlvs_def\<close>)
  show "length (concat (map (item_bytes lte_pad) (harq_items p))) < 2 ^ 16" using v by (simp add: valid_harq_tlvs_def)
  fix i assume i: "i \<in> set (harq_items p)"
  have "length (item_value i) < 2 ^ 16"
    using item_value_le [OF i, of lte_pad] v by (simp add: valid_harq_tlvs_def)
  note small = this
  from i have "i \<in> set (member_items NFAPI_RX_UE_INFORMATION_TAG enc_rx_ue_information (\<lambda>x s. s\<lparr>harq_rx_ue_information := x\<rparr>) (harq_rx_ue_information p)) \<or>
      i \<in> set (member_items NFAPI_HARQ_INDICATION_TDD_REL8_TAG enc_harq_indication_tdd_rel8 (\<lambda>x s. s\<lparr>harq_indication_tdd_rel8_tlv := x\<rparr>) (harq_indication_tdd_rel8_tlv p)) \<or>
      i \<in> set (member_items NFAPI_HARQ_INDICATION_TDD_REL9_TAG enc_harq_indication_tdd_rel9 (\<lambda>x s. s\<lparr>harq_indication_tdd_rel9_tlv := x\<rparr>) (harq_indication_tdd_rel9_tlv p)) \<or>
      i \<in> set (member_items NFAPI_HARQ_INDICATION_TDD_REL13_TAG enc_harq_indication_tdd_rel13 (\<lambda>x s. s\<lparr>harq_indication_tdd_rel13_tlv := x\<rparr>) (harq_indication_tdd_rel13_tlv p)) \<or>
      i \<in> set (member_items NFAPI_HARQ_INDICATION_FDD_REL8_TAG enc_harq_indication_fdd_rel8 (\<lambda>x s. s\<lparr>harq_indication_fdd_rel8_tlv := x\<rparr>) (harq_indication_fdd_rel8_tlv p)) \<or>
      i \<in> set (member_items NFAPI_HARQ_INDICATION_FDD_REL9_TAG enc_harq_indication_fdd_rel9 (\<lambda>x s. s\<lparr>harq_indication_fdd_rel9_tlv := x\<rparr>) (harq_indication_fdd_rel9_tlv p)) \<or>
      i \<in> set (member_items NFAPI_HARQ_INDICATION_FDD_REL13_TAG enc_harq_indication_fdd_rel13 (\<lambda>x s. s\<lparr>harq_indication_fdd_rel13_tlv := x\<rparr>) (harq_indication_fdd_rel13_tlv p)) \<or>
      i \<in> set (member_items NFAPI_UL_CQI_INFORMATION_TAG enc_ul_cqi_information (\<lambda>x s. s\<lparr>harq_ul_cqi_information := x\<rparr>) (harq_ul_cqi_information p))"
    by (simp only: harq_items_def set_append Un_iff)
  then show "item_ok harq_table i"
  proof (elim disjE)
    assume "i \<in> set (member_items NFAPI_RX_UE_INFORMATION_TAG enc_rx_ue_information (\<lambda>x s. s\<lparr>harq_rx_ue_information := x\<rparr>) (harq_rx_ue_information p))"
    then show ?thesis
      by (rule member_item_ok [OF _ harq_filter(1) _ small])
         (use v in \<open>simp add: valid_harq_tlvs_def reads_unpack_rx_ue_information_value\<close>)
  next
    assume "i \<in> set (member_items NFAPI_HARQ_INDICATION_TDD_REL8_TAG enc_harq_indication_tdd_rel8 (\<lambda>x s. s\<lparr>harq_indication_tdd_rel8_tlv := x\<rparr>) (harq_indication_tdd_rel8_tlv p))"
    then show ?thesis
      by (rule member_item_ok [OF _ harq_filter(2) _ small])
         (use v in \<open>simp add: valid_harq_tlvs_def reads_unpack_harq_indication_tdd_rel8_value\<close>)
  next
    assume "i \<in> set (member_items NFAPI_HARQ_INDICATION_TDD_REL9_TAG enc_harq_indication_tdd_rel9 (\<lambda>x s. s\<lparr>harq_indication_tdd_rel9_tlv := x\<rparr>) (harq_indication_tdd_rel9_tlv p))"
    then show ?thesis
      by (rule member_item_ok [OF _ harq_filter(3) _ small])
         (use v in \<open>simp add: valid_harq_tlvs_def reads_unpack_harq_indication_tdd_rel9_value\<close>)
  next
    assume "i \<in> set (member_items NFAPI_HARQ_INDICATION_TDD_REL13_TAG enc_harq_indication_tdd_rel13 (\<lambda>x s. s\<lparr>harq_indication_tdd_rel13_tlv := x\<rparr>) (harq_indication_tdd_rel13_tlv p))"
    then show ?thesis
      by (rule member_item_ok [OF _ harq_filter(4) _ small])
         (use v in \<open>simp add: valid_harq_tlvs_def reads_unpack_harq_indication_tdd_rel13_value\<close>)
  next
    assume "i \<in> set (member_items NFAPI_HARQ_INDICATION_FDD_REL8_TAG enc_harq_indication_fdd_rel8 (\<lambda>x s. s\<lparr>harq_indication_fdd_rel8_tlv := x\<rparr>) (harq_indication_fdd_rel8_tlv p))"
    then show ?thesis
      by (rule member_item_ok [OF _ harq_filter(5) _ small])
         (use v in \<open>simp add: valid_harq_tlvs_def reads_unpack_harq_indication_fdd_rel8_value\<close>)
  next
    assume "i \<in> set (member_items NFAPI_HARQ_INDICATION_FDD_REL9_TAG enc_harq_indication_fdd_rel9 (\<lambda>x s. s\<lparr>harq_indication_fdd_rel9_tlv := x\<rparr>) (harq_indication_fdd_rel9_tlv p))"
    then show ?thesis
      by (rule member_item_ok [OF _ harq_filter(6) _ small])
         (use v in \<open>simp add: valid_harq_tlvs_def reads_unpack_harq_indication_fdd_rel9_value\<close>)
  next
    assume "i \<in> set (member_items NFAPI_HARQ_INDICATION_FDD_REL13_TAG enc_harq_indication_fdd_rel13 (\<lambda>x s. s\<lparr>harq_indication_fdd_rel13_tlv := x\<rparr>) (harq_indication_fdd_rel13_tlv p))"
    then show ?thesis
      by (rule member_item_ok [OF _ harq_filter(7) _ small])
         (use v in \<open>simp add: valid_harq_tlvs_def reads_unpack_harq_indication_fdd_rel13_value\<close>)
  next
    assume "i \<in> set (member_items NFAPI_UL_CQI_INFORMATION_TAG enc_ul_cqi_information (\<lambda>x s. s\<lparr>harq_ul_cqi_information := x\<rparr>) (harq_ul_cqi_information p))"
    then show ?thesis
      by (rule member_item_ok [OF _ harq_filter(8) _ small])
         (use v in \<open>simp add: valid_harq_tlvs_def reads_unpack_ul_cqi_information_value\<close>)
  qed
qed (simp add: harq_items_def)

record crc_tlvs =
  crc_rx_ue_information :: "rx_ue_information tlv"
  crc_indication_rel8_tlv :: "crc_indication_rel8 tlv"

definition pack_crc_tlvs :: "crc_tlvs \<Rightarrow> wbuf \<Rightarrow> wbuf option" where
  "pack_crc_tlvs p w =
     pack_member NFAPI_RX_UE_INFORMATION_TAG pack_rx_ue_information_value (crc_rx_ue_information p) w \<bind>
     pack_member NFAPI_CRC_INDICATION_REL8_TAG pack_crc_indication_rel8_body (crc_indication_rel8_tlv p)"

definition crc_table :: "(u16 \<times> crc_tlvs tlv_fn) list" where
  "crc_table =
     [member_entry NFAPI_RX_UE_INFORMATION_TAG unpack_rx_ue_information_value (\<lambda>x s. s\<lparr>crc_rx_ue_information := x\<rparr>),
      member_entry NFAPI_CRC_INDICATION_REL8_TAG unpack_crc_indication_rel8_value (\<lambda>x s. s\<lparr>crc_indication_rel8_tlv := x\<rparr>)]"

definition zero_crc_tlvs :: crc_tlvs where
  "zero_crc_tlvs = \<lparr>crc_rx_ue_information = zero_tlv zero_rx_ue_information, crc_indication_rel8_tlv = zero_tlv zero_crc_indication_rel8\<rparr>"

definition crc_items :: "crc_tlvs \<Rightarrow> crc_tlvs tlv_item list" where
  "crc_items p =
     member_items NFAPI_RX_UE_INFORMATION_TAG enc_rx_ue_information (\<lambda>x s. s\<lparr>crc_rx_ue_information := x\<rparr>) (crc_rx_ue_information p) @
     member_items NFAPI_CRC_INDICATION_REL8_TAG enc_crc_indication_rel8 (\<lambda>x s. s\<lparr>crc_indication_rel8_tlv := x\<rparr>) (crc_indication_rel8_tlv p)"

definition valid_crc_tlvs :: "crc_tlvs \<Rightarrow> bool" where
  "valid_crc_tlvs p \<longleftrightarrow> length (concat (map (item_bytes lte_pad) (crc_items p))) < 2 ^ 16"

definition sent_crc_tlvs :: "crc_tlvs \<Rightarrow> crc_tlvs" where
  "sent_crc_tlvs p =
     \<lparr>crc_rx_ue_information = sent_member NFAPI_RX_UE_INFORMATION_TAG enc_rx_ue_information zero_rx_ue_information (crc_rx_ue_information p),
      crc_indication_rel8_tlv = sent_member NFAPI_CRC_INDICATION_REL8_TAG enc_crc_indication_rel8 zero_crc_indication_rel8 (crc_indication_rel8_tlv p)\<rparr>"

lemma sent_crc: "fold item_effect (crc_items p) zero_crc_tlvs = sent_crc_tlvs p"
  by (simp add: crc_items_def zero_crc_tlvs_def sent_crc_tlvs_def member_items_def sent_member_def)

lemma crc_filter:
  "filter (\<lambda>e. fst e = NFAPI_RX_UE_INFORMATION_TAG) crc_table = [member_entry NFAPI_RX_UE_INFORMATION_TAG unpack_rx_ue_information_value (\<lambda>x s. s\<lparr>crc_rx_ue_information := x\<rparr>)]"
  "filter (\<lambda>e. fst e = NFAPI_CRC_INDICATION_REL8_TAG) crc_table = [member_entry NFAPI_CRC_INDICATION_REL8_TAG unpack_crc_indication_rel8_value (\<lambda>x s. s\<lparr>crc_indication_rel8_tlv := x\<rparr>)]"
  by (simp_all add: crc_table_def tag_values)

lemma forward_crc_table: "forward_entries crc_table"
  unfolding crc_table_def by (intro forward_member forward_Nil forward_intro)

interpretation crc: tlv_pdu pack_crc_tlvs crc_table zero_crc_tlvs crc_items valid_crc_tlvs
proof
  fix p assume v: "valid_crc_tlvs p"
  show "writes (pack_crc_tlvs p) (concat (map (item_bytes lte_pad) (crc_items p)))"
    unfolding pack_crc_tlvs_def [abs_def] crc_items_def map_append concat_append item_bytes_members
    by (intro writes_intro)
  show "length (concat (map (item_bytes lte_pad) (crc_items p))) < 2 ^ 16" using v by (simp add: valid_crc_tlvs_def)
  fix i assume i: "i \<in> set (crc_items p)"
  have "length (item_value i) < 2 ^ 16"
    using item_value_le [OF i, of lte_pad] v by (simp add: valid_crc_tlvs_def)
  note small = this
  from i have "i \<in> set (member_items NFAPI_RX_UE_INFORMATION_TAG enc_rx_ue_information (\<lambda>x s. s\<lparr>crc_rx_ue_information := x\<rparr>) (crc_rx_ue_information p)) \<or>
      i \<in> set (member_items NFAPI_CRC_INDICATION_REL8_TAG enc_crc_indication_rel8 (\<lambda>x s. s\<lparr>crc_indication_rel8_tlv := x\<rparr>) (crc_indication_rel8_tlv p))"
    by (simp only: crc_items_def set_append Un_iff)
  then show "item_ok crc_table i"
  proof (elim disjE)
    assume "i \<in> set (member_items NFAPI_RX_UE_INFORMATION_TAG enc_rx_ue_information (\<lambda>x s. s\<lparr>crc_rx_ue_information := x\<rparr>) (crc_rx_ue_information p))"
    then show ?thesis
      by (rule member_item_ok [OF _ crc_filter(1) _ small])
         (use v in \<open>simp add: valid_crc_tlvs_def reads_unpack_rx_ue_information_value\<close>)
  next
    assume "i \<in> set (member_items NFAPI_CRC_INDICATION_REL8_TAG enc_crc_indication_rel8 (\<lambda>x s. s\<lparr>crc_indication_rel8_tlv := x\<rparr>) (crc_indication_rel8_tlv p))"
    then show ?thesis
      by (rule member_item_ok [OF _ crc_filter(2) _ small])
         (use v in \<open>simp add: valid_crc_tlvs_def reads_unpack_crc_indication_rel8_value\<close>)
  qed
qed (simp add: crc_items_def)

record sr_tlvs =
  sr_rx_ue_information :: "rx_ue_information tlv"
  sr_ul_cqi_information :: "ul_cqi_information tlv"

definition pack_sr_tlvs :: "sr_tlvs \<Rightarrow> wbuf \<Rightarrow> wbuf option" where
  "pack_sr_tlvs p w =
     pack_member NFAPI_RX_UE_INFORMATION_TAG pack_rx_ue_information_value (sr_rx_ue_information p) w \<bind>
     pack_member NFAPI_UL_CQI_INFORMATION_TAG pack_ul_cqi_information_value (sr_ul_cqi_information p)"

definition sr_table :: "(u16 \<times> sr_tlvs tlv_fn) list" where
  "sr_table =
     [member_entry NFAPI_RX_UE_INFORMATION_TAG unpack_rx_ue_information_value (\<lambda>x s. s\<lparr>sr_rx_ue_information := x\<rparr>),
      member_entry NFAPI_UL_CQI_INFORMATION_TAG unpack_ul_cqi_information_value (\<lambda>x s. s\<lparr>sr_ul_cqi_information := x\<rparr>)]"

definition zero_sr_tlvs :: sr_tlvs where
  "zero_sr_tlvs = \<lparr>sr_rx_ue_information = zero_tlv zero_rx_ue_information, sr_ul_cqi_information = zero_tlv zero_ul_cqi_information\<rparr>"

definition sr_items :: "sr_tlvs \<Rightarrow> sr_tlvs tlv_item list" where
  "sr_items p =
     member_items NFAPI_RX_UE_INFORMATION_TAG enc_rx_ue_information (\<lambda>x s. s\<lparr>sr_rx_ue_information := x\<rparr>) (sr_rx_ue_information p) @
     member_items NFAPI_UL_CQI_INFORMATION_TAG enc_ul_cqi_information (\<lambda>x s. s\<lparr>sr_ul_cqi_information := x\<rparr>) (sr_ul_cqi_information p)"

definition valid_sr_tlvs :: "sr_tlvs \<Rightarrow> bool" where
  "valid_sr_tlvs p \<longleftrightarrow> length (concat (map (item_bytes lte_pad) (sr_items p))) < 2 ^ 16"

definition sent_sr_tlvs :: "sr_tlvs \<Rightarrow> sr_tlvs" where
  "sent_sr_tlvs p =
     \<lparr>sr_rx_ue_information = sent_member NFAPI_RX_UE_INFORMATION_TAG enc_rx_ue_information zero_rx_ue_information (sr_rx_ue_information p),
      sr_ul_cqi_information = sent_member NFAPI_UL_CQI_INFORMATION_TAG enc_ul_cqi_information zero_ul_cqi_information (sr_ul_cqi_information p)\<rparr>"

lemma sent_sr: "fold item_effect (sr_items p) zero_sr_tlvs = sent_sr_tlvs p"
  by (simp add: sr_items_def zero_sr_tlvs_def sent_sr_tlvs_def member_items_def sent_member_def)

lemma sr_filter:
  "filter (\<lambda>e. fst e = NFAPI_RX_UE_INFORMATION_TAG) sr_table = [member_entry NFAPI_RX_UE_INFORMATION_TAG unpack_rx_ue_information_value (\<lambda>x s. s\<lparr>sr_rx_ue_information := x\<rparr>)]"
  "filter (\<lambda>e. fst e = NFAPI_UL_CQI_INFORMATION_TAG) sr_table = [member_entry NFAPI_UL_CQI_INFORMATION_TAG unpack_ul_cqi_information_value (\<lambda>x s. s\<lparr>sr_ul_cqi_information := x\<rparr>)]"
  by (simp_all add: sr_table_def tag_values)

lemma forward_sr_table: "forward_entries sr_table"
  unfolding sr_table_def by (intro forward_member forward_Nil forward_intro)

interpretation sr: tlv_pdu pack_sr_tlvs sr_table zero_sr_tlvs sr_items valid_sr_tlvs
proof
  fix p assume v: "valid_sr_tlvs p"
  show "writes (pack_sr_tlvs p) (concat (map (item_bytes lte_pad) (sr_items p)))"
    unfolding pack_sr_tlvs_def [abs_def] sr_items_def map_append concat_append item_bytes_members
    by (intro writes_intro)
  show "length (concat (map (item_bytes lte_pad) (sr_items p))) < 2 ^ 16" using v by (simp add: valid_sr_tlvs_def)
  fix i assume i: "i \<in> set (sr_items p)"
  have "length (item_value i) < 2 ^ 16"
    using item_value_le [OF i, of lte_pad] v by (simp add: valid_sr_tlvs_def)
  note small = this
  from i have "i \<in> set (member_items NFAPI_RX_UE_INFORMATION_TAG enc_rx_ue_information (\<lambda>x s. s\<lparr>sr_rx_ue_information := x\<rparr>) (sr_rx_ue_information p)) \<or>
      i \<in> set (member_items NFAPI_UL_CQI_INFORMATION_TAG enc_ul_cqi_information (\<lambda>x s. s\<lparr>sr_ul_cqi_information := x\<rparr>) (sr_ul_cqi_information p))"
    by (simp only: sr_items_def set_append Un_iff)
  then show "item_ok sr_table i"
  proof (elim disjE)
    assume "i \<in> set (member_items NFAPI_RX_UE_INFORMATION_TAG enc_rx_ue_information (\<lambda>x s. s\<lparr>sr_rx_ue_information := x\<rparr>) (sr_rx_ue_information p))"
    then show ?thesis
      by (rule member_item_ok [OF _ sr_filter(1) _ small])
         (use v in \<open>simp add: valid_sr_tlvs_def reads_unpack_rx_ue_information_value\<close>)
  next
    assume "i \<in> set (member_items NFAPI_UL_CQI_INFORMATION_TAG enc_ul_cqi_information (\<lambda>x s. s\<lparr>sr_ul_cqi_information := x\<rparr>) (sr_ul_cqi_information p))"
    then show ?thesis
      by (rule member_item_ok [OF _ sr_filter(2) _ small])
         (use v in \<open>simp add: valid_sr_tlvs_def reads_unpack_ul_cqi_information_value\<close>)
  qed
qed (simp add: sr_items_def)

record rach_tlvs =
  preamble_rel8_tlv :: "preamble_pdu_rel8 tlv"
  preamble_rel9_tlv :: "preamble_pdu_rel9 tlv"
  preamble_rel13_tlv :: "preamble_pdu_rel13 tlv"

definition pack_rach_tlvs :: "rach_tlvs \<Rightarrow> wbuf \<Rightarrow> wbuf option" where
  "pack_rach_tlvs p w =
     pack_member NFAPI_PREAMBLE_REL8_TAG pack_preamble_pdu_rel8_value (preamble_rel8_tlv p) w \<bind> (\<lambda>w.
     pack_member NFAPI_PREAMBLE_REL9_TAG pack_preamble_pdu_rel9_value (preamble_rel9_tlv p) w \<bind>
     pack_member NFAPI_PREAMBLE_REL13_TAG pack_preamble_pdu_rel13_value (preamble_rel13_tlv p))"

definition rach_table :: "(u16 \<times> rach_tlvs tlv_fn) list" where
  "rach_table =
     [member_entry NFAPI_PREAMBLE_REL8_TAG unpack_preamble_pdu_rel8_value (\<lambda>x s. s\<lparr>preamble_rel8_tlv := x\<rparr>),
      member_entry NFAPI_PREAMBLE_REL9_TAG unpack_preamble_pdu_rel9_value (\<lambda>x s. s\<lparr>preamble_rel9_tlv := x\<rparr>),
      member_entry NFAPI_PREAMBLE_REL13_TAG unpack_preamble_pdu_rel13_value (\<lambda>x s. s\<lparr>preamble_rel13_tlv := x\<rparr>)]"

definition zero_rach_tlvs :: rach_tlvs where
  "zero_rach_tlvs = \<lparr>preamble_rel8_tlv = zero_tlv zero_preamble_pdu_rel8, preamble_rel9_tlv = zero_tlv zero_preamble_pdu_rel9, preamble_rel13_tlv = zero_tlv zero_preamble_pdu_rel13\<rparr>"

definition rach_items :: "rach_tlvs \<Rightarrow> rach_tlvs tlv_item list" where
  "rach_items p =
     member_items NFAPI_PREAMBLE_REL8_TAG enc_preamble_pdu_rel8 (\<lambda>x s. s\<lparr>preamble_rel8_tlv := x\<rparr>) (preamble_rel8_tlv p) @
     member_items NFAPI_PREAMBLE_REL9_TAG enc_preamble_pdu_rel9 (\<lambda>x s. s\<lparr>preamble_rel9_tlv := x\<rparr>) (preamble_rel9_tlv p) @
     member_items NFAPI_PREAMBLE_REL13_TAG enc_preamble_pdu_rel13 (\<lambda>x s. s\<lparr>preamble_rel13_tlv := x\<rparr>) (preamble_rel13_tlv p)"

definition valid_rach_tlvs :: "rach_tlvs \<Rightarrow> bool" where
  "valid_rach_tlvs p \<longleftrightarrow> length (concat (map (item_bytes lte_pad) (rach_items p))) < 2 ^ 16"

definition sent_rach_tlvs :: "rach_tlvs \<Rightarrow> rach_tlvs" where
  "sent_rach_tlvs p =
     \<lparr>preamble_rel8_tlv = sent_member NFAPI_PREAMBLE_REL8_TAG enc_preamble_pdu_rel8 zero_preamble_pdu_rel8 (preamble_rel8_tlv p),
      preamble_rel9_tlv = sent_member NFAPI_PREAMBLE_REL9_TAG enc_preamble_pdu_rel9 zero_preamble_pdu_rel9 (preamble_rel9_tlv p),
      preamble_rel13_tlv = sent_member NFAPI_PREAMBLE_REL13_TAG enc_preamble_pdu_rel13 zero_preamble_pdu_rel13 (preamble_rel13_tlv p)\<rparr>"

lemma sent_rach: "fold item_effect (rach_items p) zero_rach_tlvs = sent_rach_tlvs p"
  by (simp add: rach_items_def zero_rach_tlvs_def sent_rach_tlvs_def member_items_def sent_member_def)

lemma rach_filter:
  "filter (\<lambda>e. fst e = NFAPI_PREAMBLE_REL8_TAG) rach_table = [member_entry NFAPI_PREAMBLE_REL8_TAG unpack_preamble_pdu_rel8_value (\<lambda>x s. s\<lparr>preamble_rel8_tlv := x\<rparr>)]"
  "filter (\<lambda>e. fst e = NFAPI_PREAMBLE_REL9_TAG) rach_table = [member_entry NFAPI_PREAMBLE_REL9_TAG unpack_preamble_pdu_rel9_value (\<lambda>x s. s\<lparr>preamble_rel9_tlv := x\<rparr>)]"
  "filter (\<lambda>e. fst e = NFAPI_PREAMBLE_REL13_TAG) rach_table = [member_entry NFAPI_PREAMBLE_REL13_TAG unpack_preamble_pdu_rel13_value (\<lambda>x s. s\<lparr>preamble_rel13_tlv := x\<rparr>)]"
  by (simp_all add: rach_table_def tag_values)

lemma forward_rach_table: "forward_entries rach_table"
  unfolding rach_table_def by (intro forward_member forward_Nil forward_intro)

interpretation rach: tlv_pdu pack_rach_tlvs rach_table zero_rach_tlvs rach_items valid_rach_tlvs
proof
  fix p assume v: "valid_rach_tlvs p"
  show "writes (pack_rach_tlvs p) (concat (map (item_bytes lte_pad) (rach_items p)))"
    unfolding pack_rach_tlvs_def [abs_def] rach_items_def map_append concat_append item_bytes_members
    by (intro writes_intro)
  show "length (concat (map (item_bytes lte_pad) (rach_items p))) < 2 ^ 16" using v by (simp add: valid_rach_tlvs_def)
  fix i assume i: "i \<in> set (rach_items p)"
  have "length (item_value i) < 2 ^ 16"
    using item_value_le [OF i, of lte_pad] v by (simp add: valid_rach_tlvs_def)
  note small = this
  from i have "i \<in> set (member_items NFAPI_PREAMBLE_REL8_TAG enc_preamble_pdu_rel8 (\<lambda>x s. s\<lparr>preamble_rel8_tlv := x\<rparr>) (preamble_rel8_tlv p)) \<or>
      i \<in> set (member_items NFAPI_PREAMBLE_REL9_TAG enc_preamble_pdu_rel9 (\<lambda>x s. s\<lparr>preamble_rel9_tlv := x\<rparr>) (preamble_rel9_tlv p)) \<or>
      i \<in> set (member_items NFAPI_PREAMBLE_REL13_TAG enc_preamble_pdu_rel13 (\<lambda>x s. s\<lparr>preamble_rel13_tlv := x\<rparr>) (preamble_rel13_tlv p))"
    by (simp only: rach_items_def set_append Un_iff)
  then show "item_ok rach_table i"
  proof (elim disjE)
    assume "i \<in> set (member_items NFAPI_PREAMBLE_REL8_TAG enc_preamble_pdu_rel8 (\<lambda>x s. s\<lparr>preamble_rel8_tlv := x\<rparr>) (preamble_rel8_tlv p))"
    then show ?thesis
      by (rule member_item_ok [OF _ rach_filter(1) _ small])
         (use v in \<open>simp add: valid_rach_tlvs_def reads_unpack_preamble_pdu_rel8_value\<close>)
  next
    assume "i \<in> set (member_items NFAPI_PREAMBLE_REL9_TAG enc_preamble_pdu_rel9 (\<lambda>x s. s\<lparr>preamble_rel9_tlv := x\<rparr>) (preamble_rel9_tlv p))"
    then show ?thesis
      by (rule member_item_ok [OF _ rach_filter(2) _ small])
         (use v in \<open>simp add: valid_rach_tlvs_def reads_unpack_preamble_pdu_rel9_value\<close>)
  next
    assume "i \<in> set (member_items NFAPI_PREAMBLE_REL13_TAG enc_preamble_pdu_rel13 (\<lambda>x s. s\<lparr>preamble_rel13_tlv := x\<rparr>) (preamble_rel13_tlv p))"
    then show ?thesis
      by (rule member_item_ok [OF _ rach_filter(3) _ small])
         (use v in \<open>simp add: valid_rach_tlvs_def reads_unpack_preamble_pdu_rel13_value\<close>)
  qed
qed (simp add: rach_items_def)

record srs_tlvs =
  srs_rx_ue_information :: "rx_ue_information tlv"
  srs_indication_fdd_rel8_tlv :: "srs_indication_fdd_rel8 tlv"
  srs_indication_fdd_rel9_tlv :: "srs_indication_fdd_rel9 tlv"
  srs_indication_tdd_rel10_tlv :: "srs_indication_tdd_rel10 tlv"
  srs_indication_fdd_rel11_tlv :: "srs_indication_fdd_rel11 tlv"
  tdd_channel_measurement_tlv :: "tdd_channel_measurement tlv"

definition pack_srs_tlvs :: "srs_tlvs \<Rightarrow> wbuf \<Rightarrow> wbuf option" where
  "pack_srs_tlvs p w =
     pack_member NFAPI_RX_UE_INFORMATION_TAG pack_rx_ue_information_value (srs_rx_ue_information p) w \<bind> (\<lambda>w.
     pack_member NFAPI_SRS_INDICATION_FDD_REL8_TAG pack_srs_indication_fdd_rel8_value (srs_indication_fdd_rel8_tlv p) w \<bind> (\<lambda>w.
     pack_member NFAPI_SRS_INDICATION_FDD_REL9_TAG pack_srs_indication_fdd_rel9_value (srs_indication_fdd_rel9_tlv p) w \<bind> (\<lambda>w.
     pack_member NFAPI_SRS_INDICATION_TDD_REL10_TAG pack_srs_indication_tdd_rel10_value (srs_indication_tdd_rel10_tlv p) w \<bind> (\<lambda>w.
     pack_member NFAPI_SRS_INDICATION_FDD_REL11_TAG pack_srs_indication_fdd_rel11_value (srs_indication_fdd_rel11_tlv p) w \<bind>
     pack_member NFAPI_TDD_CHANNEL_MEASUREMENT_TAG pack_tdd_channel_measurement_value (tdd_channel_measurement_tlv p)))))"

definition srs_table :: "(u16 \<times> srs_tlvs tlv_fn) list" where
  "srs_table =
     [member_entry NFAPI_RX_UE_INFORMATION_TAG unpack_rx_ue_information_value (\<lambda>x s. s\<lparr>srs_rx_ue_information := x\<rparr>),
      member_entry NFAPI_SRS_INDICATION_FDD_REL8_TAG unpack_srs_indication_fdd_rel8_value (\<lambda>x s. s\<lparr>srs_indication_fdd_rel8_tlv := x\<rparr>),
      member_entry NFAPI_SRS_INDICATION_FDD_REL9_TAG unpack_srs_indication_fdd_rel9_value (\<lambda>x s. s\<lparr>srs_indication_fdd_rel9_tlv := x\<rparr>),
      member_entry NFAPI_SRS_INDICATION_TDD_REL10_TAG unpack_srs_indication_tdd_rel10_value (\<lambda>x s. s\<lparr>srs_indication_tdd_rel10_tlv := x\<rparr>),
      member_entry NFAPI_SRS_INDICATION_FDD_REL11_TAG unpack_srs_indication_fdd_rel11_value (\<lambda>x s. s\<lparr>srs_indication_fdd_rel11_tlv := x\<rparr>),
      member_entry NFAPI_TDD_CHANNEL_MEASUREMENT_TAG unpack_tdd_channel_measurement_value (\<lambda>x s. s\<lparr>tdd_channel_measurement_tlv := x\<rparr>)]"

definition zero_srs_tlvs :: srs_tlvs where
  "zero_srs_tlvs = \<lparr>srs_rx_ue_information = zero_tlv zero_rx_ue_information, srs_indication_fdd_rel8_tlv = zero_tlv zero_srs_indication_fdd_rel8, srs_indication_fdd_rel9_tlv = zero_tlv zero_srs_indication_fdd_rel9, srs_indication_tdd_rel10_tlv = zero_tlv zero_srs_indication_tdd_rel10, srs_indication_fdd_rel11_tlv = zero_tlv zero_srs_indication_fdd_rel11, tdd_channel_measurement_tlv = zero_tlv zero_tdd_channel_measurement\<rparr>"

definition srs_items :: "srs_tlvs \<Rightarrow> srs_tlvs tlv_item list" where
  "srs_items p =
     member_items NFAPI_RX_UE_INFORMATION_TAG enc_rx_ue_information (\<lambda>x s. s\<lparr>srs_rx_ue_information := x\<rparr>) (srs_rx_ue_information p) @
     member_items NFAPI_SRS_INDICATION_FDD_REL8_TAG enc_srs_indication_fdd_rel8 (\<lambda>x s. s\<lparr>srs_indication_fdd_rel8_tlv := x\<rparr>) (srs_indication_fdd_rel8_tlv p) @
     member_items NFAPI_SRS_INDICATION_FDD_REL9_TAG enc_srs_indication_fdd_rel9 (\<lambda>x s. s\<lparr>srs_indication_fdd_rel9_tlv := x\<rparr>) (srs_indication_fdd_rel9_tlv p) @
     member_items NFAPI_SRS_INDICATION_TDD_REL10_TAG enc_srs_indication_tdd_rel10 (\<lambda>x s. s\<lparr>srs_indication_tdd_rel10_tlv := x\<rparr>) (srs_indication_tdd_rel10_tlv p) @
     member_items NFAPI_SRS_INDICATION_FDD_REL11_TAG enc_srs_indication_fdd_rel11 (\<lambda>x s. s\<lparr>srs_indication_fdd_rel11_tlv := x\<rparr>) (srs_indication_fdd_rel11_tlv p) @
     member_items NFAPI_TDD_CHANNEL_MEASUREMENT_TAG enc_tdd_channel_measurement (\<lambda>x s. s\<lparr>tdd_channel_measurement_tlv := x\<rparr>) (tdd_channel_measurement_tlv p)"

definition valid_srs_tlvs :: "srs_tlvs \<Rightarrow> bool" where
  "valid_srs_tlvs p \<longleftrightarrow> (tl_tag (tlv_hdr (srs_indication_fdd_rel8_tlv p)) = NFAPI_SRS_INDICATION_FDD_REL8_TAG \<longrightarrow> valid_srs_indication_fdd_rel8 (tlv_val (srs_indication_fdd_rel8_tlv p))) \<and>
     (tl_tag (tlv_hdr (tdd_channel_measurement_tlv p)) = NFAPI_TDD_CHANNEL_MEASUREMENT_TAG \<longrightarrow> valid_tdd_channel_measurement (tlv_val (tdd_channel_measurement_tlv p))) \<and>
     length (concat (map (item_bytes lte_pad) (srs_items p))) < 2 ^ 16"

definition sent_srs_tlvs :: "srs_tlvs \<Rightarrow> srs_tlvs" where
  "sent_srs_tlvs p =
     \<lparr>srs_rx_ue_information = sent_member NFAPI_RX_UE_INFORMATION_TAG enc_rx_ue_information zero_rx_ue_information (srs_rx_ue_information p),
      srs_indication_fdd_rel8_tlv = sent_member NFAPI_SRS_INDICATION_FDD_REL8_TAG enc_srs_indication_fdd_rel8 zero_srs_indication_fdd_rel8 (srs_indication_fdd_rel8_tlv p),
      srs_indication_fdd_rel9_tlv = sent_member NFAPI_SRS_INDICATION_FDD_REL9_TAG enc_srs_indication_fdd_rel9 zero_srs_indication_fdd_rel9 (srs_indication_fdd_rel9_tlv p),
      srs_indication_tdd_rel10_tlv = sent_member NFAPI_SRS_INDICATION_TDD_REL10_TAG enc_srs_indication_tdd_rel10 zero_srs_indication_tdd_rel10 (srs_indication_tdd_rel10_tlv p),
      srs_indication_fdd_rel11_tlv = sent_member NFAPI_SRS_INDICATION_FDD_REL11_TAG enc_srs_indication_fdd_rel11 zero_srs_indication_fdd_rel11 (srs_indication_fdd_rel11_tlv p),
      tdd_channel_measurement_tlv = sent_member NFAPI_TDD_CHANNEL_MEASUREMENT_TAG enc_tdd_channel_measurement zero_tdd_channel_measurement (tdd_channel_measurement_tlv p)\<rparr>"

lemma sent_srs: "fold item_effect (srs_items p) zero_srs_tlvs = sent_srs_tlvs p"
  by (simp add: srs_items_def zero_srs_tlvs_def sent_srs_tlvs_def member_items_def sent_member_def)

lemma srs_filter:
  "filter (\<lambda>e. fst e = NFAPI_RX_UE_INFORMATION_TAG) srs_table = [member_entry NFAPI_RX_UE_INFORMATION_TAG unpack_rx_ue_information_value (\<lambda>x s. s\<lparr>srs_rx_ue_information := x\<rparr>)]"
  "filter (\<lambda>e. fst e = NFAPI_SRS_INDICATION_FDD_REL8_TAG) srs_table = [member_entry NFAPI_SRS_INDICATION_FDD_REL8_TAG unpack_srs_indication_fdd_rel8_value (\<lambda>x s. s\<lparr>srs_indication_fdd_rel8_tlv := x\<rparr>)]"
  "filter (\<lambda>e. fst e = NFAPI_SRS_INDICATION_FDD_REL9_TAG) srs_table = [member_entry NFAPI_SRS_INDICATION_FDD_REL9_TAG unpack_srs_indication_fdd_rel9_value (\<lambda>x s. s\<lparr>srs_indication_fdd_rel9_tlv := x\<rparr>)]"
  "filter (\<lambda>e. fst e = NFAPI_SRS_INDICATION_TDD_REL10_TAG) srs_table = [member_entry NFAPI_SRS_INDICATION_TDD_REL10_TAG unpack_srs_indication_tdd_rel10_value (\<lambda>x s. s\<lparr>srs_indication_tdd_rel10_tlv := x\<rparr>)]"
  "filter (\<lambda>e. fst e = NFAPI_SRS_INDICATION_FDD_REL11_TAG) srs_table = [member_entry NFAPI_SRS_INDICATION_FDD_REL11_TAG unpack_srs_indication_fdd_rel11_value (\<lambda>x s. s\<lparr>srs_indication_fdd_rel11_tlv := x\<rparr>)]"
  "filter (\<lambda>e. fst e = NFAPI_TDD_CHANNEL_MEASUREMENT_TAG) srs_table = [member_entry NFAPI_TDD_CHANNEL_MEASUREMENT_TAG unpack_tdd_channel_measurement_value (\<lambda>x s. s\<lparr>tdd_channel_measurement_tlv := x\<rparr>)]"
  by (simp_all add: srs_table_def tag_values)

lemma forward_srs_table: "forward_entries srs_table"
  unfolding srs_table_def by (intro forward_member forward_Nil forward_intro)

interpretation srs: tlv_pdu pack_srs_tlvs srs_table zero_srs_tlvs srs_items valid_srs_tlvs
proof
  fix p assume v: "valid_srs_tlvs p"
  show "writes (pack_srs_tlvs p) (concat (map (item_bytes lte_pad) (srs_items p)))"
    unfolding pack_srs_tlvs_def [abs_def] srs_items_def map_append concat_append item_bytes_members
    by (intro writes_intro) (use v in \<open>simp_all add: valid_srs_tlvs_def\<close>)
  show "length (concat (map (item_bytes lte_pad) (srs_items p))) < 2 ^ 16" using v by (simp add: valid_srs_tlvs_def)
  fix i assume i: "i \<in> set (srs_items p)"
  have "length (item_value i) < 2 ^ 16"
    using item_value_le [OF i, of lte_pad] v by (simp add: valid_srs_tlvs_def)
  note small = this
  from i have "i \<in> set (member_items NFAPI_RX_UE_INFORMATION_TAG enc_rx_ue_information (\<lambda>x s. s\<lparr>srs_rx_ue_information := x\<rparr>) (srs_rx_ue_information p)) \<or>
      i \<in> set (member_items NFAPI_SRS_INDICATION_FDD_REL8_TAG enc_srs_indication_fdd_rel8 (\<lambda>x s. s\<lparr>srs_indication_fdd_rel8_tlv := x\<rparr>) (srs_indication_fdd_rel8_tlv p)) \<or>
      i \<in> set (member_items NFAPI_SRS_INDICATION_FDD_REL9_TAG enc_srs_indication_fdd_rel9 (\<lambda>x s. s\<lparr>srs_indication_fdd_rel9_tlv := x\<rparr>) (srs_indication_fdd_rel9_tlv p)) \<or>
      i \<in> set (member_items NFAPI_SRS_INDICATION_TDD_REL10_TAG enc_srs_indication_tdd_rel10 (\<lambda>x s. s\<lparr>srs_indication_tdd_rel10_tlv := x\<rparr>) (srs_indication_tdd_rel10_tlv p)) \<or>
      i \<in> set (member_items NFAPI_SRS_INDICATION_FDD_REL11_TAG enc_srs_indication_fdd_rel11 (\<lambda>x s. s\<lparr>srs_indication_fdd_rel11_tlv := x\<rparr>) (srs_indication_fdd_rel11_tlv p)) \<or>
      i \<in> set (member_items NFAPI_TDD_CHANNEL_MEASUREMENT_TAG enc_tdd_channel_measurement (\<lambda>x s. s\<lparr>tdd_channel_measurement_tlv := x\<rparr>) (tdd_channel_measurement_tlv p))"
    by (simp only: srs_items_def set_append Un_iff)
  then show "item_ok srs_table i"
  proof (elim disjE)
    assume "i \<in> set (member_items NFAPI_RX_UE_INFORMATION_TAG enc_rx_ue_information (\<lambda>x s. s\<lparr>srs_rx_ue_information := x\<rparr>) (srs_rx_ue_information p))"
    then show ?thesis
      by (rule member_item_ok [OF _ srs_filter(1) _ small])
         (use v in \<open>simp add: valid_srs_tlvs_def reads_unpack_rx_ue_information_value\<close>)
  next
    assume "i \<in> set (member_items NFAPI_SRS_INDICATION_FDD_REL8_TAG enc_srs_indication_fdd_rel8 (\<lambda>x s. s\<lparr>srs_indication_fdd_rel8_tlv := x\<rparr>) (srs_indication_fdd_rel8_tlv p))"
    then show ?thesis
      by (rule member_item_ok [OF _ srs_filter(2) _ small])
         (use v in \<open>simp add: valid_srs_tlvs_def reads_unpack_srs_indication_fdd_rel8_value\<close>)
  next
    assume "i \<in> set (member_items NFAPI_SRS_INDICATION_FDD_REL9_TAG enc_srs_indication_fdd_rel9 (\<lambda>x s. s\<lparr>srs_indication_fdd_rel9_tlv := x\<rparr>) (srs_indication_fdd_rel9_tlv p))"
    then show ?thesis
      by (rule member_item_ok [OF _ srs_filter(3) _ small])
         (use v in \<open>simp add: valid_srs_tlvs_def reads_unpack_srs_indication_fdd_rel9_value\<close>)
  next
    assume "i \<in> set (member_items NFAPI_SRS_INDICATION_TDD_REL10_TAG enc_srs_indication_tdd_rel10 (\<lambda>x s. s\<lparr>srs_indication_tdd_rel10_tlv := x\<rparr>) (srs_indication_tdd_rel10_tlv p))"
    then show ?thesis
      by (rule member_item_ok [OF _ srs_filter(4) _ small])
         (use v in \<open>simp add: valid_srs_tlvs_def reads_unpack_srs_indication_tdd_rel10_value\<close>)
  next
    assume "i \<in> set (member_items NFAPI_SRS_INDICATION_FDD_REL11_TAG enc_srs_indication_fdd_rel11 (\<lambda>x s. s\<lparr>srs_indication_fdd_rel11_tlv := x\<rparr>) (srs_indication_fdd_rel11_tlv p))"
    then show ?thesis
      by (rule member_item_ok [OF _ srs_filter(5) _ small])
         (use v in \<open>simp add: valid_srs_tlvs_def reads_unpack_srs_indication_fdd_rel11_value\<close>)
  next
    assume "i \<in> set (member_items NFAPI_TDD_CHANNEL_MEASUREMENT_TAG enc_tdd_channel_measurement (\<lambda>x s. s\<lparr>tdd_channel_measurement_tlv := x\<rparr>) (tdd_channel_measurement_tlv p))"
    then show ?thesis
      by (rule member_item_ok [OF _ srs_filter(6) _ small])
         (use v in \<open>simp add: valid_srs_tlvs_def reads_unpack_tdd_channel_measurement_value\<close>)
  qed
qed (simp add: srs_items_def)

record nb_harq_tlvs =
  nb_harq_rx_ue_information :: "rx_ue_information tlv"
  nb_harq_indication_fdd_rel13_tlv :: "nb_harq_indication_fdd_rel13 tlv"
  nb_harq_ul_cqi_information :: "ul_cqi_information tlv"

definition pack_nb_harq_tlvs :: "nb_harq_tlvs \<Rightarrow> wbuf \<Rightarrow> wbuf option" where
  "pack_nb_harq_tlvs p w =
     pack_member NFAPI_RX_UE_INFORMATION_TAG pack_rx_ue_information_value (nb_harq_rx_ue_information p) w \<bind> (\<lambda>w.
     pack_member NFAPI_NB_HARQ_INDICATION_FDD_REL13_TAG pack_nb_harq_indication_fdd_rel13_value (nb_harq_indication_fdd_rel13_tlv p) w \<bind>
     pack_member NFAPI_UL_CQI_INFORMATION_TAG pack_ul_cqi_information_value (nb_harq_ul_cqi_information p))"

definition nb_harq_table :: "(u16 \<times> nb_harq_tlvs tlv_fn) list" where
  "nb_harq_table =
     [member_entry NFAPI_RX_UE_INFORMATION_TAG unpack_rx_ue_information_value (\<lambda>x s. s\<lparr>nb_harq_rx_ue_information := x\<rparr>),
      member_entry NFAPI_NB_HARQ_INDICATION_FDD_REL13_TAG unpack_nb_harq_indication_fdd_rel13_value (\<lambda>x s. s\<lparr>nb_harq_indication_fdd_rel13_tlv := x\<rparr>),
      member_entry NFAPI_UL_CQI_INFORMATION_TAG unpack_ul_cqi_information_value (\<lambda>x s. s\<lparr>nb_harq_ul_cqi_information := x\<rparr>)]"

definition zero_nb_harq_tlvs :: nb_harq_tlvs where
  "zero_nb_harq_tlvs = \<lparr>nb_harq_rx_ue_information = zero_tlv zero_rx_ue_information, nb_harq_indication_fdd_rel13_tlv = zero_tlv zero_nb_harq_indication_fdd_rel13, nb_harq_ul_cqi_information = zero_tlv zero_ul_cqi_information\<rparr>"

definition nb_harq_items :: "nb_harq_tlvs \<Rightarrow> nb_harq_tlvs tlv_item list" where
  "nb_harq_items p =
     member_items NFAPI_RX_UE_INFORMATION_TAG enc_rx_ue_information (\<lambda>x s. s\<lparr>nb_harq_rx_ue_information := x\<rparr>) (nb_harq_rx_ue_information p) @
     member_items NFAPI_NB_HARQ_INDICATION_FDD_REL13_TAG enc_nb_harq_indication_fdd_rel13 (\<lambda>x s. s\<lparr>nb_harq_indication_fdd_rel13_tlv := x\<rparr>) (nb_harq_indication_fdd_rel13_tlv p) @
     member_items NFAPI_UL_CQI_INFORMATION_TAG enc_ul_cqi_information (\<lambda>x s. s\<lparr>nb_harq_ul_cqi_information := x\<rparr>) (nb_harq_ul_cqi_information p)"

definition valid_nb_harq_tlvs :: "nb_harq_tlvs \<Rightarrow> bool" where
  "valid_nb_harq_tlvs p \<longleftrightarrow> length (concat (map (item_bytes lte_pad) (nb_harq_items p))) < 2 ^ 16"

definition sent_nb_harq_tlvs :: "nb_harq_tlvs \<Rightarrow> nb_harq_tlvs" where
  "sent_nb_harq_tlvs p =
     \<lparr>nb_harq_rx_ue_information = sent_member NFAPI_RX_UE_INFORMATION_TAG enc_rx_ue_information zero_rx_ue_information (nb_harq_rx_ue_information p),
      nb_harq_indication_fdd_rel13_tlv = sent_member NFAPI_NB_HARQ_INDICATION_FDD_REL13_TAG enc_nb_harq_indication_fdd_rel13 zero_nb_harq_indication_fdd_rel13 (nb_harq_indication_fdd_rel13_tlv p),
      nb_harq_ul_cqi_information = sent_member NFAPI_UL_CQI_INFORMATION_TAG enc_ul_cqi_information zero_ul_cqi_information (nb_harq_ul_cqi_information p)\<rparr>"

lemma sent_nb_harq: "fold item_effect (nb_harq_items p) zero_nb_harq_tlvs = sent_nb_harq_tlvs p"
  by (simp add: nb_harq_items_def zero_nb_harq_tlvs_def sent_nb_harq_tlvs_def member_items_def sent_member_def)

lemma nb_harq_filter:
  "filter (\<lambda>e. fst e = NFAPI_RX_UE_INFORMATION_TAG) nb_harq_table = [member_entry NFAPI_RX_UE_INFORMATION_TAG unpack_rx_ue_information_value (\<lambda>x s. s\<lparr>nb_harq_rx_ue_information := x\<rparr>)]"
  "filter (\<lambda>e. fst e = NFAPI_NB_HARQ_INDICATION_FDD_REL13_TAG) nb_harq_table = [member_entry NFAPI_NB_HARQ_INDICATION_FDD_REL13_TAG unpack_nb_harq_indication_fdd_rel13_value (\<lambda>x s. s\<lparr>nb_harq_indication_fdd_rel13_tlv := x\<rparr>)]"
  "filter (\<lambda>e. fst e = NFAPI_UL_CQI_INFORMATION_TAG) nb_harq_table = [member_entry NFAPI_UL_CQI_INFORMATION_TAG unpack_ul_cqi_information_value (\<lambda>x s. s\<lparr>nb_harq_ul_cqi_information := x\<rparr>)]"
  by (simp_all add: nb_harq_table_def tag_values)

lemma forward_nb_harq_table: "forward_entries nb_harq_table"
  unfolding nb_harq_table_def by (intro forward_member forward_Nil forward_intro)

interpretation nb_harq: tlv_pdu pack_nb_harq_tlvs nb_harq_table zero_nb_harq_tlvs nb_harq_items valid_nb_harq_tlvs
proof
  fix p assume v: "valid_nb_harq_tlvs p"
  show "writes (pack_nb_harq_tlvs p) (concat (map (item_bytes lte_pad) (nb_harq_items p)))"
    unfolding pack_nb_harq_tlvs_def [abs_def] nb_harq_items_def map_append concat_append item_bytes_members
    by (intro writes_intro)
  show "length (concat (map (item_bytes lte_pad) (nb_harq_items p))) < 2 ^ 16" using v by (simp add: valid_nb_harq_tlvs_def)
  fix i assume i: "i \<in> set (nb_harq_items p)"
  have "length (item_value i) < 2 ^ 16"
    using item_value_le [OF i, of lte_pad] v by (simp add: valid_nb_harq_tlvs_def)
  note small = this
  from i have "i \<in> set (member_items NFAPI_RX_UE_INFORMATION_TAG enc_rx_ue_information (\<lambda>x s. s\<lparr>nb_harq_rx_ue_information := x\<rparr>) (nb_harq_rx_ue_information p)) \<or>
      i \<in> set (member_items NFAPI_NB_HARQ_INDICATION_FDD_REL13_TAG enc_nb_harq_indication_fdd_rel13 (\<lambda>x s. s\<lparr>nb_harq_indication_fdd_rel13_tlv := x\<rparr>) (nb_harq_indication_fdd_rel13_tlv p)) \<or>
      i \<in> set (member_items NFAPI_UL_CQI_INFORMATION_TAG enc_ul_cqi_information (\<lambda>x s. s\<lparr>nb_harq_ul_cqi_information := x\<rparr>) (nb_harq_ul_cqi_information p))"
    by (simp only: nb_harq_items_def set_append Un_iff)
  then show "item_ok nb_harq_table i"
  proof (elim disjE)
    assume "i \<in> set (member_items NFAPI_RX_UE_INFORMATION_TAG enc_rx_ue_information (\<lambda>x s. s\<lparr>nb_harq_rx_ue_information := x\<rparr>) (nb_harq_rx_ue_information p))"
    then show ?thesis
      by (rule member_item_ok [OF _ nb_harq_filter(1) _ small])
         (use v in \<open>simp add: valid_nb_harq_tlvs_def reads_unpack_rx_ue_information_value\<close>)
  next
    assume "i \<in> set (member_items NFAPI_NB_HARQ_INDICATION_FDD_REL13_TAG enc_nb_harq_indication_fdd_rel13 (\<lambda>x s. s\<lparr>nb_harq_indication_fdd_rel13_tlv := x\<rparr>) (nb_harq_indication_fdd_rel13_tlv p))"
    then show ?thesis
      by (rule member_item_ok [OF _ nb_harq_filter(2) _ small])
         (use v in \<open>simp add: valid_nb_harq_tlvs_def reads_unpack_nb_harq_indication_fdd_rel13_value\<close>)
  next
    assume "i \<in> set (member_items NFAPI_UL_CQI_INFORMATION_TAG enc_ul_cqi_information (\<lambda>x s. s\<lparr>nb_harq_ul_cqi_information := x\<rparr>) (nb_harq_ul_cqi_information p))"
    then show ?thesis
      by (rule member_item_ok [OF _ nb_harq_filter(3) _ small])
         (use v in \<open>simp add: valid_nb_harq_tlvs_def reads_unpack_ul_cqi_information_value\<close>)
  qed
qed (simp add: nb_harq_items_def)

section \<open>Messages\<close>

text \<open>The packer of the CRC body asserts its limit: a failed assertion ends the program, here \<open>None\<close>.\<close>

definition pack_harq_indication_body_value :: "(u16, harq_tlvs pdu) pdu_list \<Rightarrow> wbuf \<Rightarrow> wbuf option" where
  "pack_harq_indication_body_value v w =
     pack_pdus push16 (pack_instance pack_harq_tlvs) v w"

definition unpack_harq_indication_body_value :: "bool \<Rightarrow> tl \<Rightarrow> rbuf \<Rightarrow> ((u16, harq_tlvs pdu) pdu_list \<times> rbuf) option" where
  "unpack_harq_indication_body_value alloc_ok =
     unpack_pdus pull16 NFAPI_HARQ_IND_MAX_PDU (alloc_always alloc_ok) (unpack_instance harq_table zero_harq_tlvs)"

definition pack_harq_indication :: "(wbuf \<Rightarrow> wbuf option) option \<Rightarrow> (u16, harq_tlvs pdu) pdu_list indication \<Rightarrow> wbuf \<Rightarrow> wbuf option" where
  "pack_harq_indication = pack_indication NFAPI_HARQ_INDICATION_BODY_TAG pack_harq_indication_body_value"

definition unpack_harq_indication :: "bool \<Rightarrow> (u16, harq_tlvs pdu) pdu_list indication ve_fn option
  \<Rightarrow> (u16, harq_tlvs pdu) pdu_list indication \<Rightarrow> rbuf \<Rightarrow> (u16, harq_tlvs pdu) pdu_list indication option" where
  "unpack_harq_indication alloc_ok = unpack_indication NFAPI_HARQ_INDICATION_BODY_TAG (unpack_harq_indication_body_value alloc_ok)"

definition pack_crc_indication_body_value :: "(u16, crc_tlvs pdu) pdu_list \<Rightarrow> wbuf \<Rightarrow> wbuf option" where
  "pack_crc_indication_body_value v w =
     (if NFAPI_CRC_IND_MAX_PDU < unat (number_of_pdus v) then None
      else pack_pdus push16 (pack_instance pack_crc_tlvs) v w)"

definition unpack_crc_indication_body_value :: "bool \<Rightarrow> tl \<Rightarrow> rbuf \<Rightarrow> ((u16, crc_tlvs pdu) pdu_list \<times> rbuf) option" where
  "unpack_crc_indication_body_value alloc_ok =
     unpack_pdus pull16 NFAPI_CRC_IND_MAX_PDU (alloc_if_any alloc_ok) (unpack_instance crc_table zero_crc_tlvs)"

definition pack_crc_indication :: "(wbuf \<Rightarrow> wbuf option) option \<Rightarrow> (u16, crc_tlvs pdu) pdu_list indication \<Rightarrow> wbuf \<Rightarrow> wbuf option" where
  "pack_crc_indication = pack_indication NFAPI_CRC_INDICATION_BODY_TAG pack_crc_indication_body_value"

definition unpack_crc_indication :: "bool \<Rightarrow> (u16, crc_tlvs pdu) pdu_list indication ve_fn option
  \<Rightarrow> (u16, crc_tlvs pdu) pdu_list indication \<Rightarrow> rbuf \<Rightarrow> (u16, crc_tlvs pdu) pdu_list indication option" where
  "unpack_crc_indication alloc_ok = unpack_indication NFAPI_CRC_INDICATION_BODY_TAG (unpack_crc_indication_body_value alloc_ok)"

definition pack_sr_indication_body_value :: "(u16, sr_tlvs pdu) pdu_list \<Rightarrow> wbuf \<Rightarrow> wbuf option" where
  "pack_sr_indication_body_value v w =
     pack_pdus push16 (pack_instance pack_sr_tlvs) v w"

definition unpack_sr_indication_body_value :: "bool \<Rightarrow> tl \<Rightarrow> rbuf \<Rightarrow> ((u16, sr_tlvs pdu) pdu_list \<times> rbuf) option" where
  "unpack_sr_indication_body_value alloc_ok =
     unpack_pdus pull16 NFAPI_SR_IND_MAX_PDU (alloc_if_any alloc_ok) (unpack_instance sr_table zero_sr_tlvs)"

definition pack_sr_indication :: "(wbuf \<Rightarrow> wbuf option) option \<Rightarrow> (u16, sr_tlvs pdu) pdu_list indication \<Rightarrow> wbuf \<Rightarrow> wbuf option" where
  "pack_sr_indication = pack_indication NFAPI_SR_INDICATION_BODY_TAG pack_sr_indication_body_value"

definition unpack_sr_indication :: "bool \<Rightarrow> (u16, sr_tlvs pdu) pdu_list indication ve_fn option
  \<Rightarrow> (u16, sr_tlvs pdu) pdu_list indication \<Rightarrow> rbuf \<Rightarrow> (u16, sr_tlvs pdu) pdu_list indication option" where
  "unpack_sr_indication alloc_ok = unpack_indication NFAPI_SR_INDICATION_BODY_TAG (unpack_sr_indication_body_value alloc_ok)"

definition pack_rach_indication_body_value :: "(u16, rach_tlvs pdu) pdu_list \<Rightarrow> wbuf \<Rightarrow> wbuf option" where
  "pack_rach_indication_body_value v w =
     pack_pdus push16 (pack_instance pack_rach_tlvs) v w"

definition unpack_rach_indication_body_value :: "bool \<Rightarrow> tl \<Rightarrow> rbuf \<Rightarrow> ((u16, rach_tlvs pdu) pdu_list \<times> rbuf) option" where
  "unpack_rach_indication_body_value alloc_ok =
     unpack_pdus pull16 NFAPI_PREAMBLE_MAX_PDU (alloc_if_any alloc_ok) (unpack_instance rach_table zero_rach_tlvs)"

definition pack_rach_indication :: "(wbuf \<Rightarrow> wbuf option) option \<Rightarrow> (u16, rach_tlvs pdu) pdu_list indication \<Rightarrow> wbuf \<Rightarrow> wbuf option" where
  "pack_rach_indication = pack_indication NFAPI_RACH_INDICATION_BODY_TAG pack_rach_indication_body_value"

definition unpack_rach_indication :: "bool \<Rightarrow> (u16, rach_tlvs pdu) pdu_list indication ve_fn option
  \<Rightarrow> (u16, rach_tlvs pdu) pdu_list indication \<Rightarrow> rbuf \<Rightarrow> (u16, rach_tlvs pdu) pdu_list indication option" where
  "unpack_rach_indication alloc_ok = unpack_indication NFAPI_RACH_INDICATION_BODY_TAG (unpack_rach_indication_body_value alloc_ok)"

definition pack_srs_indication_body_value :: "(u8, srs_tlvs pdu) pdu_list \<Rightarrow> wbuf \<Rightarrow> wbuf option" where
  "pack_srs_indication_body_value v w =
     pack_pdus push8 (pack_instance pack_srs_tlvs) v w"

definition unpack_srs_indication_body_value :: "bool \<Rightarrow> tl \<Rightarrow> rbuf \<Rightarrow> ((u8, srs_tlvs pdu) pdu_list \<times> rbuf) option" where
  "unpack_srs_indication_body_value alloc_ok =
     unpack_pdus pull8 NFAPI_SRS_IND_MAX_PDU (alloc_if_any alloc_ok) (unpack_instance srs_table zero_srs_tlvs)"

definition pack_srs_indication :: "(wbuf \<Rightarrow> wbuf option) option \<Rightarrow> (u8, srs_tlvs pdu) pdu_list indication \<Rightarrow> wbuf \<Rightarrow> wbuf option" where
  "pack_srs_indication = pack_indication NFAPI_SRS_INDICATION_BODY_TAG pack_srs_indication_body_value"

definition unpack_srs_indication :: "bool \<Rightarrow> (u8, srs_tlvs pdu) pdu_list indication ve_fn option
  \<Rightarrow> (u8, srs_tlvs pdu) pdu_list indication \<Rightarrow> rbuf \<Rightarrow> (u8, srs_tlvs pdu) pdu_list indication option" where
  "unpack_srs_indication alloc_ok = unpack_indication NFAPI_SRS_INDICATION_BODY_TAG (unpack_srs_indication_body_value alloc_ok)"

definition pack_nb_harq_indication_body_value :: "(u16, nb_harq_tlvs pdu) pdu_list \<Rightarrow> wbuf \<Rightarrow> wbuf option" where
  "pack_nb_harq_indication_body_value v w =
     pack_pdus push16 (pack_instance pack_nb_harq_tlvs) v w"

definition unpack_nb_harq_indication_body_value :: "bool \<Rightarrow> tl \<Rightarrow> rbuf \<Rightarrow> ((u16, nb_harq_tlvs pdu) pdu_list \<times> rbuf) option" where
  "unpack_nb_harq_indication_body_value alloc_ok =
     unpack_pdus pull16 NFAPI_HARQ_IND_MAX_PDU (alloc_always alloc_ok) (unpack_instance nb_harq_table zero_nb_harq_tlvs)"

definition pack_nb_harq_indication :: "(wbuf \<Rightarrow> wbuf option) option \<Rightarrow> (u16, nb_harq_tlvs pdu) pdu_list indication \<Rightarrow> wbuf \<Rightarrow> wbuf option" where
  "pack_nb_harq_indication = pack_indication NFAPI_NB_HARQ_INDICATION_BODY_TAG pack_nb_harq_indication_body_value"

definition unpack_nb_harq_indication :: "bool \<Rightarrow> (u16, nb_harq_tlvs pdu) pdu_list indication ve_fn option
  \<Rightarrow> (u16, nb_harq_tlvs pdu) pdu_list indication \<Rightarrow> rbuf \<Rightarrow> (u16, nb_harq_tlvs pdu) pdu_list indication option" where
  "unpack_nb_harq_indication alloc_ok = unpack_indication NFAPI_NB_HARQ_INDICATION_BODY_TAG (unpack_nb_harq_indication_body_value alloc_ok)"

lemmas indication_defs = pack_harq_indication_def unpack_harq_indication_def pack_crc_indication_def unpack_crc_indication_def
  pack_sr_indication_def unpack_sr_indication_def pack_rach_indication_def unpack_rach_indication_def
  pack_srs_indication_def unpack_srs_indication_def pack_nb_harq_indication_def unpack_nb_harq_indication_def

lemmas body_defs = pack_harq_indication_body_value_def [abs_def] unpack_harq_indication_body_value_def
  unpack_crc_indication_body_value_def pack_sr_indication_body_value_def [abs_def] unpack_sr_indication_body_value_def
  pack_rach_indication_body_value_def [abs_def] unpack_rach_indication_body_value_def
  pack_srs_indication_body_value_def [abs_def] unpack_srs_indication_body_value_def
  pack_nb_harq_indication_body_value_def [abs_def] unpack_nb_harq_indication_body_value_def

lemma writes_one: "writes (push8 v) ((\<lambda>v. [v]) v)" and reads_one: "reads pull8 v ((\<lambda>v. [v]) v)"
  by (simp_all add: writes_push8 reads_pull8)

lemmas limits = NFAPI_HARQ_IND_MAX_PDU_def NFAPI_CRC_IND_MAX_PDU_def NFAPI_PREAMBLE_MAX_PDU_def

lemmas enc_values = enc_rx_ue_information_def enc_harq_indication_fdd_rel8_def enc_crc_indication_rel8_def
  enc_preamble_pdu_rel8_def

text \<open>What a message with the given contents becomes at the receiver.\<close>

definition received :: "u16 \<Rightarrow> nat \<Rightarrow> 'b \<Rightarrow> u16 \<Rightarrow> 'b indication \<Rightarrow> 'b indication" where
  "received tag len v sf m0 = m0\<lparr>ind_sfn_sf := sf,
     ind_body := \<lparr>tlv_hdr = \<lparr>tl_tag = tag, tl_length = of_nat len\<rparr>, tlv_val = v\<rparr>\<rparr>"

text \<open>The CRC packer with its assertion, on a body within the limit.\<close>

lemma crc_pack_within:
  "unat (number_of_pdus (tlv_val (ind_body m))) \<le> NFAPI_CRC_IND_MAX_PDU \<Longrightarrow>
   pack_crc_indication cb m = pack_indication NFAPI_CRC_INDICATION_BODY_TAG (pack_pdus push16 (pack_instance pack_crc_tlvs)) cb m"
proof -
  assume "unat (number_of_pdus (tlv_val (ind_body m))) \<le> NFAPI_CRC_IND_MAX_PDU"
  then have "pack_crc_indication_body_value (tlv_val (ind_body m)) =
      pack_pdus push16 (pack_instance pack_crc_tlvs) (tlv_val (ind_body m))"
    by (simp add: fun_eq_iff pack_crc_indication_body_value_def)
  then show ?thesis by (simp add: pack_crc_indication_def pack_indication_def [abs_def] pack_member_def [abs_def])
qed

section \<open>Properties\<close>


definition example_harq :: "(u16, harq_tlvs pdu) pdu_list indication" where
  "example_harq = \<lparr>ind_sfn_sf = 0x123,
     ind_body = \<lparr>tlv_hdr = \<lparr>tl_tag = 0x2026, tl_length = 0\<rparr>, tlv_val = \<lparr>number_of_pdus = 1,
       pdus = [\<lparr>instance_length = 0, pdu_tlvs = zero_harq_tlvs
         \<lparr>harq_rx_ue_information := \<lparr>tlv_hdr = \<lparr>tl_tag = 0x2038, tl_length = 0\<rparr>, tlv_val = \<lparr>ue_handle = 1, ue_rnti = 0x1234\<rparr>\<rparr>,
          harq_indication_fdd_rel8_tlv := \<lparr>tlv_hdr = \<lparr>tl_tag = 0x2029, tl_length = 0\<rparr>, tlv_val = \<lparr>harq_tb1 = 1, harq_tb2 = 2\<rparr>\<rparr>\<rparr>\<rparr>]\<rparr>\<rparr>,
     ind_vendor_extension = None\<rparr>"


text \<open>
  The same for RACH indications, of any number of preambles up to the limit, none included.
\<close>

theorem rach_indication_roundtrip:
  assumes valid: "valid_list rach_items valid_rach_tlvs NFAPI_PREAMBLE_MAX_PDU be16 (tlv_val (ind_body m))"
    and tag: "tl_tag (tlv_hdr (ind_body m)) = NFAPI_RACH_INDICATION_BODY_TAG" and ve: "ind_vendor_extension m = None"
    and w: "wbuf_ok w" and pk: "pack_rach_indication cb m w = Some w'"
  defines "bs \<equiv> list_bytes be16 rach_items (tlv_val (ind_body m))"
    and "got \<equiv> sent_list rach_items zero_rach_tlvs (tlv_val (ind_body m))"
  shows "unpack_rach_indication True cb' m0 \<lparr>rb_mem = wb_mem w', rb_pos = wb_pos w, rb_end = wb_pos w'\<rparr> =
      Some (received NFAPI_RACH_INDICATION_BODY_TAG (length bs) got (ind_sfn_sf m) m0) \<and>
    map pdu_tlvs (pdus got) =
      map (\<lambda>p. sent_rach_tlvs (pdu_tlvs p)) (take (unat (number_of_pdus (tlv_val (ind_body m)))) (pdus (tlv_val (ind_body m))))"
proof
  have "alloc_if_any True (unat (number_of_pdus (tlv_val (ind_body m))))" by (simp add: alloc_if_any_def)
  from rach.packed_roundtrip [where alloc = "alloc_if_any True", OF writes_push16 reads_pull16 valid this tag ve w
      pk [unfolded indication_defs body_defs]]
  show "unpack_rach_indication True cb' m0 \<lparr>rb_mem = wb_mem w', rb_pos = wb_pos w, rb_end = wb_pos w'\<rparr> =
      Some (received NFAPI_RACH_INDICATION_BODY_TAG (length bs) got (ind_sfn_sf m) m0)"
    unfolding indication_defs body_defs received_def bs_def got_def .
qed (simp add: got_def sent_list_def sent_pdu_def sent_rach)

definition example_rach :: "(u16, rach_tlvs pdu) pdu_list indication" where
  "example_rach = \<lparr>ind_sfn_sf = 0x123,
     ind_body = \<lparr>tlv_hdr = \<lparr>tl_tag = 0x2031, tl_length = 0\<rparr>, tlv_val = \<lparr>number_of_pdus = 1,
       pdus = [\<lparr>instance_length = 0, pdu_tlvs = zero_rach_tlvs
         \<lparr>preamble_rel8_tlv := \<lparr>tlv_hdr = \<lparr>tl_tag = 0x2032, tl_length = 0\<rparr>,
            tlv_val = \<lparr>pre_rnti = 0x4F, preamble = 17, pre_timing_advance = 3\<rparr>\<rparr>\<rparr>\<rparr>]\<rparr>\<rparr>,
     ind_vendor_extension = None\<rparr>"

theorem rach_indication_roundtrip_witness:
  "\<exists>w'. pack_rach_indication None example_rach \<lparr>wb_mem = replicate 64 0, wb_pos = 0, wb_end = 64\<rparr> = Some w' \<and>
    map_option (map pdu_tlvs \<circ> (pdus \<circ> (tlv_val \<circ> ind_body)))
      (unpack_rach_indication True None example_rach \<lparr>rb_mem = wb_mem w', rb_pos = 0, rb_end = wb_pos w'\<rparr>)
    = Some [sent_rach_tlvs (pdu_tlvs (hd (pdus (tlv_val (ind_body example_rach)))))]"
proof -
  let ?w = "\<lparr>wb_mem = replicate 64 0, wb_pos = 0, wb_end = 64\<rparr>"
  have v: "valid_list rach_items valid_rach_tlvs NFAPI_PREAMBLE_MAX_PDU be16 (tlv_val (ind_body example_rach))"
    by (simp add: valid_list_def example_rach_def list_bytes_def pdu_bytes_def valid_rach_tlvs_def rach_items_def zero_rach_tlvs_def
        member_items_def zero_tlv_def item_bytes_def lte_pad_def tag_values limits enc_values)
  have t: "tl_tag (tlv_hdr (ind_body example_rach)) = NFAPI_RACH_INDICATION_BODY_TAG" "ind_vendor_extension example_rach = None"
    "wbuf_ok ?w"
    by (simp_all add: example_rach_def NFAPI_RACH_INDICATION_BODY_TAG_def wbuf_ok_def)
  have "pack_rach_indication None example_rach ?w \<noteq> None" by code_simp
  then obtain w' where w': "pack_rach_indication None example_rach ?w = Some w'" by blast
  show ?thesis
    using rach_indication_roundtrip [OF v t w', of None example_rach] w'
    by (auto simp: received_def example_rach_def)
qed

text \<open>
  C28. The same for CRC indications; the assertion of the packer holds for every body within the
  limit.
\<close>

theorem crc_indication_roundtrip:
  assumes valid: "valid_list crc_items valid_crc_tlvs NFAPI_CRC_IND_MAX_PDU be16 (tlv_val (ind_body m))"
    and tag: "tl_tag (tlv_hdr (ind_body m)) = NFAPI_CRC_INDICATION_BODY_TAG" and ve: "ind_vendor_extension m = None"
    and w: "wbuf_ok w" and pk: "pack_crc_indication cb m w = Some w'"
  defines "bs \<equiv> list_bytes be16 crc_items (tlv_val (ind_body m))"
    and "got \<equiv> sent_list crc_items zero_crc_tlvs (tlv_val (ind_body m))"
  shows "unpack_crc_indication True cb' m0 \<lparr>rb_mem = wb_mem w', rb_pos = wb_pos w, rb_end = wb_pos w'\<rparr> =
      Some (received NFAPI_CRC_INDICATION_BODY_TAG (length bs) got (ind_sfn_sf m) m0) \<and>
    map pdu_tlvs (pdus got) =
      map (\<lambda>p. sent_crc_tlvs (pdu_tlvs p)) (take (unat (number_of_pdus (tlv_val (ind_body m)))) (pdus (tlv_val (ind_body m))))"
proof
  have "unat (number_of_pdus (tlv_val (ind_body m))) \<le> NFAPI_CRC_IND_MAX_PDU" using valid by (simp add: valid_list_def)
  note pk' = pk [unfolded crc_pack_within [OF this]]
  have "alloc_if_any True (unat (number_of_pdus (tlv_val (ind_body m))))" by (simp add: alloc_if_any_def)
  from crc.packed_roundtrip [where alloc = "alloc_if_any True", OF writes_push16 reads_pull16 valid this tag ve w pk']
  show "unpack_crc_indication True cb' m0 \<lparr>rb_mem = wb_mem w', rb_pos = wb_pos w, rb_end = wb_pos w'\<rparr> =
      Some (received NFAPI_CRC_INDICATION_BODY_TAG (length bs) got (ind_sfn_sf m) m0)"
    unfolding indication_defs body_defs received_def bs_def got_def .
qed (simp add: got_def sent_list_def sent_pdu_def sent_crc)

definition example_crc :: "(u16, crc_tlvs pdu) pdu_list indication" where
  "example_crc = \<lparr>ind_sfn_sf = 0x123,
     ind_body = \<lparr>tlv_hdr = \<lparr>tl_tag = 0x202B, tl_length = 0\<rparr>, tlv_val = \<lparr>number_of_pdus = 1,
       pdus = [\<lparr>instance_length = 0, pdu_tlvs = zero_crc_tlvs
         \<lparr>crc_rx_ue_information := \<lparr>tlv_hdr = \<lparr>tl_tag = 0x2038, tl_length = 0\<rparr>, tlv_val = \<lparr>ue_handle = 1, ue_rnti = 0x1234\<rparr>\<rparr>,
          crc_indication_rel8_tlv := \<lparr>tlv_hdr = \<lparr>tl_tag = 0x202C, tl_length = 0\<rparr>, tlv_val = \<lparr>crc_flag = 1\<rparr>\<rparr>\<rparr>\<rparr>]\<rparr>\<rparr>,
     ind_vendor_extension = None\<rparr>"

theorem crc_indication_roundtrip_witness:
  "\<exists>w'. pack_crc_indication None example_crc \<lparr>wb_mem = replicate 64 0, wb_pos = 0, wb_end = 64\<rparr> = Some w' \<and>
    map_option (map pdu_tlvs \<circ> (pdus \<circ> (tlv_val \<circ> ind_body)))
      (unpack_crc_indication True None example_crc \<lparr>rb_mem = wb_mem w', rb_pos = 0, rb_end = wb_pos w'\<rparr>)
    = Some [sent_crc_tlvs (pdu_tlvs (hd (pdus (tlv_val (ind_body example_crc)))))]"
proof -
  let ?w = "\<lparr>wb_mem = replicate 64 0, wb_pos = 0, wb_end = 64\<rparr>"
  have v: "valid_list crc_items valid_crc_tlvs NFAPI_CRC_IND_MAX_PDU be16 (tlv_val (ind_body example_crc))"
    by (simp add: valid_list_def example_crc_def list_bytes_def pdu_bytes_def valid_crc_tlvs_def crc_items_def zero_crc_tlvs_def
        member_items_def zero_tlv_def item_bytes_def lte_pad_def tag_values limits enc_values)
  have t: "tl_tag (tlv_hdr (ind_body example_crc)) = NFAPI_CRC_INDICATION_BODY_TAG" "ind_vendor_extension example_crc = None"
    "wbuf_ok ?w"
    by (simp_all add: example_crc_def NFAPI_CRC_INDICATION_BODY_TAG_def wbuf_ok_def)
  have "pack_crc_indication None example_crc ?w \<noteq> None" by code_simp
  then obtain w' where w': "pack_crc_indication None example_crc ?w = Some w'" by blast
  show ?thesis
    using crc_indication_roundtrip [OF v t w', of None example_crc] w'
    by (auto simp: received_def example_crc_def)
qed

text \<open>
  Unpacking the PDUs of an indication terminates on every input, but the instance length
  is not compared with the end of the message: a PDU that is accepted ends where
  its length says or behind it, wherever the message ends.  A length that is
  too large makes the unpackers read what lies behind the message.
\<close>

theorem instance_length_unchecked:
  shows "(\<forall>r. \<exists>y. unpack_tlv_list harq_table None zero_harq_tlvs r = Some y) \<and>
    (\<forall>r. \<exists>y. unpack_tlv_list crc_table None zero_crc_tlvs r = Some y) \<and>
    (\<forall>r. \<exists>y. unpack_tlv_list rach_table None zero_rach_tlvs r = Some y) \<and>
    (\<forall>r. \<exists>y. unpack_tlv_list srs_table None zero_srs_tlvs r = Some y) \<and>
    (\<forall>r p r'. unpack_instance harq_table zero_harq_tlvs r = Some (p, r') \<longrightarrow>
        rb_pos r + 2 + unat (instance_length p) \<le> rb_pos r') \<and>
    (\<forall>r p r'. unpack_instance crc_table zero_crc_tlvs r = Some (p, r') \<longrightarrow>
        rb_pos r + 2 + unat (instance_length p) \<le> rb_pos r') \<and>
    (\<exists>p r'. unpack_instance crc_table zero_crc_tlvs
        \<lparr>rb_mem = [0, 5, 0x20, 0x2C, 0, 1, 99], rb_pos = 0, rb_end = 2\<rparr> = Some (p, r') \<and>
        crc_flag (tlv_val (crc_indication_rel8_tlv (pdu_tlvs p))) = 99 \<and> rb_end r' < rb_pos r')"
proof -
  have "map_option (\<lambda>(p, r'). (crc_flag (tlv_val (crc_indication_rel8_tlv (pdu_tlvs p))), rb_end r' < rb_pos r'))
      (unpack_instance crc_table zero_crc_tlvs \<lparr>rb_mem = [0, 5, 0x20, 0x2C, 0, 1, 99], rb_pos = 0, rb_end = 2\<rparr>) = Some (99, True)"
    by code_simp
  moreover have ret: "\<exists>y. unpack_tlv_list es None z r = Some y" if "forward_entries es"
    for es :: "(u16 \<times> 'x tlv_fn) list" and z r
    unfolding list_unpackers by (intro tlv_loop_returns that forward_no_ve)
  ultimately show ?thesis
    by (intro conjI allI impI ret forward_harq_table forward_crc_table forward_rach_table forward_srs_table
        unpack_instance_end [OF forward_harq_table] unpack_instance_end [OF forward_crc_table]) auto
qed

text \<open>
  A message whose body holds only TLVs with unknown tags is dropped neither by the HARQ nor by the
  CRC nor by the RACH unpacker once there are four of them: the code -1 for too many unknown
  tags is an operand of \<^verbatim>\<open>&&\<close> and counts as true, so the empty message is accepted.
\<close>

theorem unknown_tags_accepted:
  assumes r: "rbuf_ok r" "rb_rest r = be16 sf @ concat (map (\<lambda>(t, bs). enc_tlv t bs) ts)"
    and ts: "\<And>t bs. (t, bs) \<in> set ts \<Longrightarrow> length bs < 2 ^ 16 \<and> t < 0x2000" and many: "3 < length ts"
  shows "unpack_harq_indication alloc_ok cb m r = Some (m\<lparr>ind_sfn_sf := sf\<rparr>) \<and>
    unpack_crc_indication alloc_ok cb1 m1 r = Some (m1\<lparr>ind_sfn_sf := sf\<rparr>) \<and>
    unpack_rach_indication alloc_ok cb2 m2 r = Some (m2\<lparr>ind_sfn_sf := sf\<rparr>)"
proof -
  have t: "length bs < 2 ^ 16 \<and> t \<noteq> tag \<and> t < NFAPI_VENDOR_EXTENSION_MIN_TAG_VALUE"
    if "(t, bs) \<in> set ts" "0x2000 \<le> tag" for t bs and tag :: u16
  proof -
    have "t < 0x2000" "length bs < 2 ^ 16" using ts [OF that(1)] by simp_all
    moreover have "t < 0xF000" using \<open>t < 0x2000\<close> by (rule order.strict_trans2) simp
    ultimately show ?thesis using that(2) by (auto simp: NFAPI_VENDOR_EXTENSION_MIN_TAG_VALUE_def)
  qed
  show ?thesis
    unfolding indication_defs
    by (intro conjI unpack_indication_bad_tags [OF r _ many] t)
       (simp_all add: NFAPI_HARQ_INDICATION_BODY_TAG_def NFAPI_CRC_INDICATION_BODY_TAG_def NFAPI_RACH_INDICATION_BODY_TAG_def)
qed

theorem unknown_tags_accepted_witness:
  "unpack_crc_indication True None example_crc (rb_of [0, 7, 0, 1, 0, 0, 0, 1, 0, 0, 0, 1, 0, 0, 0, 1, 0, 0])
    = Some (example_crc\<lparr>ind_sfn_sf := 7\<rparr>)"
proof -
  have "concat (map (\<lambda>(t, bs). enc_tlv t bs) (replicate 4 (1 :: u16, []))) = [0, 1, 0, 0, 0, 1, 0, 0, 0, 1, 0, 0, 0, 1, 0, 0]"
    "be16 7 = [0, 7]"
    by code_simp+
  then show ?thesis
    using unknown_tags_accepted [of "rb_of [0, 7, 0, 1, 0, 0, 0, 1, 0, 0, 0, 1, 0, 0, 0, 1, 0, 0]" 7 "replicate 4 (1, [])"
        True None example_harq None example_crc None example_rach]
    by simp
qed

theorem instance_length_unchecked_witness:
  "\<exists>p r'. unpack_instance crc_table zero_crc_tlvs
      \<lparr>rb_mem = [0, 5, 0x20, 0x2C, 0, 1, 99], rb_pos = 0, rb_end = 2\<rparr> = Some (p, r') \<and>
    2 + unat (instance_length p) \<le> rb_pos r' \<and> rb_end r' < rb_pos r'"
proof -
  obtain p r' where u: "unpack_instance crc_table zero_crc_tlvs
      \<lparr>rb_mem = [0, 5, 0x20, 0x2C, 0, 1, 99], rb_pos = 0, rb_end = 2\<rparr> = Some (p, r')" "rb_end r' < rb_pos r'"
    using instance_length_unchecked by blast
  have "\<forall>r p r'. unpack_instance crc_table zero_crc_tlvs r = Some (p, r') \<longrightarrow>
      rb_pos r + 2 + unat (instance_length p) \<le> rb_pos r'"
    using instance_length_unchecked by blast
  from this [rule_format, OF u(1)] show ?thesis using u by auto
qed

end
