(* ===== verification/P7_Rx.thy ===== *)
theory P7_Rx
  imports P7_Indications
begin

text \<open>
  The RX (ULSCH) and CQI indications of \<^verbatim>\<open>nfapi_p7.c\<close>.  Unlike the other indications they carry
  raw data behind the TLVs of all PDUs; the packers compute the offset of each PDU's data
  when it is preset to 1.  The RX unpacker expects the three TLVs of a PDU in a fixed order.
  Arrays of a structure are lists of their full length.
\<close>

section \<open>Structures\<close>

definition NFAPI_RX_INDICATION_REL8_TAG :: u16 where "NFAPI_RX_INDICATION_REL8_TAG = 0x2024"
definition NFAPI_RX_INDICATION_REL9_TAG :: u16 where "NFAPI_RX_INDICATION_REL9_TAG = 0x2025"
definition NFAPI_RX_INDICATION_BODY_TAG :: u16 where "NFAPI_RX_INDICATION_BODY_TAG = 0x2023"
definition NFAPI_RX_IND_MAX_PDU :: nat where "NFAPI_RX_IND_MAX_PDU = 100"
definition RX_IND_DATA_MAX :: nat where "RX_IND_DATA_MAX = 8192"

record rx_indication_rel8 =
  rx_length :: u16
  rx_offset :: u16
  rx_ul_cqi :: u8
  rx_timing_advance :: u16

record rx_indication_rel9 =
  rx_timing_advance_r9 :: u16

record rx_pdu =
  rx_rx_ue_information :: "rx_ue_information tlv"
  rx_rel8_tlv :: "rx_indication_rel8 tlv"
  rx_rel9_tlv :: "rx_indication_rel9 tlv"
  rx_ind_data :: "u8 list"

definition pack_rx_indication_rel8_value :: "rx_indication_rel8 \<Rightarrow> wbuf \<Rightarrow> wbuf option" where
  "pack_rx_indication_rel8_value v w =
     push16 (rx_length v) w \<bind> (\<lambda>w. push16 (rx_offset v) w \<bind> (\<lambda>w. push8 (rx_ul_cqi v) w \<bind>
     push16 (rx_timing_advance v)))"

definition unpack_rx_indication_rel8_value :: "rbuf \<Rightarrow> (rx_indication_rel8 \<times> rbuf) option" where
  "unpack_rx_indication_rel8_value r =
     pull16 r \<bind> (\<lambda>(a, r). pull16 r \<bind> (\<lambda>(b, r). pull8 r \<bind> (\<lambda>(c, r). pull16 r \<bind> (\<lambda>(d, r).
     Some (\<lparr>rx_length = a, rx_offset = b, rx_ul_cqi = c, rx_timing_advance = d\<rparr>, r)))))"

definition pack_rx_indication_rel9_value :: "rx_indication_rel9 \<Rightarrow> wbuf \<Rightarrow> wbuf option" where
  "pack_rx_indication_rel9_value v = push16 (rx_timing_advance_r9 v)"

definition unpack_rx_indication_rel9_value :: "rbuf \<Rightarrow> (rx_indication_rel9 \<times> rbuf) option" where
  "unpack_rx_indication_rel9_value r =
     pull16 r \<bind> (\<lambda>(a, r). Some (\<lparr>rx_timing_advance_r9 = a\<rparr>, r))"

section \<open>Packing the RX body\<close>

definition rx_pdu_size :: "rx_pdu \<Rightarrow> u16" where
  "rx_pdu_size p =
     (if tl_tag (tlv_hdr (rx_rx_ue_information p)) = NFAPI_RX_UE_INFORMATION_TAG then 4 + 6 else 0) +
     (if tl_tag (tlv_hdr (rx_rel8_tlv p)) = NFAPI_RX_INDICATION_REL8_TAG then 4 + 7 else 0) +
     (if tl_tag (tlv_hdr (rx_rel9_tlv p)) = NFAPI_RX_INDICATION_REL9_TAG then 4 + 2 else 0)"

fun set_rx_offsets :: "u16 \<Rightarrow> rx_pdu list \<Rightarrow> rx_pdu list" where
  "set_rx_offsets offset [] = []"
| "set_rx_offsets offset (p # ps) =
     (let v = tlv_val (rx_rel8_tlv p) in
      if tl_tag (tlv_hdr (rx_rel8_tlv p)) = NFAPI_RX_INDICATION_REL8_TAG \<and> rx_offset v = 1
      then p\<lparr>rx_rel8_tlv := (rx_rel8_tlv p)\<lparr>tlv_val := v\<lparr>rx_offset := offset\<rparr>\<rparr>\<rparr> # set_rx_offsets (offset + rx_length v) ps
      else p # set_rx_offsets offset ps)"

definition pack_rx_pdu :: "rx_pdu \<Rightarrow> wbuf \<Rightarrow> wbuf option" where
  "pack_rx_pdu p w =
     pack_member NFAPI_RX_UE_INFORMATION_TAG pack_rx_ue_information_value (rx_rx_ue_information p) w \<bind> (\<lambda>w.
     pack_member NFAPI_RX_INDICATION_REL8_TAG pack_rx_indication_rel8_value (rx_rel8_tlv p) w \<bind>
     pack_member NFAPI_RX_INDICATION_REL9_TAG pack_rx_indication_rel9_value (rx_rel9_tlv p))"

definition push_rx_data :: "rx_pdu \<Rightarrow> wbuf \<Rightarrow> wbuf option" where
  "push_rx_data p =
     pusharray8 (rx_ind_data p) (of_nat RX_IND_DATA_MAX)
       (if tl_tag (tlv_hdr (rx_rel8_tlv p)) = NFAPI_RX_INDICATION_REL8_TAG
        then ucast (rx_length (tlv_val (rx_rel8_tlv p))) else 0)"

text \<open>The failed assertion on the count is \<open>None\<close>.\<close>

definition pack_rx_ulsch_indication_body_value :: "(u16, rx_pdu) pdu_list \<Rightarrow> wbuf \<Rightarrow> wbuf option" where
  "pack_rx_ulsch_indication_body_value v w =
     push16 (number_of_pdus v) w \<bind> (\<lambda>w.
       if NFAPI_RX_IND_MAX_PDU < unat (number_of_pdus v) then None
       else let ps = take (unat (number_of_pdus v)) (pdus v);
                ps' = set_rx_offsets (2 + sum_list (map rx_pdu_size ps)) ps
            in push_all pack_rx_pdu ps' w \<bind> push_all push_rx_data ps')"

definition pack_rx_ulsch_indication :: "(wbuf \<Rightarrow> wbuf option) option \<Rightarrow> (u16, rx_pdu) pdu_list indication \<Rightarrow> wbuf \<Rightarrow> wbuf option" where
  "pack_rx_ulsch_indication = pack_indication NFAPI_RX_INDICATION_BODY_TAG pack_rx_ulsch_indication_body_value"

section \<open>Unpacking the RX body\<close>

text \<open>A TLV that must have the tag that is expected here.\<close>

definition unpack_tagged :: "u16 \<Rightarrow> (rbuf \<Rightarrow> ('a \<times> rbuf) option) \<Rightarrow> rbuf \<Rightarrow> ('a tlv \<times> rbuf) option" where
  "unpack_tagged tag unpack_value r =
     unpack_tl r \<bind> (\<lambda>(t, r).
       if tl_tag t \<noteq> tag then None
       else unpack_value r \<bind> (\<lambda>(v, r). Some (\<lparr>tlv_hdr = t, tlv_val = v\<rparr>, r)))"

definition unpack_rx_pdu :: "rbuf \<Rightarrow> (rx_pdu \<times> rbuf) option" where
  "unpack_rx_pdu r =
     unpack_tagged NFAPI_RX_UE_INFORMATION_TAG unpack_rx_ue_information_value r \<bind> (\<lambda>(a, r).
     unpack_tagged NFAPI_RX_INDICATION_REL8_TAG unpack_rx_indication_rel8_value r \<bind> (\<lambda>(b, r).
     unpack_tagged NFAPI_RX_INDICATION_REL9_TAG unpack_rx_indication_rel9_value r \<bind> (\<lambda>(c, r).
     Some (\<lparr>rx_rx_ue_information = a, rx_rel8_tlv = b, rx_rel9_tlv = c, rx_ind_data = replicate RX_IND_DATA_MAX 0\<rparr>, r))))"

definition pull_rx_data :: "rx_pdu \<Rightarrow> rbuf \<Rightarrow> (rx_pdu \<times> rbuf) option" where
  "pull_rx_data p r =
     (if tl_tag (tlv_hdr (rx_rel8_tlv p)) = NFAPI_RX_INDICATION_REL8_TAG
      then pullarray8 (of_nat RX_IND_DATA_MAX) (ucast (rx_length (tlv_val (rx_rel8_tlv p)))) r \<bind> (\<lambda>(bs, r).
           Some (p\<lparr>rx_ind_data := upd_at 0 bs (rx_ind_data p)\<rparr>, r))
      else Some (p, r))"

fun pull_each :: "('a \<Rightarrow> rbuf \<Rightarrow> ('a \<times> rbuf) option) \<Rightarrow> 'a list \<Rightarrow> rbuf \<Rightarrow> ('a list \<times> rbuf) option" where
  "pull_each g [] r = Some ([], r)"
| "pull_each g (x # xs) r = g x r \<bind> (\<lambda>(y, r). pull_each g xs r \<bind> (\<lambda>(ys, r). Some (y # ys, r)))"

definition unpack_rx_indication_body_value :: "bool \<Rightarrow> tl \<Rightarrow> rbuf \<Rightarrow> ((u16, rx_pdu) pdu_list \<times> rbuf) option" where
  "unpack_rx_indication_body_value alloc_ok t r =
     (if rb_end r < rb_pos r + unat (tl_length t) then None
      else pull16 r \<bind> (\<lambda>(n, r).
        if NFAPI_RX_IND_MAX_PDU < unat n then None
        else if \<not> alloc_if_any alloc_ok (unat n) then None
        else pull_n unpack_rx_pdu (unat n) r \<bind> (\<lambda>(ps, r).
             pull_each pull_rx_data ps r \<bind> (\<lambda>(ps', r).
             Some (\<lparr>number_of_pdus = n, pdus = ps'\<rparr>, r)))))"

definition unpack_rx_indication :: "bool \<Rightarrow> (u16, rx_pdu) pdu_list indication ve_fn option
  \<Rightarrow> (u16, rx_pdu) pdu_list indication \<Rightarrow> rbuf \<Rightarrow> (u16, rx_pdu) pdu_list indication option" where
  "unpack_rx_indication alloc_ok = unpack_indication NFAPI_RX_INDICATION_BODY_TAG (unpack_rx_indication_body_value alloc_ok)"

section \<open>Laws\<close>

definition enc_rx_rel8 :: "rx_indication_rel8 \<Rightarrow> u8 list" where
  "enc_rx_rel8 v = be16 (rx_length v) @ be16 (rx_offset v) @ [rx_ul_cqi v] @ be16 (rx_timing_advance v)"

definition enc_rx_rel9 :: "rx_indication_rel9 \<Rightarrow> u8 list" where
  "enc_rx_rel9 v = be16 (rx_timing_advance_r9 v)"

lemma writes_rx_rel8 [writes_intro]: "writes (pack_rx_indication_rel8_value v) (enc_rx_rel8 v)"
  unfolding pack_rx_indication_rel8_value_def [abs_def] enc_rx_rel8_def by (intro writes_intro)

lemma writes_rx_rel9 [writes_intro]: "writes (pack_rx_indication_rel9_value v) (enc_rx_rel9 v)"
  unfolding pack_rx_indication_rel9_value_def [abs_def] enc_rx_rel9_def by (intro writes_intro)

lemma reads_rx_rel8 [reads_intro]: "reads unpack_rx_indication_rel8_value v (enc_rx_rel8 v)"
  unfolding unpack_rx_indication_rel8_value_def [abs_def] enc_rx_rel8_def
  by (rule reads_cong, (rule reads_intro)+) (auto intro: rx_indication_rel8.equality)

lemma reads_rx_rel9 [reads_intro]: "reads unpack_rx_indication_rel9_value v (enc_rx_rel9 v)"
  unfolding unpack_rx_indication_rel9_value_def [abs_def] enc_rx_rel9_def
  by (rule reads_cong, (rule reads_intro)+) (auto intro: rx_indication_rel9.equality)

lemma rx_value_lengths [simp]:
  "length (enc_rx_ue_information a) = 6" "length (enc_rx_rel8 b) = 7" "length (enc_rx_rel9 c) = 2"
  by (simp_all add: enc_rx_ue_information_def enc_rx_rel8_def enc_rx_rel9_def)

lemma reads_unpack_tagged:
  assumes "reads g v bs"
  shows "reads (unpack_tagged tag g) \<lparr>tlv_hdr = \<lparr>tl_tag = tag, tl_length = of_nat (length bs)\<rparr>, tlv_val = v\<rparr> (enc_tlv tag bs)"
proof -
  have "reads (\<lambda>r. g r \<bind> (\<lambda>(v, r). Some (\<lparr>tlv_hdr = \<lparr>tl_tag = tag, tl_length = of_nat (length bs)\<rparr>, tlv_val = v\<rparr>, r)))
      \<lparr>tlv_hdr = \<lparr>tl_tag = tag, tl_length = of_nat (length bs)\<rparr>, tlv_val = v\<rparr> (bs @ [])"
    by (rule reads_bind [OF assms reads_return])
  then have "reads (\<lambda>r. unpack_tl r \<bind> (\<lambda>(t, r). if tl_tag t \<noteq> tag then None
         else g r \<bind> (\<lambda>(v, r). Some (\<lparr>tlv_hdr = t, tlv_val = v\<rparr>, r))))
      \<lparr>tlv_hdr = \<lparr>tl_tag = tag, tl_length = of_nat (length bs)\<rparr>, tlv_val = v\<rparr>
      (enc_tl \<lparr>tl_tag = tag, tl_length = of_nat (length bs)\<rparr> @ bs)"
    by (intro reads_bind [OF reads_unpack_tl]) simp
  then show ?thesis by (simp add: unpack_tagged_def [abs_def] enc_tlv_def)
qed

text \<open>A PDU as the unpacker expects it: all three TLVs, data within the array.\<close>

definition full_rx_pdu :: "rx_pdu \<Rightarrow> bool" where
  "full_rx_pdu p \<longleftrightarrow>
     tl_tag (tlv_hdr (rx_rx_ue_information p)) = NFAPI_RX_UE_INFORMATION_TAG \<and>
     tl_tag (tlv_hdr (rx_rel8_tlv p)) = NFAPI_RX_INDICATION_REL8_TAG \<and>
     tl_tag (tlv_hdr (rx_rel9_tlv p)) = NFAPI_RX_INDICATION_REL9_TAG \<and>
     length (rx_ind_data p) = RX_IND_DATA_MAX \<and>
     unat (rx_length (tlv_val (rx_rel8_tlv p))) \<le> RX_IND_DATA_MAX"

definition rx_data :: "rx_pdu \<Rightarrow> u8 list" where
  "rx_data p = take (unat (rx_length (tlv_val (rx_rel8_tlv p)))) (rx_ind_data p)"

definition rx_pdu_bytes :: "rx_pdu \<Rightarrow> u8 list" where
  "rx_pdu_bytes p = enc_tlv NFAPI_RX_UE_INFORMATION_TAG (enc_rx_ue_information (tlv_val (rx_rx_ue_information p))) @
     enc_tlv NFAPI_RX_INDICATION_REL8_TAG (enc_rx_rel8 (tlv_val (rx_rel8_tlv p))) @
     enc_tlv NFAPI_RX_INDICATION_REL9_TAG (enc_rx_rel9 (tlv_val (rx_rel9_tlv p)))"

definition got_rx_tlvs :: "rx_pdu \<Rightarrow> rx_pdu" where
  "got_rx_tlvs p = \<lparr>
     rx_rx_ue_information = \<lparr>tlv_hdr = \<lparr>tl_tag = NFAPI_RX_UE_INFORMATION_TAG, tl_length = 6\<rparr>, tlv_val = tlv_val (rx_rx_ue_information p)\<rparr>,
     rx_rel8_tlv = \<lparr>tlv_hdr = \<lparr>tl_tag = NFAPI_RX_INDICATION_REL8_TAG, tl_length = 7\<rparr>, tlv_val = tlv_val (rx_rel8_tlv p)\<rparr>,
     rx_rel9_tlv = \<lparr>tlv_hdr = \<lparr>tl_tag = NFAPI_RX_INDICATION_REL9_TAG, tl_length = 2\<rparr>, tlv_val = tlv_val (rx_rel9_tlv p)\<rparr>,
     rx_ind_data = replicate RX_IND_DATA_MAX 0\<rparr>"

definition got_rx_pdu :: "rx_pdu \<Rightarrow> rx_pdu" where
  "got_rx_pdu p = (got_rx_tlvs p)\<lparr>rx_ind_data := rx_data p @ replicate (RX_IND_DATA_MAX - length (rx_data p)) 0\<rparr>"

text \<open>The PDUs with the offsets the packer gives them.\<close>

definition placed_rx_pdus :: "(u16, rx_pdu) pdu_list \<Rightarrow> rx_pdu list" where
  "placed_rx_pdus v = (let ps = take (unat (number_of_pdus v)) (pdus v)
     in set_rx_offsets (2 + sum_list (map rx_pdu_size ps)) ps)"

definition enc_rx_body :: "(u16, rx_pdu) pdu_list \<Rightarrow> u8 list" where
  "enc_rx_body v = be16 (number_of_pdus v) @ concat (map rx_pdu_bytes (placed_rx_pdus v)) @ concat (map rx_data (placed_rx_pdus v))"

definition got_rx_body :: "(u16, rx_pdu) pdu_list \<Rightarrow> (u16, rx_pdu) pdu_list" where
  "got_rx_body v = \<lparr>number_of_pdus = number_of_pdus v, pdus = map got_rx_pdu (placed_rx_pdus v)\<rparr>"

definition valid_rx_body :: "(u16, rx_pdu) pdu_list \<Rightarrow> bool" where
  "valid_rx_body v \<longleftrightarrow> unat (number_of_pdus v) \<le> NFAPI_RX_IND_MAX_PDU \<and> unat (number_of_pdus v) \<le> length (pdus v) \<and>
     (\<forall>p \<in> set (pdus v). full_rx_pdu p) \<and> length (enc_rx_body v) < 2 ^ 16"

lemma set_offset_keeps:
  "full_rx_pdu (p\<lparr>rx_rel8_tlv := (rx_rel8_tlv p)\<lparr>tlv_val := (tlv_val (rx_rel8_tlv p))\<lparr>rx_offset := off\<rparr>\<rparr>\<rparr>) = full_rx_pdu p"
  "rx_data (p\<lparr>rx_rel8_tlv := (rx_rel8_tlv p)\<lparr>tlv_val := (tlv_val (rx_rel8_tlv p))\<lparr>rx_offset := off\<rparr>\<rparr>\<rparr>) = rx_data p"
  by (simp_all add: full_rx_pdu_def rx_data_def)

lemma set_rx_offsets_full:
  "(\<forall>p \<in> set (set_rx_offsets off ps). full_rx_pdu p) \<longleftrightarrow> (\<forall>p \<in> set ps. full_rx_pdu p)"
  "length (set_rx_offsets off ps) = length ps" "map rx_data (set_rx_offsets off ps) = map rx_data ps"
  by (induction ps arbitrary: off) (simp_all add: Let_def set_offset_keeps)

lemma placed_rx_full:
  assumes "valid_rx_body v"
  shows "\<forall>p \<in> set (placed_rx_pdus v). full_rx_pdu p" "length (placed_rx_pdus v) = unat (number_of_pdus v)"
proof -
  have "\<forall>p \<in> set (take (unat (number_of_pdus v)) (pdus v)). full_rx_pdu p"
    using assms by (auto simp: valid_rx_body_def dest: in_set_takeD)
  then show "\<forall>p \<in> set (placed_rx_pdus v). full_rx_pdu p" "length (placed_rx_pdus v) = unat (number_of_pdus v)"
    using assms by (simp_all add: placed_rx_pdus_def Let_def valid_rx_body_def set_rx_offsets_full)
qed

lemma writes_rx_pdu: "full_rx_pdu p \<Longrightarrow> writes (pack_rx_pdu p) (rx_pdu_bytes p)"
proof -
  assume f: "full_rx_pdu p"
  have "writes (pack_rx_pdu p)
     (member_bytes NFAPI_RX_UE_INFORMATION_TAG enc_rx_ue_information (rx_rx_ue_information p) @
      member_bytes NFAPI_RX_INDICATION_REL8_TAG enc_rx_rel8 (rx_rel8_tlv p) @
      member_bytes NFAPI_RX_INDICATION_REL9_TAG enc_rx_rel9 (rx_rel9_tlv p))"
    unfolding pack_rx_pdu_def [abs_def] by (intro writes_intro)
  then show ?thesis using f by (simp add: full_rx_pdu_def member_bytes_def rx_pdu_bytes_def)
qed

lemma rx_len_u32:
  assumes "full_rx_pdu p"
  shows "unat (ucast (rx_length (tlv_val (rx_rel8_tlv p))) :: u32) = unat (rx_length (tlv_val (rx_rel8_tlv p)))"
    "(ucast (rx_length (tlv_val (rx_rel8_tlv p))) :: u32) \<le> of_nat RX_IND_DATA_MAX"
    "length (rx_data p) = unat (rx_length (tlv_val (rx_rel8_tlv p)))"
  using assms by (simp_all add: full_rx_pdu_def word_le_nat_alt RX_IND_DATA_MAX_def rx_data_def)

lemma writes_rx_data: "full_rx_pdu p \<Longrightarrow> writes (push_rx_data p) (rx_data p)"
proof -
  assume f: "full_rx_pdu p"
  have "array_fits (ucast (rx_length (tlv_val (rx_rel8_tlv p)))) (of_nat RX_IND_DATA_MAX) (rx_ind_data p)"
    using f rx_len_u32 [OF f] by (simp add: array_fits_def full_rx_pdu_def)
  from writes_pusharray8 [OF this] show ?thesis
    using f rx_len_u32(1) [OF f] by (simp add: push_rx_data_def [abs_def] rx_data_def full_rx_pdu_def)
qed

lemma writes_rx_body:
  assumes v: "valid_rx_body v"
  shows "writes (pack_rx_ulsch_indication_body_value v) (enc_rx_body v)"
proof -
  have "writes (\<lambda>w. push16 (number_of_pdus v) w \<bind> (\<lambda>w. push_all pack_rx_pdu (placed_rx_pdus v) w \<bind>
      push_all push_rx_data (placed_rx_pdus v))) (enc_rx_body v)"
    unfolding enc_rx_body_def using placed_rx_full(1) [OF v]
    by (intro writes_bind writes_push16 writes_push_all_of writes_rx_pdu writes_rx_data) auto
  moreover have "\<not> NFAPI_RX_IND_MAX_PDU < unat (number_of_pdus v)" using v by (simp add: valid_rx_body_def)
  ultimately show ?thesis
    by (simp add: pack_rx_ulsch_indication_body_value_def [abs_def] placed_rx_pdus_def Let_def)
qed

lemma reads_rx_pdu: "reads unpack_rx_pdu (got_rx_tlvs p) (rx_pdu_bytes p)"
  unfolding unpack_rx_pdu_def [abs_def] rx_pdu_bytes_def
  by (rule reads_cong, (rule reads_bind reads_unpack_tagged reads_unpack_rx_ue_information_value reads_rx_rel8
        reads_rx_rel9 reads_return)+) (auto simp: got_rx_tlvs_def)

lemma reads_rx_data: "full_rx_pdu p \<Longrightarrow> reads (pull_rx_data (got_rx_tlvs p)) (got_rx_pdu p) (rx_data p)"
proof -
  assume f: "full_rx_pdu p"
  note l = rx_len_u32 [OF f]
  have "length (rx_data p) = unat (ucast (rx_length (tlv_val (rx_rel8_tlv p))) :: u32)" using l(1,3) by simp
  from reads_bind [OF reads_pullarray8 [OF this l(2)] reads_return]
  have "reads (\<lambda>r. pullarray8 (of_nat RX_IND_DATA_MAX) (ucast (rx_length (tlv_val (rx_rel8_tlv p)))) r \<bind> (\<lambda>(bs, r).
      Some ((got_rx_tlvs p)\<lparr>rx_ind_data := upd_at 0 bs (rx_ind_data (got_rx_tlvs p))\<rparr>, r)))
     ((got_rx_tlvs p)\<lparr>rx_ind_data := upd_at 0 (rx_data p) (rx_ind_data (got_rx_tlvs p))\<rparr>) (rx_data p @ [])" .
  then show ?thesis
    by (simp add: pull_rx_data_def [abs_def] got_rx_tlvs_def got_rx_pdu_def upd_at_def)
qed

lemma pull_each_eta:
  "pull_each g [] = (\<lambda>r. Some ([], r))"
  "pull_each g (x # xs) = (\<lambda>r. g x r \<bind> (\<lambda>(y, r). pull_each g xs r \<bind> (\<lambda>(ys, r). Some (y # ys, r))))"
  by (simp_all add: fun_eq_iff)

lemma reads_pull_each:
  "(\<And>x. x \<in> set xs \<Longrightarrow> reads (g (f x)) (h x) (enc x)) \<Longrightarrow>
   reads (pull_each g (map f xs)) (map h xs) (concat (map enc xs))"
proof (induction xs)
  case Nil
  show ?case by (simp add: pull_each_eta reads_return)
next
  case (Cons x xs)
  have IH: "reads (pull_each g (map f xs)) (map h xs) (concat (map enc xs))" using Cons by simp
  have "reads (\<lambda>r. pull_each g (map f xs) r \<bind> (\<lambda>(ys, r). Some (h x # ys, r))) (h x # map h xs) (concat (map enc xs) @ [])"
    by (rule reads_bind [OF IH reads_return])
  then have "reads (pull_each g (f x # map f xs)) (h x # map h xs) (enc x @ concat (map enc xs) @ [])"
    unfolding pull_each_eta by (rule reads_bind [OF Cons.prems [OF list.set_intros(1)]])
  then show ?case unfolding list.map concat.simps append_Nil2 .
qed

lemma reads_rx_body:
  assumes v: "valid_rx_body v"
  shows "reads (unpack_rx_indication_body_value True \<lparr>tl_tag = tag, tl_length = of_nat (length (enc_rx_body v))\<rparr>)
    (got_rx_body v) (enc_rx_body v)"
proof (rule readsI)
  fix r rest assume r: "rbuf_ok r" and rest: "rb_rest r = enc_rx_body v @ rest"
  let ?ps = "placed_rx_pdus v"
  have n: "unat (number_of_pdus v) = length ?ps" and full: "\<forall>p \<in> set ?ps. full_rx_pdu p"
    using placed_rx_full [OF v] by auto
  have pdus: "reads (pull_n unpack_rx_pdu (length ?ps)) (map got_rx_tlvs ?ps) (concat (map rx_pdu_bytes ?ps))"
    by (rule reads_pull_n_of) (rule reads_rx_pdu)
  have data: "reads (pull_each pull_rx_data (map got_rx_tlvs ?ps)) (map got_rx_pdu ?ps) (concat (map rx_data ?ps))"
    by (rule reads_pull_each) (use full in \<open>simp add: reads_rx_data\<close>)
  have "reads (\<lambda>r. pull_n unpack_rx_pdu (length ?ps) r \<bind> (\<lambda>(ps, r). pull_each pull_rx_data ps r \<bind> (\<lambda>(ps', r).
      Some (\<lparr>number_of_pdus = number_of_pdus v, pdus = ps'\<rparr>, r)))) (got_rx_body v)
      (concat (map rx_pdu_bytes ?ps) @ concat (map rx_data ?ps) @ [])"
    unfolding got_rx_body_def by (intro reads_bind [OF pdus] reads_bind [OF data] reads_return)
  moreover have small: "length (enc_rx_body v) < 2 ^ 16" "\<not> NFAPI_RX_IND_MAX_PDU < length ?ps"
    using v n by (simp_all add: valid_rx_body_def)
  moreover have len: "unat (of_nat (length (enc_rx_body v)) :: u16) = length (enc_rx_body v)"
    using small(1) by (intro unat_of_length) simp
  moreover have "\<not> rb_end r < rb_pos r + length (enc_rx_body v)"
    using rb_rest_room [OF r rest] r unfolding rbuf_ok_def by linarith
  moreover have rest': "rb_rest r = be16 (number_of_pdus v) @ (concat (map rx_pdu_bytes ?ps) @ concat (map rx_data ?ps) @ []) @ rest"
    using rest by (simp add: enc_rx_body_def)
  moreover have "rbuf_ok (rb_adv 2 r)" using length_rb_rest [OF r] rest' r by (simp add: rbuf_ok_adv)
  moreover have "rb_rest (rb_adv 2 r) = (concat (map rx_pdu_bytes ?ps) @ concat (map rx_data ?ps) @ []) @ rest"
    by (simp add: rb_rest_adv rest')
  ultimately have "pull_n unpack_rx_pdu (length ?ps) (rb_adv 2 r) \<bind> (\<lambda>(ps, r). pull_each pull_rx_data ps r \<bind> (\<lambda>(ps', r).
      Some (\<lparr>number_of_pdus = number_of_pdus v, pdus = ps'\<rparr>, r))) = Some (got_rx_body v, rb_adv (length (enc_rx_body v)) r)"
    "pull16 r = Some (number_of_pdus v, rb_adv 2 r)"
    using readsD [of _ "got_rx_body v" _ "rb_adv 2 r" rest] readsD [OF reads_pull16 r rest']
    by (fastforce simp: enc_rx_body_def)+
  then show "unpack_rx_indication_body_value True \<lparr>tl_tag = tag, tl_length = of_nat (length (enc_rx_body v))\<rparr> r =
      Some (got_rx_body v, rb_adv (length (enc_rx_body v)) r)"
    using small len rb_rest_room [OF r rest] r
    by (auto simp: unpack_rx_indication_body_value_def n alloc_if_any_def rbuf_ok_def)
qed

interpretation rx: body_codec pack_rx_ulsch_indication_body_value "unpack_rx_indication_body_value True" enc_rx_body
  got_rx_body valid_rx_body NFAPI_RX_INDICATION_BODY_TAG
  by (intro body_codec.intro writes_rx_body reads_rx_body) (simp_all add: valid_rx_body_def)

section \<open>Where the data is\<close>

lemma unat_of_nat_u16: "k < 2 ^ 16 \<Longrightarrow> unat (of_nat k :: u16) = k"
  by (simp add: unsigned_of_nat take_bit_nat_eq_self)

lemma set_rx_offsets_nth:
  "\<forall>p \<in> set ps. full_rx_pdu p \<and> rx_offset (tlv_val (rx_rel8_tlv p)) = 1 \<Longrightarrow> i < length ps \<Longrightarrow>
   rx_offset (tlv_val (rx_rel8_tlv (set_rx_offsets off ps ! i))) = off + of_nat (length (concat (map rx_data (take i ps))))"
proof (induction ps arbitrary: off i)
  case (Cons p ps)
  have f: "full_rx_pdu p" "rx_offset (tlv_val (rx_rel8_tlv p)) = 1" using Cons.prems(1) by simp_all
  have l: "of_nat (length (rx_data p)) = rx_length (tlv_val (rx_rel8_tlv p))"
    using rx_len_u32(3) [OF f(1)] by simp
  show ?case
  proof (cases i)
    case 0
    then show ?thesis using f by (simp add: full_rx_pdu_def Let_def)
  next
    case (Suc j)
    then show ?thesis
      using Cons.IH [of j "off + rx_length (tlv_val (rx_rel8_tlv p))"] Cons.prems f l
      by (simp add: full_rx_pdu_def Let_def add.assoc)
  qed
qed simp

lemma rx_pdu_sizes:
  "\<forall>p \<in> set ps. full_rx_pdu p \<Longrightarrow> sum_list (map rx_pdu_size ps) = of_nat (27 * length ps)"
  by (induction ps) (simp_all add: rx_pdu_size_def full_rx_pdu_def)

lemma length_rx_pdu_bytes: "length (concat (map rx_pdu_bytes ps)) = 27 * length ps"
  by (induction ps) (simp_all add: rx_pdu_bytes_def)

lemma take_drop_concat:
  assumes "i < length xs"
  shows "take (length (f (xs ! i))) (drop (length (concat (map f (take i xs)))) (concat (map f xs))) = f (xs ! i)"
proof -
  have "xs = take i xs @ xs ! i # drop (Suc i) xs" using assms by (simp add: id_take_nth_drop [symmetric])
  then have "concat (map f xs) = concat (map f (take i xs)) @ f (xs ! i) @ concat (map f (drop (Suc i) xs))"
    by (metis concat.simps(2) concat_append list.simps(9) map_append)
  then show ?thesis by simp
qed

lemma rx_data_at_offset:
  assumes v: "valid_rx_body v" and one: "\<forall>p \<in> set (pdus v). rx_offset (tlv_val (rx_rel8_tlv p)) = 1"
    and i: "i < unat (number_of_pdus v)"
  shows "take (length (rx_data (pdus v ! i)))
      (drop (unat (rx_offset (tlv_val (rx_rel8_tlv (placed_rx_pdus v ! i))))) (enc_rx_body v)) = rx_data (pdus v ! i)"
proof -
  let ?ps = "take (unat (number_of_pdus v)) (pdus v)"
  have full: "\<forall>p \<in> set ?ps. full_rx_pdu p \<and> rx_offset (tlv_val (rx_rel8_tlv p)) = 1"
    using v one by (auto simp: valid_rx_body_def dest: in_set_takeD)
  have len: "length ?ps = unat (number_of_pdus v)" "i < length ?ps" using v i by (simp_all add: valid_rx_body_def)
  let ?k = "length (concat (map rx_data (take i ?ps)))"
  have off: "rx_offset (tlv_val (rx_rel8_tlv (placed_rx_pdus v ! i))) = of_nat (2 + 27 * length ?ps + ?k)"
    using set_rx_offsets_nth [OF full len(2)] rx_pdu_sizes [of ?ps] full by (simp add: placed_rx_pdus_def Let_def)
  have data: "map rx_data (placed_rx_pdus v) = map rx_data ?ps"
    by (simp add: placed_rx_pdus_def Let_def set_rx_offsets_full)
  have n: "length (placed_rx_pdus v) = length ?ps" by (simp add: placed_rx_pdus_def Let_def set_rx_offsets_full)
  have "concat (map rx_data ?ps) = concat (map rx_data (take i ?ps)) @ concat (map rx_data (drop i ?ps))"
    by (metis append_take_drop_id concat_append map_append)
  then have k: "?k \<le> length (concat (map rx_data ?ps))" by (metis le_add1 length_append)
  have enc: "enc_rx_body v = (be16 (number_of_pdus v) @ concat (map rx_pdu_bytes (placed_rx_pdus v))) @ concat (map rx_data ?ps)"
    by (simp add: enc_rx_body_def data)
  have hd: "length (be16 (number_of_pdus v) @ concat (map rx_pdu_bytes (placed_rx_pdus v))) = 2 + 27 * length ?ps"
    using length_rx_pdu_bytes [of "placed_rx_pdus v"] n by simp
  have "2 + 27 * length ?ps + ?k < 2 ^ 16"
    using v k hd unfolding valid_rx_body_def enc by (simp only: length_append) linarith
  then have un: "unat (of_nat (2 + 27 * length ?ps + ?k) :: u16) = 2 + 27 * length ?ps + ?k"
    by (rule unat_of_nat_u16)
  have "drop (length as + ?k) (as @ bs) = drop ?k bs" for as bs :: "u8 list" by simp
  from this [of "be16 (number_of_pdus v) @ concat (map rx_pdu_bytes (placed_rx_pdus v))" "concat (map rx_data ?ps)"]
  have "drop (2 + 27 * length ?ps + ?k) (enc_rx_body v) = drop ?k (concat (map rx_data ?ps))"
    unfolding hd enc .
  then show ?thesis
    using take_drop_concat [OF len(2), of rx_data] i unfolding off un by simp
qed

section \<open>CQI\<close>

definition NFAPI_CQI_INDICATION_REL8_TAG :: u16 where "NFAPI_CQI_INDICATION_REL8_TAG = 0x202F"
definition NFAPI_CQI_INDICATION_REL9_TAG :: u16 where "NFAPI_CQI_INDICATION_REL9_TAG = 0x2030"
definition NFAPI_CQI_INDICATION_BODY_TAG :: u16 where "NFAPI_CQI_INDICATION_BODY_TAG = 0x202E"
definition NFAPI_CC_MAX :: u32 where "NFAPI_CC_MAX = 4"
definition NFAPI_CQI_RAW_MAX_LEN :: u32 where "NFAPI_CQI_RAW_MAX_LEN = 12"
definition NFAPI_CQI_IND_MAX_PDU :: nat where "NFAPI_CQI_IND_MAX_PDU = 100"

record cqi_indication_rel8 =
  cqi8_length :: u16
  cqi8_data_offset :: u16
  cqi8_ul_cqi :: u8
  cqi8_ri :: u8
  cqi8_timing_advance :: u16

record cqi_indication_rel9 =
  cqi9_length :: u16
  cqi9_data_offset :: u16
  cqi9_ul_cqi :: u8
  number_of_cc_reported :: u8
  cqi9_ri :: "u8 list"
  cqi9_timing_advance :: u16
  cqi9_timing_advance_r9 :: u16

record cqi_tlvs =
  cqi_rx_ue_information :: "rx_ue_information tlv"
  cqi_rel8_tlv :: "cqi_indication_rel8 tlv"
  cqi_rel9_tlv :: "cqi_indication_rel9 tlv"
  cqi_ul_cqi_information :: "ul_cqi_information tlv"

text \<open>The lists of PDUs and of raw PDUs run in parallel; they are one list of pairs.\<close>

type_synonym cqi_body = "(u16, cqi_tlvs pdu \<times> u8 list) pdu_list"

definition pack_cqi_indication_rel8_value :: "cqi_indication_rel8 \<Rightarrow> wbuf \<Rightarrow> wbuf option" where
  "pack_cqi_indication_rel8_value v w =
     push16 (cqi8_length v) w \<bind> (\<lambda>w. push16 (cqi8_data_offset v) w \<bind> (\<lambda>w. push8 (cqi8_ul_cqi v) w \<bind>
     (\<lambda>w. push8 (cqi8_ri v) w \<bind> push16 (cqi8_timing_advance v))))"

definition pack_cqi_indication_rel9_value :: "cqi_indication_rel9 \<Rightarrow> wbuf \<Rightarrow> wbuf option" where
  "pack_cqi_indication_rel9_value v w =
     push16 (cqi9_length v) w \<bind> (\<lambda>w. push16 (cqi9_data_offset v) w \<bind> (\<lambda>w. push8 (cqi9_ul_cqi v) w \<bind>
     (\<lambda>w. push8 (number_of_cc_reported v) w \<bind>
     (\<lambda>w. pusharray8 (cqi9_ri v) NFAPI_CC_MAX (ucast (number_of_cc_reported v)) w \<bind>
     (\<lambda>w. push16 (cqi9_timing_advance v) w \<bind> push16 (cqi9_timing_advance_r9 v))))))"

definition unpack_cqi_indication_rel8_value :: "rbuf \<Rightarrow> (cqi_indication_rel8 \<times> rbuf) option" where
  "unpack_cqi_indication_rel8_value r =
     pull16 r \<bind> (\<lambda>(a, r). pull16 r \<bind> (\<lambda>(b, r). pull8 r \<bind> (\<lambda>(c, r). pull8 r \<bind> (\<lambda>(d, r). pull16 r \<bind> (\<lambda>(e, r).
     Some (\<lparr>cqi8_length = a, cqi8_data_offset = b, cqi8_ul_cqi = c, cqi8_ri = d, cqi8_timing_advance = e\<rparr>, r))))))"

definition unpack_cqi_indication_rel9_value :: "rbuf \<Rightarrow> (cqi_indication_rel9 \<times> rbuf) option" where
  "unpack_cqi_indication_rel9_value r =
     pull16 r \<bind> (\<lambda>(a, r). pull16 r \<bind> (\<lambda>(b, r). pull8 r \<bind> (\<lambda>(c, r). pull8 r \<bind> (\<lambda>(n, r).
     if NFAPI_CC_MAX < ucast n then None
     else pullarray8 NFAPI_CC_MAX (ucast n) r \<bind> (\<lambda>(ris, r). pull16 r \<bind> (\<lambda>(d, r). pull16 r \<bind> (\<lambda>(e, r).
     Some (\<lparr>cqi9_length = a, cqi9_data_offset = b, cqi9_ul_cqi = c, number_of_cc_reported = n,
            cqi9_ri = upd_at 0 ris (replicate 4 0), cqi9_timing_advance = d, cqi9_timing_advance_r9 = e\<rparr>, r))))))))"

definition zero_cqi_tlvs :: cqi_tlvs where
  "zero_cqi_tlvs = \<lparr>cqi_rx_ue_information = zero_tlv zero_rx_ue_information,
     cqi_rel8_tlv = zero_tlv \<lparr>cqi8_length = 0, cqi8_data_offset = 0, cqi8_ul_cqi = 0, cqi8_ri = 0, cqi8_timing_advance = 0\<rparr>,
     cqi_rel9_tlv = zero_tlv \<lparr>cqi9_length = 0, cqi9_data_offset = 0, cqi9_ul_cqi = 0, number_of_cc_reported = 0,
       cqi9_ri = replicate 4 0, cqi9_timing_advance = 0, cqi9_timing_advance_r9 = 0\<rparr>,
     cqi_ul_cqi_information = zero_tlv zero_ul_cqi_information\<rparr>"

definition has_rel8 :: "cqi_tlvs \<Rightarrow> bool" where
  "has_rel8 p \<longleftrightarrow> tl_tag (tlv_hdr (cqi_rel8_tlv p)) = NFAPI_CQI_INDICATION_REL8_TAG"

definition has_rel9 :: "cqi_tlvs \<Rightarrow> bool" where
  "has_rel9 p \<longleftrightarrow> tl_tag (tlv_hdr (cqi_rel9_tlv p)) = NFAPI_CQI_INDICATION_REL9_TAG"

definition cqi_pdu_size :: "cqi_tlvs \<Rightarrow> u16" where
  "cqi_pdu_size p = 2 +
     (if tl_tag (tlv_hdr (cqi_rx_ue_information p)) = NFAPI_RX_UE_INFORMATION_TAG then 4 + 6 else 0) +
     (if has_rel8 p then 4 + 8 else 0) +
     (if has_rel9 p then 4 + 10 + ucast (number_of_cc_reported (tlv_val (cqi_rel9_tlv p))) else 0) +
     (if tl_tag (tlv_hdr (cqi_ul_cqi_information p)) = NFAPI_UL_CQI_INFORMATION_TAG then 4 + 2 else 0)"

definition set_cqi8_offset :: "u16 \<Rightarrow> cqi_tlvs \<Rightarrow> cqi_tlvs \<times> u16" where
  "set_cqi8_offset offset p =
     (let v = tlv_val (cqi_rel8_tlv p) in
      if has_rel8 p \<and> cqi8_data_offset v = 1
      then (p\<lparr>cqi_rel8_tlv := (cqi_rel8_tlv p)\<lparr>tlv_val := v\<lparr>cqi8_data_offset := offset\<rparr>\<rparr>\<rparr>, offset + cqi8_length v)
      else (p, offset))"

definition set_cqi9_offset :: "u16 \<Rightarrow> cqi_tlvs \<Rightarrow> cqi_tlvs \<times> u16" where
  "set_cqi9_offset offset p =
     (let v = tlv_val (cqi_rel9_tlv p) in
      if has_rel9 p \<and> cqi9_data_offset v = 1
      then (p\<lparr>cqi_rel9_tlv := (cqi_rel9_tlv p)\<lparr>tlv_val := v\<lparr>cqi9_data_offset := offset\<rparr>\<rparr>\<rparr>, offset + cqi9_length v)
      else (p, offset))"

fun set_cqi_offsets :: "u16 \<Rightarrow> (cqi_tlvs pdu \<times> u8 list) list \<Rightarrow> (cqi_tlvs pdu \<times> u8 list) list" where
  "set_cqi_offsets offset [] = []"
| "set_cqi_offsets offset ((p, raw) # ps) =
     (case set_cqi8_offset offset (pdu_tlvs p) of (t, off) \<Rightarrow>
        (case set_cqi9_offset off t of (t', off') \<Rightarrow> (p\<lparr>pdu_tlvs := t'\<rparr>, raw) # set_cqi_offsets off' ps))"

definition pack_cqi_tlvs :: "cqi_tlvs \<Rightarrow> wbuf \<Rightarrow> wbuf option" where
  "pack_cqi_tlvs p w =
     pack_member NFAPI_RX_UE_INFORMATION_TAG pack_rx_ue_information_value (cqi_rx_ue_information p) w \<bind> (\<lambda>w.
     pack_member NFAPI_CQI_INDICATION_REL8_TAG pack_cqi_indication_rel8_value (cqi_rel8_tlv p) w \<bind> (\<lambda>w.
     pack_member NFAPI_CQI_INDICATION_REL9_TAG pack_cqi_indication_rel9_value (cqi_rel9_tlv p) w \<bind>
     pack_member NFAPI_UL_CQI_INFORMATION_TAG pack_ul_cqi_information_value (cqi_ul_cqi_information p)))"

text \<open>The length of the raw data that is written: the rel9 structure overrides the rel8 structure.\<close>

definition push_cqi_raw :: "cqi_tlvs pdu \<times> u8 list \<Rightarrow> wbuf \<Rightarrow> wbuf option" where
  "push_cqi_raw = (\<lambda>(p, raw).
     let t = pdu_tlvs p;
         len = (if has_rel8 t then cqi8_length (tlv_val (cqi_rel8_tlv t)) else 0);
         len' = (if has_rel9 t then cqi9_length (tlv_val (cqi_rel9_tlv t)) else len)
     in pusharray8 raw NFAPI_CQI_RAW_MAX_LEN (ucast len'))"

definition pack_cqi_indication_body_value :: "cqi_body \<Rightarrow> wbuf \<Rightarrow> wbuf option" where
  "pack_cqi_indication_body_value v w =
     push16 (number_of_pdus v) w \<bind> (\<lambda>w.
       if NFAPI_CQI_IND_MAX_PDU < unat (number_of_pdus v) then None
       else let ps = take (unat (number_of_pdus v)) (pdus v);
                ps' = set_cqi_offsets (2 + sum_list (map (\<lambda>(p, raw). cqi_pdu_size (pdu_tlvs p)) ps)) ps
            in push_all (pack_instance pack_cqi_tlvs) (map fst ps') w \<bind> push_all push_cqi_raw ps')"

definition pack_cqi_indication :: "(wbuf \<Rightarrow> wbuf option) option \<Rightarrow> cqi_body indication \<Rightarrow> wbuf \<Rightarrow> wbuf option" where
  "pack_cqi_indication ve m =
     pack_indication NFAPI_CQI_INDICATION_BODY_TAG pack_cqi_indication_body_value ve (m\<lparr>ind_vendor_extension := None\<rparr>)"

text \<open>
  One TLV of a PDU.  The length field is not used: a TLV with an unknown tag is skipped without
  its value.  The loop ends where the instance length says; every turn reads four bytes of
  the message, so their number is a bound on the turns.
\<close>

definition unpack_cqi_tlv :: "cqi_tlvs \<Rightarrow> rbuf \<Rightarrow> (cqi_tlvs \<times> rbuf) option" where
  "unpack_cqi_tlv p r =
     unpack_tl r \<bind> (\<lambda>(t, r).
       if tl_tag t = NFAPI_RX_UE_INFORMATION_TAG
       then unpack_rx_ue_information_value r \<bind> (\<lambda>(v, r). Some (p\<lparr>cqi_rx_ue_information := \<lparr>tlv_hdr = t, tlv_val = v\<rparr>\<rparr>, r))
       else if tl_tag t = NFAPI_CQI_INDICATION_REL8_TAG
       then unpack_cqi_indication_rel8_value r \<bind> (\<lambda>(v, r). Some (p\<lparr>cqi_rel8_tlv := \<lparr>tlv_hdr = t, tlv_val = v\<rparr>\<rparr>, r))
       else if tl_tag t = NFAPI_CQI_INDICATION_REL9_TAG
       then unpack_cqi_indication_rel9_value r \<bind> (\<lambda>(v, r). Some (p\<lparr>cqi_rel9_tlv := \<lparr>tlv_hdr = t, tlv_val = v\<rparr>\<rparr>, r))
       else if tl_tag t = NFAPI_UL_CQI_INFORMATION_TAG
       then unpack_ul_cqi_information_value r \<bind> (\<lambda>(v, r). Some (p\<lparr>cqi_ul_cqi_information := \<lparr>tlv_hdr = t, tlv_val = v\<rparr>\<rparr>, r))
       else Some (p, r))"

fun unpack_cqi_tlvs :: "nat \<Rightarrow> nat \<Rightarrow> cqi_tlvs \<Rightarrow> rbuf \<Rightarrow> (cqi_tlvs \<times> rbuf) option" where
  "unpack_cqi_tlvs 0 pdu_end p r = (if rb_pos r < pdu_end then None else Some (p, r))"
| "unpack_cqi_tlvs (Suc turns) pdu_end p r =
     (if rb_pos r < pdu_end then unpack_cqi_tlv p r \<bind> (\<lambda>(p, r). unpack_cqi_tlvs turns pdu_end p r)
      else Some (p, r))"

definition unpack_cqi_pdu :: "rbuf \<Rightarrow> (cqi_tlvs pdu \<times> rbuf) option" where
  "unpack_cqi_pdu r =
     pull16 r \<bind> (\<lambda>(il, r). unpack_cqi_tlvs (rb_room r) (rb_pos r + unat il) zero_cqi_tlvs r \<bind> (\<lambda>(t, r).
       Some (\<lparr>instance_length = il, pdu_tlvs = t\<rparr>, r)))"

text \<open>The length of the raw data that is read: the rel8 structure comes first.\<close>

definition pull_cqi_raw :: "cqi_tlvs pdu \<times> u8 list \<Rightarrow> rbuf \<Rightarrow> ((cqi_tlvs pdu \<times> u8 list) \<times> rbuf) option" where
  "pull_cqi_raw = (\<lambda>(p, raw) r.
     let t = pdu_tlvs p in
     if has_rel8 t
     then pullarray8 NFAPI_CQI_RAW_MAX_LEN (ucast (cqi8_length (tlv_val (cqi_rel8_tlv t)))) r \<bind>
          (\<lambda>(bs, r). Some ((p, upd_at 0 bs raw), r))
     else if has_rel9 t
     then pullarray8 NFAPI_CQI_RAW_MAX_LEN (ucast (cqi9_length (tlv_val (cqi_rel9_tlv t)))) r \<bind>
          (\<lambda>(bs, r). Some ((p, upd_at 0 bs raw), r))
     else Some ((p, raw), r))"

text \<open>
  A count above the limit makes the unpacker return -1 in a \<^verbatim>\<open>uint8_t\<close>, which its caller takes for
  success with a body that has the count, no PDUs and nothing read behind the count.
\<close>

definition unpack_cqi_indication_body_value :: "bool \<Rightarrow> tl \<Rightarrow> rbuf \<Rightarrow> (cqi_body \<times> rbuf) option" where
  "unpack_cqi_indication_body_value alloc_ok t r =
     (if rb_end r < rb_pos r + unat (tl_length t) then None
      else pull16 r \<bind> (\<lambda>(n, r).
        if NFAPI_CQI_IND_MAX_PDU < unat n then Some (\<lparr>number_of_pdus = n, pdus = []\<rparr>, r)
        else if \<not> alloc_if_any alloc_ok (unat n) then None
        else pull_n unpack_cqi_pdu (unat n) r \<bind> (\<lambda>(ps, r).
             pull_each pull_cqi_raw (map (\<lambda>p. (p, replicate 12 0)) ps) r \<bind> (\<lambda>(ps', r).
             Some (\<lparr>number_of_pdus = n, pdus = ps'\<rparr>, r)))))"

definition unpack_cqi_indication :: "bool \<Rightarrow> cqi_body indication ve_fn option
  \<Rightarrow> cqi_body indication \<Rightarrow> rbuf \<Rightarrow> cqi_body indication option" where
  "unpack_cqi_indication alloc_ok = unpack_indication NFAPI_CQI_INDICATION_BODY_TAG (unpack_cqi_indication_body_value alloc_ok)"

text \<open>The bound on the turns is never the reason for a failure.\<close>

lemma rx_forward [forward_intro]:
  "moves_forward (pullarray8 m len)" "moves_forward unpack_cqi_indication_rel8_value"
  "moves_forward unpack_cqi_indication_rel9_value"
proof -
  show a: "moves_forward (pullarray8 m len)" for m len
    by (auto simp: moves_forward_def pullarray8_def forward_def split: if_splits)
  show "moves_forward unpack_cqi_indication_rel8_value"
    unfolding unpack_cqi_indication_rel8_value_def [abs_def] by (intro forward_intro)
  have "moves_forward (\<lambda>r :: rbuf. None :: ('x \<times> rbuf) option)" by (simp add: moves_forward_def)
  then show "moves_forward unpack_cqi_indication_rel9_value"
    unfolding unpack_cqi_indication_rel9_value_def [abs_def]
    by (intro moves_forward_bind moves_forward_pull) (auto intro!: moves_forward_bind moves_forward_pull a forward_intro)
qed

lemma unpack_cqi_tlv_room:
  assumes "unpack_cqi_tlv p r = Some (p', r')"
  shows "rb_room r' < rb_room r"
proof -
  obtain t r1 where tl: "unpack_tl r = Some (t, r1)" using assms by (auto simp: unpack_cqi_tlv_def bind_eq_Some_conv)
  have r1: "r1 = rb_adv 4 r" "4 \<le> rb_room r"
    using tl by (auto simp: unpack_tl_def bind_eq_Some_conv rb_room_adv dest!: pull_adv)
  have "forward r1 r'"
    using assms tl forward_unpack_rx_ue_information_value rx_forward(2,3) forward_unpack_ul_cqi_information_value
    by (auto simp: unpack_cqi_tlv_def bind_eq_Some_conv moves_forward_def forward_def split: if_splits)
  then show ?thesis using r1 by (auto simp: forward_def rb_room_def rb_adv_def)
qed

lemma unpack_cqi_tlvs_turns:
  "rb_room r \<le> n \<Longrightarrow> unpack_cqi_tlvs (n + k) e p r = unpack_cqi_tlvs n e p r"
proof (induction n arbitrary: p r)
  case 0
  then have "unpack_cqi_tlv p r = None" using unpack_cqi_tlv_room [of p r] by (cases "unpack_cqi_tlv p r") auto
  then show ?case by (cases k) auto
next
  case (Suc n)
  show ?case
  proof (cases "unpack_cqi_tlv p r")
    case (Some q)
    then show ?thesis using Suc.IH [of "snd q" "fst q"] Suc.prems unpack_cqi_tlv_room [of p r "fst q" "snd q"]
      by (cases q) simp
  qed simp
qed

section \<open>Properties\<close>


definition example_rx :: "u16 \<Rightarrow> u16 \<Rightarrow> u8 list \<Rightarrow> (u16, rx_pdu) pdu_list indication" where
  "example_rx rel9_tag len d = \<lparr>ind_sfn_sf = 0x123,
     ind_body = \<lparr>tlv_hdr = \<lparr>tl_tag = NFAPI_RX_INDICATION_BODY_TAG, tl_length = 0\<rparr>, tlv_val = \<lparr>number_of_pdus = 1,
       pdus = [\<lparr>rx_rx_ue_information = \<lparr>tlv_hdr = \<lparr>tl_tag = NFAPI_RX_UE_INFORMATION_TAG, tl_length = 0\<rparr>,
                  tlv_val = \<lparr>ue_handle = 1, ue_rnti = 0x1234\<rparr>\<rparr>,
               rx_rel8_tlv = \<lparr>tlv_hdr = \<lparr>tl_tag = NFAPI_RX_INDICATION_REL8_TAG, tl_length = 0\<rparr>,
                  tlv_val = \<lparr>rx_length = len, rx_offset = 1, rx_ul_cqi = 2, rx_timing_advance = 3\<rparr>\<rparr>,
               rx_rel9_tlv = \<lparr>tlv_hdr = \<lparr>tl_tag = rel9_tag, tl_length = 0\<rparr>, tlv_val = \<lparr>rx_timing_advance_r9 = 4\<rparr>\<rparr>,
               rx_ind_data = d\<rparr>]\<rparr>\<rparr>,
     ind_vendor_extension = None\<rparr>"


text \<open>
  The RX packer omits a TLV whose tag is not set, but the RX unpacker requires all three TLVs of a
  PDU: the library refuses its own message when a PDU has no rel9 structure.
\<close>

theorem rx_partial_pdu_refused:
  "\<exists>w'. pack_rx_ulsch_indication None (example_rx 0 0 []) \<lparr>wb_mem = replicate 64 0, wb_pos = 0, wb_end = 64\<rparr> = Some w' \<and>
    unpack_rx_indication True None (example_rx 0 0 []) \<lparr>rb_mem = wb_mem w', rb_pos = 0, rb_end = wb_pos w'\<rparr> = None"
proof -
  have "map_option (\<lambda>w'. unpack_rx_indication True None (example_rx 0 0 []) \<lparr>rb_mem = wb_mem w', rb_pos = 0, rb_end = wb_pos w'\<rparr> = None)
      (pack_rx_ulsch_indication None (example_rx 0 0 []) \<lparr>wb_mem = replicate 64 0, wb_pos = 0, wb_end = 64\<rparr>) = Some True"
    by code_simp
  then show ?thesis by (auto simp: map_option_eq_Some)
qed

text \<open>
  When a CQI PDU has both the rel8 and the rel9 structure, the packer writes as much raw data
  as the rel9 structure says and the unpacker reads as much as the rel8 structure says: with
  different lengths the library refuses its own message, with equal ones the raw data
  arrives.
\<close>

definition example_cqi :: "u16 \<Rightarrow> u16 \<Rightarrow> cqi_body indication" where
  "example_cqi len8 len9 = \<lparr>ind_sfn_sf = 0x123,
     ind_body = \<lparr>tlv_hdr = \<lparr>tl_tag = NFAPI_CQI_INDICATION_BODY_TAG, tl_length = 0\<rparr>, tlv_val = \<lparr>number_of_pdus = 1,
       pdus = [(\<lparr>instance_length = 0, pdu_tlvs = zero_cqi_tlvs\<lparr>
           cqi_rel8_tlv := \<lparr>tlv_hdr = \<lparr>tl_tag = NFAPI_CQI_INDICATION_REL8_TAG, tl_length = 0\<rparr>,
             tlv_val = \<lparr>cqi8_length = len8, cqi8_data_offset = 1, cqi8_ul_cqi = 2, cqi8_ri = 3, cqi8_timing_advance = 4\<rparr>\<rparr>,
           cqi_rel9_tlv := \<lparr>tlv_hdr = \<lparr>tl_tag = NFAPI_CQI_INDICATION_REL9_TAG, tl_length = 0\<rparr>,
             tlv_val = \<lparr>cqi9_length = len9, cqi9_data_offset = 1, cqi9_ul_cqi = 2, number_of_cc_reported = 1,
               cqi9_ri = [5, 0, 0, 0], cqi9_timing_advance = 6, cqi9_timing_advance_r9 = 7\<rparr>\<rparr>\<rparr>\<rparr>,
         [8, 9, 0, 0, 0, 0, 0, 0, 0, 0, 0, 0])]\<rparr>\<rparr>,
     ind_vendor_extension = None\<rparr>"

definition resend_cqi :: "cqi_body indication \<Rightarrow> u8 list list option option" where
  "resend_cqi m = map_option (\<lambda>w'. map_option (\<lambda>m. map snd (pdus (tlv_val (ind_body m))))
       (unpack_cqi_indication True None m \<lparr>rb_mem = wb_mem w', rb_pos = 0, rb_end = wb_pos w'\<rparr>))
     (pack_cqi_indication None m \<lparr>wb_mem = replicate 64 0, wb_pos = 0, wb_end = 64\<rparr>)"

theorem cqi_length_mismatch:
  "resend_cqi (example_cqi 1 2) = Some None \<and>
   resend_cqi (example_cqi 2 2) = Some (Some [[8, 9, 0, 0, 0, 0, 0, 0, 0, 0, 0, 0]])"
  by (rule conjI; code_simp)

end
