(* ===== verification/Ue_Proxy.thy ===== *)
theory Ue_Proxy
  imports Queue Sfn_Time Nfapi_Codec Nfapi_Ids
begin

text \<open>
  The core of the proxy, \<^verbatim>\<open>src/nfapi_pnf.c\<close> from \<^verbatim>\<open>oai_subframe_init\<close>: a message of an UE is
  put on the queue of that UE; once per subframe (LTE) or slot (NR) the messages that belong
  to one SFN/SF are taken off all queues and grouped by message id, and each group is handed
  to an aggregating function, here the argument \<open>fwd\<close>.  The LTE and the NR functions have
  the same text up to their constants and are instances of one definition.
  A failed \<^verbatim>\<open>assert\<close> and an \<^verbatim>\<open>abort\<close> are the result \<open>None\<close>.  A
  message that is freed is dropped; \<open>msg_data\<close> holds the bytes of the buffer that were
  written.  The outcome of the queue's mutex is the argument \<open>lock_ok\<close>.
\<close>

section \<open>Constants\<close>

definition MIN_UE_NEM_ID :: int where "MIN_UE_NEM_ID = 2"
definition MAX_SUBFRAME_MSGS :: nat where "MAX_SUBFRAME_MSGS = 8"
definition MAX_SLOT_MSGS :: nat where "MAX_SLOT_MSGS = 8"
definition MESSAGE_BUFFER_MAGIC :: u32 where "MESSAGE_BUFFER_MAGIC = 0x45504953"
definition MAX_UES :: nat where "MAX_UES = 64"
definition NFAPI_RX_IND_DATA_MAX :: nat where "NFAPI_RX_IND_DATA_MAX = 8192"

lemmas lte_ids = NFAPI_HARQ_INDICATION_def NFAPI_CRC_INDICATION_def NFAPI_RX_ULSCH_INDICATION_def
  NFAPI_RACH_INDICATION_def NFAPI_RX_SR_INDICATION_def NFAPI_RX_CQI_INDICATION_def

lemmas nr_ids = NFAPI_NR_PHY_MSG_TYPE_RX_DATA_INDICATION_def NFAPI_NR_PHY_MSG_TYPE_CRC_INDICATION_def
  NFAPI_NR_PHY_MSG_TYPE_UCI_INDICATION_def NFAPI_NR_PHY_MSG_TYPE_SRS_INDICATION_def
  NFAPI_NR_PHY_MSG_TYPE_RACH_INDICATION_def

section \<open>Messages\<close>

record message_buffer =
  magic :: u32
  msg_length :: nat
  msg_data :: "u8 list"

definition msg_cursor :: "u8 list \<Rightarrow> nat \<Rightarrow> nat \<Rightarrow> rbuf" where
  "msg_cursor d len pos = \<lparr>rb_mem = d, rb_pos = pos, rb_end = len\<rparr>"

definition get_message_id :: "message_buffer \<Rightarrow> u16 option" where
  "get_message_id msg =
     (if NFAPI_RX_IND_DATA_MAX < msg_length msg then None
      else let c = msg_cursor (msg_data msg) (msg_length msg) 0;
               c' = (case pull16 c of None \<Rightarrow> c | Some (phy, r) \<Rightarrow> r)
           in Some (case pull16 c' of None \<Rightarrow> - 1 | Some (mid, r) \<Rightarrow> mid))"

text \<open>Both cursors below are read in place: phy id and message id, then the body behind the header of 16 bytes.\<close>

definition pull_id :: "u8 list \<Rightarrow> nat \<Rightarrow> u16 option" where
  "pull_id d len = pull16 (msg_cursor d len 0) \<bind> (\<lambda>(phy, r). pull16 r \<bind> (\<lambda>(mid, r). Some mid))"

definition lte_uplink_ids :: "u16 list" where
  "lte_uplink_ids = [NFAPI_RACH_INDICATION, NFAPI_CRC_INDICATION, NFAPI_RX_ULSCH_INDICATION,
     NFAPI_RX_CQI_INDICATION, NFAPI_HARQ_INDICATION, NFAPI_RX_SR_INDICATION]"

definition nr_uplink_ids :: "u16 list" where
  "nr_uplink_ids = [NFAPI_NR_PHY_MSG_TYPE_RACH_INDICATION, NFAPI_NR_PHY_MSG_TYPE_CRC_INDICATION,
     NFAPI_NR_PHY_MSG_TYPE_RX_DATA_INDICATION, NFAPI_NR_PHY_MSG_TYPE_UCI_INDICATION,
     NFAPI_NR_PHY_MSG_TYPE_SRS_INDICATION]"

definition get_sfnsf :: "message_buffer \<Rightarrow> u16 option option" where
  "get_sfnsf msg =
     (if NFAPI_RX_IND_DATA_MAX < msg_length msg then None
      else Some (case pull_id (msg_data msg) (msg_length msg) of None \<Rightarrow> None
        | Some mid \<Rightarrow>
            if mid \<notin> set lte_uplink_ids then None
            else map_option fst (pull16 (msg_cursor (msg_data msg) (msg_length msg) 16))))"

definition get_sfnslot :: "message_buffer \<Rightarrow> u16 option option" where
  "get_sfnslot msg =
     (if NFAPI_RX_IND_DATA_MAX < msg_length msg then None
      else Some (case pull_id (msg_data msg) (msg_length msg) of None \<Rightarrow> None
        | Some mid \<Rightarrow>
            if mid \<notin> set nr_uplink_ids then None
            else pull16 (msg_cursor (msg_data msg) (msg_length msg) 16) \<bind> (\<lambda>(sfn, r).
                 pull16 r \<bind> (\<lambda>(sl, r). Some (of_int (NFAPI_SFNSLOT2HEX (uint sfn) (uint sl)))))))"

text \<open>\<^verbatim>\<open>nfapiutils.c\<close> has the same readers for raw bytes; they let the id 0 of a dummy pass.\<close>

definition nfapi_get_sfnsf :: "u8 list \<Rightarrow> u16" where
  "nfapi_get_sfnsf msg =
     (case pull_id msg (length msg) of None \<Rightarrow> - 1
      | Some mid \<Rightarrow>
          if mid \<notin> set lte_uplink_ids \<and> mid \<noteq> 0 then - 1
          else case pull16 (msg_cursor msg (length msg) 16) of None \<Rightarrow> - 1 | Some (sf, r) \<Rightarrow> sf)"

definition nfapi_get_sfnslot :: "u8 list \<Rightarrow> u16" where
  "nfapi_get_sfnslot msg =
     (case pull_id msg (length msg) of None \<Rightarrow> - 1
      | Some mid \<Rightarrow>
          if mid \<notin> set nr_uplink_ids \<and> mid \<noteq> 0 then - 1
          else case pull16 (msg_cursor msg (length msg) 16) \<bind> (\<lambda>(sfn, r).
                 pull16 r \<bind> (\<lambda>(sl, r). Some (of_int (NFAPI_SFNSLOT2HEX (uint sfn) (uint sl)))))
               of None \<Rightarrow> - 1 | Some s \<Rightarrow> s)"

section \<open>A message from an UE\<close>

text \<open>
  The array of queues holds one queue per UE, \<^verbatim>\<open>num_ues\<close> of them.
\<close>

definition init_ues :: "nat \<Rightarrow> message_buffer queue list" where
  "init_ues num_ues = replicate num_ues init_queue"

definition handle_msg_from_ue :: "bool \<Rightarrow> bool \<Rightarrow> u8 list \<Rightarrow> u16 \<Rightarrow> message_buffer queue list
  \<Rightarrow> message_buffer queue list option" where
  "handle_msg_from_ue alloc_ok lock_ok msg nem_id qs =
     (if length msg = 4 then Some qs
      else let i = uint nem_id - MIN_UE_NEM_ID in
        if i < 0 \<or> int (length qs) \<le> i then Some qs
        else if \<not> alloc_ok then None
        else if NFAPI_RX_IND_DATA_MAX \<le> length msg then None
        else let p = \<lparr>magic = MESSAGE_BUFFER_MAGIC, msg_length = length msg, msg_data = msg\<rparr>
             in case put_queue lock_ok (Some p) (qs ! nat i) of None \<Rightarrow> None
                | Some (ok, q) \<Rightarrow> Some (qs[nat i := q]))"

definition oai_subframe_handle_msg_from_ue where
  "oai_subframe_handle_msg_from_ue = handle_msg_from_ue"

definition oai_slot_handle_msg_from_ue where
  "oai_slot_handle_msg_from_ue = handle_msg_from_ue"

section \<open>Taking the messages of one SFN/SF off the queues\<close>

text \<open>
  The loop over one queue.  \<open>get\<close> reads the SFN/SF of a message, \<open>old\<close> says whether it is too
  far behind; \<open>master\<close> is the SFN/SF all messages must have, \<open>0xFFFF\<close> as long as there is
  none; \<open>p\<close> are the messages kept for this UE.  The last result is the queue's part in
  \<^verbatim>\<open>are_queues_empty\<close>.
\<close>

partial_function (option) dequeue_loop :: "bool \<Rightarrow> (message_buffer \<Rightarrow> u16 option option) \<Rightarrow> (u16 \<Rightarrow> bool) \<Rightarrow> nat
  \<Rightarrow> u16 \<Rightarrow> message_buffer list \<Rightarrow> message_buffer queue
  \<Rightarrow> (u16 \<times> message_buffer list \<times> message_buffer queue \<times> bool) option" where
  "dequeue_loop lock_ok get old max_msgs master p q =
     (case get_queue lock_ok q of None \<Rightarrow> None
      | Some (None, q') \<Rightarrow> Some (master, p, q', True)
      | Some (Some msg, q') \<Rightarrow>
          if magic msg \<noteq> MESSAGE_BUFFER_MAGIC then None
          else if msg_length msg = 4 then dequeue_loop lock_ok get old max_msgs master p q'
          else (case get msg of None \<Rightarrow> None
            | Some None \<Rightarrow> dequeue_loop lock_ok get old max_msgs master p q'
            | Some (Some sfn) \<Rightarrow>
                (let master' = (if master = 0xFFFF then sfn else master) in
                 if master' \<noteq> sfn
                 then (case requeue lock_ok (Some msg) q' of None \<Rightarrow> None
                       | Some (ok, q'') \<Rightarrow> Some (master', p, q'', False))
                 else if old sfn then dequeue_loop lock_ok get old max_msgs master' p q'
                 else if length p = max_msgs then dequeue_loop lock_ok get old max_msgs master' p q'
                 else dequeue_loop lock_ok get old max_msgs master' (p @ [msg]) q')))"

declare dequeue_loop.simps [code]

fun dequeue_all :: "bool \<Rightarrow> (message_buffer \<Rightarrow> u16 option option) \<Rightarrow> (u16 \<Rightarrow> bool) \<Rightarrow> nat \<Rightarrow> u16
  \<Rightarrow> message_buffer queue list \<Rightarrow> (message_buffer list list \<times> message_buffer queue list \<times> bool) option" where
  "dequeue_all lock_ok get old max_msgs master [] = Some ([], [], True)"
| "dequeue_all lock_ok get old max_msgs master (q # qs) =
     (case dequeue_loop lock_ok get old max_msgs master [] q of None \<Rightarrow> None
      | Some (master', p, q', e) \<Rightarrow>
          map_option (\<lambda>(ps, qs', es). (p # ps, q' # qs', e \<and> es))
            (dequeue_all lock_ok get old max_msgs master' qs))"

text \<open>Callers pass arrays of message lists that they have cleared.\<close>

definition dequeue_ue_msgs :: "bool \<Rightarrow> u16 \<Rightarrow> message_buffer queue list
  \<Rightarrow> (message_buffer list list \<times> message_buffer queue list \<times> bool) option" where
  "dequeue_ue_msgs lock_ok sfn_sf_tx =
     dequeue_all lock_ok get_sfnsf (\<lambda>sfn_sf. 200 < get_sf_delta sfn_sf_tx sfn_sf) MAX_SUBFRAME_MSGS 0xFFFF"

definition dequeue_ue_slot_msgs :: "bool \<Rightarrow> u16 \<Rightarrow> message_buffer queue list
  \<Rightarrow> (message_buffer list list \<times> message_buffer queue list \<times> bool) option" where
  "dequeue_ue_slot_msgs lock_ok sfn_slot_tx =
     dequeue_all lock_ok get_sfnslot (\<lambda>sfn_slot. 400 < get_slot_delta sfn_slot_tx sfn_slot) MAX_SLOT_MSGS 0xFFFF"

section \<open>Grouping by message id\<close>

text \<open>
  One pass over the messages: the first id found is the one of this pass, its messages are
  taken out of the arrays (\<open>None\<close> is NULL) and collected up to the limit.
\<close>

primrec collect_ue :: "nat \<Rightarrow> u16 \<Rightarrow> message_buffer list \<Rightarrow> message_buffer option list
  \<Rightarrow> (u16 \<times> message_buffer list \<times> message_buffer option list) option" where
  "collect_ue max_msgs found acc [] = Some (found, acc, [])"
| "collect_ue max_msgs found acc (m # ms) =
     (case m of None \<Rightarrow> map_option (\<lambda>(f, a, ms'). (f, a, None # ms')) (collect_ue max_msgs found acc ms)
      | Some msg \<Rightarrow>
          if magic msg \<noteq> MESSAGE_BUFFER_MAGIC then None
          else (case get_message_id msg of None \<Rightarrow> None
            | Some mid \<Rightarrow>
                (let found' = (if found = 0 then mid else found) in
                 if found' = mid
                 then map_option (\<lambda>(f, a, ms'). (f, a, None # ms'))
                        (collect_ue max_msgs found' (if length acc = max_msgs then acc else acc @ [msg]) ms)
                 else map_option (\<lambda>(f, a, ms'). (f, a, Some msg # ms'))
                        (collect_ue max_msgs found' acc ms))))"

fun collect :: "nat \<Rightarrow> u16 \<Rightarrow> message_buffer list \<Rightarrow> message_buffer option list list
  \<Rightarrow> (u16 \<times> message_buffer list \<times> message_buffer option list list) option" where
  "collect max_msgs found acc [] = Some (found, acc, [])"
| "collect max_msgs found acc (ms # mss) =
     (case collect_ue max_msgs found acc ms of None \<Rightarrow> None
      | Some (f, a, ms') \<Rightarrow>
          map_option (\<lambda>(f', a', mss'). (f', a', ms' # mss')) (collect max_msgs f a mss))"

text \<open>
  Passes until one finds no message.  \<open>fwd\<close> is the aggregating function; what it sends is
  appended to the output.
\<close>

partial_function (option) aggregate_loop :: "nat \<Rightarrow> (u16 \<Rightarrow> message_buffer list \<Rightarrow> 'o list option)
  \<Rightarrow> message_buffer option list list \<Rightarrow> 'o list \<Rightarrow> 'o list option" where
  "aggregate_loop max_msgs fwd mss out =
     (case collect max_msgs 0 [] mss of None \<Rightarrow> None
      | Some (found, by_id, mss') \<Rightarrow>
          if found = 0 then Some out
          else (case fwd found by_id of None \<Rightarrow> None
            | Some sent \<Rightarrow> aggregate_loop max_msgs fwd mss' (out @ sent)))"

declare aggregate_loop.simps [code]

definition oai_subframe_aggregate_messages :: "(u16 \<Rightarrow> message_buffer list \<Rightarrow> 'o list option)
  \<Rightarrow> message_buffer list list \<Rightarrow> 'o list option" where
  "oai_subframe_aggregate_messages fwd mss = aggregate_loop MAX_SUBFRAME_MSGS fwd (map (map Some) mss) []"

definition oai_slot_aggregate_messages :: "(u16 \<Rightarrow> message_buffer list \<Rightarrow> 'o list option)
  \<Rightarrow> message_buffer list list \<Rightarrow> 'o list option" where
  "oai_slot_aggregate_messages fwd mss = aggregate_loop MAX_SLOT_MSGS fwd (map (map Some) mss) []"

section \<open>Reading a message\<close>

text \<open>The messages that \<open>handle_msg_from_ue\<close> makes; the assertions hold for them.\<close>

definition msg_ok :: "message_buffer \<Rightarrow> bool" where
  "msg_ok m \<longleftrightarrow> magic m = MESSAGE_BUFFER_MAGIC \<and> msg_length m = length (msg_data m) \<and>
     msg_length m < NFAPI_RX_IND_DATA_MAX"

definition read_sfnsf :: "message_buffer \<Rightarrow> u16 option" where
  "read_sfnsf m = (case get_sfnsf m of Some s \<Rightarrow> s | None \<Rightarrow> None)"

definition read_sfnslot :: "message_buffer \<Rightarrow> u16 option" where
  "read_sfnslot m = (case get_sfnslot m of Some s \<Rightarrow> s | None \<Rightarrow> None)"

lemma get_sfn_ok:
  assumes "msg_ok m"
  shows "get_sfnsf m = Some (read_sfnsf m)" "get_sfnslot m = Some (read_sfnslot m)"
    "\<exists>mid. get_message_id m = Some mid"
  using assms by (simp_all add: msg_ok_def read_sfnsf_def read_sfnslot_def get_sfnsf_def get_sfnslot_def
      get_message_id_def Let_def)

lemma pull_id_message_id:
  "pull_id (msg_data m) (msg_length m) = Some mid \<Longrightarrow> msg_length m \<le> NFAPI_RX_IND_DATA_MAX \<Longrightarrow>
   get_message_id m = Some mid"
  by (auto simp: pull_id_def get_message_id_def Let_def bind_eq_Some_conv split: prod.splits)

lemma uplink_ids_nonzero: "0 \<notin> set lte_uplink_ids" "0 \<notin> set nr_uplink_ids"
  by (simp_all add: lte_uplink_ids_def nr_uplink_ids_def lte_ids nr_ids)

lemma read_message_id:
  assumes "msg_ok m"
  shows "read_sfnsf m = Some s \<Longrightarrow> \<exists>mid \<in> set lte_uplink_ids. get_message_id m = Some mid"
    "read_sfnslot m = Some s \<Longrightarrow> \<exists>mid \<in> set nr_uplink_ids. get_message_id m = Some mid"
  using assms pull_id_message_id [of m]
  by (auto simp: msg_ok_def read_sfnsf_def read_sfnslot_def get_sfnsf_def get_sfnslot_def
      split: option.splits if_splits)

section \<open>What the dequeuing loop takes\<close>

text \<open>A message that has an SFN/SF; the others are dropped wherever they are found.\<close>

definition relevant :: "(message_buffer \<Rightarrow> u16 option) \<Rightarrow> message_buffer \<Rightarrow> bool" where
  "relevant read m \<longleftrightarrow> msg_length m \<noteq> 4 \<and> read m \<noteq> None"

definition of_sfn :: "(message_buffer \<Rightarrow> u16 option) \<Rightarrow> u16 \<Rightarrow> message_buffer \<Rightarrow> bool" where
  "of_sfn read M m \<longleftrightarrow> (relevant read m \<longrightarrow> read m = Some M)"

definition kept :: "(message_buffer \<Rightarrow> u16 option) \<Rightarrow> (u16 \<Rightarrow> bool) \<Rightarrow> u16 \<Rightarrow> message_buffer \<Rightarrow> bool" where
  "kept read old M m \<longleftrightarrow> relevant read m \<and> read m = Some M \<and> \<not> old M"

text \<open>The SFN/SF of the first message that has one.\<close>

definition master_of :: "(message_buffer \<Rightarrow> u16 option) \<Rightarrow> u16 \<Rightarrow> message_buffer list \<Rightarrow> u16" where
  "master_of read master xs = (if master = 0xFFFF
     then (case filter (relevant read) xs of [] \<Rightarrow> 0xFFFF | m # _ \<Rightarrow> the (read m)) else master)"

lemma not_relevant_of_sfn: "\<not> relevant read m \<Longrightarrow> of_sfn read M m"
  by (simp add: of_sfn_def)

lemma filter_kept_takeWhile:
  "\<forall>m \<in> set xs. \<not> relevant read m \<Longrightarrow> filter (kept read old M) xs = []"
  by (auto simp: kept_def filter_empty_conv)

locale sfn_reader =
  fixes get :: "message_buffer \<Rightarrow> u16 option option"
    and read :: "message_buffer \<Rightarrow> u16 option"
  assumes get_read: "msg_ok m \<Longrightarrow> get m = Some (read m)"
begin

lemma loop_step:
  assumes rep: "queue_rep q (m # xs)" and ok: "msg_ok m"
  obtains q1 q2 where "queue_rep q1 xs" "queue_rep q2 (m # xs)"
    "dequeue_loop True get old n M p q =
      (if \<not> relevant read m then dequeue_loop True get old n M p q1
       else let s = the (read m); M' = (if M = 0xFFFF then s else M) in
         if M' \<noteq> s then Some (M', p, q2, False)
         else if old s \<or> length p = n then dequeue_loop True get old n M' p q1
         else dequeue_loop True get old n M' (p @ [m]) q1)"
proof -
  have "length xs < MAX_QUEUE_SIZE" using queue_repD(4) [OF rep] by simp
  then obtain q1 q2 where q: "get_queue True q = Some (Some m, q1)"
      "requeue True (Some m) q1 = Some (True, q2)" "queue_rep q2 (m # xs)"
    using rq.unget_get [OF rep] by blast
  have q1: "queue_rep q1 xs" using rq.get_spec [OF rep] q(1) by (simp add: spec_get_def)
  have mg: "magic m = MESSAGE_BUFFER_MAGIC" using ok by (simp add: msg_ok_def)
  have "dequeue_loop True get old n M p q =
      (if \<not> relevant read m then dequeue_loop True get old n M p q1
       else let s = the (read m); M' = (if M = 0xFFFF then s else M) in
         if M' \<noteq> s then Some (M', p, q2, False)
         else if old s \<or> length p = n then dequeue_loop True get old n M' p q1
         else dequeue_loop True get old n M' (p @ [m]) q1)"
    unfolding dequeue_loop.simps [of True get old n M p q] q(1)
    using mg get_read [OF ok] q(2) by (cases "read m") (simp_all add: relevant_def Let_def)
  with q1 q(3) show ?thesis by (rule that)
qed

lemma loop_take:
  assumes "queue_rep q (m # xs)" "msg_ok m" "relevant read m" "read m = Some s" "M = 0xFFFF \<or> M = s" "\<not> old s" "length p \<noteq> n"
  shows "\<exists>q1. queue_rep q1 xs \<and> dequeue_loop True get old n M p q = dequeue_loop True get old n s (p @ [m]) q1"
  by (rule loop_step [OF assms(1,2), of old n M p]) (use assms(3-7) in \<open>auto simp: Let_def\<close>)

lemma loop_fixed:
  assumes "queue_rep q xs" "\<forall>m \<in> set xs. msg_ok m \<and> read m \<noteq> Some 0xFFFF" "M \<noteq> 0xFFFF" "length p \<le> n"
  shows "\<exists>q'. dequeue_loop True get old n M p q =
      Some (M, take n (p @ filter (kept read old M) (takeWhile (of_sfn read M) xs)), q', \<forall>m \<in> set xs. of_sfn read M m)
    \<and> queue_rep q' (dropWhile (of_sfn read M) xs)"
  using assms
proof (induction xs arbitrary: p q)
  case Nil
  then show ?case using rq.get_spec [of q "[]"] by (subst dequeue_loop.simps) (auto simp: spec_get_def)
next
  case (Cons m xs)
  have ok: "msg_ok m" and prem: "\<forall>m \<in> set xs. msg_ok m \<and> read m \<noteq> Some 0xFFFF" using Cons.prems(2) by auto
  obtain q1 q2 where q: "queue_rep q1 xs" "queue_rep q2 (m # xs)"
    and step: "dequeue_loop True get old n M p q =
      (if \<not> relevant read m then dequeue_loop True get old n M p q1
       else let s = the (read m); M' = (if M = 0xFFFF then s else M) in
         if M' \<noteq> s then Some (M', p, q2, False)
         else if old s \<or> length p = n then dequeue_loop True get old n M' p q1
         else dequeue_loop True get old n M' (p @ [m]) q1)"
    by (rule loop_step [OF Cons.prems(1) ok])
  note IH = Cons.IH [OF q(1) prem Cons.prems(3)]
  consider "\<not> relevant read m" | "relevant read m" "read m \<noteq> Some M" | "relevant read m" "read m = Some M" by blast
  then show ?case
  proof cases
    case 1
    then show ?thesis using IH [OF Cons.prems(4)] step by (simp add: of_sfn_def kept_def)
  next
    case 2
    then show ?thesis using step q(2) Cons.prems(3,4) by (auto simp: of_sfn_def relevant_def Let_def)
  next
    case 3
    have of_sfn: "of_sfn read M m" using 3 by (simp add: of_sfn_def)
    show ?thesis
    proof (cases "old M \<or> length p = n")
      case True
      then have "take n (p @ filter (kept read old M) (m # ys)) = take n (p @ filter (kept read old M) ys)" for ys
        using Cons.prems(4) by (auto simp: kept_def)
      then show ?thesis using IH [OF Cons.prems(4)] step 3 True Cons.prems(3) of_sfn by simp
    next
      case False
      then show ?thesis using IH [of "p @ [m]"] step 3 Cons.prems(3,4) of_sfn by (simp add: kept_def)
    qed
  qed
qed

lemma loop_open:
  assumes "queue_rep q xs" "\<forall>m \<in> set xs. msg_ok m"
  shows "if \<exists>m \<in> set xs. relevant read m
    then dequeue_loop True get old n 0xFFFF p q = dequeue_loop True get old n (master_of read 0xFFFF xs) p q
    else \<exists>q'. dequeue_loop True get old n 0xFFFF p q = Some (0xFFFF, p, q', True) \<and> queue_rep q' []"
  using assms
proof (induction xs arbitrary: q)
  case Nil
  then show ?case using rq.get_spec [of q "[]"] by (subst dequeue_loop.simps) (auto simp: spec_get_def)
next
  case (Cons m xs)
  have ok: "msg_ok m" and prem: "\<forall>m \<in> set xs. msg_ok m" using Cons.prems(2) by auto
  obtain q' where get: "get_queue True q = Some (Some m, q')" "queue_rep q' xs"
    using rq.get_spec [OF Cons.prems(1)] by (auto simp: spec_get_def)
  have mg: "magic m = MESSAGE_BUFFER_MAGIC" using ok by (simp add: msg_ok_def)
  show ?case
  proof (cases "relevant read m")
    case True
    then obtain s where s: "read m = Some s" "msg_length m \<noteq> 4" by (auto simp: relevant_def)
    then have "master_of read 0xFFFF (m # xs) = s" using True by (simp add: master_of_def)
    moreover have "dequeue_loop True get old n 0xFFFF p q = dequeue_loop True get old n s p q"
      using get(1) mg s get_read [OF ok]
      by (subst (1 2) dequeue_loop.simps) (simp add: Let_def)
    ultimately show ?thesis using True by simp
  next
    case False
    then have "dequeue_loop True get old n M p q = dequeue_loop True get old n M p q'" for M
      using get(1) mg get_read [OF ok]
      by (subst (1) dequeue_loop.simps) (auto simp: relevant_def)
    moreover have "master_of read 0xFFFF (m # xs) = master_of read 0xFFFF xs" using False by (simp add: master_of_def)
    ultimately show ?thesis using Cons.IH [OF get(2) prem] False by simp
  qed
qed

lemma master_ne:
  "\<exists>m \<in> set xs. relevant read m \<Longrightarrow> \<forall>m \<in> set xs. read m \<noteq> Some 0xFFFF \<Longrightarrow>
   master_of read 0xFFFF (xs @ ys) = master_of read 0xFFFF xs \<and> master_of read 0xFFFF xs \<noteq> 0xFFFF"
  by (induction xs) (auto simp: master_of_def relevant_def)

lemma all_rep:
  assumes "list_all2 queue_rep qs xss" "\<forall>m \<in> set (concat xss). msg_ok m \<and> read m \<noteq> Some 0xFFFF"
    "M = master_of read master (concat xss)"
  shows "\<exists>qs'. dequeue_all True get old n master qs =
      Some (map (\<lambda>xs. take n (filter (kept read old M) (takeWhile (of_sfn read M) xs))) xss, qs',
            \<forall>m \<in> set (concat xss). of_sfn read M m)
    \<and> list_all2 queue_rep qs' (map (dropWhile (of_sfn read M)) xss)"
  using assms
proof (induction arbitrary: master rule: list_all2_induct)
  case (Cons q qs xs xss)
  have prem: "\<forall>m \<in> set xs. msg_ok m \<and> read m \<noteq> Some 0xFFFF" "\<forall>m \<in> set xs. msg_ok m" "\<forall>m \<in> set xs. read m \<noteq> Some 0xFFFF"
    "\<forall>m \<in> set (concat xss). msg_ok m \<and> read m \<noteq> Some 0xFFFF"
    using Cons.prems(1) by auto
  show ?case
  proof (cases "master = 0xFFFF \<and> \<not> (\<exists>m \<in> set xs. relevant read m)")
    case True
    then obtain q' where q': "dequeue_loop True get old n master [] q = Some (master, [], q', True)" "queue_rep q' []"
      using loop_open [OF Cons.hyps(1) prem(2), of old n "[]"] by auto
    have none: "\<forall>m \<in> set xs. \<not> relevant read m" using True by blast
    then have mine: "\<forall>m \<in> set xs. of_sfn read M m" by (simp add: not_relevant_of_sfn)
    have "M = master_of read master (concat xss)"
      using True none by (simp add: Cons.prems(2) master_of_def filter_False)
    from Cons.IH [OF prem(4) this] obtain qs' where qs':
      "dequeue_all True get old n master qs =
        Some (map (\<lambda>xs. take n (filter (kept read old M) (takeWhile (of_sfn read M) xs))) xss, qs',
            \<forall>m \<in> set (concat xss). of_sfn read M m)"
      "list_all2 queue_rep qs' (map (dropWhile (of_sfn read M)) xss)" by blast
    have "takeWhile (of_sfn read M) xs = xs" and dw: "dropWhile (of_sfn read M) xs = []"
      using mine by (simp_all add: takeWhile_eq_all_conv dropWhile_eq_Nil_conv)
    then have tw: "filter (kept read old M) (takeWhile (of_sfn read M) xs) = []"
      using filter_kept_takeWhile [OF none, of old M] by metis
    show ?thesis
      using q' qs' mine by (intro exI [of _ "q' # qs'"]) (simp add: tw dw ball_Un)
  next
    case False
    have M: "dequeue_loop True get old n master [] q = dequeue_loop True get old n M [] q \<and>
        M \<noteq> 0xFFFF"
    proof (cases "master = 0xFFFF")
      case True
      then have "\<exists>m \<in> set xs. relevant read m" using False by blast
      then show ?thesis
        using loop_open [OF Cons.hyps(1) prem(2), of old n "[]"] master_ne [OF _ prem(3), of "concat xss"]
          Cons.prems(2) True by simp
    qed (simp add: Cons.prems(2) master_of_def)
    have "M = master_of read M (concat xss)" using M by (simp add: master_of_def)
    from Cons.IH [OF prem(4) this] obtain qs' where qs':
      "dequeue_all True get old n M qs =
        Some (map (\<lambda>xs. take n (filter (kept read old M) (takeWhile (of_sfn read M) xs))) xss, qs',
            \<forall>m \<in> set (concat xss). of_sfn read M m)"
      "list_all2 queue_rep qs' (map (dropWhile (of_sfn read M)) xss)" by blast
    from loop_fixed [OF Cons.hyps(1) prem(1), of M "[]" n old] M obtain q' where
      "dequeue_loop True get old n M [] q =
        Some (M, take n (filter (kept read old M) (takeWhile (of_sfn read M) xs)), q', \<forall>m \<in> set xs. of_sfn read M m)"
      "queue_rep q' (dropWhile (of_sfn read M) xs)" by auto
    then show ?thesis using qs' M by (intro exI [of _ "q' # qs'"]) auto
  qed
qed simp

lemma loop_total:
  assumes "queue_rep q xs" "\<forall>m \<in> set xs. msg_ok m" "length p \<le> n"
  shows "\<exists>M' p' q' e k. dequeue_loop True get old n M p q = Some (M', p @ p', q', e) \<and> queue_rep q' (drop k xs) \<and>
    length (p @ p') \<le> n \<and> (\<forall>m \<in> set p'. m \<in> set xs \<and> relevant read m)"
  using assms
proof (induction xs arbitrary: p q M)
  case Nil
  then show ?case using rq.get_spec [of q "[]"] by (subst dequeue_loop.simps) (auto simp: spec_get_def)
next
  case (Cons m xs)
  have ok: "msg_ok m" and prem: "\<forall>m \<in> set xs. msg_ok m" using Cons.prems(2) by auto
  obtain q1 q2 where q: "queue_rep q1 xs" "queue_rep q2 (m # xs)"
    and step: "dequeue_loop True get old n M p q =
      (if \<not> relevant read m then dequeue_loop True get old n M p q1
       else let s = the (read m); M' = (if M = 0xFFFF then s else M) in
         if M' \<noteq> s then Some (M', p, q2, False)
         else if old s \<or> length p = n then dequeue_loop True get old n M' p q1
         else dequeue_loop True get old n M' (p @ [m]) q1)"
    by (rule loop_step [OF Cons.prems(1) ok])
  have skip: ?case if "dequeue_loop True get old n M p q = dequeue_loop True get old n M' p q1" for M'
  proof -
    from Cons.IH [OF q(1) prem Cons.prems(3), of M'] obtain M'' p' q' e k where
      "dequeue_loop True get old n M' p q1 = Some (M'', p @ p', q', e)" "queue_rep q' (drop k xs)"
      "length (p @ p') \<le> n" "\<forall>m \<in> set p'. m \<in> set xs \<and> relevant read m" by blast
    then show ?thesis unfolding that
      by (intro exI [of _ M''] exI [of _ p'] exI [of _ q'] exI [of _ e] exI [of _ "Suc k"]) simp
  qed
  have take: ?case if s: "dequeue_loop True get old n M p q = dequeue_loop True get old n M' (p @ [m]) q1"
    and rel: "relevant read m" and len: "length p \<noteq> n" for M'
  proof -
    have "length (p @ [m]) \<le> n" using len Cons.prems(3) by simp
    from Cons.IH [OF q(1) prem this, of M'] obtain M'' p' q' e k where
      "dequeue_loop True get old n M' (p @ [m]) q1 = Some (M'', (p @ [m]) @ p', q', e)" "queue_rep q' (drop k xs)"
      "length ((p @ [m]) @ p') \<le> n" "\<forall>m \<in> set p'. m \<in> set xs \<and> relevant read m" by blast
    then show ?thesis unfolding s using rel
      by (intro exI [of _ M''] exI [of _ "m # p'"] exI [of _ q'] exI [of _ e] exI [of _ "Suc k"]) simp
  qed
  have stop: ?case if "dequeue_loop True get old n M p q = Some (M', p, q2, False)" for M'
    unfolding that using q(2) Cons.prems(3)
    by (intro exI [of _ M'] exI [of _ "[]"] exI [of _ q2] exI [of _ False] exI [of _ 0]) simp
  show ?case
    using step skip take stop unfolding Let_def by (smt (verit))
qed

lemma all_total:
  assumes "list_all2 queue_rep qs xss" "\<forall>m \<in> set (concat xss). msg_ok m"
  shows "\<exists>ps qs' e xss'. dequeue_all True get old n M qs = Some (ps, qs', e) \<and> list_all2 queue_rep qs' xss' \<and>
    set (concat xss') \<subseteq> set (concat xss) \<and> (\<forall>p \<in> set ps. length p \<le> n) \<and>
    (\<forall>m \<in> set (concat ps). m \<in> set (concat xss) \<and> relevant read m)"
  using assms
proof (induction arbitrary: M rule: list_all2_induct)
  case (Cons q qs xs xss)
  have prem: "\<forall>m \<in> set xs. msg_ok m" "\<forall>m \<in> set (concat xss). msg_ok m" using Cons.prems by auto
  obtain M' p q' e k where l: "dequeue_loop True get old n M [] q = Some (M', p, q', e)" "queue_rep q' (drop k xs)"
    "length p \<le> n" "\<forall>m \<in> set p. m \<in> set xs \<and> relevant read m"
    using loop_total [OF Cons.hyps(1) prem(1), of "[]" n old M] by auto
  obtain ps qs' es xss' where r: "dequeue_all True get old n M' qs = Some (ps, qs', es)" "list_all2 queue_rep qs' xss'"
    "set (concat xss') \<subseteq> set (concat xss)" "\<forall>p \<in> set ps. length p \<le> n"
    "\<forall>m \<in> set (concat ps). m \<in> set (concat xss) \<and> relevant read m"
    using Cons.IH [OF prem(2), of M'] by blast
  have "set (concat (drop k xs # xss')) \<subseteq> set (concat (xs # xss))"
    using r(3) set_drop_subset [of k xs] by auto
  then show ?case using l r
    by (intro exI [of _ "p # ps"] exI [of _ "q' # qs'"] exI [of _ "e \<and> es"] exI [of _ "drop k xs # xss'"]) auto
qed auto

end

interpretation lte_reader: sfn_reader get_sfnsf read_sfnsf
  by unfold_locales (rule get_sfn_ok)

interpretation nr_reader: sfn_reader get_sfnslot read_sfnslot
  by unfold_locales (rule get_sfn_ok)

section \<open>What the grouping does\<close>

text \<open>
  The abstract grouping: one group per message id, in the order in which the ids occur first,
  with the first \<open>n\<close> messages of the id in their order.
\<close>

definition message_mid :: "message_buffer \<Rightarrow> u16" where
  "message_mid m = the (get_message_id m)"

function group_by_id :: "nat \<Rightarrow> message_buffer list \<Rightarrow> (u16 \<times> message_buffer list) list" where
  "group_by_id n [] = []"
| "group_by_id n (m # ms) =
     (message_mid m, take n (m # filter (\<lambda>x. message_mid x = message_mid m) ms)) #
     group_by_id n (filter (\<lambda>x. message_mid x \<noteq> message_mid m) ms)"
  by pat_completeness auto

termination
  by (relation "measure (\<lambda>(n, ms). length ms)") (auto simp: less_Suc_eq_le)

fun run_groups :: "(u16 \<Rightarrow> message_buffer list \<Rightarrow> 'o list option) \<Rightarrow> (u16 \<times> message_buffer list) list \<Rightarrow> 'o list
  \<Rightarrow> 'o list option" where
  "run_groups fwd [] out = Some out"
| "run_groups fwd ((i, g) # gs) out =
     (case fwd i g of None \<Rightarrow> None | Some sent \<Rightarrow> run_groups fwd gs (out @ sent))"

text \<open>The messages that are still in the arrays.\<close>

definition live :: "message_buffer option list \<Rightarrow> message_buffer list" where
  "live ms = map the (filter (\<lambda>m. m \<noteq> None) ms)"

lemma live_simps [simp]:
  "live [] = []" "live (None # ms) = live ms" "live (Some m # ms) = m # live ms"
  "live (ms @ ms') = live ms @ live ms'" "live (map Some xs) = xs"
  by (auto simp: live_def filter_True comp_def)

definition remove_id :: "u16 \<Rightarrow> message_buffer option \<Rightarrow> message_buffer option" where
  "remove_id i m = (case m of None \<Rightarrow> None | Some x \<Rightarrow> if message_mid x = i then None else Some x)"

lemma live_remove_id: "live (map (remove_id i) ms) = filter (\<lambda>x. message_mid x \<noteq> i) (live ms)"
proof (induction ms)
  case (Cons m ms)
  then show ?case by (cases m) (auto simp: remove_id_def)
qed simp

lemma remove_id_simps [simp]:
  "remove_id i None = None" "remove_id i (Some x) = (if message_mid x = i then None else Some x)"
  by (simp_all add: remove_id_def)

text \<open>The id of a pass.\<close>

definition pass_id :: "u16 \<Rightarrow> message_buffer list \<Rightarrow> u16" where
  "pass_id found ms = (if found = 0 then (case ms of [] \<Rightarrow> 0 | m # _ \<Rightarrow> message_mid m) else found)"

definition ids_ok :: "message_buffer list \<Rightarrow> bool" where
  "ids_ok ms \<longleftrightarrow> (\<forall>m \<in> set ms. msg_ok m \<and> message_mid m \<noteq> 0)"

lemma ids_ok_simps [simp]:
  "ids_ok []" "ids_ok (m # ms) \<longleftrightarrow> msg_ok m \<and> message_mid m \<noteq> 0 \<and> ids_ok ms"
  "ids_ok (ms @ ms') \<longleftrightarrow> ids_ok ms \<and> ids_ok ms'"
  by (auto simp: ids_ok_def)

lemma msg_ok_id: "msg_ok m \<Longrightarrow> get_message_id m = Some (message_mid m) \<and> magic m = MESSAGE_BUFFER_MAGIC"
  using get_sfn_ok(3) [of m] by (auto simp: message_mid_def msg_ok_def)

lemma collect_ue_eq:
  "ids_ok (live ms) \<Longrightarrow> length acc \<le> n \<Longrightarrow>
   collect_ue n found acc ms =
     Some (let f = pass_id found (live ms) in
       (f, take n (acc @ filter (\<lambda>m. message_mid m = f) (live ms)), map (remove_id f) ms))"
proof (induction ms arbitrary: found acc)
  case (Cons m ms)
  show ?case
  proof (cases m)
    case None
    then show ?thesis using Cons by (simp add: Let_def)
  next
    case (Some x)
    define f where "f = (if found = 0 then message_mid x else found)"
    have ok: "msg_ok x" "message_mid x \<noteq> 0" "ids_ok (live ms)" using Cons.prems(1) Some by simp_all
    have f: "f \<noteq> 0" "pass_id f ys = f" "pass_id found (x # ys) = f" for ys
      using ok(2) by (simp_all add: f_def pass_id_def)
    have step: "collect_ue n found acc (m # ms) =
      (if f = message_mid x then map_option (\<lambda>(f, a, ms'). (f, a, None # ms'))
         (collect_ue n f (if length acc = n then acc else acc @ [x]) ms)
       else map_option (\<lambda>(f, a, ms'). (f, a, Some x # ms')) (collect_ue n f acc ms))"
      using msg_ok_id [OF ok(1)] by (simp add: Some f_def)
    define acc' where "acc' = (if length acc = n then acc else acc @ [x])"
    have acc': "length acc' \<le> n" "take n (acc' @ ys) = take n (acc @ x # ys)" for ys
      using Cons.prems(2) by (auto simp: acc'_def take_Cons')
    show ?thesis
    proof (cases "f = message_mid x")
      case True
      then show ?thesis
        using Cons.IH [OF ok(3) acc'(1), of f] acc'(2) f(2,3) Some unfolding step acc'_def [symmetric]
        by (simp add: Let_def del: take_append)
    next
      case False
      then show ?thesis
        using Cons.IH [OF ok(3) Cons.prems(2), of f] f(2,3) Some unfolding step
        by (simp add: Let_def del: take_append)
    qed
  qed
qed (simp add: pass_id_def)

lemma collect_eq:
  "ids_ok (live (concat mss)) \<Longrightarrow> length acc \<le> n \<Longrightarrow>
   collect n found acc mss =
     Some (let f = pass_id found (live (concat mss)) in
       (f, take n (acc @ filter (\<lambda>m. message_mid m = f) (live (concat mss))), map (map (remove_id f)) mss))"
proof (induction mss arbitrary: found acc)
  case (Cons ms mss)
  have ok: "ids_ok (live ms)" "ids_ok (live (concat mss))" using Cons.prems(1) by simp_all
  define f where "f = pass_id found (live ms)"
  define a where "a = take n (acc @ filter (\<lambda>m. message_mid m = f) (live ms))"
  have step: "collect_ue n found acc ms = Some (f, a, map (remove_id f) ms)"
    by (simp add: collect_ue_eq [OF ok(1) Cons.prems(2)] Let_def f_def a_def)
  have pass: "pass_id found (live (concat (ms # mss))) = pass_id f (live (concat mss))"
    using ok(1) by (cases "live ms") (simp_all add: f_def pass_id_def)
  have rest: "take n (a @ filter (\<lambda>m. message_mid m = g) (live (concat mss))) =
      take n (acc @ filter (\<lambda>m. message_mid m = g) (live (concat (ms # mss)))) \<and> map (remove_id f) ms = map (remove_id g) ms"
    if "g = pass_id f (live (concat mss))" for g
  proof (cases "f = 0")
    case True
    then have "live ms = []" using ok(1) by (cases "live ms") (auto simp: f_def pass_id_def split: if_splits)
    moreover from this have "map (remove_id i) ms = ms" for i
      by (auto simp: live_def filter_empty_conv intro!: map_idI)
    ultimately show ?thesis using Cons.prems(2) by (simp add: a_def)
  next
    case False
    then have "g = f" using that by (simp add: pass_id_def)
    then show ?thesis by (simp add: a_def take_append min_def) linarith?
  qed
  show ?case
    using Cons.IH [OF ok(2), of a f] rest pass by (simp add: step a_def Let_def)
qed (simp add: pass_id_def)

lemma aggregate_loop_eq:
  "ids_ok (live (concat mss)) \<Longrightarrow> 0 < n \<Longrightarrow>
   aggregate_loop n fwd mss out = run_groups fwd (group_by_id n (live (concat mss))) out"
proof (induction "length (live (concat mss))" arbitrary: mss out rule: less_induct)
  case less
  note eq = collect_eq [OF less.prems(1), of "[]" n 0]
  show ?case
  proof (cases "live (concat mss)")
    case Nil
    then show ?thesis using eq by (subst aggregate_loop.simps) (simp add: pass_id_def)
  next
    case (Cons m ms)
    let ?f = "message_mid m"
    let ?mss = "map (map (remove_id ?f)) mss"
    have f: "?f \<noteq> 0" using less.prems(1) Cons by simp
    have live: "live (concat ?mss) = filter (\<lambda>x. message_mid x \<noteq> ?f) ms"
      unfolding map_concat [symmetric] live_remove_id Cons by simp
    have "length (live (concat ?mss)) < length (live (concat mss))"
      unfolding live Cons by (simp add: less_Suc_eq_le)
    moreover have "ids_ok (live (concat ?mss))"
      using less.prems(1) unfolding live Cons by (auto simp: ids_ok_def)
    ultimately have IH: "aggregate_loop n fwd ?mss out = run_groups fwd (group_by_id n (live (concat ?mss))) out" for out
      using less.hyps less.prems(2) by blast
    show ?thesis
      using eq f unfolding IH live aggregate_loop.simps [of n fwd mss out] Cons
      by (simp add: pass_id_def Let_def IH live split: option.splits)
  qed
qed

section \<open>Groups\<close>

lemma group_by_id_spec:
  "fst ` set (group_by_id n ms) = message_mid ` set ms \<and> distinct (map fst (group_by_id n ms)) \<and>
   (\<forall>(i, g) \<in> set (group_by_id n ms). g = take n (filter (\<lambda>m. message_mid m = i) ms))"
proof (induction n ms rule: group_by_id.induct)
  case (2 n m ms)
  let ?rest = "filter (\<lambda>x. message_mid x \<noteq> message_mid m) ms"
  have fsts: "fst ` set (group_by_id n ?rest) = message_mid ` set ?rest"
    and dist: "distinct (map fst (group_by_id n ?rest))"
    and grp: "\<And>i g. (i, g) \<in> set (group_by_id n ?rest) \<Longrightarrow> g = take n (filter (\<lambda>m. message_mid m = i) ?rest)"
    using 2 by auto
  have new: "message_mid m \<notin> fst ` set (group_by_id n ?rest)" unfolding fsts by auto
  have "g = take n (filter (\<lambda>x. message_mid x = i) (m # ms))" if i: "(i, g) \<in> set (group_by_id n ?rest)" for i g
  proof -
    have ne: "message_mid m \<noteq> i" using new i by force
    then have "filter (\<lambda>x. message_mid x = i) ?rest = filter (\<lambda>x. message_mid x = i) ms"
      unfolding filter_filter by (intro filter_cong) auto
    then show ?thesis using grp [OF i] ne by simp
  qed
  moreover have "insert (message_mid m) (message_mid ` set ?rest) = message_mid ` set (m # ms)" by auto
  ultimately show ?case using new dist fsts by (auto simp: case_prod_beta)
qed simp

lemma group_by_id_member:
  assumes "(i, g) \<in> set (group_by_id n ms)" "0 < n"
  shows "g \<noteq> [] \<and> length g \<le> n \<and> (\<forall>m \<in> set g. m \<in> set ms \<and> message_mid m = i)"
proof -
  have g: "g = take n (filter (\<lambda>m. message_mid m = i) ms)" and i: "i \<in> message_mid ` set ms"
    using group_by_id_spec [of n ms] assms(1) by (auto simp: image_iff Bex_def)
  show ?thesis using i assms(2) set_take_subset [of n "filter (\<lambda>m. message_mid m = i) ms"]
    unfolding g by (auto simp: filter_empty_conv)
qed

lemma run_groups_total:
  "\<forall>(i, g) \<in> set gs. fwd i g \<noteq> None \<Longrightarrow> run_groups fwd gs out \<noteq> None"
  by (induction fwd gs out rule: run_groups.induct) auto

section \<open>Runs of the proxy\<close>

text \<open>The two things that happen to the queues of the LTE proxy: an uplink message arrives, a subframe ends.\<close>

datatype ue_event = Uplink "u8 list" u16 | Tick u16

definition subframe_step :: "(u16 \<Rightarrow> message_buffer list \<Rightarrow> 'o list option) \<Rightarrow> ue_event
  \<Rightarrow> message_buffer queue list \<Rightarrow> (message_buffer queue list \<times> 'o list) option" where
  "subframe_step fwd ev qs =
     (case ev of
        Uplink msg nem_id \<Rightarrow> map_option (\<lambda>qs'. (qs', [])) (oai_subframe_handle_msg_from_ue True True msg nem_id qs)
      | Tick sfn_sf_tx \<Rightarrow>
          (case dequeue_ue_msgs True sfn_sf_tx qs of None \<Rightarrow> None
           | Some (mss, qs', are_queues_empty) \<Rightarrow>
               map_option (Pair qs') (oai_subframe_aggregate_messages fwd mss)))"

fun run_subframes :: "(u16 \<Rightarrow> message_buffer list \<Rightarrow> 'o list option) \<Rightarrow> ue_event list
  \<Rightarrow> message_buffer queue list \<Rightarrow> (message_buffer queue list \<times> 'o list) option" where
  "run_subframes fwd [] qs = Some (qs, [])"
| "run_subframes fwd (ev # evs) qs =
     (case subframe_step fwd ev qs of None \<Rightarrow> None
      | Some (qs', out) \<Rightarrow> map_option (\<lambda>(qs'', out'). (qs'', out @ out')) (run_subframes fwd evs qs'))"

text \<open>The invariant: every queue is a ring that holds messages made by \<open>handle_msg_from_ue\<close>.\<close>

definition ues_rep :: "message_buffer queue list \<Rightarrow> message_buffer list list \<Rightarrow> bool" where
  "ues_rep qs xss \<longleftrightarrow> list_all2 queue_rep qs xss \<and> (\<forall>m \<in> set (concat xss). msg_ok m)"

lemma init_ues_rep: "ues_rep (init_ues n) (replicate n [])"
  by (induction n) (auto simp: ues_rep_def init_ues_def init_rep)

definition buffered :: "u8 list \<Rightarrow> message_buffer" where
  "buffered msg = \<lparr>magic = MESSAGE_BUFFER_MAGIC, msg_length = length msg, msg_data = msg\<rparr>"

lemma handle_put:
  assumes "uint nem - MIN_UE_NEM_ID = int i" "i < length qs" "length msg \<noteq> 4" "length msg < NFAPI_RX_IND_DATA_MAX"
    "put_queue True (Some (buffered msg)) (qs ! i) = Some (b, q)"
  shows "handle_msg_from_ue True True msg nem qs = Some (qs[i := q])"
proof -
  have "\<not> (int i < 0 \<or> int (length qs) \<le> int i)" "\<not> NFAPI_RX_IND_DATA_MAX \<le> length msg" using assms by simp_all
  then show ?thesis
    using assms(3,5) unfolding handle_msg_from_ue_def Let_def assms(1) buffered_def nat_int
    by (simp only: if_False if_True not_True_eq_False option.case prod.case)
qed

lemma handle_msg_rep:
  assumes rep: "ues_rep qs xss" and len: "length msg < NFAPI_RX_IND_DATA_MAX"
  shows "\<exists>qs'. handle_msg_from_ue True True msg nem qs = Some qs' \<and>
    ues_rep qs' (if length msg \<noteq> 4 \<and> 2 \<le> unat nem \<and> unat nem - 2 < length xss
      then xss[unat nem - 2 := snd (spec_put (buffered msg) (xss ! (unat nem - 2)))] else xss)"
proof (cases "length msg \<noteq> 4 \<and> 2 \<le> unat nem \<and> unat nem - 2 < length xss")
  case True
  define i where "i = unat nem - 2"
  have i: "uint nem - MIN_UE_NEM_ID = int i" "i < length qs" "i < length xss"
    using True rep by (auto simp: MIN_UE_NEM_ID_def ues_rep_def i_def list_all2_lengthD)
  have r: "queue_rep (qs ! i) (xss ! i)" using rep i(2) by (auto simp: ues_rep_def list_all2_conv_all_nth)
  obtain q where q: "put_queue True (Some (buffered msg)) (qs ! i) =
      Some (fst (spec_put (buffered msg) (xss ! i)), q)" "queue_rep q (snd (spec_put (buffered msg) (xss ! i)))"
    using rq.put_spec [OF r, of "buffered msg"] by blast
  have h: "handle_msg_from_ue True True msg nem qs = Some (qs[i := q])"
    using i(1,2) conjunct1 [OF True] len q(1) by (rule handle_put)
  have "msg_ok m" if m: "m \<in> set (concat (xss[i := snd (spec_put (buffered msg) (xss ! i))]))" for m
  proof -
    have "xss ! i \<in> set xss" using i(3) by simp
    then have sub: "set (xss ! i) \<subseteq> set (concat xss)" by auto
    have "set (snd (spec_put (buffered msg) (xss ! i))) \<subseteq> insert (buffered msg) (set (xss ! i))"
      by (auto simp: spec_put_def)
    then have "set (concat (xss[i := snd (spec_put (buffered msg) (xss ! i))])) \<subseteq> insert (buffered msg) (set (concat xss))"
      using sub set_update_subset_insert [of xss i "snd (spec_put (buffered msg) (xss ! i))"]
      unfolding set_concat by blast
    moreover have "msg_ok (buffered msg)" using len by (simp add: msg_ok_def buffered_def)
    ultimately show ?thesis using rep m by (auto simp only: ues_rep_def insert_iff)
  qed
  moreover have "list_all2 queue_rep (qs[i := q]) (xss[i := snd (spec_put (buffered msg) (xss ! i))])"
    using rep q(2) by (auto simp: ues_rep_def intro: list_all2_update_cong)
  ultimately have "ues_rep (qs[i := q]) (xss[i := snd (spec_put (buffered msg) (xss ! i))])"
    unfolding ues_rep_def by blast
  with h show ?thesis using True unfolding i_def [symmetric] by auto
next
  case False
  define k where "k = unat nem"
  have "uint nem = int k" "length qs = length xss"
    using rep by (auto simp: k_def ues_rep_def list_all2_lengthD)
  then have "length msg = 4 \<or> uint nem - MIN_UE_NEM_ID < 0 \<or> int (length qs) \<le> uint nem - MIN_UE_NEM_ID"
    using False unfolding k_def [symmetric] by (auto simp: MIN_UE_NEM_ID_def)
  then show ?thesis using False rep unfolding handle_msg_from_ue_def Let_def by auto
qed

lemma uplink_rep:
  assumes rep: "ues_rep qs xss" and len: "length msg < NFAPI_RX_IND_DATA_MAX"
  shows "\<exists>qs' xss'. handle_msg_from_ue True True msg nem qs = Some qs' \<and> ues_rep qs' xss' \<and>
    set (concat xss') \<subseteq> set (concat xss) \<union> {buffered msg}"
proof -
  obtain qs' where h: "handle_msg_from_ue True True msg nem qs = Some qs'"
    and r: "ues_rep qs' (if length msg \<noteq> 4 \<and> 2 \<le> unat nem \<and> unat nem - 2 < length xss
      then xss[unat nem - 2 := snd (spec_put (buffered msg) (xss ! (unat nem - 2)))] else xss)" (is "ues_rep qs' ?xss")
    using handle_msg_rep [OF rep len, of nem] by blast
  have "set (concat ?xss) \<subseteq> set (concat xss) \<union> {buffered msg}"
  proof (cases "length msg \<noteq> 4 \<and> 2 \<le> unat nem \<and> unat nem - 2 < length xss")
    case True
    then have "xss ! (unat nem - 2) \<in> set xss" by simp
    then have "set (xss ! (unat nem - 2)) \<subseteq> set (concat xss)" by auto
    moreover have "set (snd (spec_put (buffered msg) ys)) \<subseteq> insert (buffered msg) (set ys)" for ys
      by (auto simp: spec_put_def)
    ultimately show ?thesis
      using True set_update_subset_insert [of xss "unat nem - 2" "snd (spec_put (buffered msg) (xss ! (unat nem - 2)))"]
      unfolding set_concat by fastforce
  qed auto
  then show ?thesis using h r by blast
qed

text \<open>A radio: its reader of SFNs accepts messages with certain ids only.  What one tick does is then the same for both.\<close>

locale radio = sfn_reader +
  fixes ids :: "u16 list"
  assumes nonzero: "0 \<notin> set ids"
    and read_id: "msg_ok m \<Longrightarrow> relevant read m \<Longrightarrow> message_mid m \<in> set ids"
begin

lemma tick_rep:
  assumes rep: "ues_rep qs xss" and n: "0 < n"
    and fwd: "\<forall>i g. i \<in> set ids \<longrightarrow> g \<noteq> [] \<longrightarrow> (\<forall>m \<in> set g. msg_ok m \<and> relevant read m \<and> message_mid m = i \<and> m \<in> set (concat xss))
      \<longrightarrow> fwd i g \<noteq> None"
  shows "\<exists>ps qs' e out xss'. dequeue_all True get old k 0xFFFF qs = Some (ps, qs', e) \<and>
    aggregate_loop n fwd (map (map Some) ps) [] = Some out \<and> ues_rep qs' xss' \<and> set (concat xss') \<subseteq> set (concat xss)"
proof -
  have ok: "list_all2 queue_rep qs xss" "\<forall>m \<in> set (concat xss). msg_ok m" using rep by (auto simp: ues_rep_def)
  obtain ps qs' e xss' where d: "dequeue_all True get old k 0xFFFF qs = Some (ps, qs', e)" "list_all2 queue_rep qs' xss'"
    "set (concat xss') \<subseteq> set (concat xss)"
    "\<forall>m \<in> set (concat ps). m \<in> set (concat xss) \<and> relevant read m"
    using all_total [OF ok] by blast
  have mid: "msg_ok m \<and> message_mid m \<in> set ids" if "m \<in> set (concat ps)" for m
    using d(4) that ok(2) read_id [of m] by blast
  then have "ids_ok (live (concat (map (map Some) ps)))"
    using nonzero unfolding map_concat [symmetric] live_simps(5) ids_ok_def by metis
  then have eq: "aggregate_loop n fwd (map (map Some) ps) [] = run_groups fwd (group_by_id n (concat ps)) []"
    by (subst aggregate_loop_eq) (use n in \<open>auto simp: map_concat [symmetric]\<close>)
  have "fwd i g \<noteq> None" if g: "(i, g) \<in> set (group_by_id n (concat ps))" for i g
  proof -
    have ne: "g \<noteq> []" and mem: "\<And>m. m \<in> set g \<Longrightarrow> m \<in> set (concat ps) \<and> message_mid m = i"
      using group_by_id_member [OF g n] by auto
    have "\<forall>m \<in> set g. msg_ok m \<and> relevant read m \<and> message_mid m = i \<and> m \<in> set (concat xss)" using mem mid d(4) by blast
    moreover have "hd g \<in> set g" using ne by simp
    then have "i \<in> set ids" using mem mid by metis
    ultimately show ?thesis using fwd ne by blast
  qed
  then have "\<forall>(i, g) \<in> set (group_by_id n (concat ps)). fwd i g \<noteq> None" by blast
  from run_groups_total [OF this, of "[]"] obtain out where "run_groups fwd (group_by_id n (concat ps)) [] = Some out"
    by auto
  moreover have "ues_rep qs' xss'" using d(2,3) ok(2) unfolding ues_rep_def by blast
  ultimately show ?thesis using d(1,3) eq by auto
qed

end

interpretation lte_radio: radio get_sfnsf read_sfnsf lte_uplink_ids
proof
  show "message_mid m \<in> set lte_uplink_ids" if "msg_ok m" "relevant read_sfnsf m" for m
    using that read_message_id(1) [of m] by (fastforce simp: relevant_def message_mid_def)
qed (rule uplink_ids_nonzero)

interpretation nr_radio: radio get_sfnslot read_sfnslot nr_uplink_ids
proof
  show "message_mid m \<in> set nr_uplink_ids" if "msg_ok m" "relevant read_sfnslot m" for m
    using that read_message_id(2) [of m] by (fastforce simp: relevant_def message_mid_def)
qed (rule uplink_ids_nonzero)

lemma subframe_step_rep:
  assumes rep: "ues_rep qs xss"
    and ev: "\<And>msg nem. ev = Uplink msg nem \<Longrightarrow> length msg < NFAPI_RX_IND_DATA_MAX"
    and fwd: "\<And>i g. i \<in> set lte_uplink_ids \<Longrightarrow> g \<noteq> [] \<Longrightarrow> \<forall>m \<in> set g. msg_ok m \<and> relevant read_sfnsf m \<and> message_mid m = i \<and> m \<in> set (concat xss)
      \<Longrightarrow> fwd i g \<noteq> None"
  shows "\<exists>qs' out xss'. subframe_step fwd ev qs = Some (qs', out) \<and> ues_rep qs' xss' \<and>
    set (concat xss') \<subseteq> set (concat xss) \<union> (case ev of Uplink msg nem \<Rightarrow> {buffered msg} | Tick tx \<Rightarrow> {})"
proof (cases ev)
  case (Uplink msg nem)
  then show ?thesis
    using uplink_rep [OF rep ev [OF Uplink], of nem] by (auto simp: subframe_step_def oai_subframe_handle_msg_from_ue_def)
next
  case (Tick tx)
  have n: "0 < MAX_SUBFRAME_MSGS" by (simp add: MAX_SUBFRAME_MSGS_def)
  have f: "\<forall>i g. i \<in> set lte_uplink_ids \<longrightarrow> g \<noteq> [] \<longrightarrow> (\<forall>m \<in> set g. msg_ok m \<and> relevant read_sfnsf m \<and> message_mid m = i \<and> m \<in> set (concat xss))
      \<longrightarrow> fwd i g \<noteq> None" using fwd by blast
  obtain ps qs' e out xss' where "dequeue_ue_msgs True tx qs = Some (ps, qs', e)"
    "oai_subframe_aggregate_messages fwd ps = Some out" "ues_rep qs' xss'" "set (concat xss') \<subseteq> set (concat xss)"
    unfolding dequeue_ue_msgs_def oai_subframe_aggregate_messages_def using lte_radio.tick_rep [OF rep n f] by blast
  then show ?thesis by (auto simp: subframe_step_def Tick)
qed

text \<open>The NR proxy: the same two events, a slot ends instead of a subframe.\<close>

definition slot_step :: "(u16 \<Rightarrow> message_buffer list \<Rightarrow> 'o list option) \<Rightarrow> ue_event
  \<Rightarrow> message_buffer queue list \<Rightarrow> (message_buffer queue list \<times> 'o list) option" where
  "slot_step fwd ev qs =
     (case ev of
        Uplink msg nem_id \<Rightarrow> map_option (\<lambda>qs'. (qs', [])) (oai_slot_handle_msg_from_ue True True msg nem_id qs)
      | Tick sfn_slot_tx \<Rightarrow>
          (case dequeue_ue_slot_msgs True sfn_slot_tx qs of None \<Rightarrow> None
           | Some (mss, qs', are_queues_empty) \<Rightarrow>
               map_option (Pair qs') (oai_slot_aggregate_messages fwd mss)))"

fun run_slots :: "(u16 \<Rightarrow> message_buffer list \<Rightarrow> 'o list option) \<Rightarrow> ue_event list
  \<Rightarrow> message_buffer queue list \<Rightarrow> (message_buffer queue list \<times> 'o list) option" where
  "run_slots fwd [] qs = Some (qs, [])"
| "run_slots fwd (ev # evs) qs =
     (case slot_step fwd ev qs of None \<Rightarrow> None
      | Some (qs', out) \<Rightarrow> map_option (\<lambda>(qs'', out'). (qs'', out @ out')) (run_slots fwd evs qs'))"

lemma slot_step_rep:
  assumes rep: "ues_rep qs xss"
    and ev: "\<And>msg nem. ev = Uplink msg nem \<Longrightarrow> length msg < NFAPI_RX_IND_DATA_MAX"
    and fwd: "\<And>i g. i \<in> set nr_uplink_ids \<Longrightarrow> g \<noteq> [] \<Longrightarrow> \<forall>m \<in> set g. msg_ok m \<and> relevant read_sfnslot m \<and> message_mid m = i \<and> m \<in> set (concat xss)
      \<Longrightarrow> fwd i g \<noteq> None"
  shows "\<exists>qs' out xss'. slot_step fwd ev qs = Some (qs', out) \<and> ues_rep qs' xss' \<and>
    set (concat xss') \<subseteq> set (concat xss) \<union> (case ev of Uplink msg nem \<Rightarrow> {buffered msg} | Tick tx \<Rightarrow> {})"
proof (cases ev)
  case (Uplink msg nem)
  then show ?thesis
    using uplink_rep [OF rep ev [OF Uplink], of nem] by (auto simp: slot_step_def oai_slot_handle_msg_from_ue_def)
next
  case (Tick tx)
  have n: "0 < MAX_SLOT_MSGS" by (simp add: MAX_SLOT_MSGS_def)
  have f: "\<forall>i g. i \<in> set nr_uplink_ids \<longrightarrow> g \<noteq> [] \<longrightarrow> (\<forall>m \<in> set g. msg_ok m \<and> relevant read_sfnslot m \<and> message_mid m = i \<and> m \<in> set (concat xss))
      \<longrightarrow> fwd i g \<noteq> None" using fwd by blast
  obtain ps qs' e out xss' where "dequeue_ue_slot_msgs True tx qs = Some (ps, qs', e)"
    "oai_slot_aggregate_messages fwd ps = Some out" "ues_rep qs' xss'" "set (concat xss') \<subseteq> set (concat xss)"
    unfolding dequeue_ue_slot_msgs_def oai_slot_aggregate_messages_def using nr_radio.tick_rep [OF rep n f] by blast
  then show ?thesis by (auto simp: slot_step_def Tick)
qed

text \<open>Runs of either radio: what is in the queues came in by some event.\<close>

locale event_run =
  fixes step :: "(u16 \<Rightarrow> message_buffer list \<Rightarrow> 'o list option) \<Rightarrow> ue_event \<Rightarrow> message_buffer queue list
      \<Rightarrow> (message_buffer queue list \<times> 'o list) option"
    and run :: "(u16 \<Rightarrow> message_buffer list \<Rightarrow> 'o list option) \<Rightarrow> ue_event list \<Rightarrow> message_buffer queue list
      \<Rightarrow> (message_buffer queue list \<times> 'o list) option"
    and read :: "message_buffer \<Rightarrow> u16 option"
    and ids :: "u16 list"
  assumes run_Nil: "run fwd [] qs = Some (qs, [])"
    and run_Cons: "run fwd (ev # evs) qs = (case step fwd ev qs of None \<Rightarrow> None
      | Some (qs', out) \<Rightarrow> map_option (\<lambda>(qs'', out'). (qs'', out @ out')) (run fwd evs qs'))"
    and step_rep: "ues_rep qs xss \<Longrightarrow> (\<And>msg nem. ev = Uplink msg nem \<Longrightarrow> length msg < NFAPI_RX_IND_DATA_MAX) \<Longrightarrow>
      (\<And>i g. i \<in> set ids \<Longrightarrow> g \<noteq> [] \<Longrightarrow>
        \<forall>m \<in> set g. msg_ok m \<and> relevant read m \<and> message_mid m = i \<and> m \<in> set (concat xss) \<Longrightarrow> fwd i g \<noteq> None) \<Longrightarrow>
      \<exists>qs' out xss'. step fwd ev qs = Some (qs', out) \<and> ues_rep qs' xss' \<and>
        set (concat xss') \<subseteq> set (concat xss) \<union> (case ev of Uplink msg nem \<Rightarrow> {buffered msg} | Tick tx \<Rightarrow> {})"
begin

lemma run_total:
  assumes fwd: "\<And>i g. i \<in> set ids \<Longrightarrow> g \<noteq> [] \<Longrightarrow>
      \<forall>m \<in> set g. msg_ok m \<and> relevant read m \<and> message_mid m = i \<and> Q m \<Longrightarrow> fwd i g \<noteq> None"
    and evs: "\<forall>msg nem. Uplink msg nem \<in> set evs \<longrightarrow> length msg < NFAPI_RX_IND_DATA_MAX \<and> Q (buffered msg)"
    and rep: "ues_rep qs xss" "\<forall>m \<in> set (concat xss). Q m"
  shows "\<exists>res. run fwd evs qs = Some res"
  using evs rep
proof (induction evs arbitrary: qs xss)
  case (Cons ev evs)
  have "\<exists>qs' out xss'. step fwd ev qs = Some (qs', out) \<and> ues_rep qs' xss' \<and>
    set (concat xss') \<subseteq> set (concat xss) \<union> (case ev of Uplink msg nem \<Rightarrow> {buffered msg} | Tick tx \<Rightarrow> {})"
  proof (rule step_rep [OF Cons.prems(2)])
    show "length msg < NFAPI_RX_IND_DATA_MAX" if "ev = Uplink msg nem" for msg nem
      using Cons.prems(1) that by auto
    show "fwd i g \<noteq> None" if "i \<in> set ids" "g \<noteq> []"
      "\<forall>m \<in> set g. msg_ok m \<and> relevant read m \<and> message_mid m = i \<and> m \<in> set (concat xss)" for i g
      using fwd [OF that(1,2)] that(3) Cons.prems(3) by blast
  qed
  then obtain qs' out xss' where s: "step fwd ev qs = Some (qs', out)" "ues_rep qs' xss'"
    "set (concat xss') \<subseteq> set (concat xss) \<union> (case ev of Uplink msg nem \<Rightarrow> {buffered msg} | Tick tx \<Rightarrow> {})" by blast
  have "Q m" if "m \<in> set (concat xss')" for m
    using s(3) that Cons.prems(1,3) by (cases ev) fastforce+
  then have "\<exists>res. run fwd evs qs' = Some res"
    using Cons.prems(1) by (intro Cons.IH [OF _ s(2)]) auto
  then show ?case using s(1) by (auto simp: run_Cons)
qed (simp add: run_Nil)

end

interpretation lte_run: event_run subframe_step run_subframes read_sfnsf lte_uplink_ids
  by unfold_locales (simp, simp, rule subframe_step_rep)

interpretation nr_run: event_run slot_step run_slots read_sfnslot nr_uplink_ids
  by unfold_locales (simp, simp, rule slot_step_rep)

section \<open>Properties\<close>

text \<open>A message of an UE with nothing but the ids and the SFN/SF, for examples.\<close>

definition sample_msg :: "u16 \<Rightarrow> u16 \<Rightarrow> u8 list" where
  "sample_msg mid sf = [0, 0] @ be16 mid @ replicate 12 0 @ be16 sf"

definition queue_of :: "message_buffer list \<Rightarrow> message_buffer queue" where
  "queue_of xs = the (put_all (\<lambda>m. put_queue True (Some m)) xs init_queue)"

lemma queue_of_rep: "length xs \<le> MAX_QUEUE_SIZE \<Longrightarrow> queue_rep (queue_of xs) xs"
  using rq.put_all_rep [OF rq.new_rep, of xs] by (auto simp: queue_of_def)

lemma length_sample_msg: "length (sample_msg mid sf) = 18"
  by (simp add: sample_msg_def)

lemma sample_msg_ok:
  assumes "mid \<in> set lte_uplink_ids"
  shows "msg_ok (buffered (sample_msg mid sf)) \<and> read_sfnsf (buffered (sample_msg mid sf)) = Some sf \<and>
    relevant read_sfnsf (buffered (sample_msg mid sf)) \<and> message_mid (buffered (sample_msg mid sf)) = mid"
proof -
  let ?d = "sample_msg mid sf"
  have len: "length ?d = 18" by (simp add: sample_msg_def)
  have r0: "rbuf_ok (msg_cursor ?d 18 0)" "rb_rest (msg_cursor ?d 18 0) = be16 0 @ be16 mid @ replicate 12 0 @ be16 sf"
    "rbuf_ok (msg_cursor ?d 18 16)" "rb_rest (msg_cursor ?d 18 16) = be16 sf @ []"
    using len by (simp_all add: msg_cursor_def rbuf_ok_def rb_rest_def sample_msg_def be16_def eval_nat_numeral)
  note a = readsD [OF reads_pull16 r0(1,2)]
  have "rbuf_ok (rb_adv 2 (msg_cursor ?d 18 0))" "rb_rest (rb_adv 2 (msg_cursor ?d 18 0)) = be16 mid @ replicate 12 0 @ be16 sf"
    unfolding rb_rest_adv r0(2) by (simp_all add: rbuf_ok_def rb_adv_def msg_cursor_def len be16_def)
  note b = readsD [OF reads_pull16 this]
  note c = readsD [OF reads_pull16 r0(3,4)]
  have "pull_id ?d 18 = Some mid" using a b by (simp add: pull_id_def)
  then show ?thesis
    using assms c pull_id_message_id [of "buffered ?d"] len
    by (simp add: msg_ok_def buffered_def NFAPI_RX_IND_DATA_MAX_def read_sfnsf_def get_sfnsf_def relevant_def message_mid_def)
qed



text \<open>
  C5. \<open>oai_subframe_aggregate_messages\<close> and \<open>oai_slot_aggregate_messages\<close> return and
  implement the abstract grouping: the aggregating function is called once per message id,
  in the order of the first occurrences over all UEs, with the first eight messages of that
  id; further ones are dropped.  Eight is the limit for all UEs together, so of the
  messages of nine UEs the last is lost.
\<close>

theorem aggregation_groups:
  assumes ok: "ids_ok (concat mss)"
  defines "gs \<equiv> group_by_id 8 (concat mss)"
  shows "oai_subframe_aggregate_messages fwd mss = run_groups fwd gs [] \<and>
    oai_slot_aggregate_messages fwd mss = run_groups fwd gs [] \<and>
    distinct (map fst gs) \<and> fst ` set gs = message_mid ` set (concat mss) \<and>
    (\<forall>(i, g) \<in> set gs. g = take 8 (filter (\<lambda>m. message_mid m = i) (concat mss)))"
proof -
  have "aggregate_loop 8 fwd (map (map Some) mss) [] = run_groups fwd gs []"
    using ok aggregate_loop_eq [of "map (map Some) mss" 8 fwd "[]"]
    unfolding map_concat [symmetric] live_simps(5) gs_def by simp
  then show ?thesis
    using group_by_id_spec [of 8 "concat mss"]
    by (simp add: oai_subframe_aggregate_messages_def oai_slot_aggregate_messages_def MAX_SUBFRAME_MSGS_def
        MAX_SLOT_MSGS_def gs_def)
qed

theorem aggregation_groups_witness:
  defines "m \<equiv> buffered (sample_msg 0x86 0x10)"
  shows "oai_subframe_aggregate_messages (\<lambda>i g. Some [(i, length g)]) (replicate 9 [m]) = Some [(0x86, 8)]"
proof -
  have "0x86 \<in> set lte_uplink_ids" by (simp add: lte_uplink_ids_def lte_ids)
  from sample_msg_ok [OF this, of "0x10", folded m_def]
  have m: "msg_ok m" "message_mid m = 0x86" by simp_all
  have c: "concat (replicate 9 [m]) = replicate 9 m" by (simp add: eval_nat_numeral)
  have "ids_ok (concat (replicate 9 [m]))" using m unfolding c ids_ok_def by simp
  from aggregation_groups [OF this, of "\<lambda>i g. Some [(i, length g)]"] show ?thesis
    using m unfolding c by (simp add: eval_nat_numeral)
qed

text \<open>
  The age check of \<open>dequeue_ue_msgs\<close> does not wrap: a message that is \<open>n\<close> subframes
  behind the transmit counter is dropped exactly when \<open>n\<close> is more than 200 and the counter
  has not passed SFN 1023 since.  After the wrap a message of any age goes through.
\<close>

theorem stale_window:
  assumes rep: "queue_rep q [m]" and ok: "msg_ok m" "msg_length m \<noteq> 4" "read_sfnsf m = Some s"
    and s: "sfnsf_ok s" "sfnsf_ok tx" and age: "n < 10240" "sfnsf_dec tx = (sfnsf_dec s + n) mod 10240"
  shows "map_option fst (dequeue_ue_msgs True tx [q]) =
    Some [if 200 < n \<and> sfnsf_dec s + n < 10240 then [] else [m]]"
proof -
  have d: "get_sf_delta a b = int (sfnsf_dec a) - int (sfnsf_dec b)" for a b
    by (simp add: get_sf_delta_def Let_def sfnsf_dec_eq drop_bit_eq_div low_bits)
  have "sfnsf_dec s < 10240" using s(1) by (rule sfnsf_dec_less)
  then have old: "200 < get_sf_delta tx s \<longleftrightarrow> 200 < n \<and> sfnsf_dec s + n < 10240"
    unfolding d age(2) using age(1) by (cases "sfnsf_dec s + n < 10240") (auto simp: mod_if)
  have "s \<noteq> 0xFFFF" using s(1) by (auto simp: sfnsf_ok_def)
  then have ne: "\<forall>m \<in> set (concat [[m]]). msg_ok m \<and> read_sfnsf m \<noteq> Some 0xFFFF" using ok by simp
  have M: "master_of read_sfnsf 0xFFFF (concat [[m]]) = s" using ok by (simp add: master_of_def relevant_def)
  have reps: "list_all2 queue_rep [q] [[m]]" using rep by simp
  from lte_reader.all_rep [OF reps ne M [symmetric], of "\<lambda>s. 200 < get_sf_delta tx s" 8]
  show ?thesis
    using ok unfolding dequeue_ue_msgs_def MAX_SUBFRAME_MSGS_def
    by (auto simp: of_sfn_def kept_def relevant_def old)
qed

theorem stale_window_witness:
  defines "m \<equiv> buffered (sample_msg 0x86 0x3FF9)"
  shows "map_option fst (dequeue_ue_msgs True 0x3E80 [queue_of [m]]) = Some [[m]]"
proof -
  have "0x86 \<in> set lte_uplink_ids" by (simp add: lte_uplink_ids_def lte_ids)
  note s = sample_msg_ok [OF this, of "0x3FF9", folded m_def]
  have q: "queue_rep (queue_of [m]) [m]" by (simp add: queue_of_rep MAX_QUEUE_SIZE_def)
  show ?thesis
    using stale_window [OF q, of "0x3FF9" "0x3E80" 10001] s
    by (simp add: sfnsf_ok_def sfnsf_dec_def sfnsf_simps relevant_def)
qed

text \<open>
  The value \<open>0xFFFF\<close>, which stands for no master SFN/SF yet, is not excluded as the SFN/SF
  of a message: a queue that begins with such a message gives the messages of two different
  SFN/SF to one aggregation.
\<close>

theorem sentinel_mixes:
  defines "a \<equiv> buffered (sample_msg 0x86 0xFFFF)" and "b \<equiv> buffered (sample_msg 0x86 0x10)"
  shows "map_option fst (dequeue_ue_msgs True 0x10 [queue_of [a, b]]) = Some [[a, b]] \<and>
    read_sfnsf a \<noteq> read_sfnsf b"
proof -
  have "0x86 \<in> set lte_uplink_ids" by (simp add: lte_uplink_ids_def lte_ids)
  note s = sample_msg_ok [OF this, of "0xFFFF", folded a_def] sample_msg_ok [OF this, of "0x10", folded b_def]
  let ?old = "\<lambda>s. 200 < get_sf_delta 0x10 s"
  have d: "get_sf_delta 0x10 0xFFFF = - 40955" "get_sf_delta 0x10 0x10 = 0" by (simp_all add: get_sf_delta_def Let_def)
  have q: "queue_rep (queue_of [a, b]) [a, b]" by (simp add: queue_of_rep MAX_QUEUE_SIZE_def)
  obtain q1 where q1: "queue_rep q1 [b]"
    "dequeue_loop True get_sfnsf ?old 8 0xFFFF [] (queue_of [a, b]) = dequeue_loop True get_sfnsf ?old 8 0xFFFF [a] q1"
    using lte_reader.loop_take [OF q, of "0xFFFF" "0xFFFF" ?old "[]" 8] s(1) d by auto
  obtain q2 where q2: "queue_rep q2 []"
    "dequeue_loop True get_sfnsf ?old 8 0xFFFF [a] q1 = dequeue_loop True get_sfnsf ?old 8 0x10 [a, b] q2"
    using lte_reader.loop_take [OF q1(1), of "0x10" "0xFFFF" ?old "[a]" 8] s(2) d by auto
  obtain q3 where "get_queue True q2 = Some (None, q3)" using rq.get_spec [OF q2(1)] by (auto simp: spec_get_def)
  then have "dequeue_loop True get_sfnsf ?old 8 0x10 [a, b] q2 = Some (0x10, [a, b], q3, True)"
    by (subst dequeue_loop.simps) simp
  then show ?thesis using q1(2) q2(2) s by (simp add: dequeue_ue_msgs_def MAX_SUBFRAME_MSGS_def)
qed

text \<open>
  C39. Receiving an uplink message.  A dummy of four bytes and a message with the nem id of no UE
  leave the queues alone; a message that is too long for the buffer fails an assertion,
  before it is looked at; any other one is appended to the queue of its UE, or dropped when
  that queue is full.
\<close>

theorem uplink_enqueued:
  fixes msg :: "u8 list" and nem :: u16
  assumes rep: "ues_rep qs xss"
  defines "known \<equiv> length msg \<noteq> 4 \<and> 2 \<le> unat nem \<and> unat nem - 2 < length xss"
    and "ys \<equiv> xss ! (unat nem - 2)"
  shows "if known \<and> NFAPI_RX_IND_DATA_MAX \<le> length msg
      then oai_subframe_handle_msg_from_ue True True msg nem qs = None
      else \<exists>qs'. oai_subframe_handle_msg_from_ue True True msg nem qs = Some qs' \<and>
        (\<not> known \<longrightarrow> qs' = qs) \<and>
        (known \<longrightarrow> ues_rep qs' (xss[unat nem - 2 :=
           if length ys < 512 then ys @ [buffered msg] else ys]))"
proof -
  define k where "k = unat nem"
  have n: "uint nem = int k" "length qs = length xss"
    using rep by (auto simp: k_def ues_rep_def list_all2_lengthD)
  have unknown: "handle_msg_from_ue True True msg nem qs = Some qs" if "\<not> known"
  proof -
    have "length msg = 4 \<or> int k - MIN_UE_NEM_ID < 0 \<or> int (length xss) \<le> int k - MIN_UE_NEM_ID"
      using that unfolding known_def k_def [symmetric] by (auto simp: MIN_UE_NEM_ID_def)
    then show ?thesis unfolding handle_msg_from_ue_def Let_def n by auto
  qed
  have big: "handle_msg_from_ue True True msg nem qs = None" if "known" "NFAPI_RX_IND_DATA_MAX \<le> length msg"
  proof -
    have "length msg \<noteq> 4" "\<not> (int k - MIN_UE_NEM_ID < 0 \<or> int (length xss) \<le> int k - MIN_UE_NEM_ID)"
      using that(1) unfolding known_def k_def [symmetric] by (auto simp: MIN_UE_NEM_ID_def)
    then show ?thesis using that(2) unfolding handle_msg_from_ue_def Let_def n by simp
  qed
  have "\<exists>qs'. handle_msg_from_ue True True msg nem qs = Some qs' \<and>
      ues_rep qs' (xss[unat nem - 2 := if length ys < 512 then ys @ [buffered msg] else ys])"
    if "known" "length msg < NFAPI_RX_IND_DATA_MAX"
    using handle_msg_rep [OF rep that(2), of nem] that(1)
    by (auto simp: known_def ys_def spec_put_def MAX_QUEUE_SIZE_def split: if_splits)
  then show ?thesis using unknown big unfolding oai_subframe_handle_msg_from_ue_def by (cases known) (auto simp: not_le)
qed

theorem uplink_enqueued_witness:
  "\<exists>qs'. oai_subframe_handle_msg_from_ue True True (sample_msg 0x86 0) 3 (init_ues 2) = Some qs' \<and>
     ues_rep qs' [[], [buffered (sample_msg 0x86 0)]]"
proof -
  have "unat (3 :: u16) = 3" by simp
  moreover have "replicate 2 [] = [[], [] :: message_buffer list]" by (simp add: numeral_2_eq_2)
  ultimately show ?thesis
    using uplink_enqueued [OF init_ues_rep, of "sample_msg 0x86 0" 3 2]
    by (simp add: length_sample_msg NFAPI_RX_IND_DATA_MAX_def)
qed

end
