(* ===== verification/Ue_Aggregate.thy ===== *)
theory Ue_Aggregate
  imports Ue_Proxy P7_Header P7_Rx
begin

text \<open>
  The aggregating functions of the LTE side of \<^verbatim>\<open>src/nfapi_pnf.c\<close>: the messages of one id are
  unpacked, their PDUs are collected in one indication and that is handed to the eNB
  (\<^verbatim>\<open>oai_nfapi_crc_indication\<close> and its siblings, here the calls of type \<open>enb_call\<close>).
  \<open>nfapi_p7_message_unpack\<close> appears as its branch for the id of the group, with the structure
  it has cleared before; it is called without a codec configuration.
  The list of PDUs of the result is what was stored in the array of \<open>max_pdu\<close> entries; the
  count is the field next to it.  A list shorter than its count stands for a null or too
  short array: reading behind it, an \<^verbatim>\<open>abort\<close> and a failed \<^verbatim>\<open>assert\<close> are \<open>None\<close>.
  Comparisons that only write to the log are left out.
\<close>

section \<open>Unpacking a message\<close>

definition zero_indication :: "(u16, 'p) pdu_list indication" where
  "zero_indication = \<lparr>ind_sfn_sf = 0, ind_body = zero_tlv \<lparr>number_of_pdus = 0, pdus = []\<rparr>, ind_vendor_extension = None\<rparr>"

definition p7_unpack_case :: "u16 \<Rightarrow> ((u16, 'p) pdu_list indication \<Rightarrow> rbuf \<Rightarrow> (u16, 'p) pdu_list indication option)
  \<Rightarrow> message_buffer \<Rightarrow> (p7_header \<times> (u16, 'p) pdu_list indication) option" where
  "p7_unpack_case mid unpack msg =
     (case p7_frame_unpack (take (msg_length msg) (msg_data msg)) of None \<Rightarrow> None
      | Some (h, r) \<Rightarrow>
          if message_id h = mid then map_option (Pair h) (unpack zero_indication r) else None)"

definition unpack_rach_msg where
  "unpack_rach_msg alloc_ok = p7_unpack_case NFAPI_RACH_INDICATION (unpack_rach_indication alloc_ok None)"
definition unpack_crc_msg where
  "unpack_crc_msg alloc_ok = p7_unpack_case NFAPI_CRC_INDICATION (unpack_crc_indication alloc_ok None)"
definition unpack_rx_msg where
  "unpack_rx_msg alloc_ok = p7_unpack_case NFAPI_RX_ULSCH_INDICATION (unpack_rx_indication alloc_ok None)"
definition unpack_cqi_msg where
  "unpack_cqi_msg alloc_ok = p7_unpack_case NFAPI_RX_CQI_INDICATION (unpack_cqi_indication alloc_ok None)"
definition unpack_harq_msg where
  "unpack_harq_msg alloc_ok = p7_unpack_case NFAPI_HARQ_INDICATION (unpack_harq_indication alloc_ok None)"
definition unpack_sr_msg where
  "unpack_sr_msg alloc_ok = p7_unpack_case NFAPI_RX_SR_INDICATION (unpack_sr_indication alloc_ok None)"

section \<open>Collecting PDUs\<close>

type_synonym 'p agg = "p7_header \<times> (u16, 'p) pdu_list indication"

definition zero_agg :: "'p agg" where
  "zero_agg = (\<lparr>phy_id = 0, message_id = 0, message_length = 0, m_segment_sequence = 0, checksum = 0,
     transmit_timestamp = 0\<rparr>, zero_indication)"

text \<open>
  One message: header, SFN/SF and TL header are taken over from it, its count is added and
  its PDUs are copied as long as there is room.
\<close>

definition add_indication :: "nat \<Rightarrow> 'p agg \<Rightarrow> 'p agg \<Rightarrow> 'p agg" where
  "add_indication max_pdu agg got =
     (let a = tlv_val (ind_body (snd agg)); b = tlv_val (ind_body (snd got)) in
      (fst got, (snd agg)\<lparr>ind_sfn_sf := ind_sfn_sf (snd got),
         ind_body := \<lparr>tlv_hdr = tlv_hdr (ind_body (snd got)),
           tlv_val = \<lparr>number_of_pdus = number_of_pdus a + number_of_pdus b,
             pdus = take max_pdu (pdus a @ take (unat (number_of_pdus b)) (pdus b))\<rparr>\<rparr>\<rparr>))"

text \<open>
  The loop over the messages.  The inner \<open>None\<close> is the early return that sends nothing.
  \<open>nonempty\<close>: an indication without PDUs is an \<^verbatim>\<open>abort\<close> for RX and CQI.
\<close>

fun aggregate_pdus :: "nat \<Rightarrow> bool \<Rightarrow> (message_buffer \<Rightarrow> 'p agg option) \<Rightarrow> 'p agg \<Rightarrow> message_buffer list
  \<Rightarrow> 'p agg option option" where
  "aggregate_pdus max_pdu nonempty unpack agg [] = Some (Some agg)"
| "aggregate_pdus max_pdu nonempty unpack agg (msg # msgs) =
     (if NFAPI_RX_IND_DATA_MAX < msg_length msg then None
      else case unpack msg of None \<Rightarrow> Some None
      | Some (h, ind) \<Rightarrow>
          (let b = tlv_val (ind_body ind); a = tlv_val (ind_body (snd agg)) in
           if nonempty \<and> number_of_pdus b = 0 then None
           else if ind_vendor_extension ind \<noteq> None then None
           else if length (pdus b) < min (unat (number_of_pdus b)) (max_pdu - length (pdus a)) then None
           else let agg' = add_indication max_pdu agg (h, ind) in
                if length (pdus (tlv_val (ind_body (snd agg')))) = max_pdu then Some (Some agg')
                else aggregate_pdus max_pdu nonempty unpack agg' msgs))"

definition aggregate_ind :: "bool \<Rightarrow> nat \<Rightarrow> bool \<Rightarrow> (message_buffer \<Rightarrow> 'p agg option) \<Rightarrow> ('p agg \<Rightarrow> 'o)
  \<Rightarrow> message_buffer list \<Rightarrow> 'o list option" where
  "aggregate_ind alloc_ok max_pdu nonempty unpack send msgs =
     (if msgs = [] \<or> \<not> alloc_ok then None
      else map_option (\<lambda>res. case res of None \<Rightarrow> [] | Some agg \<Rightarrow> [send agg])
             (aggregate_pdus max_pdu nonempty unpack zero_agg msgs))"

section \<open>The aggregating functions\<close>

datatype enb_call =
    oai_nfapi_rach_ind "(rach_tlvs pdu) agg"
  | oai_nfapi_crc_indication "(crc_tlvs pdu) agg"
  | oai_nfapi_rx_ind "rx_pdu agg"
  | oai_nfapi_cqi_indication "(cqi_tlvs pdu \<times> u8 list) agg"
  | oai_nfapi_harq_indication "(harq_tlvs pdu) agg"
  | oai_nfapi_sr_indication "(sr_tlvs pdu) agg"

fun forward_rach :: "bool \<Rightarrow> message_buffer list \<Rightarrow> enb_call list option" where
  "forward_rach alloc_ok [] = Some []"
| "forward_rach alloc_ok (msg # msgs) =
     (if NFAPI_RX_IND_DATA_MAX < msg_length msg then None
      else case unpack_rach_msg alloc_ok msg of None \<Rightarrow> forward_rach alloc_ok msgs
      | Some (h, ind) \<Rightarrow>
          map_option (Cons (oai_nfapi_rach_ind (h, ind\<lparr>ind_sfn_sf := sfn_sf_add (ind_sfn_sf ind) 5\<rparr>)))
            (forward_rach alloc_ok msgs))"

definition oai_subframe_aggregate_rach_ind :: "bool \<Rightarrow> message_buffer list \<Rightarrow> enb_call list option" where
  "oai_subframe_aggregate_rach_ind alloc_ok msgs = (if msgs = [] then None else forward_rach alloc_ok msgs)"

definition oai_subframe_aggregate_crc_ind :: "bool \<Rightarrow> message_buffer list \<Rightarrow> enb_call list option" where
  "oai_subframe_aggregate_crc_ind alloc_ok =
     aggregate_ind alloc_ok NFAPI_CRC_IND_MAX_PDU False (unpack_crc_msg alloc_ok) oai_nfapi_crc_indication"

definition oai_subframe_aggregate_rx_ind :: "bool \<Rightarrow> message_buffer list \<Rightarrow> enb_call list option" where
  "oai_subframe_aggregate_rx_ind alloc_ok msgs =
     (if 1 < length msgs \<and> (case get_sfnsf (hd msgs) of Some (Some sf) \<Rightarrow> False | _ \<Rightarrow> True) then None
      else aggregate_ind alloc_ok NFAPI_RX_IND_MAX_PDU True (unpack_rx_msg alloc_ok) oai_nfapi_rx_ind msgs)"

definition oai_subframe_aggregate_cqi_ind :: "bool \<Rightarrow> message_buffer list \<Rightarrow> enb_call list option" where
  "oai_subframe_aggregate_cqi_ind alloc_ok =
     aggregate_ind alloc_ok NFAPI_CQI_IND_MAX_PDU True (unpack_cqi_msg alloc_ok) oai_nfapi_cqi_indication"

definition oai_subframe_aggregate_harq_ind :: "bool \<Rightarrow> message_buffer list \<Rightarrow> enb_call list option" where
  "oai_subframe_aggregate_harq_ind alloc_ok =
     aggregate_ind alloc_ok NFAPI_HARQ_IND_MAX_PDU False (unpack_harq_msg alloc_ok) oai_nfapi_harq_indication"

definition oai_subframe_aggregate_sr_ind :: "bool \<Rightarrow> message_buffer list \<Rightarrow> enb_call list option" where
  "oai_subframe_aggregate_sr_ind alloc_ok =
     aggregate_ind alloc_ok NFAPI_SR_IND_MAX_PDU False (unpack_sr_msg alloc_ok) oai_nfapi_sr_indication"

definition oai_subframe_aggregate_message_id :: "bool \<Rightarrow> u16 \<Rightarrow> message_buffer list \<Rightarrow> enb_call list option" where
  "oai_subframe_aggregate_message_id alloc_ok msg_id msgs =
     (if msgs = [] then None
      else if NFAPI_RX_IND_DATA_MAX < msg_length (hd msgs) then None
      else if msg_id = NFAPI_RACH_INDICATION then oai_subframe_aggregate_rach_ind alloc_ok msgs
      else if msg_id = NFAPI_CRC_INDICATION then oai_subframe_aggregate_crc_ind alloc_ok msgs
      else if msg_id = NFAPI_RX_ULSCH_INDICATION then oai_subframe_aggregate_rx_ind alloc_ok msgs
      else if msg_id = NFAPI_RX_CQI_INDICATION then oai_subframe_aggregate_cqi_ind alloc_ok msgs
      else if msg_id = NFAPI_HARQ_INDICATION then oai_subframe_aggregate_harq_ind alloc_ok msgs
      else if msg_id = NFAPI_RX_SR_INDICATION then oai_subframe_aggregate_sr_ind alloc_ok msgs
      else Some [])"

text \<open>The LTE proxy: the queues of the UEs with these functions behind them.\<close>

definition lte_proxy :: "ue_event list \<Rightarrow> message_buffer queue list \<Rightarrow> (message_buffer queue list \<times> enb_call list) option" where
  "lte_proxy = run_subframes (oai_subframe_aggregate_message_id True)"

section \<open>What the unpackers guarantee\<close>

definition keeps :: "('s \<Rightarrow> bool) \<Rightarrow> 's tlv_fn \<Rightarrow> bool" where
  "keeps P f \<longleftrightarrow> (\<forall>t s r s' r'. P s \<longrightarrow> f t s r = Some (s', r') \<longrightarrow> P s')"

definition keeps_ve :: "('s \<Rightarrow> bool) \<Rightarrow> 's ve_fn \<Rightarrow> bool" where
  "keeps_ve P f \<longleftrightarrow> (\<forall>t s r c s' r'. P s \<longrightarrow> f t s r = (c, s', r') \<longrightarrow> P s')"

lemma keepsD: "keeps P f \<Longrightarrow> P s \<Longrightarrow> f t s r = Some (s', r') \<Longrightarrow> P s'"
  unfolding keeps_def by blast

lemma match_entries_keeps:
  "list_all (\<lambda>e. keeps P (snd e)) es \<Longrightarrow> P s \<Longrightarrow> match_entries pad es t b s r = Some (b', s', r') \<Longrightarrow> P s'"
proof (induction es arbitrary: b s r)
  case (Cons e es)
  obtain tag f where e: "e = (tag, f)" by (cases e)
  show ?case
  proof (cases "tag = tl_tag t")
    case True
    then obtain s1 r1 where f: "f t s r = Some (s1, r1)"
      and m: "match_entries pad es t True s1 (rb_adv (pad (tl_length t)) r1) = Some (b', s', r')"
      using Cons.prems(3) by (auto simp: e split: option.splits)
    have "P s1" using keepsD [where P = P and f = f, OF _ Cons.prems(2) f] Cons.prems(1) by (simp add: e)
    then show ?thesis using Cons.IH [OF _ _ m] Cons.prems(1) by simp
  next
    case False
    then show ?thesis using Cons.IH [of s b r] Cons.prems by (simp add: e)
  qed
qed simp

lemma tlv_step_keeps:
  assumes es: "list_all (\<lambda>e. keeps P (snd e)) es" and ve: "keeps_ve P ve" and s: "P s"
  shows "tlv_step pad bad es ve n s r = Inl (c, s') \<Longrightarrow> P s'"
    and "tlv_step pad bad es ve n s r = Inr (n', s', r') \<Longrightarrow> P s'"
  using s match_entries_keeps [OF es s] ve unfolding keeps_ve_def
  by (auto simp: tlv_step_def skip_bad_tag_def split: option.splits if_splits prod.splits, blast+)

lemma tlv_loop_keeps:
  assumes es: "list_all (\<lambda>e. keeps P (snd e)) es" and ve: "keeps_ve P ve"
    and "tlv_loop pad bad es ve n s r = Some res" and "P s"
  shows "case res of Inl (c, s') \<Rightarrow> P s' | Inr (s', r') \<Rightarrow> P s'"
proof -
  let ?R = "\<lambda>(pad' :: u16 \<Rightarrow> nat) (bad' :: int) es' ve' (n' :: nat) s' (r' :: rbuf) res.
    es' = es \<longrightarrow> ve' = ve \<longrightarrow> P s' \<longrightarrow> (case res of Inl (c, s') \<Rightarrow> P s' | Inr (s', r') \<Rightarrow> P s')"
  have "?R pad bad es ve n s r res"
  proof (rule tlv_loop.raw_induct [where P = ?R, OF _ assms(3)])
    fix loop pad bad es' ve' n s r res
    assume step: "\<And>pad bad es ve n s r y. loop pad bad es ve n s r = Some y \<Longrightarrow> ?R pad bad es ve n s r y"
      "(if rb_pos r < rb_end r
        then (case tlv_step pad bad es' ve' n s r of Inl c \<Rightarrow> Some (Inl c)
              | Inr (n', s', r') \<Rightarrow> loop pad bad es' ve' n' s' r')
        else Some (Inr (s, r))) = Some res"
    show "?R pad bad es' ve' n s r res"
    proof (intro impI, cases "rb_pos r < rb_end r")
      assume eqs: "es' = es" "ve' = ve" and s: "P s" and more: "rb_pos r < rb_end r"
      show "case res of Inl (c, s') \<Rightarrow> P s' | Inr (s', r') \<Rightarrow> P s'"
      proof (cases "tlv_step pad bad es ve n s r")
        case (Inl c)
        then show ?thesis using step(2) more eqs tlv_step_keeps(1) [OF es ve s] by (cases c) auto
      next
        case (Inr nxt)
        obtain n' s' r' where nx: "nxt = (n', s', r')" by (cases nxt)
        have "P s'" using tlv_step_keeps(2) [OF es ve s] Inr nx by blast
        then show ?thesis using step(1) [of pad bad es' ve' n' s' r' res] step(2) more eqs Inr nx by simp
      qed
    qed (use step(2) in auto)
  qed
  then show ?thesis using assms(4) by blast
qed

text \<open>An indication as the unpackers leave it: no vendor extension, and as many PDUs as the count says.\<close>

definition plain_indication :: "(u16, 'p) pdu_list \<Rightarrow> bool" where
  "plain_indication v \<longleftrightarrow> unat (number_of_pdus v) = length (pdus v)"

lemma unpack_indication_keeps:
  assumes body: "\<And>t r v r'. unpack_body t r = Some (v, r') \<Longrightarrow> Q v"
    and got: "unpack_indication tag unpack_body None zero_indication r = Some m" and z: "Q \<lparr>number_of_pdus = 0, pdus = []\<rparr>"
  shows "ind_vendor_extension m = None \<and> Q (tlv_val (ind_body m))"
proof -
  let ?P = "\<lambda>m. ind_vendor_extension m = None \<and> Q (tlv_val (ind_body m))"
  let ?es = "[body_entry tag unpack_body (\<lambda>b m. m\<lparr>ind_body := b\<rparr>)]"
  have es: "list_all (\<lambda>e. keeps ?P (snd e)) ?es"
    using body by (auto simp: keeps_def body_entry_def)
  have ve: "keeps_ve ?P (unpack_p7_vendor_extension_tlv None)"
    by (simp add: keeps_ve_def unpack_p7_vendor_extension_tlv_def)
  obtain sf r1 res where "pull16 r = Some (sf, r1)"
    and loop: "tlv_loop (\<lambda>_. 0) (-1) ?es (unpack_p7_vendor_extension_tlv None) 0 (zero_indication\<lparr>ind_sfn_sf := sf\<rparr>) r1 = Some res"
    and m: "p7_accept (Some res) = Some m"
    using got by (auto simp: unpack_indication_def bind_eq_Some_conv unpack_p7_tlv_list_def p7_accept_def split: option.splits)
  have "case res of Inl (c, s') \<Rightarrow> ?P s' | Inr (s', r') \<Rightarrow> ?P s'"
    by (rule tlv_loop_keeps [OF es ve loop]) (simp add: zero_indication_def zero_tlv_def z)
  then show ?thesis using m by (auto simp: p7_accept_def split: sum.splits prod.splits if_splits)
qed

lemma length_pull_each: "pull_each g xs r = Some (ys, r') \<Longrightarrow> length ys = length xs"
  by (induction xs arbitrary: r ys r') (auto simp: bind_eq_Some_conv)

lemma unpack_pdus_plain: "unpack_pdus pull_count max_pdu alloc up t r = Some (v, r') \<Longrightarrow> plain_indication v"
  by (auto simp: unpack_pdus_def bind_eq_Some_conv plain_indication_def dest!: length_pull_n split: if_splits)

lemma unpack_rx_body_plain: "unpack_rx_indication_body_value alloc t r = Some (v, r') \<Longrightarrow> plain_indication v"
  by (auto simp: unpack_rx_indication_body_value_def bind_eq_Some_conv plain_indication_def
      dest!: length_pull_n length_pull_each split: if_splits)

lemma unpack_cqi_body_plain:
  "unpack_cqi_indication_body_value alloc t r = Some (v, r') \<Longrightarrow>
     unat (number_of_pdus v) \<le> NFAPI_CQI_IND_MAX_PDU \<longrightarrow> plain_indication v"
  by (auto simp: unpack_cqi_indication_body_value_def bind_eq_Some_conv plain_indication_def
      dest!: length_pull_n length_pull_each split: if_splits)

definition plain_agg :: "'p agg \<Rightarrow> bool" where
  "plain_agg x \<longleftrightarrow> ind_vendor_extension (snd x) = None \<and> plain_indication (tlv_val (ind_body (snd x)))"

lemma p7_unpack_caseD:
  "p7_unpack_case mid unpack msg = Some x \<Longrightarrow> \<exists>r. unpack zero_indication r = Some (snd x)"
  unfolding p7_unpack_case_def by (fastforce split: option.splits if_splits)

lemma p7_unpack_plain:
  assumes "\<And>t r v r'. up t r = Some (v, r') \<Longrightarrow> plain_indication v"
    and "p7_unpack_case mid (unpack_indication tag up None) m = Some x"
  shows "plain_agg x"
  using p7_unpack_caseD [OF assms(2)] unpack_indication_keeps [of up plain_indication tag, OF assms(1)]
  by (auto simp: plain_agg_def) (simp add: plain_indication_def)+

lemma unpack_rach_plain: "unpack_rach_msg alloc m = Some x \<Longrightarrow> plain_agg x"
  unfolding unpack_rach_msg_def unpack_rach_indication_def unpack_rach_indication_body_value_def
  by (rule p7_unpack_plain) (rule unpack_pdus_plain)

lemma unpack_crc_plain: "unpack_crc_msg alloc m = Some x \<Longrightarrow> plain_agg x"
  unfolding unpack_crc_msg_def unpack_crc_indication_def unpack_crc_indication_body_value_def
  by (rule p7_unpack_plain) (rule unpack_pdus_plain)

lemma unpack_harq_plain: "unpack_harq_msg alloc m = Some x \<Longrightarrow> plain_agg x"
  unfolding unpack_harq_msg_def unpack_harq_indication_def unpack_harq_indication_body_value_def
  by (rule p7_unpack_plain) (rule unpack_pdus_plain)

lemma unpack_sr_plain: "unpack_sr_msg alloc m = Some x \<Longrightarrow> plain_agg x"
  unfolding unpack_sr_msg_def unpack_sr_indication_def unpack_sr_indication_body_value_def
  by (rule p7_unpack_plain) (rule unpack_pdus_plain)

lemma unpack_rx_plain: "unpack_rx_msg alloc m = Some x \<Longrightarrow> plain_agg x"
  unfolding unpack_rx_msg_def unpack_rx_indication_def
  by (rule p7_unpack_plain) (rule unpack_rx_body_plain)

lemma unpack_cqi_plain:
  assumes "unpack_cqi_msg alloc m = Some x" "unat (number_of_pdus (tlv_val (ind_body (snd x)))) \<le> NFAPI_CQI_IND_MAX_PDU"
  shows "plain_agg x"
proof -
  obtain r where "unpack_indication NFAPI_CQI_INDICATION_BODY_TAG (unpack_cqi_indication_body_value alloc) None zero_indication r
      = Some (snd x)"
    using p7_unpack_caseD [OF assms(1) [unfolded unpack_cqi_msg_def]] by (auto simp: unpack_cqi_indication_def)
  from unpack_indication_keeps [where Q = "\<lambda>v. unat (number_of_pdus v) \<le> NFAPI_CQI_IND_MAX_PDU \<longrightarrow> plain_indication v",
      OF unpack_cqi_body_plain this]
  show ?thesis using assms(2) by (simp add: plain_agg_def plain_indication_def)
qed

section \<open>What the loop collects\<close>

abbreviation agg_list :: "'p agg \<Rightarrow> (u16, 'p) pdu_list" where
  "agg_list x \<equiv> tlv_val (ind_body (snd x))"

text \<open>The messages that are looked at: the loop stops after the one that fills the list.\<close>

fun taken :: "nat \<Rightarrow> 'p agg list \<Rightarrow> 'p agg list" where
  "taken room [] = []"
| "taken room (x # xs) = x # (if room \<le> length (pdus (agg_list x)) then [] else taken (room - length (pdus (agg_list x))) xs)"

definition count_of :: "'p agg list \<Rightarrow> nat" where
  "count_of xs = sum_list (map (\<lambda>x. unat (number_of_pdus (agg_list x))) xs)"

definition pdus_of :: "'p agg list \<Rightarrow> 'p list" where
  "pdus_of xs = concat (map (\<lambda>x. pdus (agg_list x)) xs)"

lemma of_simps [simp]:
  "count_of [] = 0" "count_of (x # xs) = unat (number_of_pdus (agg_list x)) + count_of xs"
  "pdus_of [] = []" "pdus_of (x # xs) = pdus (agg_list x) @ pdus_of xs"
  by (simp_all add: count_of_def pdus_of_def)

lemma add_indication_sel:
  assumes "plain_agg x"
  shows "pdus (agg_list (add_indication k a x)) = take k (pdus (agg_list a) @ pdus (agg_list x))"
    and "number_of_pdus (agg_list (add_indication k a x)) = number_of_pdus (agg_list a) + number_of_pdus (agg_list x)"
    and "ind_vendor_extension (snd (add_indication k a x)) = ind_vendor_extension (snd a)"
    and "fst (add_indication k a x) = fst x" and "ind_sfn_sf (snd (add_indication k a x)) = ind_sfn_sf (snd x)"
    and "tlv_hdr (ind_body (snd (add_indication k a x))) = tlv_hdr (ind_body (snd x))"
  using assms by (simp_all add: add_indication_def Let_def plain_agg_def plain_indication_def min_def)

lemma aggregate_pdus_eq:
  assumes "map unpack msgs = map Some xs" "\<forall>x \<in> set xs. plain_agg x"
    and "\<forall>m \<in> set msgs. msg_length m \<le> NFAPI_RX_IND_DATA_MAX"
    and "nonempty \<longrightarrow> (\<forall>x \<in> set xs. number_of_pdus (agg_list x) \<noteq> 0)"
    and "length (pdus (agg_list a)) < k"
  shows "aggregate_pdus k nonempty unpack a msgs =
    Some (Some (fold (\<lambda>x a. add_indication k a x) (taken (k - length (pdus (agg_list a))) xs) a))"
  using assms
proof (induction msgs arbitrary: xs a)
  case (Cons m msgs)
  obtain x ys where xs: "xs = x # ys" and u: "unpack m = Some x" and us: "map unpack msgs = map Some ys"
    using Cons.prems(1) by (cases xs) auto
  have x: "plain_agg x" using Cons.prems(2) xs by simp
  note ps = add_indication_sel(1) [OF x, of k a]
  have n: "unat (number_of_pdus (agg_list x)) = length (pdus (agg_list x))" "ind_vendor_extension (snd x) = None"
    using x by (simp_all add: plain_agg_def plain_indication_def)
  have step: "aggregate_pdus k nonempty unpack a (m # msgs) =
      (if k \<le> length (pdus (agg_list a)) + length (pdus (agg_list x)) then Some (Some (add_indication k a x))
       else aggregate_pdus k nonempty unpack (add_indication k a x) msgs)"
    using u n Cons.prems(3,4) xs ps by (cases x) (auto simp: Let_def)
  show ?case
  proof (cases "k \<le> length (pdus (agg_list a)) + length (pdus (agg_list x))")
    case True
    then have "k - length (pdus (agg_list a)) \<le> length (pdus (agg_list x))" by arith
    then show ?thesis using True step xs by simp
  next
    case False
    then have "\<not> k - length (pdus (agg_list a)) \<le> length (pdus (agg_list x))" by arith
    with False show ?thesis
      using step xs Cons.IH [OF us, of "add_indication k a x"] Cons.prems ps by (simp add: diff_diff_left)
  qed
qed simp

lemma fold_add:
  assumes "\<forall>x \<in> set xs. plain_agg x"
  shows "number_of_pdus (agg_list (fold (\<lambda>x a. add_indication k a x) xs a)) = number_of_pdus (agg_list a) + of_nat (count_of xs)"
    and "ind_vendor_extension (snd (fold (\<lambda>x a. add_indication k a x) xs a)) = ind_vendor_extension (snd a)"
  using assms by (induction xs arbitrary: a) (simp_all add: add_indication_sel add.assoc)

lemma fold_add_pdus:
  "\<forall>x \<in> set xs. plain_agg x \<Longrightarrow> length (pdus (agg_list a)) \<le> k \<Longrightarrow>
   pdus (agg_list (fold (\<lambda>x a. add_indication k a x) xs a)) = take k (pdus (agg_list a) @ pdus_of xs)"
proof (induction xs arbitrary: a)
  case (Cons x xs)
  have p: "pdus (agg_list (add_indication k a x)) = take k (pdus (agg_list a) @ pdus (agg_list x))"
    using Cons.prems(1) by (simp add: add_indication_sel)
  have "pdus (agg_list (fold (\<lambda>x a. add_indication k a x) (x # xs) a)) =
      take k (take k (pdus (agg_list a) @ pdus (agg_list x)) @ pdus_of xs)"
    using Cons.IH [of "add_indication k a x"] Cons.prems p by simp
  also have "\<dots> = take k ((pdus (agg_list a) @ pdus (agg_list x)) @ pdus_of xs)"
    unfolding take_append [of k _ "pdus_of xs"] by (simp add: min_def)
  finally show ?case by simp
qed simp

lemma fold_add_last:
  fixes k :: nat and a :: "'p agg"
  assumes "\<forall>x \<in> set xs. plain_agg x" "xs \<noteq> []"
  defines "b \<equiv> fold (\<lambda>x a. add_indication k a x) xs a"
  shows "fst b = fst (last xs)" "ind_sfn_sf (snd b) = ind_sfn_sf (snd (last xs))"
    "tlv_hdr (ind_body (snd b)) = tlv_hdr (ind_body (snd (last xs)))"
  using assms(1,2) unfolding b_def
  by (induction xs arbitrary: a) (auto simp: add_indication_sel)

lemma set_taken: "set (taken k xs) \<subseteq> set xs"
  by (induction k xs rule: taken.induct) auto

lemma taken_all: "length (pdus_of xs) \<le> k \<Longrightarrow> pdus_of (taken k xs) = pdus_of xs"
proof (induction k xs rule: taken.induct)
  case (2 room x xs)
  then have "pdus_of xs = []" if "room \<le> length (pdus (agg_list x))"
    using that by (simp flip: length_0_conv)
  with 2 show ?case by auto
qed simp

lemma count_plain: "\<forall>x \<in> set xs. plain_agg x \<Longrightarrow> count_of xs = length (pdus_of xs)"
  by (induction xs) (simp_all add: plain_agg_def plain_indication_def)

lemma take_taken: "take k (pdus_of (taken k xs)) = take k (pdus_of xs)"
  by (induction k xs rule: taken.induct) auto

lemma taken_Nil [simp]: "taken k xs = [] \<longleftrightarrow> xs = []"
  by (cases xs) auto


lemma aggregate_ind_eq:
  assumes "msgs \<noteq> []" "map unpack msgs = map Some xs" "\<forall>x \<in> set xs. plain_agg x"
    and "\<forall>m \<in> set msgs. msg_length m \<le> NFAPI_RX_IND_DATA_MAX"
    and "nonempty \<longrightarrow> (\<forall>x \<in> set xs. number_of_pdus (agg_list x) \<noteq> 0)" "0 < k"
  obtains agg where "aggregate_ind True k nonempty unpack send msgs = Some [send agg]"
    "pdus (agg_list agg) = take k (pdus_of xs)" "number_of_pdus (agg_list agg) = of_nat (length (pdus_of (taken k xs)))"
    "fst agg = fst (last (taken k xs))" "ind_sfn_sf (snd agg) = ind_sfn_sf (snd (last (taken k xs)))"
    "tlv_hdr (ind_body (snd agg)) = tlv_hdr (ind_body (snd (last (taken k xs))))"
proof
  let ?ys = "taken k xs" and ?z = "zero_agg :: 'a agg"
  have z: "pdus (agg_list ?z) = []" "number_of_pdus (agg_list ?z) = 0"
    by (simp_all add: zero_agg_def zero_indication_def zero_tlv_def)
  have ne: "?ys \<noteq> []" using assms(1,2) by auto
  have ys: "\<forall>x \<in> set ?ys. plain_agg x" using assms(3) set_taken by fast
  let ?agg = "fold (\<lambda>x a. add_indication k a x) ?ys ?z"
  have "aggregate_pdus k nonempty unpack ?z msgs = Some (Some ?agg)"
    using aggregate_pdus_eq [OF assms(2-5), of ?z k] assms(6) z by simp
  then show "aggregate_ind True k nonempty unpack send msgs = Some [send ?agg]"
    using assms(1) by (simp add: aggregate_ind_def)
  show "pdus (agg_list ?agg) = take k (pdus_of xs)"
    using fold_add_pdus [OF ys, of ?z k] z by (simp add: take_taken)
  show "number_of_pdus (agg_list ?agg) = of_nat (length (pdus_of ?ys))"
    using fold_add(1) [OF ys, of k ?z] count_plain [OF ys] z by simp
  show "fst ?agg = fst (last ?ys)" "ind_sfn_sf (snd ?agg) = ind_sfn_sf (snd (last ?ys))"
    "tlv_hdr (ind_body (snd ?agg)) = tlv_hdr (ind_body (snd (last ?ys)))"
    by (rule fold_add_last [OF ys ne])+
qed

lemma unpacked_plain:
  "map unpack msgs = map Some xs \<Longrightarrow> (\<And>m x. unpack m = Some x \<Longrightarrow> plain_agg x) \<Longrightarrow> \<forall>x \<in> set xs. plain_agg x"
  by (induction msgs arbitrary: xs) (auto simp: Cons_eq_map_conv)

lemma taken_short: "length (pdus_of xs) < k \<Longrightarrow> taken k (xs @ [x]) = xs @ [x]"
  by (induction xs arbitrary: k) auto

lemma message_id_crc:
  "msgs \<noteq> [] \<Longrightarrow> msg_length (hd msgs) \<le> NFAPI_RX_IND_DATA_MAX \<Longrightarrow>
   oai_subframe_aggregate_message_id True NFAPI_CRC_INDICATION msgs = oai_subframe_aggregate_crc_ind True msgs"
  by (simp add: oai_subframe_aggregate_message_id_def lte_ids)

text \<open>What a received message must not be for the loop to go on: the checks are asserts.\<close>

definition tolerated :: "bool \<Rightarrow> (message_buffer \<Rightarrow> 'p agg option) \<Rightarrow> message_buffer \<Rightarrow> bool" where
  "tolerated nonempty unpack m \<longleftrightarrow> msg_length m \<le> NFAPI_RX_IND_DATA_MAX \<and>
     (case unpack m of None \<Rightarrow> True
      | Some x \<Rightarrow> plain_agg x \<and> (nonempty \<longrightarrow> number_of_pdus (agg_list x) \<noteq> 0))"

lemma aggregate_pdus_total:
  "\<forall>m \<in> set msgs. tolerated nonempty unpack m \<Longrightarrow> \<exists>res. aggregate_pdus k nonempty unpack a msgs = Some res"
proof (induction msgs arbitrary: a)
  case (Cons m msgs)
  show ?case
  proof (cases "unpack m")
    case None
    then show ?thesis using Cons.prems by (auto simp: tolerated_def)
  next
    case (Some x)
    have "unat (number_of_pdus (agg_list x)) = length (pdus (agg_list x))" "ind_vendor_extension (snd x) = None"
      "nonempty \<longrightarrow> number_of_pdus (agg_list x) \<noteq> 0" "\<not> NFAPI_RX_IND_DATA_MAX < msg_length m"
      using Cons.prems Some by (auto simp: tolerated_def plain_agg_def plain_indication_def)
    moreover have "\<exists>res. aggregate_pdus k nonempty unpack (add_indication k a x) msgs = Some res"
      using Cons by simp
    ultimately show ?thesis using Some by (cases x) (auto simp: Let_def)
  qed
qed simp

lemma aggregate_ind_total:
  "msgs \<noteq> [] \<Longrightarrow> \<forall>m \<in> set msgs. tolerated nonempty unpack m \<Longrightarrow> aggregate_ind True k nonempty unpack send msgs \<noteq> None"
  using aggregate_pdus_total [of msgs nonempty unpack k zero_agg] by (auto simp: aggregate_ind_def)

lemma forward_rach_total:
  "\<forall>m \<in> set msgs. msg_length m \<le> NFAPI_RX_IND_DATA_MAX \<Longrightarrow> \<exists>out. forward_rach True msgs = Some out"
  by (induction msgs) (auto split: option.splits)

text \<open>RX and CQI messages of a UE that make the proxy stop.\<close>

definition harmless :: "message_buffer \<Rightarrow> bool" where
  "harmless m \<longleftrightarrow>
     (message_mid m = NFAPI_RX_ULSCH_INDICATION \<longrightarrow>
       (case unpack_rx_msg True m of None \<Rightarrow> True | Some x \<Rightarrow> number_of_pdus (agg_list x) \<noteq> 0)) \<and>
     (message_mid m = NFAPI_RX_CQI_INDICATION \<longrightarrow>
       (case unpack_cqi_msg True m of None \<Rightarrow> True
        | Some x \<Rightarrow> number_of_pdus (agg_list x) \<noteq> 0 \<and> unat (number_of_pdus (agg_list x)) \<le> NFAPI_CQI_IND_MAX_PDU))"

lemma tolerated_msgs:
  assumes "msg_ok m"
  shows "tolerated False (unpack_crc_msg True) m" "tolerated False (unpack_harq_msg True) m"
    "tolerated False (unpack_sr_msg True) m"
    "message_mid m = NFAPI_RX_ULSCH_INDICATION \<Longrightarrow> harmless m \<Longrightarrow> tolerated True (unpack_rx_msg True) m"
    "message_mid m = NFAPI_RX_CQI_INDICATION \<Longrightarrow> harmless m \<Longrightarrow> tolerated True (unpack_cqi_msg True) m"
  using assms unpack_crc_plain [of True m] unpack_harq_plain [of True m] unpack_sr_plain [of True m]
    unpack_rx_plain [of True m] unpack_cqi_plain [of True m]
  by (auto simp: tolerated_def msg_ok_def harmless_def split: option.splits)

lemma aggregate_message_id_total:
  assumes "g \<noteq> []" and g: "\<forall>m \<in> set g. msg_ok m \<and> relevant read_sfnsf m \<and> message_mid m = i \<and> harmless m"
  shows "oai_subframe_aggregate_message_id True i g \<noteq> None"
proof -
  have hd: "hd g \<in> set g" using assms(1) by simp
  have len: "\<forall>m \<in> set g. msg_length m \<le> NFAPI_RX_IND_DATA_MAX" using g by (auto simp: msg_ok_def)
  have sf: "get_sfnsf (hd g) \<noteq> None \<and> get_sfnsf (hd g) \<noteq> Some None"
    using g hd get_sfn_ok(1) [of "hd g"] by (auto simp: relevant_def)
  have rach: "oai_subframe_aggregate_rach_ind True g \<noteq> None"
    using forward_rach_total [OF len] assms(1) by (auto simp: oai_subframe_aggregate_rach_ind_def)
  have "oai_subframe_aggregate_crc_ind True g \<noteq> None" "oai_subframe_aggregate_harq_ind True g \<noteq> None"
    "oai_subframe_aggregate_sr_ind True g \<noteq> None"
    unfolding oai_subframe_aggregate_crc_ind_def oai_subframe_aggregate_harq_ind_def oai_subframe_aggregate_sr_ind_def
    by (rule aggregate_ind_total [OF assms(1)]; use g tolerated_msgs(1-3) in blast)+
  moreover have "oai_subframe_aggregate_rx_ind True g \<noteq> None" if "i = NFAPI_RX_ULSCH_INDICATION"
  proof -
    have "aggregate_ind True NFAPI_RX_IND_MAX_PDU True (unpack_rx_msg True) oai_nfapi_rx_ind g \<noteq> None"
      by (rule aggregate_ind_total [OF assms(1)]) (use g that tolerated_msgs(4) in blast)
    then show ?thesis using sf by (auto simp: oai_subframe_aggregate_rx_ind_def split: option.splits)
  qed
  moreover have "oai_subframe_aggregate_cqi_ind True g \<noteq> None" if "i = NFAPI_RX_CQI_INDICATION"
    unfolding oai_subframe_aggregate_cqi_ind_def
    by (rule aggregate_ind_total [OF assms(1)]) (use g that tolerated_msgs(5) in blast)
  ultimately show ?thesis
    using rach assms(1) hd len by (auto simp: oai_subframe_aggregate_message_id_def not_less)
qed

section \<open>Properties\<close>




text \<open>
  One datagram of 18 bytes from one UE stops the proxy: an RX indication without a body
  is accepted by the unpacker, its list is empty, and the aggregating function aborts on it; so
  does a CQI indication.
\<close>

theorem empty_uplink_aborts:
  "lte_proxy [Uplink (sample_msg NFAPI_RX_ULSCH_INDICATION 16) 2, Tick 16] (init_ues 1) = None \<and>
   lte_proxy [Uplink (sample_msg NFAPI_RX_CQI_INDICATION 16) 2, Tick 16] (init_ues 1) = None"
  by (rule conjI; code_simp)

text \<open>
  C11. Aggregation of CRC indications: if the messages of a subframe unpack and hold at most
  100 PDUs together, the eNB gets one indication with all PDUs in the order of the messages,
  the sum of the counts, and the header, SFN/SF and body header of the last message looked at;
  the count is the length of the list.
\<close>

theorem crc_aggregation:
  assumes "msgs \<noteq> []" "\<forall>m \<in> set msgs. msg_length m \<le> NFAPI_RX_IND_DATA_MAX"
    and "map (unpack_crc_msg True) msgs = map Some xs" "length (pdus_of xs) \<le> NFAPI_CRC_IND_MAX_PDU"
  shows "\<exists>agg. oai_subframe_aggregate_message_id True NFAPI_CRC_INDICATION msgs = Some [oai_nfapi_crc_indication agg] \<and>
    pdus (agg_list agg) = pdus_of xs \<and> unat (number_of_pdus (agg_list agg)) = length (pdus_of xs) \<and>
    fst agg = fst (last (taken NFAPI_CRC_IND_MAX_PDU xs)) \<and>
    ind_sfn_sf (snd agg) = ind_sfn_sf (snd (last (taken NFAPI_CRC_IND_MAX_PDU xs)))"
proof -
  have pl: "\<forall>x \<in> set xs. plain_agg x"
    by (rule unpacked_plain [OF assms(3) unpack_crc_plain])
  have k: "0 < NFAPI_CRC_IND_MAX_PDU" "NFAPI_CRC_IND_MAX_PDU < 2 ^ 16" by (simp_all add: NFAPI_CRC_IND_MAX_PDU_def)
  obtain agg where a: "oai_subframe_aggregate_crc_ind True msgs = Some [oai_nfapi_crc_indication agg]"
    "pdus (agg_list agg) = take NFAPI_CRC_IND_MAX_PDU (pdus_of xs)"
    "number_of_pdus (agg_list agg) = of_nat (length (pdus_of (taken NFAPI_CRC_IND_MAX_PDU xs)))"
    "fst agg = fst (last (taken NFAPI_CRC_IND_MAX_PDU xs))"
    "ind_sfn_sf (snd agg) = ind_sfn_sf (snd (last (taken NFAPI_CRC_IND_MAX_PDU xs)))"
    unfolding oai_subframe_aggregate_crc_ind_def
    by (rule aggregate_ind_eq [where send = oai_nfapi_crc_indication, OF assms(1,3) pl assms(2) _ k(1), of False]) auto
  then show ?thesis
    using assms(1,4) hd_in_set [OF assms(1)] assms(2) k(2)
    by (auto simp: message_id_crc taken_all unat_of_nat_u16)
qed

text \<open>A CRC indication with \<open>n\<close> empty PDUs.\<close>

definition sample_crc :: "nat \<Rightarrow> message_buffer" where
  "sample_crc n = buffered ([0, 0] @ be16 NFAPI_CRC_INDICATION @ replicate 12 0 @ be16 16 @
     enc_tlv NFAPI_CRC_INDICATION_BODY_TAG (be16 (of_nat n) @ replicate (2 * n) 0))"

theorem crc_aggregation_witness:
  "\<exists>agg. oai_subframe_aggregate_message_id True NFAPI_CRC_INDICATION [sample_crc 1, sample_crc 2] = Some [oai_nfapi_crc_indication agg] \<and>
    length (pdus (agg_list agg)) = 3"
proof -
  let ?xs = "map (the \<circ> unpack_crc_msg True) [sample_crc 1, sample_crc 2]"
  have u: "map (unpack_crc_msg True) [sample_crc 1, sample_crc 2] = map Some ?xs" by code_simp
  have l: "\<forall>m \<in> set [sample_crc 1, sample_crc 2]. msg_length m \<le> NFAPI_RX_IND_DATA_MAX" by code_simp
  have n: "length (pdus_of ?xs) = 3" by code_simp
  then have k: "length (pdus_of ?xs) \<le> NFAPI_CRC_IND_MAX_PDU" by (simp add: NFAPI_CRC_IND_MAX_PDU_def)
  show ?thesis using crc_aggregation [OF list.distinct(2) l u k] n by auto
qed

text \<open>
  Aggregation over the limit: when the messages so far hold fewer than 100 CRC PDUs and
  the next one takes the sum over 100, the indication that is handed to the eNB holds 100 PDUs
  with a count above 100, and the packer refuses it, so that none of the UEs' CRCs of
  the subframe arrives.
\<close>

theorem crc_overflow_lost:
  assumes "\<forall>m \<in> set msgs. msg_length m \<le> NFAPI_RX_IND_DATA_MAX"
    and "map (unpack_crc_msg True) msgs = map Some (xs @ [x])"
    and "length (pdus_of xs) < NFAPI_CRC_IND_MAX_PDU" "NFAPI_CRC_IND_MAX_PDU < length (pdus_of (xs @ [x]))"
    and "length (pdus_of (xs @ [x])) < 2 ^ 16" "tl_tag (tlv_hdr (ind_body (snd x))) = NFAPI_CRC_INDICATION_BODY_TAG"
  shows "\<exists>agg. oai_subframe_aggregate_message_id True NFAPI_CRC_INDICATION msgs = Some [oai_nfapi_crc_indication agg] \<and>
    length (pdus (agg_list agg)) = NFAPI_CRC_IND_MAX_PDU \<and>
    NFAPI_CRC_IND_MAX_PDU < unat (number_of_pdus (agg_list agg)) \<and>
    (\<forall>ve w. pack_crc_indication ve (snd agg) w = None)"
proof -
  have ne: "msgs \<noteq> []" using assms(2) by auto
  have pl: "\<forall>x \<in> set (xs @ [x]). plain_agg x"
    by (rule unpacked_plain [OF assms(2) unpack_crc_plain])
  have t: "taken NFAPI_CRC_IND_MAX_PDU (xs @ [x]) = xs @ [x]" by (rule taken_short [OF assms(3)])
  have k: "0 < NFAPI_CRC_IND_MAX_PDU" by (simp add: NFAPI_CRC_IND_MAX_PDU_def)
  obtain agg where a: "oai_subframe_aggregate_crc_ind True msgs = Some [oai_nfapi_crc_indication agg]"
    "pdus (agg_list agg) = take NFAPI_CRC_IND_MAX_PDU (pdus_of (xs @ [x]))"
    "number_of_pdus (agg_list agg) = of_nat (length (pdus_of (xs @ [x])))"
    "tlv_hdr (ind_body (snd agg)) = tlv_hdr (ind_body (snd x))"
    unfolding oai_subframe_aggregate_crc_ind_def
    by (rule aggregate_ind_eq [where send = oai_nfapi_crc_indication, OF ne assms(2) pl assms(1) _ k, of False]) (auto simp: t)
  have n: "unat (number_of_pdus (agg_list agg)) = length (pdus_of (xs @ [x]))"
    using assms(5) by (simp add: a(3) unat_of_nat_u16)
  have "pack_crc_indication_body_value (agg_list agg) = (\<lambda>w. None)"
    using n assms(4) by (simp add: pack_crc_indication_body_value_def fun_eq_iff)
  then have "\<forall>ve w. pack_crc_indication ve (snd agg) w = None"
    using a(4) assms(6)
    by (auto simp: pack_crc_indication_def pack_indication_def pack_member_def pack_tlv_def bind_eq_None_conv split: option.splits)
  then show ?thesis
    using a(1,2) n assms(1,4) hd_in_set [OF ne] ne by (auto simp: message_id_crc)
qed

theorem crc_overflow_lost_witness:
  "\<exists>agg. oai_subframe_aggregate_message_id True NFAPI_CRC_INDICATION [sample_crc 60, sample_crc 60] = Some [oai_nfapi_crc_indication agg] \<and>
    (\<forall>w. pack_crc_indication None (snd agg) w = None)"
proof -
  let ?x = "the (unpack_crc_msg True (sample_crc 60))"
  have s: "unpack_crc_msg True (sample_crc 60) = Some ?x" "msg_length (sample_crc 60) \<le> NFAPI_RX_IND_DATA_MAX"
    "tl_tag (tlv_hdr (ind_body (snd ?x))) = NFAPI_CRC_INDICATION_BODY_TAG" "length (pdus (agg_list ?x)) = 60"
    by code_simp+
  have u: "map (unpack_crc_msg True) [sample_crc 60, sample_crc 60] = map Some ([?x] @ [?x])" using s(1) by simp
  have l: "\<forall>m \<in> set [sample_crc 60, sample_crc 60]. msg_length m \<le> NFAPI_RX_IND_DATA_MAX" using s(2) by simp
  have n: "length (pdus_of [?x]) < NFAPI_CRC_IND_MAX_PDU" "NFAPI_CRC_IND_MAX_PDU < length (pdus_of ([?x] @ [?x]))"
    "length (pdus_of ([?x] @ [?x])) < 2 ^ 16" using s(4) by (simp_all add: NFAPI_CRC_IND_MAX_PDU_def)
  show ?thesis using crc_overflow_lost [OF l u n s(3)] by blast
qed

text \<open>
  RACH indications are not aggregated: each message that unpacks is handed to the
  eNB on its own, in order, with five subframes added to its SFN/SF, and the ones that do not
  unpack are skipped.
\<close>

theorem rach_forwarded:
  assumes "msgs \<noteq> []" "\<forall>m \<in> set msgs. msg_length m \<le> NFAPI_RX_IND_DATA_MAX"
  shows "oai_subframe_aggregate_message_id True NFAPI_RACH_INDICATION msgs =
    Some (map (\<lambda>(h, ind). oai_nfapi_rach_ind (h, ind\<lparr>ind_sfn_sf := sfn_sf_add (ind_sfn_sf ind) 5\<rparr>))
      (List.map_filter (unpack_rach_msg True) msgs))"
proof -
  have "forward_rach True msgs = Some (map (\<lambda>(h, ind). oai_nfapi_rach_ind (h, ind\<lparr>ind_sfn_sf := sfn_sf_add (ind_sfn_sf ind) 5\<rparr>))
      (List.map_filter (unpack_rach_msg True) msgs))"
    using assms(2) by (induction msgs) (auto simp: List.map_filter_simps split: option.splits)
  then show ?thesis
    using assms hd_in_set [OF assms(1)]
    by (auto simp: oai_subframe_aggregate_message_id_def oai_subframe_aggregate_rach_ind_def not_less)
qed

theorem rach_forwarded_witness:
  "length (the (oai_subframe_aggregate_message_id True NFAPI_RACH_INDICATION
     [buffered (sample_msg NFAPI_RACH_INDICATION 16), buffered (sample_msg NFAPI_RACH_INDICATION 16)])) = 2"
proof -
  let ?m = "buffered (sample_msg NFAPI_RACH_INDICATION 16)"
  have l: "msg_length ?m \<le> NFAPI_RX_IND_DATA_MAX" by code_simp
  have u: "length (List.map_filter (unpack_rach_msg True) [?m, ?m]) = 2" by code_simp
  show ?thesis using rach_forwarded [of "[?m, ?m]"] l u by simp
qed

text \<open>
  A CQI indication with a count above 100 is accepted with that count and no list, and
  the aggregating function then reads the list through a null pointer.
\<close>

theorem cqi_count_null:
  assumes "unpack_cqi_msg True m = Some x" "NFAPI_CQI_IND_MAX_PDU < unat (number_of_pdus (agg_list x))"
    and "pdus (agg_list x) = []"
  shows "oai_subframe_aggregate_message_id True NFAPI_RX_CQI_INDICATION (m # msgs) = None"
proof -
  have "number_of_pdus (agg_list x) \<noteq> 0" using assms(2) by auto
  then have "aggregate_pdus NFAPI_CQI_IND_MAX_PDU True (unpack_cqi_msg True) zero_agg (m # msgs) = None"
    using assms by (cases x) (auto simp: Let_def zero_agg_def zero_indication_def zero_tlv_def NFAPI_CQI_IND_MAX_PDU_def)
  then show ?thesis
    by (simp add: oai_subframe_aggregate_message_id_def oai_subframe_aggregate_cqi_ind_def aggregate_ind_def lte_ids
        del: aggregate_pdus.simps)
qed

theorem cqi_count_null_witness:
  "oai_subframe_aggregate_message_id True NFAPI_RX_CQI_INDICATION
     [buffered (sample_msg NFAPI_RX_CQI_INDICATION 16 @ enc_tlv NFAPI_CQI_INDICATION_BODY_TAG (be16 101))] = None"
proof -
  let ?m = "buffered (sample_msg NFAPI_RX_CQI_INDICATION 16 @ enc_tlv NFAPI_CQI_INDICATION_BODY_TAG (be16 101))"
  let ?x = "the (unpack_cqi_msg True ?m)"
  have "unpack_cqi_msg True ?m = Some ?x" "NFAPI_CQI_IND_MAX_PDU < unat (number_of_pdus (agg_list ?x))"
    "pdus (agg_list ?x) = []"
    by code_simp+
  then show ?thesis by (rule cqi_count_null)
qed

end
