(* ===== verification/Ue_Sync.thy ===== *)
theory Ue_Sync
  imports Prelude "HOL-Library.Sublist"
begin

text \<open>
  The rendezvous of the LTE thread \<open>oai_subframe_task\<close> and the NR thread \<open>oai_slot_task\<close>
  of \<^verbatim>\<open>src/nfapi_pnf.c\<close>: the word \<open>sf_slot_tick\<close>, the mutex \<^verbatim>\<open>lock\<close> and the condition
  variable \<^verbatim>\<open>cond_sf_slot\<close>.  What a thread does between locking and unlocking (or waiting) is
  one step, since the mutex is held; a thread in \<^verbatim>\<open>pthread_cond_wait\<close> is asleep until a broadcast or
  a spurious wakeup, then it has to get the mutex before it looks at the word again.
  \<open>lte_done\<close> and \<open>nr_done\<close> count the subframes after which the thread went on.
  Failures of the pthread calls, which end the program, are not modelled.
\<close>

unbundle bit_operations_syntax

section \<open>State and steps\<close>

definition LTE_PROXY_DONE :: u16 where "LTE_PROXY_DONE = 1"
definition NR_PROXY_DONE :: u16 where "NR_PROXY_DONE = 2"
definition BOTH_LTE_NR_DONE :: u16 where "BOTH_LTE_NR_DONE = 3"

datatype thread_pc = Running | Asleep | Woken

record sync_state =
  sf_slot_tick :: u16
  slot_tick :: u16
  lte_pc :: thread_pc
  nr_pc :: thread_pc
  lte_done :: nat
  nr_done :: nat

definition init_sync :: sync_state where
  "init_sync = \<lparr>sf_slot_tick = 0, slot_tick = 0, lte_pc = Running, nr_pc = Running, lte_done = 0, nr_done = 0\<rparr>"

fun broadcast :: "thread_pc \<Rightarrow> thread_pc" where
  "broadcast Asleep = Woken"
| "broadcast pc = pc"

definition lte_arrive :: "sync_state \<Rightarrow> sync_state" where
  "lte_arrive s =
     (let tick = sf_slot_tick s OR LTE_PROXY_DONE in
      if tick = BOTH_LTE_NR_DONE
      then s\<lparr>sf_slot_tick := tick, nr_pc := broadcast (nr_pc s), lte_done := lte_done s + 1\<rparr>
      else s\<lparr>sf_slot_tick := tick, lte_pc := Asleep\<rparr>)"

definition lte_resume :: "sync_state \<Rightarrow> sync_state" where
  "lte_resume s =
     (if sf_slot_tick s \<noteq> BOTH_LTE_NR_DONE then s\<lparr>lte_pc := Asleep\<rparr>
      else s\<lparr>sf_slot_tick := 0, lte_pc := Running, lte_done := lte_done s + 1\<rparr>)"

text \<open>One subframe; \<open>nsa\<close> is \<^verbatim>\<open>softmodem_mode == SOFTMODEM_NSA\<close>.\<close>

definition lte_subframe :: "bool \<Rightarrow> sync_state \<Rightarrow> sync_state" where
  "lte_subframe nsa s = (if nsa then lte_arrive s else s\<lparr>lte_done := lte_done s + 1\<rparr>)"

definition nr_arrive :: "sync_state \<Rightarrow> sync_state" where
  "nr_arrive s =
     (let tick = sf_slot_tick s OR NR_PROXY_DONE in
      if tick = BOTH_LTE_NR_DONE
      then s\<lparr>sf_slot_tick := tick, lte_pc := broadcast (lte_pc s), slot_tick := 0, nr_done := nr_done s + 1\<rparr>
      else s\<lparr>sf_slot_tick := tick, nr_pc := Asleep\<rparr>)"

definition nr_resume :: "sync_state \<Rightarrow> sync_state" where
  "nr_resume s =
     (if sf_slot_tick s \<noteq> BOTH_LTE_NR_DONE then s\<lparr>nr_pc := Asleep\<rparr>
      else s\<lparr>sf_slot_tick := 0, nr_pc := Running, slot_tick := 0, nr_done := nr_done s + 1\<rparr>)"

text \<open>One slot; two slots are a subframe.\<close>

definition nr_slot :: "bool \<Rightarrow> sync_state \<Rightarrow> sync_state" where
  "nr_slot nsa s =
     (let s = s\<lparr>slot_tick := slot_tick s + 1\<rparr> in
      if slot_tick s = NR_PROXY_DONE \<and> nsa then nr_arrive s else s)"

text \<open>What the scheduler picks: a thread, or a spurious wakeup of one.\<close>

datatype sched = Lte | Nr | Spurious_lte | Spurious_nr

fun act :: "bool \<Rightarrow> sched \<Rightarrow> sync_state \<Rightarrow> sync_state" where
  "act nsa Lte s = (case lte_pc s of Running \<Rightarrow> lte_subframe nsa s | Woken \<Rightarrow> lte_resume s | Asleep \<Rightarrow> s)"
| "act nsa Nr s = (case nr_pc s of Running \<Rightarrow> nr_slot nsa s | Woken \<Rightarrow> nr_resume s | Asleep \<Rightarrow> s)"
| "act nsa Spurious_lte s = s\<lparr>lte_pc := broadcast (lte_pc s)\<rparr>"
| "act nsa Spurious_nr s = s\<lparr>nr_pc := broadcast (nr_pc s)\<rparr>"

definition run_sched :: "bool \<Rightarrow> sched list \<Rightarrow> sync_state \<Rightarrow> sync_state" where
  "run_sched nsa = fold (act nsa)"

inductive sync_step :: "bool \<Rightarrow> sync_state \<Rightarrow> sync_state \<Rightarrow> bool" for nsa where
  lte_subframe: "lte_pc s = Running \<Longrightarrow> sync_step nsa s (lte_subframe nsa s)"
| lte_resume: "lte_pc s = Woken \<Longrightarrow> sync_step nsa s (lte_resume s)"
| nr_slot: "nr_pc s = Running \<Longrightarrow> sync_step nsa s (nr_slot nsa s)"
| nr_resume: "nr_pc s = Woken \<Longrightarrow> sync_step nsa s (nr_resume s)"
| spurious_lte: "lte_pc s = Asleep \<Longrightarrow> sync_step nsa s (s\<lparr>lte_pc := Woken\<rparr>)"
| spurious_nr: "nr_pc s = Asleep \<Longrightarrow> sync_step nsa s (s\<lparr>nr_pc := Woken\<rparr>)"

inductive sync_reachable :: "bool \<Rightarrow> sync_state \<Rightarrow> bool" for nsa where
  init: "sync_reachable nsa init_sync"
| step: "sync_reachable nsa s \<Longrightarrow> sync_step nsa s s' \<Longrightarrow> sync_reachable nsa s'"

text \<open>
  The same when a thread that has been released goes on before the other one arrives
  again.
\<close>

definition released :: "sync_state \<Rightarrow> bool" where
  "released s \<longleftrightarrow> sf_slot_tick s = BOTH_LTE_NR_DONE \<and> (lte_pc s = Woken \<or> nr_pc s = Woken)"

inductive prompt_reachable :: "sync_state \<Rightarrow> bool" where
  init: "prompt_reachable init_sync"
| step: "prompt_reachable s \<Longrightarrow> \<not> released s \<Longrightarrow> sync_step True s s' \<Longrightarrow> prompt_reachable s'"
| lte: "prompt_reachable s \<Longrightarrow> released s \<Longrightarrow> lte_pc s = Woken \<Longrightarrow> prompt_reachable (lte_resume s)"
| nr: "prompt_reachable s \<Longrightarrow> released s \<Longrightarrow> nr_pc s = Woken \<Longrightarrow> prompt_reachable (nr_resume s)"

inductive_cases sync_stepE: "sync_step nsa s s'"

section \<open>The invariant\<close>

lemmas sync_consts = LTE_PROXY_DONE_def NR_PROXY_DONE_def BOTH_LTE_NR_DONE_def
lemmas sync_ops = lte_arrive_def lte_resume_def lte_subframe_def nr_arrive_def nr_resume_def nr_slot_def

definition sync_inv :: "sync_state \<Rightarrow> bool" where
  "sync_inv s \<longleftrightarrow>
     (if nr_pc s = Running then slot_tick s = 0 \<or> slot_tick s = 1 else slot_tick s = 2) \<and>
     (if lte_pc s = Running \<and> nr_pc s = Running then sf_slot_tick s = 0
      else if nr_pc s = Running then sf_slot_tick s = 1 \<or> sf_slot_tick s = 3 \<and> lte_pc s = Woken
      else lte_pc s = Running \<and> (sf_slot_tick s = 2 \<or> sf_slot_tick s = 3 \<and> nr_pc s = Woken))"

lemma act_inv: "sync_inv s \<Longrightarrow> sync_inv (act True a s)"
  by (cases a; cases "lte_pc s"; cases "nr_pc s")
    (auto simp: sync_inv_def sync_ops sync_consts Let_def)

definition enabled :: "sched \<Rightarrow> sync_state \<Rightarrow> bool" where
  "enabled a s = (case a of Lte \<Rightarrow> lte_pc s \<noteq> Asleep | Nr \<Rightarrow> nr_pc s \<noteq> Asleep
     | Spurious_lte \<Rightarrow> lte_pc s = Asleep | Spurious_nr \<Rightarrow> nr_pc s = Asleep)"

lemma sync_step_act: "sync_step nsa s s' \<longleftrightarrow> (\<exists>a. enabled a s \<and> s' = act nsa a s)"
proof
  assume "sync_step nsa s s'"
  then show "\<exists>a. enabled a s \<and> s' = act nsa a s"
  proof cases
    case lte_subframe then show ?thesis by (intro exI [of _ Lte]) (simp add: enabled_def)
  next
    case lte_resume then show ?thesis by (intro exI [of _ Lte]) (simp add: enabled_def)
  next
    case nr_slot then show ?thesis by (intro exI [of _ Nr]) (simp add: enabled_def)
  next
    case nr_resume then show ?thesis by (intro exI [of _ Nr]) (simp add: enabled_def)
  next
    case spurious_lte then show ?thesis by (intro exI [of _ Spurious_lte]) (simp add: enabled_def)
  next
    case spurious_nr then show ?thesis by (intro exI [of _ Spurious_nr]) (simp add: enabled_def)
  qed
next
  assume "\<exists>a. enabled a s \<and> s' = act nsa a s"
  then obtain a where "enabled a s" "s' = act nsa a s" by blast
  then show "sync_step nsa s s'"
    by (cases a; cases "lte_pc s"; cases "nr_pc s") (simp_all add: enabled_def sync_step.intros)
qed

lemma act_not_enabled: "\<not> enabled a s \<Longrightarrow> act nsa a s = s"
  by (cases a; cases "lte_pc s"; cases "nr_pc s") (simp_all add: enabled_def)

lemma act_reachable: "sync_reachable nsa s \<Longrightarrow> sync_reachable nsa (act nsa a s)"
  by (cases "enabled a s") (metis sync_reachable.step sync_step_act, simp add: act_not_enabled)

lemma run_reachable: "sync_reachable nsa s \<Longrightarrow> sync_reachable nsa (run_sched nsa as s)"
  by (induction "as" arbitrary: s) (auto simp: run_sched_def intro: act_reachable)

lemma reachable_inv: "sync_reachable True s \<Longrightarrow> sync_inv s"
  by (induction rule: sync_reachable.induct) (auto simp: sync_step_act act_inv, simp add: sync_inv_def init_sync_def)

lemma run_inv: "sync_inv s \<Longrightarrow> sync_inv (run_sched True as s)"
  by (induction "as" arbitrary: s) (auto simp: run_sched_def intro: act_inv)

section \<open>Progress\<close>

text \<open>
  A chain of stages: each one is kept by whatever the scheduler picks, and its own pick leads to
  the next one.  A schedule that has the picks in this order, with any others in between,
  reaches the last stage.
\<close>

lemma stages:
  assumes keep: "\<And>i a s. P i s \<Longrightarrow> P i (act nsa a s)"
    and move: "\<And>i s. i < length ps \<Longrightarrow> P i s \<Longrightarrow> P (Suc i) (act nsa (ps ! i) s)"
    and "subseq (drop i ps) as" "i \<le> length ps" "P i s"
  shows "P (length ps) (run_sched nsa as s)"
  using assms(3-5)
proof (induction "as" arbitrary: i s rule: list.induct)
  case Nil
  then have "i = length ps" using list_emb_length [OF Nil(1)] by simp
  then show ?case using Nil by (simp add: run_sched_def)
next
  case (Cons a as)
  show ?case
  proof (cases "i < length ps \<and> ps ! i = a")
    case True
    then have "subseq (drop (Suc i) ps) as"
      using Cons.prems(1) by (simp add: Cons_nth_drop_Suc [symmetric])
    then show ?thesis using Cons.IH [of "Suc i"] move [of i s] True Cons.prems(3) by (simp add: run_sched_def Suc_leI)
  next
    case False
    then have "subseq (drop i ps) as"
      using Cons.prems(1,2) by (cases "i < length ps") (auto simp: Cons_nth_drop_Suc [symmetric] simp del: Cons_nth_drop_Suc)
    then show ?thesis using Cons.IH [of i] keep [of i s a] Cons.prems(2,3) by (simp add: run_sched_def)
  qed
qed

definition lte_stage :: "nat \<Rightarrow> nat \<Rightarrow> sync_state \<Rightarrow> bool" where
  "lte_stage n i s \<longleftrightarrow> sync_inv s \<and> n \<le> lte_done s \<and> (n < lte_done s \<or>
     (i = 0 \<or> lte_pc s \<noteq> Running \<and> (i = 1 \<or> sf_slot_tick s = 3 \<or> i = 2 \<and> slot_tick s = 1) \<and> i < 4))"

lemma lte_stage_keep: "lte_stage n i s \<Longrightarrow> lte_stage n i (act True a s)"
  by (cases a; cases "lte_pc s"; cases "nr_pc s")
    (auto simp: lte_stage_def sync_inv_def sync_ops sync_consts Let_def split: if_splits)

lemma lte_stage_moves:
  shows "lte_stage n 0 s \<Longrightarrow> lte_stage n 1 (act True Lte s)"
    and "lte_stage n 1 s \<Longrightarrow> lte_stage n 2 (act True Nr s)"
    and "lte_stage n 2 s \<Longrightarrow> lte_stage n 3 (act True Nr s)"
    and "lte_stage n 3 s \<Longrightarrow> lte_stage n 4 (act True Lte s)"
  by (cases "lte_pc s"; cases "nr_pc s";
    auto simp: lte_stage_def sync_inv_def sync_ops sync_consts Let_def split: if_splits)+

lemma lte_stage_move:
  assumes "lte_stage n i s" "i < 4"
  shows "lte_stage n (Suc i) (act True ([Lte, Nr, Nr, Lte] ! i) s)"
proof -
  have "i = 0 \<or> i = 1 \<or> i = 2 \<or> i = 3" using assms(2) by arith
  then show ?thesis using assms(1) lte_stage_moves [of n s] by (auto simp: numeral_eq_Suc)
qed

definition nr_stage :: "nat \<Rightarrow> nat \<Rightarrow> sync_state \<Rightarrow> bool" where
  "nr_stage n i s \<longleftrightarrow> sync_inv s \<and> n \<le> nr_done s \<and> (n < nr_done s \<or>
     (i = 0 \<or> i = 1 \<and> slot_tick s \<noteq> 0 \<or> nr_pc s \<noteq> Running \<and> (i = 2 \<or> sf_slot_tick s = 3 \<and> i = 3)))"

lemma nr_stage_keep: "nr_stage n i s \<Longrightarrow> nr_stage n i (act True a s)"
  by (cases a; cases "lte_pc s"; cases "nr_pc s")
    (auto simp: nr_stage_def sync_inv_def sync_ops sync_consts Let_def split: if_splits)

lemma nr_stage_moves:
  shows "nr_stage n 0 s \<Longrightarrow> nr_stage n 1 (act True Nr s)"
    and "nr_stage n 1 s \<Longrightarrow> nr_stage n 2 (act True Nr s)"
    and "nr_stage n 2 s \<Longrightarrow> nr_stage n 3 (act True Lte s)"
    and "nr_stage n 3 s \<Longrightarrow> nr_stage n 4 (act True Nr s)"
  by (cases "lte_pc s"; cases "nr_pc s";
    auto simp: nr_stage_def sync_inv_def sync_ops sync_consts Let_def split: if_splits)+

lemma nr_stage_move:
  assumes "nr_stage n i s" "i < 4"
  shows "nr_stage n (Suc i) (act True ([Nr, Nr, Lte, Nr] ! i) s)"
proof -
  have "i = 0 \<or> i = 1 \<or> i = 2 \<or> i = 3" using assms(2) by arith
  then show ?thesis using assms(1) nr_stage_moves [of n s] by (auto simp: numeral_eq_Suc)
qed

lemma progress_lte:
  assumes "sync_inv s" "subseq [Lte, Nr, Nr, Lte] as"
  shows "lte_done s < lte_done (run_sched True as s)"
proof -
  have "lte_stage (lte_done s) (length [Lte, Nr, Nr, Lte]) (run_sched True as s)"
  proof (rule stages [where P = "lte_stage (lte_done s)" and i = 0])
    show "lte_stage n i (act True a s)" if "lte_stage n i s" for n i a s
      using that by (rule lte_stage_keep)
    show "lte_stage n (Suc i) (act True ([Lte, Nr, Nr, Lte] ! i) s)"
      if "i < length [Lte, Nr, Nr, Lte]" "lte_stage n i s" for n i s
      by (rule lte_stage_move) (use that in simp_all)
  qed (use assms in \<open>simp_all add: lte_stage_def\<close>)
  then show ?thesis by (simp add: lte_stage_def)
qed

lemma progress_nr:
  assumes "sync_inv s" "subseq [Nr, Nr, Lte, Nr] as"
  shows "nr_done s < nr_done (run_sched True as s)"
proof -
  have "nr_stage (nr_done s) (length [Nr, Nr, Lte, Nr]) (run_sched True as s)"
  proof (rule stages [where P = "nr_stage (nr_done s)" and i = 0])
    show "nr_stage n i (act True a s)" if "nr_stage n i s" for n i a s
      using that by (rule nr_stage_keep)
    show "nr_stage n (Suc i) (act True ([Nr, Nr, Lte, Nr] ! i) s)"
      if "i < length [Nr, Nr, Lte, Nr]" "nr_stage n i s" for n i s
      by (rule nr_stage_move) (use that in simp_all)
  qed (use assms in \<open>simp_all add: nr_stage_def\<close>)
  then show ?thesis by (simp add: nr_stage_def)
qed

text \<open>A round of a scheduler that starves nobody.\<close>

definition fair_round :: "sched list \<Rightarrow> bool" where
  "fair_round as \<longleftrightarrow> subseq [Lte, Nr, Nr, Lte] as \<and> subseq [Nr, Nr, Lte, Nr] as"

lemma run_append: "run_sched nsa (as @ bs) s = run_sched nsa bs (run_sched nsa as s)"
  by (simp add: run_sched_def)

lemma rounds_progress:
  "sync_inv s \<Longrightarrow> \<forall>as \<in> set rounds. fair_round as \<Longrightarrow>
   lte_done s + length rounds \<le> lte_done (run_sched True (concat rounds) s) \<and>
   nr_done s + length rounds \<le> nr_done (run_sched True (concat rounds) s)"
proof (induction rounds arbitrary: s)
  case Nil
  then show ?case by (simp add: run_sched_def)
next
  case (Cons as rounds)
  have "lte_done s < lte_done (run_sched True as s)" "nr_done s < nr_done (run_sched True as s)"
    using Cons.prems progress_lte progress_nr by (simp_all add: fair_round_def)
  then show ?case using Cons.IH [of "run_sched True as s"] Cons.prems run_inv by (fastforce simp: run_append)
qed

section \<open>Prompt schedules\<close>

definition in_step :: "sync_state \<Rightarrow> bool" where
  "in_step s \<longleftrightarrow>
     (if lte_pc s = Running \<and> nr_pc s = Running then lte_done s = nr_done s
      else if nr_pc s = Running then nr_done s = lte_done s + (if sf_slot_tick s = 3 then 1 else 0)
      else lte_done s = nr_done s + (if sf_slot_tick s = 3 then 1 else 0))"

lemma prompt_act:
  assumes "sync_inv s" "in_step s" "\<not> released s \<or> lte_pc s = Woken \<and> a = Lte \<or> nr_pc s = Woken \<and> a = Nr"
  shows "in_step (act True a s)"
proof (cases a)
  case Lte
  then show ?thesis using assms
    by (cases "lte_pc s"; cases "nr_pc s")
      (auto simp: in_step_def sync_inv_def released_def lte_subframe_def lte_arrive_def lte_resume_def sync_consts Let_def)
next
  case Nr
  then show ?thesis using assms
    by (cases "lte_pc s"; cases "nr_pc s")
      (auto simp: in_step_def sync_inv_def released_def nr_slot_def nr_arrive_def nr_resume_def sync_consts Let_def)
next
  case Spurious_lte
  then show ?thesis using assms by (cases "lte_pc s") (simp_all add: in_step_def)
next
  case Spurious_nr
  then show ?thesis using assms by (cases "nr_pc s") (simp_all add: in_step_def)
qed

lemma prompt_reachable_inv: "prompt_reachable s \<Longrightarrow> sync_inv s \<and> in_step s"
proof (induction rule: prompt_reachable.induct)
  case init
  show ?case by (simp add: in_step_def sync_inv_def init_sync_def)
next
  case (step s s')
  then show ?case by (auto simp: sync_step_act intro: prompt_act act_inv)
next
  case (lte s)
  then show ?case using prompt_act [of s Lte] act_inv [of s Lte] by simp
next
  case (nr s)
  then show ?case using prompt_act [of s Nr] act_inv [of s Nr] by simp
qed

section \<open>Properties\<close>



text \<open>
  C12. No deadlock and no lost wakeup: whatever state the threads have reached, with spurious wakeups
  and any interleaving, both threads finish at least one subframe in every round in which the
  scheduler picks the LTE thread and the NR thread often enough.
\<close>

theorem rendezvous_progress:
  assumes "sync_reachable True s" "\<forall>as \<in> set rounds. fair_round as"
  shows "lte_done s + length rounds \<le> lte_done (run_sched True (concat rounds) s) \<and>
    nr_done s + length rounds \<le> nr_done (run_sched True (concat rounds) s)"
  by (rule rounds_progress [OF reachable_inv [OF assms(1)] assms(2)])

theorem rendezvous_progress_witness:
  "3 \<le> lte_done (run_sched True (concat (replicate 3 [Lte, Nr, Spurious_lte, Nr, Lte, Nr])) init_sync)"
proof -
  have "fair_round [Lte, Nr, Spurious_lte, Nr, Lte, Nr]" by code_simp
  then have "\<forall>as \<in> set (replicate 3 [Lte, Nr, Spurious_lte, Nr, Lte, Nr]). fair_round as" by simp
  from rendezvous_progress [OF sync_reachable.init this] show ?thesis
    unfolding length_replicate by linarith
qed



text \<open>
  Without that the threads drift apart without bound: the NR thread that released the LTE
  thread does not clear the word, so as long as the LTE thread has not got the mutex the NR
  thread finds both bits set each time it arrives and runs on.
\<close>

theorem rendezvous_drift:
  "\<exists>s. sync_reachable True s \<and> nr_done s = lte_done s + n"
proof (cases n)
  case 0
  then show ?thesis using sync_reachable.init by (intro exI [of _ init_sync]) (simp add: init_sync_def)
next
  case (Suc m)
  let ?s = "\<lambda>k. run_sched True (concat (replicate k [Nr, Nr])) (run_sched True [Lte, Nr, Nr] init_sync)"
  have "sf_slot_tick (?s k) = 3 \<and> slot_tick (?s k) = 0 \<and> lte_pc (?s k) = Woken \<and> nr_pc (?s k) = Running \<and>
      lte_done (?s k) = 0 \<and> nr_done (?s k) = Suc k" for k
  proof (induction k)
    case 0
    then show ?case by (simp add: run_sched_def) code_simp
  next
    case (Suc k)
    have "?s (Suc k) = run_sched True [Nr, Nr] (?s k)"
      unfolding run_append [symmetric] replicate_Suc replicate_append_same [symmetric] concat_append by simp
    then show ?case using Suc by (simp add: run_sched_def nr_slot_def nr_arrive_def sync_consts Let_def)
  qed
  from this [of m] show ?thesis
    using Suc run_reachable [OF run_reachable [OF sync_reachable.init]] by (intro exI [of _ "?s m"]) simp
qed

end
