(* ===== verification/Pnf_P7.thy ===== *)
theory Pnf_P7
  imports Nfapi_Ids Sfn_Time P7_Header "HOL-Library.Multiset"
begin

text \<open>
  The subframe buffer of the PNF, \<^verbatim>\<open>pnf_p7.c\<close>: requests of the VNF that arrive within the
  window are kept until the subframe they are for (\<open>is_p7_request_in_window\<close>, the handlers, the
  dispatcher), and the tick \<open>pnf_p7_subframe_ind\<close> hands them to the callbacks of the
  client.  The two sides run under the mutex of the PNF, so each of them is one step.

  What a request contains besides its SFN/SF does not matter here: it is the type
  \<open>'m\<close>, and the unpacked request, \<open>None\<close> if it could not be allocated or
  unpacked, is the argument of its handler.  A request that is kept or freed is a pointer in C:
  the events \<open>Free\<close> are the calls of the deallocators.  The window size is also the number of
  buffers in use, the array has 30; an index behind it is \<open>None\<close>.
  A mutex that cannot be locked is not modelled.
\<close>

section \<open>State\<close>

datatype req_kind = DL_CONFIG | UL_CONFIG | HI_DCI0 | TX | LBT_DL_CONFIG | UE_RELEASE

record 'm request =
  req_phy_id :: u16
  req_sfn_sf :: u16
  req_body :: 'm

record 'm subframe_entry =
  sb_sfn_sf :: u16
  dl_config_req :: "'m request option"
  ul_config_req :: "'m request option"
  hi_dci0_req :: "'m request option"
  tx_req :: "'m request option"
  lbt_dl_config_req :: "'m request option"
  ue_release_req :: "'m request option"

fun get_req :: "req_kind \<Rightarrow> 'm subframe_entry \<Rightarrow> 'm request option" where
  "get_req DL_CONFIG e = dl_config_req e"
| "get_req UL_CONFIG e = ul_config_req e"
| "get_req HI_DCI0 e = hi_dci0_req e"
| "get_req TX e = tx_req e"
| "get_req LBT_DL_CONFIG e = lbt_dl_config_req e"
| "get_req UE_RELEASE e = ue_release_req e"

fun set_req :: "req_kind \<Rightarrow> 'm request option \<Rightarrow> 'm subframe_entry \<Rightarrow> 'm subframe_entry" where
  "set_req DL_CONFIG r e = e\<lparr>dl_config_req := r\<rparr>"
| "set_req UL_CONFIG r e = e\<lparr>ul_config_req := r\<rparr>"
| "set_req HI_DCI0 r e = e\<lparr>hi_dci0_req := r\<rparr>"
| "set_req TX r e = e\<lparr>tx_req := r\<rparr>"
| "set_req LBT_DL_CONFIG r e = e\<lparr>lbt_dl_config_req := r\<rparr>"
| "set_req UE_RELEASE r e = e\<lparr>ue_release_req := r\<rparr>"

definition zero_entry :: "'m subframe_entry" where
  "zero_entry = \<lparr>sb_sfn_sf = 0, dl_config_req = None, ul_config_req = None, hi_dci0_req = None,
     tx_req = None, lbt_dl_config_req = None, ue_release_req = None\<rparr>"

record pnf_stats =
  dl_conf_ontime :: u16
  dl_conf_late :: u16
  ul_conf_ontime :: u16
  ul_conf_late :: u16
  hi_dci0_ontime :: u16
  hi_dci0_late :: u16
  tx_ontime :: u16
  tx_late :: u16

definition zero_stats :: pnf_stats where
  "zero_stats = \<lparr>dl_conf_ontime = 0, dl_conf_late = 0, ul_conf_ontime = 0, ul_conf_late = 0,
     hi_dci0_ontime = 0, hi_dci0_late = 0, tx_ontime = 0, tx_late = 0\<rparr>"

fun count_ontime :: "req_kind \<Rightarrow> pnf_stats \<Rightarrow> pnf_stats" where
  "count_ontime DL_CONFIG s = s\<lparr>dl_conf_ontime := dl_conf_ontime s + 1\<rparr>"
| "count_ontime UL_CONFIG s = s\<lparr>ul_conf_ontime := ul_conf_ontime s + 1\<rparr>"
| "count_ontime HI_DCI0 s = s\<lparr>hi_dci0_ontime := hi_dci0_ontime s + 1\<rparr>"
| "count_ontime TX s = s\<lparr>tx_ontime := tx_ontime s + 1\<rparr>"
| "count_ontime LBT_DL_CONFIG s = s"
| "count_ontime UE_RELEASE s = s\<lparr>tx_ontime := tx_ontime s + 1\<rparr>"

fun count_late :: "req_kind \<Rightarrow> pnf_stats \<Rightarrow> pnf_stats" where
  "count_late DL_CONFIG s = s\<lparr>dl_conf_late := dl_conf_late s + 1\<rparr>"
| "count_late UL_CONFIG s = s\<lparr>ul_conf_late := ul_conf_late s + 1\<rparr>"
| "count_late HI_DCI0 s = s\<lparr>hi_dci0_late := hi_dci0_late s + 1\<rparr>"
| "count_late TX s = s\<lparr>tx_late := tx_late s + 1\<rparr>"
| "count_late LBT_DL_CONFIG s = s"
| "count_late UE_RELEASE s = s\<lparr>tx_late := tx_late s + 1\<rparr>"

text \<open>\<open>callbacks\<close> and \<open>dummies\<close> say which callbacks and dummy requests the client has set.\<close>

record pnf_config =
  pnf_phy_id :: u16
  subframe_buffer_size :: u16
  timing_info_mode_periodic :: bool
  timing_info_mode_aperiodic :: bool
  timing_info_period :: u8
  callbacks :: "req_kind \<Rightarrow> bool"
  dummies :: "req_kind \<Rightarrow> bool"

record 'm pnf_state =
  subframe_buffer :: "'m subframe_entry list"
  cur_sfn_sf :: u16
  sf_start_time_hr :: u32
  sfn_sf_shift :: int
  timing_info_period_counter :: u8
  timing_info_aperiodic_send :: bool
  timing_info_ms_counter :: u32
  pnf_tick :: u32
  stats :: pnf_stats

definition init_pnf :: "'m pnf_state" where
  "init_pnf = \<lparr>subframe_buffer = replicate 30 zero_entry, cur_sfn_sf = 0, sf_start_time_hr = 0, sfn_sf_shift = 0,
     timing_info_period_counter = 0, timing_info_aperiodic_send = False, timing_info_ms_counter = 0,
     pnf_tick = 0, stats = zero_stats\<rparr>"

text \<open>What the PNF does to its surroundings.\<close>

datatype 'm pnf_event =
    To_ue_proxy req_kind "'m request"
  | Callback req_kind "'m request"
  | Dummy req_kind u16
  | Free req_kind "'m request"
  | Timing_info u16 u32
  | Ue_release_resp u16
  | Ul_node_sync u16 u32 u32 u32

definition sf_ahead :: int where "sf_ahead = 4"

section \<open>The window\<close>

definition is_p7_request_in_window :: "pnf_config \<Rightarrow> u16 \<Rightarrow> u16 \<Rightarrow> bool" where
  "is_p7_request_in_window c cur sfnsf =
     (let recv = NFAPI_SFNSF2DEC (uint sfnsf); current = NFAPI_SFNSF2DEC (uint cur);
          timing_window = uint (ucast (subframe_buffer_size c) :: u8) in
      if recv \<le> current
      then (current + timing_window) smod NFAPI_MAX_SFNSFDEC < current \<and>
           \<not> (current + timing_window) smod NFAPI_MAX_SFNSFDEC < recv
      else recv - current \<le> timing_window)"

text \<open>The NR window: the answer is 1 on each of the three branches.\<close>

definition is_nr_p7_request_in_window :: "u8 \<Rightarrow> int \<Rightarrow> int \<Rightarrow> bool" where
  "is_nr_p7_request_in_window timing_window current recv =
     (if current \<le> recv + uint timing_window then True
      else if current + 1024 * 20 \<le> recv + uint timing_window then True
      else True)"

definition buffer_index :: "pnf_config \<Rightarrow> u16 \<Rightarrow> nat" where
  "buffer_index c sfnsf = unat (of_int (NFAPI_SFNSF2DEC (uint sfnsf) smod uint (subframe_buffer_size c)) :: u8)"

section \<open>Handlers\<close>

text \<open>A request in the window replaces one of its kind in its buffer; \<open>relay\<close>: it also goes to the UEs.\<close>

definition store_request :: "pnf_config \<Rightarrow> req_kind \<Rightarrow> bool \<Rightarrow> 'm request \<Rightarrow> 'm pnf_state \<Rightarrow> ('m pnf_state \<times> 'm pnf_event list) option" where
  "store_request c k relay r p =
     (let i = buffer_index c (req_sfn_sf r); e = subframe_buffer p ! i in
      if length (subframe_buffer p) \<le> i then None
      else Some (p\<lparr>subframe_buffer := (subframe_buffer p)[i := set_req k (Some r) (e\<lparr>sb_sfn_sf := req_sfn_sf r\<rparr>)],
                   stats := count_ontime k (stats p)\<rparr>,
             (case get_req k e of None \<Rightarrow> [] | Some old \<Rightarrow> [Free k old]) @ (if relay then [To_ue_proxy k r] else [])))"

definition late_request :: "pnf_config \<Rightarrow> req_kind \<Rightarrow> 'm request \<Rightarrow> 'm pnf_state \<Rightarrow> 'm pnf_state \<times> 'm pnf_event list" where
  "late_request c k r p =
     (p\<lparr>timing_info_aperiodic_send := (timing_info_mode_aperiodic c \<or> timing_info_aperiodic_send p),
        stats := count_late k (stats p)\<rparr>, [Free k r])"

definition handle_request :: "pnf_config \<Rightarrow> req_kind \<Rightarrow> bool \<Rightarrow> 'm request option \<Rightarrow> 'm pnf_state \<Rightarrow> ('m pnf_state \<times> 'm pnf_event list) option" where
  "handle_request c k relay got p =
     (case got of None \<Rightarrow> Some (p, [])
      | Some r \<Rightarrow> if is_p7_request_in_window c (cur_sfn_sf p) (req_sfn_sf r) then store_request c k relay r p
                  else Some (late_request c k r p))"

definition pnf_handle_dl_config_request where "pnf_handle_dl_config_request c = handle_request c DL_CONFIG True"
definition pnf_handle_ul_config_request where "pnf_handle_ul_config_request c = handle_request c UL_CONFIG True"
definition pnf_handle_hi_dci0_request where "pnf_handle_hi_dci0_request c = handle_request c HI_DCI0 True"
definition pnf_handle_tx_request where "pnf_handle_tx_request c = handle_request c TX True"
definition pnf_handle_lbt_dl_config_request where "pnf_handle_lbt_dl_config_request c = handle_request c LBT_DL_CONFIG False"

definition pnf_handle_ue_release_request :: "pnf_config \<Rightarrow> 'm request option \<Rightarrow> 'm pnf_state \<Rightarrow> ('m pnf_state \<times> 'm pnf_event list) option" where
  "pnf_handle_ue_release_request c got p =
     map_option (\<lambda>(p', out). (p', out @ (case got of None \<Rightarrow> [] | Some r \<Rightarrow> [Ue_release_resp (req_phy_id r)])))
       (handle_request c UE_RELEASE False got p)"

text \<open>A node synchronisation message: the shift is kept for the next subframe and the answer carries the time stamps.\<close>

record dl_node_sync =
  sync_phy_id :: u16
  sync_t1 :: u32
  delta_sfn_sf :: int

definition pnf_handle_dl_node_sync :: "u32 \<Rightarrow> u32 \<Rightarrow> dl_node_sync option \<Rightarrow> 'm pnf_state \<Rightarrow> 'm pnf_state \<times> 'm pnf_event list" where
  "pnf_handle_dl_node_sync rx_hr_time now got p =
     (case got of None \<Rightarrow> (p, [])
      | Some m \<Rightarrow>
          (if delta_sfn_sf m \<noteq> 0 then p\<lparr>sfn_sf_shift := delta_sfn_sf m\<rparr> else p,
           [Ul_node_sync (sync_phy_id m) (sync_t1 m)
              (calculate_t2 rx_hr_time (cur_sfn_sf p) (sf_start_time_hr p))
              (calculate_t3 now (cur_sfn_sf p) (sf_start_time_hr p))]))"

section \<open>The tick\<close>

text \<open>A request that is there goes to its callback, otherwise the dummy does.\<close>

definition deliver :: "pnf_config \<Rightarrow> u16 \<Rightarrow> 'm subframe_entry \<Rightarrow> req_kind \<Rightarrow> 'm pnf_event list" where
  "deliver c sfn_sf e k =
     (case get_req k e of
        Some r \<Rightarrow> if callbacks c k then [Callback k r] else []
      | None \<Rightarrow> if callbacks c k \<and> dummies c k then [Dummy k sfn_sf] else [])"

definition free_req :: "'m subframe_entry \<Rightarrow> req_kind \<Rightarrow> 'm pnf_event list" where
  "free_req e k = (case get_req k e of Some r \<Rightarrow> [Free k r] | None \<Rightarrow> [])"

definition send_dummy_subframe :: "pnf_config \<Rightarrow> u16 \<Rightarrow> 'm pnf_event list" where
  "send_dummy_subframe c sfn_sf =
     concat (map (\<lambda>k. if callbacks c k \<and> dummies c k then [Dummy k sfn_sf] else []) [TX, DL_CONFIG, UL_CONFIG, HI_DCI0, LBT_DL_CONFIG])"

text \<open>The kinds that are sent ahead of their subframe and those that are not, in the order of their callbacks and of their release.\<close>

definition tx_kinds :: "req_kind list" where "tx_kinds = [TX, DL_CONFIG, HI_DCI0, UE_RELEASE]"
definition tx_free :: "req_kind list" where "tx_free = [DL_CONFIG, TX, HI_DCI0, UE_RELEASE]"
definition rx_kinds :: "req_kind list" where "rx_kinds = [UL_CONFIG, LBT_DL_CONFIG]"

definition clear_reqs :: "req_kind list \<Rightarrow> 'm subframe_entry \<Rightarrow> 'm subframe_entry" where
  "clear_reqs ks e = fold (\<lambda>k. set_req k None) ks e"

definition serve :: "pnf_config \<Rightarrow> u16 \<Rightarrow> req_kind list \<Rightarrow> req_kind list \<Rightarrow> 'm subframe_entry \<Rightarrow> 'm pnf_event list" where
  "serve c sfn_sf ks frees e = concat (map (deliver c sfn_sf e) ks) @ concat (map (free_req e) frees)"

definition shift_sfn_sf :: "int \<Rightarrow> u16 \<Rightarrow> u16" where
  "shift_sfn_sf shift sfn_sf =
     (if shift = 0 then sfn_sf
      else let shifted = NFAPI_SFNSF2DEC (uint sfn_sf) + shift in
           of_int (if shifted < 0 then shifted + NFAPI_MAX_SFNSFDEC
                   else if NFAPI_MAX_SFNSFDEC < shifted then shifted - NFAPI_MAX_SFNSFDEC else shifted))"

text \<open>An entry in which nothing is left is reset; the HI_DCI0 request is not looked at.\<close>

definition wipe_entry :: "'m subframe_entry \<Rightarrow> 'm subframe_entry" where
  "wipe_entry e =
     (if dl_config_req e = None \<and> tx_req e = None \<and> ul_config_req e = None \<and> lbt_dl_config_req e = None \<and> ue_release_req e = None
      then zero_entry\<lparr>sb_sfn_sf := -1\<rparr> else e)"

definition timing_tick :: "pnf_config \<Rightarrow> 'm pnf_state \<Rightarrow> 'm pnf_state \<times> 'm pnf_event list" where
  "timing_tick c p =
     (let info = Timing_info (cur_sfn_sf p) (timing_info_ms_counter p);
          due = timing_info_mode_periodic c \<and> timing_info_period_counter p = timing_info_period c;
          p = (if timing_info_mode_periodic c then p\<lparr>timing_info_period_counter := timing_info_period_counter p + 1\<rparr> else p) in
      if due then (p\<lparr>timing_info_ms_counter := 0, timing_info_period_counter := 0\<rparr>, [info])
      else if timing_info_mode_aperiodic c \<and> timing_info_aperiodic_send p
      then (p\<lparr>timing_info_ms_counter := 0, timing_info_aperiodic_send := False\<rparr>, [info])
      else (p\<lparr>timing_info_ms_counter := timing_info_ms_counter p + 1\<rparr>, []))"

definition stats_tick :: "'m pnf_state \<Rightarrow> 'm pnf_state" where
  "stats_tick p =
     (let p = (if pnf_tick p = 1000 then p\<lparr>pnf_tick := 0, stats := zero_stats\<rparr> else p) in p\<lparr>pnf_tick := pnf_tick p + 1\<rparr>)"

text \<open>The buffer of the subframe that is sent ahead, then the one of the subframe itself.\<close>

definition serve_tx :: "pnf_config \<Rightarrow> u16 \<Rightarrow> 'm subframe_entry list \<Rightarrow> 'm subframe_entry list \<times> 'm pnf_event list" where
  "serve_tx c sfn_sf_tx b =
     (let j = buffer_index c sfn_sf_tx; e = b ! j in
      if sb_sfn_sf e = sfn_sf_tx then (b[j := clear_reqs tx_free e], serve c sfn_sf_tx tx_kinds tx_free e)
      else (b, send_dummy_subframe c sfn_sf_tx))"

definition serve_rx :: "pnf_config \<Rightarrow> u16 \<Rightarrow> 'm subframe_entry list \<Rightarrow> 'm subframe_entry list \<times> 'm pnf_event list" where
  "serve_rx c sfn_sf b =
     (let i = buffer_index c sfn_sf; e = b ! i in
      if sb_sfn_sf e = sfn_sf then (b[i := wipe_entry (clear_reqs rx_kinds e)], serve c sfn_sf rx_kinds rx_kinds e)
      else (b[i := wipe_entry e], []))"

definition serve_subframe :: "pnf_config \<Rightarrow> u16 \<Rightarrow> u16 \<Rightarrow> 'm subframe_entry list \<Rightarrow> ('m subframe_entry list \<times> 'm pnf_event list) option" where
  "serve_subframe c sfn_sf sfn_sf_tx b =
     (if length b \<le> buffer_index c sfn_sf \<or> length b \<le> buffer_index c sfn_sf_tx then None
      else case serve_tx c sfn_sf_tx b of (b, out1) \<Rightarrow> case serve_rx c sfn_sf b of (b, out2) \<Rightarrow> Some (b, out1 @ out2))"

definition pnf_p7_subframe_ind :: "pnf_config \<Rightarrow> u32 \<Rightarrow> u16 \<Rightarrow> 'm pnf_state \<Rightarrow> ('m pnf_state \<times> 'm pnf_event list) option" where
  "pnf_p7_subframe_ind c now sfn_sf p =
     (let p = p\<lparr>sf_start_time_hr := now, cur_sfn_sf := sfn_sf\<rparr> in
      if subframe_buffer_size c = 0 then Some (stats_tick p, [])
      else map_option (\<lambda>(b, out). case timing_tick c (p\<lparr>sfn_sf_shift := 0, subframe_buffer := b\<rparr>) of
               (p', info) \<Rightarrow> (stats_tick p', out @ info))
             (serve_subframe c (shift_sfn_sf (sfn_sf_shift p) sfn_sf) (sfnsf_add_sf sfn_sf sf_ahead) (subframe_buffer p)))"

section \<open>Dispatch\<close>

lemmas request_ids = NFAPI_DL_CONFIG_REQUEST_def NFAPI_UL_CONFIG_REQUEST_def NFAPI_HI_DCI0_REQUEST_def
  NFAPI_TX_REQUEST_def NFAPI_LBT_DL_CONFIG_REQUEST_def NFAPI_UE_RELEASE_REQUEST_def NFAPI_DL_NODE_SYNC_def

text \<open>
  \<open>unpack\<close> and \<open>unpack_sync\<close> stand for \<^verbatim>\<open>nfapi_p7_message_unpack\<close> on the structure of the
  request.  Vendor extensions and unknown ids leave the state alone.
\<close>

definition pnf_dispatch_p7_message :: "pnf_config \<Rightarrow> (req_kind \<Rightarrow> u8 list \<Rightarrow> 'm request option) \<Rightarrow> (u8 list \<Rightarrow> dl_node_sync option)
  \<Rightarrow> u32 \<Rightarrow> u32 \<Rightarrow> u8 list \<Rightarrow> 'm pnf_state \<Rightarrow> ('m pnf_state \<times> 'm pnf_event list) option" where
  "pnf_dispatch_p7_message c unpack unpack_sync rx_hr_time now msg p =
     (case nfapi_p7_message_header_unpack msg of None \<Rightarrow> Some (p, [])
      | Some h \<Rightarrow>
          (let mid = message_id h in
           if mid = NFAPI_DL_NODE_SYNC then Some (pnf_handle_dl_node_sync rx_hr_time now (unpack_sync msg) p)
           else if mid = NFAPI_DL_CONFIG_REQUEST then pnf_handle_dl_config_request c (unpack DL_CONFIG msg) p
           else if mid = NFAPI_UL_CONFIG_REQUEST then pnf_handle_ul_config_request c (unpack UL_CONFIG msg) p
           else if mid = NFAPI_HI_DCI0_REQUEST then pnf_handle_hi_dci0_request c (unpack HI_DCI0 msg) p
           else if mid = NFAPI_TX_REQUEST then pnf_handle_tx_request c (unpack TX msg) p
           else if mid = NFAPI_LBT_DL_CONFIG_REQUEST then pnf_handle_lbt_dl_config_request c (unpack LBT_DL_CONFIG msg) p
           else if mid = NFAPI_UE_RELEASE_REQUEST then pnf_handle_ue_release_request c (unpack UE_RELEASE msg) p
           else Some (p, [])))"

text \<open>What happens to a PNF: messages and ticks.\<close>

datatype pnf_input = Message u32 u32 "u8 list" | Subframe u32 u16

definition pnf_step :: "pnf_config \<Rightarrow> (req_kind \<Rightarrow> u8 list \<Rightarrow> 'm request option) \<Rightarrow> (u8 list \<Rightarrow> dl_node_sync option)
  \<Rightarrow> pnf_input \<Rightarrow> 'm pnf_state \<Rightarrow> ('m pnf_state \<times> 'm pnf_event list) option" where
  "pnf_step c unpack unpack_sync i p =
     (case i of Message rx now msg \<Rightarrow> pnf_dispatch_p7_message c unpack unpack_sync rx now msg p
      | Subframe now sfn_sf \<Rightarrow> pnf_p7_subframe_ind c now sfn_sf p)"

fun run_pnf :: "pnf_config \<Rightarrow> (req_kind \<Rightarrow> u8 list \<Rightarrow> 'm request option) \<Rightarrow> (u8 list \<Rightarrow> dl_node_sync option)
  \<Rightarrow> pnf_input list \<Rightarrow> 'm pnf_state \<Rightarrow> ('m pnf_state \<times> 'm pnf_event list) option" where
  "run_pnf c unpack unpack_sync [] p = Some (p, [])"
| "run_pnf c unpack unpack_sync (i # is) p =
     (case pnf_step c unpack unpack_sync i p of None \<Rightarrow> None
      | Some (p', out) \<Rightarrow> map_option (\<lambda>(p'', out'). (p'', out @ out')) (run_pnf c unpack unpack_sync is p'))"

text \<open>The request that a message brings, if it brings one.\<close>

definition request_of :: "(req_kind \<Rightarrow> u8 list \<Rightarrow> 'm request option) \<Rightarrow> u8 list \<Rightarrow> (req_kind \<times> 'm request) option" where
  "request_of unpack msg =
     (case nfapi_p7_message_header_unpack msg of None \<Rightarrow> None
      | Some h \<Rightarrow> map_of [(NFAPI_DL_CONFIG_REQUEST, DL_CONFIG), (NFAPI_UL_CONFIG_REQUEST, UL_CONFIG),
          (NFAPI_HI_DCI0_REQUEST, HI_DCI0), (NFAPI_TX_REQUEST, TX), (NFAPI_LBT_DL_CONFIG_REQUEST, LBT_DL_CONFIG),
          (NFAPI_UE_RELEASE_REQUEST, UE_RELEASE)] (message_id h) \<bind> (\<lambda>k. map_option (Pair k) (unpack k msg)))"

section \<open>Laws of an entry\<close>

lemma get_set_req [simp]:
  "get_req k (set_req k' r e) = (if k = k' then r else get_req k e)" "sb_sfn_sf (set_req k r e) = sb_sfn_sf e"
  "get_req k (e\<lparr>sb_sfn_sf := s\<rparr>) = get_req k e"
  by (cases k; cases k'; simp) (cases k; simp)+

lemma get_clear [simp]:
  "get_req k (clear_reqs ks e) = (if k \<in> set ks then None else get_req k e)" "sb_sfn_sf (clear_reqs ks e) = sb_sfn_sf e"
  by (induction ks arbitrary: e) (auto simp: clear_reqs_def)

lemma get_zero [simp]: "get_req k zero_entry = None"
  by (cases k) (simp_all add: zero_entry_def)

lemma get_wipe: "get_req k (wipe_entry e) = (if k = HI_DCI0 \<and> (\<forall>k'. k' \<noteq> HI_DCI0 \<longrightarrow> get_req k' e = None) then None else get_req k e)"
proof -
  have eq: "(\<forall>k'. k' \<noteq> HI_DCI0 \<longrightarrow> get_req k' e = None) \<longleftrightarrow>
      dl_config_req e = None \<and> tx_req e = None \<and> ul_config_req e = None \<and> lbt_dl_config_req e = None \<and> ue_release_req e = None"
    by (metis get_req.simps req_kind.exhaust req_kind.distinct)
  have "wipe_entry e = (if \<forall>k'. k' \<noteq> HI_DCI0 \<longrightarrow> get_req k' e = None then zero_entry\<lparr>sb_sfn_sf := -1\<rparr> else e)"
    unfolding wipe_entry_def eq by (rule refl)
  then show ?thesis by (auto simp del: not_None_eq)
qed

section \<open>The window\<close>

lemma u8_bounds: "uint (w :: u8) < 256" "0 \<le> uint (w :: u8)"
  using uint_lt2p [of w] by simp_all

lemma mod_once_above: "n \<le> x \<Longrightarrow> x < 2 * n \<Longrightarrow> 0 < n \<Longrightarrow> x mod n = x - n" for x n :: int
  using mod_pos_geq [of n x] mod_pos_pos_trivial [of "x - n" n] by linarith

lemma mod_once_below: "- n < x \<Longrightarrow> x < 0 \<Longrightarrow> x mod n = x + n" for x n :: int
  using mod_add_self2 [of x n] mod_pos_pos_trivial [of "x + n" n] by linarith

lemma window_distance:
  assumes "sfnsf_ok cur" "sfnsf_ok s"
  shows "is_p7_request_in_window c cur s \<longleftrightarrow>
    (int (sfnsf_dec s) - int (sfnsf_dec cur)) mod 10240 \<in> {1..uint (ucast (subframe_buffer_size c) :: u8)}"
proof -
  define w where "w = uint (ucast (subframe_buffer_size c) :: u8)"
  define a where "a = int (sfnsf_dec cur)"
  define b where "b = int (sfnsf_dec s)"
  have dec: "NFAPI_SFNSF2DEC (uint cur) = a" "NFAPI_SFNSF2DEC (uint s) = b"
    by (simp_all add: a_def b_def sfnsf_dec_eq sfnsf_simps)
  have r: "0 \<le> a" "a < 10240" "0 \<le> b" "b < 10240" "0 \<le> w" "w < 256"
    unfolding a_def b_def w_def using sfnsf_dec_less [OF assms(1)] sfnsf_dec_less [OF assms(2)] u8_bounds [of "ucast (subframe_buffer_size c)"] by simp_all
  have m: "(a + w) smod 10240 = (a + w) mod 10240" using r by (simp add: smod_nonneg)
  have "is_p7_request_in_window c cur s \<longleftrightarrow>
      (if b \<le> a then (a + w) mod 10240 < a \<and> b \<le> (a + w) mod 10240 else b - a \<le> w)"
    by (simp add: is_p7_request_in_window_def Let_def dec m NFAPI_MAX_SFNSFDEC_def not_less flip: w_def)
  also have "\<dots> \<longleftrightarrow> 1 \<le> (b - a) mod 10240 \<and> (b - a) mod 10240 \<le> w"
  proof (cases "b \<le> a")
    case True
    show ?thesis
    proof -
      have "(b - a) mod 10240 = (if b = a then 0 else b - a + 10240)"
        using r True by (auto intro: mod_once_below)
      moreover have "(a + w) mod 10240 = (if a + w < 10240 then a + w else a + w - 10240)"
        using r by (auto intro: mod_once_above)
      ultimately show ?thesis using r True by auto
    qed
  next
    case False
    then show ?thesis using r by simp
  qed
  finally show ?thesis by (simp add: a_def b_def w_def)
qed

section \<open>Steps\<close>

text \<open>The kinds whose requests are also sent to the UEs, and how far ahead of its subframe a kind is delivered.\<close>

definition relayed :: "req_kind \<Rightarrow> bool" where
  "relayed k \<longleftrightarrow> k \<noteq> LBT_DL_CONFIG \<and> k \<noteq> UE_RELEASE"

definition lead :: "req_kind \<Rightarrow> nat" where
  "lead k = (if k \<in> set tx_kinds then 4 else 0)"

lemmas kind_lists = tx_kinds_def tx_free_def rx_kinds_def

lemma set_kinds: "set tx_free = set tx_kinds" "k \<in> set rx_kinds \<longleftrightarrow> k \<notin> set tx_kinds"
  by (cases k; auto simp: kind_lists)+

definition plain_event :: "'m pnf_event \<Rightarrow> bool" where
  "plain_event e = (case e of Free k r \<Rightarrow> False | Callback k r \<Rightarrow> False | _ \<Rightarrow> True)"

lemmas handler_defs = pnf_handle_dl_config_request_def pnf_handle_ul_config_request_def pnf_handle_hi_dci0_request_def
  pnf_handle_tx_request_def pnf_handle_lbt_dl_config_request_def pnf_handle_ue_release_request_def

lemma dispatch_request:
  assumes "request_of unpack msg = Some (k, r)"
  obtains extra where "list_all plain_event extra"
    "pnf_dispatch_p7_message c unpack us rx now msg p =
       map_option (\<lambda>(p', out). (p', out @ extra)) (handle_request c k (relayed k) (Some r) p)"
proof
  let ?extra = "if k = UE_RELEASE then [Ue_release_resp (req_phy_id r)] else []"
  show "list_all plain_event ?extra" by (simp add: plain_event_def)
  show "pnf_dispatch_p7_message c unpack us rx now msg p =
      map_option (\<lambda>(p', out). (p', out @ ?extra)) (handle_request c k (relayed k) (Some r) p)"
    using assms
    by (auto simp: request_of_def pnf_dispatch_p7_message_def bind_eq_Some_conv handler_defs relayed_def request_ids
        option.map_id0 Let_def split: option.splits if_splits)
qed

lemma dispatch_other:
  assumes "request_of unpack msg = None"
  obtains p' out where "pnf_dispatch_p7_message c unpack us rx now msg p = Some (p', out)" "list_all plain_event out"
    "subframe_buffer p' = subframe_buffer p" "cur_sfn_sf p' = cur_sfn_sf p"
    "sfn_sf_shift p' = (case us msg of None \<Rightarrow> sfn_sf_shift p | Some m \<Rightarrow>
       if (\<exists>h. nfapi_p7_message_header_unpack msg = Some h \<and> message_id h = NFAPI_DL_NODE_SYNC) \<and> delta_sfn_sf m \<noteq> 0
       then delta_sfn_sf m else sfn_sf_shift p)"
proof (cases "nfapi_p7_message_header_unpack msg")
  case None
  then show ?thesis by (intro that [of p "[]"]) (simp_all add: pnf_dispatch_p7_message_def split: option.split)
next
  case (Some h)
  show ?thesis
  proof (cases "message_id h = NFAPI_DL_NODE_SYNC")
    case True
    then show ?thesis using Some
      by (intro that [of "fst (pnf_handle_dl_node_sync rx now (us msg) p)" "snd (pnf_handle_dl_node_sync rx now (us msg) p)"])
        (simp_all add: pnf_dispatch_p7_message_def pnf_handle_dl_node_sync_def plain_event_def split: option.split)
  next
    case False
    then have "pnf_dispatch_p7_message c unpack us rx now msg p = Some (p, [])"
      using assms Some
      by (auto simp: request_of_def pnf_dispatch_p7_message_def handler_defs handle_request_def request_ids Let_def split: if_splits)
    then show ?thesis using False Some by (intro that [of p "[]"]) (simp_all split: option.split)
  qed
qed

definition pnf_ok :: "pnf_config \<Rightarrow> 'm pnf_state \<Rightarrow> bool" where
  "pnf_ok c p \<longleftrightarrow> length (subframe_buffer p) = 30 \<and> subframe_buffer_size c \<le> 30"

lemma buffer_index_eq:
  assumes "subframe_buffer_size c \<le> 30" "subframe_buffer_size c \<noteq> 0"
  shows "buffer_index c s = sfnsf_dec s mod unat (subframe_buffer_size c)" "buffer_index c s < 30"
proof -
  let ?n = "unat (subframe_buffer_size c)"
  have n: "0 < ?n" "?n \<le> 30" using assms by (simp_all add: word_le_nat_alt unat_gt_0)
  have d: "NFAPI_SFNSF2DEC (uint s) = int (sfnsf_dec s)" by (simp add: sfnsf_dec_eq sfnsf_simps)
  have "int (sfnsf_dec s) smod uint (subframe_buffer_size c) = int (sfnsf_dec s mod ?n)"
    by (simp add: smod_nonneg zmod_int)
  then have e: "buffer_index c s = unat (of_nat (sfnsf_dec s mod ?n) :: u8)" by (simp add: buffer_index_def d)
  have m: "sfnsf_dec s mod ?n < ?n" using n by simp
  then have "sfnsf_dec s mod ?n < 2 ^ 8" using n(2) by simp
  then show "buffer_index c s = sfnsf_dec s mod ?n"
    unfolding e by (simp add: unsigned_of_nat take_bit_nat_eq_self)
  then show "buffer_index c s < 30" using m n(2) by linarith
qed

lemma window_size: "\<not> is_p7_request_in_window c cur s" if "sfnsf_ok cur" "sfnsf_ok s" "subframe_buffer_size c = 0"
  using that by (simp add: window_distance)


section \<open>Ownership\<close>

text \<open>The requests of one kind that the PNF holds, that it has freed and that it has got, as multisets.\<close>

definition one :: "'a option \<Rightarrow> 'a multiset" where
  "one x = (case x of None \<Rightarrow> {#} | Some y \<Rightarrow> {#y#})"

definition held_in :: "req_kind \<Rightarrow> 'm subframe_entry list \<Rightarrow> 'm request multiset" where
  "held_in k b = sum_list (map (\<lambda>e. one (get_req k e)) b)"

definition freed :: "req_kind \<Rightarrow> 'm pnf_event list \<Rightarrow> 'm request multiset" where
  "freed k out = sum_list (map (\<lambda>e. case e of Free k' r \<Rightarrow> (if k' = k then {#r#} else {#}) | _ \<Rightarrow> {#}) out)"

definition got_by :: "(req_kind \<Rightarrow> u8 list \<Rightarrow> 'm request option) \<Rightarrow> req_kind \<Rightarrow> pnf_input \<Rightarrow> 'm request multiset" where
  "got_by unpack k i = (case i of Message rx now msg \<Rightarrow> (case request_of unpack msg of
       Some (k', r) \<Rightarrow> (if k' = k then {#r#} else {#}) | None \<Rightarrow> {#}) | Subframe now sf \<Rightarrow> {#})"

definition received :: "(req_kind \<Rightarrow> u8 list \<Rightarrow> 'm request option) \<Rightarrow> req_kind \<Rightarrow> pnf_input list \<Rightarrow> 'm request multiset" where
  "received unpack k is = sum_list (map (got_by unpack k) is)"

lemma one_simps [simp]: "one None = {#}" "one (Some y) = {#y#}" by (simp_all add: one_def)

lemma freed_simps [simp]:
  "freed k [] = {#}" "freed k (Free k' r # out) = (if k' = k then {#r#} else {#}) + freed k out"
  "freed k (xs @ ys) = freed k xs + freed k ys"
  by (simp_all add: freed_def)

lemma freed_plain: "list_all plain_event out \<Longrightarrow> freed k out = {#}"
  by (induction out) (auto simp: freed_def plain_event_def split: pnf_event.splits)

lemma freed_deliver: "freed k (concat (map (deliver c s e) ks)) = {#}"
  by (induction ks) (auto simp: deliver_def freed_def split: option.splits)

lemma freed_free: "distinct ks \<Longrightarrow> freed k (concat (map (free_req e) ks)) = (if k \<in> set ks then one (get_req k e) else {#})"
  by (induction ks) (auto simp: free_req_def split: option.splits)

lemma freed_dummy: "freed k (send_dummy_subframe c s) = {#}"
  by (simp add: send_dummy_subframe_def freed_def)

lemma held_update: "i < length b \<Longrightarrow> held_in k (b[i := e]) + one (get_req k (b ! i)) = held_in k b + one (get_req k e)"
  by (induction b arbitrary: i) (auto simp: held_in_def nth_Cons' less_Suc_eq_0_disj nat.split_sels add.assoc split: nat.splits)

lemma distinct_kinds: "distinct tx_free" "distinct rx_kinds" by (simp_all add: kind_lists)

lemma store_owned:
  assumes "store_request c k relay r p = Some (p', out)"
  shows "held_in k' (subframe_buffer p') + freed k' out =
    held_in k' (subframe_buffer p) + (if k' = k then {#r#} else {#})"
proof -
  let ?i = "buffer_index c (req_sfn_sf r)" and ?b = "subframe_buffer p"
  have i: "?i < length ?b" and b: "subframe_buffer p' = ?b[?i := set_req k (Some r) ((?b ! ?i)\<lparr>sb_sfn_sf := req_sfn_sf r\<rparr>)]"
    and f: "freed k' out = (if k' = k then one (get_req k (?b ! ?i)) else {#})"
    using assms by (auto simp: store_request_def Let_def freed_def split: if_splits option.splits)
  show ?thesis
    using held_update [OF i, of k' "set_req k (Some r) ((?b ! ?i)\<lparr>sb_sfn_sf := req_sfn_sf r\<rparr>)"] f b
    by (auto split: if_splits)
qed

lemma handle_owned:
  "handle_request c k relay (Some r) p = Some (p', out) \<Longrightarrow>
    held_in k' (subframe_buffer p') + freed k' out = held_in k' (subframe_buffer p) + (if k' = k then {#r#} else {#})"
  using store_owned [of c k relay r p p' out k']
  by (auto simp: handle_request_def late_request_def split: if_splits)

lemma length_serve [simp]: "length (fst (serve_tx c stx b)) = length b" "length (fst (serve_rx c s b)) = length b"
  by (simp_all add: serve_tx_def serve_rx_def Let_def)

lemma serve_subframeD:
  assumes "serve_subframe c s stx b = Some (b', out)"
  shows "buffer_index c s < length b" "buffer_index c stx < length b"
    "b' = fst (serve_rx c s (fst (serve_tx c stx b)))"
    "out = snd (serve_tx c stx b) @ snd (serve_rx c s (fst (serve_tx c stx b)))"
  using assms by (auto simp: serve_subframe_def split: if_splits prod.splits)

lemma serve_tx_owned:
  "buffer_index c stx < length b \<Longrightarrow> held_in k (fst (serve_tx c stx b)) + freed k (snd (serve_tx c stx b)) = held_in k b"
  using held_update [of "buffer_index c stx" b k "clear_reqs tx_free (b ! buffer_index c stx)"] distinct_kinds(1)
  by (auto simp: serve_tx_def serve_def freed_deliver freed_free freed_dummy Let_def split: if_splits)

lemma serve_rx_owned:
  assumes "buffer_index c s < length b"
  shows "\<exists>D. held_in k b = held_in k (fst (serve_rx c s b)) + freed k (snd (serve_rx c s b)) + D \<and> (k \<noteq> HI_DCI0 \<longrightarrow> D = {#})"
proof -
  define e where "e = b ! buffer_index c s"
  define e' where "e' = (if sb_sfn_sf e = s then clear_reqs rx_kinds e else e)"
  have r: "fst (serve_rx c s b) = b[buffer_index c s := wipe_entry e']"
    by (simp add: serve_rx_def Let_def e_def e'_def)
  have f: "one (get_req k e') + freed k (snd (serve_rx c s b)) = one (get_req k e)"
    using distinct_kinds(2) by (auto simp: serve_rx_def Let_def e_def e'_def serve_def freed_deliver freed_free)
  have "one (get_req k (wipe_entry e')) \<subseteq># one (get_req k e')" by (simp add: get_wipe)
  then obtain D where D: "one (get_req k e') = one (get_req k (wipe_entry e')) + D"
    by (auto simp: mset_subset_eq_exists_conv)
  have "held_in k (fst (serve_rx c s b)) + one (get_req k e) = held_in k b + one (get_req k (wipe_entry e'))"
    using held_update [OF assms, of k "wipe_entry e'"] by (simp add: r e_def)
  then have "held_in k b = held_in k (fst (serve_rx c s b)) + freed k (snd (serve_rx c s b)) + D"
    unfolding f [symmetric] D by (simp add: ac_simps)
  moreover have "D = {#}" if "k \<noteq> HI_DCI0" using D that by (simp add: get_wipe)
  ultimately show ?thesis by blast
qed

lemma serve_owned:
  assumes "serve_subframe c s stx b = Some (b', out)"
  shows "held_in k b' + freed k out \<subseteq># held_in k b"
    and "k \<noteq> HI_DCI0 \<Longrightarrow> held_in k b' + freed k out = held_in k b"
proof -
  note d = serve_subframeD [OF assms]
  obtain D where D: "held_in k (fst (serve_tx c stx b)) = held_in k b' + freed k (snd (serve_rx c s (fst (serve_tx c stx b)))) + D"
    "k \<noteq> HI_DCI0 \<longrightarrow> D = {#}"
    using serve_rx_owned [of c s "fst (serve_tx c stx b)" k] d(1) unfolding d(3) by auto
  then have "held_in k b = held_in k b' + freed k out + D"
    using serve_tx_owned [OF d(2), of k] by (simp add: d(4) ac_simps)
  then show "held_in k b' + freed k out \<subseteq># held_in k b"
    "k \<noteq> HI_DCI0 \<Longrightarrow> held_in k b' + freed k out = held_in k b" using D(2) by simp_all
qed

lemma stats_tick_sel [simp]:
  "subframe_buffer (stats_tick p) = subframe_buffer p" "cur_sfn_sf (stats_tick p) = cur_sfn_sf p"
  "sfn_sf_shift (stats_tick p) = sfn_sf_shift p"
  by (simp_all add: stats_tick_def Let_def)

lemma timing_tick_sel [simp]:
  "subframe_buffer (fst (timing_tick c p)) = subframe_buffer p" "cur_sfn_sf (fst (timing_tick c p)) = cur_sfn_sf p"
  "sfn_sf_shift (fst (timing_tick c p)) = sfn_sf_shift p" "list_all plain_event (snd (timing_tick c p))"
  by (simp_all add: timing_tick_def Let_def plain_event_def)

lemma subframe_ind_cases:
  assumes "pnf_p7_subframe_ind c now s p = Some (p', out)"
  shows "subframe_buffer_size c = 0 \<and> subframe_buffer p' = subframe_buffer p \<and> out = [] \<and> cur_sfn_sf p' = s \<or>
    (subframe_buffer_size c \<noteq> 0 \<and> cur_sfn_sf p' = s \<and> sfn_sf_shift p' = 0 \<and> (\<exists>b out1 info.
      serve_subframe c (shift_sfn_sf (sfn_sf_shift p) s) (sfnsf_add_sf s sf_ahead) (subframe_buffer p) = Some (b, out1) \<and>
      subframe_buffer p' = b \<and> out = out1 @ info \<and> list_all plain_event info))"
  using assms by (auto simp: pnf_p7_subframe_ind_def Let_def case_prod_beta split: if_splits)

lemma step_owned:
  assumes "pnf_step c unpack us i p = Some (p', out)"
  shows "held_in k (subframe_buffer p') + freed k out \<subseteq># held_in k (subframe_buffer p) + got_by unpack k i"
    and "k \<noteq> HI_DCI0 \<Longrightarrow> held_in k (subframe_buffer p') + freed k out = held_in k (subframe_buffer p) + got_by unpack k i"
proof -
  have "held_in k (subframe_buffer p') + freed k out \<subseteq># held_in k (subframe_buffer p) + got_by unpack k i \<and>
    (k \<noteq> HI_DCI0 \<longrightarrow> held_in k (subframe_buffer p') + freed k out = held_in k (subframe_buffer p) + got_by unpack k i)"
  proof (cases i)
    case (Message rx now msg)
    show ?thesis
    proof (cases "request_of unpack msg")
      case None
      obtain q o1 where "pnf_dispatch_p7_message c unpack us rx now msg p = Some (q, o1)" "list_all plain_event o1"
        "subframe_buffer q = subframe_buffer p" using dispatch_other [OF None, of c us rx now p] by metis
      then show ?thesis using assms Message None by (simp add: pnf_step_def got_by_def freed_plain)
    next
      case (Some kr)
      obtain k' r where kr: "kr = (k', r)" by (cases kr)
      from Some kr have "request_of unpack msg = Some (k', r)" by simp
      then obtain extra where e: "list_all plain_event extra"
        "pnf_dispatch_p7_message c unpack us rx now msg p =
          map_option (\<lambda>(p', out). (p', out @ extra)) (handle_request c k' (relayed k') (Some r) p)"
        by (rule dispatch_request)
      then obtain out' where "handle_request c k' (relayed k') (Some r) p = Some (p', out')" "out = out' @ extra"
        using assms Message by (auto simp: pnf_step_def)
      from handle_owned [OF this(1), of k] this(2) show ?thesis
        using Message Some kr e(1) by (simp add: got_by_def freed_plain)
    qed
  next
    case (Subframe now s)
    then have "pnf_p7_subframe_ind c now s p = Some (p', out)" using assms by (simp add: pnf_step_def)
    from subframe_ind_cases [OF this] show ?thesis
      using serve_owned [of c _ _ _ _ _ k] Subframe by (auto simp: got_by_def freed_plain)
  qed
  then show "held_in k (subframe_buffer p') + freed k out \<subseteq># held_in k (subframe_buffer p) + got_by unpack k i"
    "k \<noteq> HI_DCI0 \<Longrightarrow> held_in k (subframe_buffer p') + freed k out = held_in k (subframe_buffer p) + got_by unpack k i"
    by blast+
qed

lemma mset_chain:
  assumes "A + f' \<subseteq># B + r" "B + f \<subseteq># C + g"
  shows "A + f' + f \<subseteq># C + g + r"
proof -
  obtain D E where "B + r = A + f' + D" "C + g = B + f + E"
    using assms by (auto simp: mset_subset_eq_exists_conv)
  then have "C + g + r = A + f' + f + (D + E)" by (metis add.assoc add.commute)
  then show ?thesis by simp
qed

lemma run_owned:
  "run_pnf c unpack us is p = Some (p', out) \<Longrightarrow>
    held_in k (subframe_buffer p') + freed k out \<subseteq># held_in k (subframe_buffer p) + received unpack k is \<and>
    (k \<noteq> HI_DCI0 \<longrightarrow> held_in k (subframe_buffer p') + freed k out = held_in k (subframe_buffer p) + received unpack k is)"
proof (induction "is" arbitrary: p out rule: list.induct)
  case Nil
  then show ?case by (simp add: received_def)
next
  case (Cons i "is")
  then obtain q o1 o2 where q: "pnf_step c unpack us i p = Some (q, o1)" "run_pnf c unpack us is q = Some (p', o2)" "out = o1 @ o2"
    by (auto split: option.splits)
  have IH: "held_in k (subframe_buffer p') + freed k o2 \<subseteq># held_in k (subframe_buffer q) + received unpack k is"
    "k \<noteq> HI_DCI0 \<Longrightarrow> held_in k (subframe_buffer p') + freed k o2 = held_in k (subframe_buffer q) + received unpack k is"
    using Cons.IH [OF q(2)] by auto
  note st = step_owned [OF q(1), of k]
  have "held_in k (subframe_buffer p') + freed k out = (held_in k (subframe_buffer p') + freed k o2) + freed k o1"
    by (simp add: q(3) ac_simps)
  moreover have "held_in k (subframe_buffer p) + received unpack k (i # is) = held_in k (subframe_buffer p) + got_by unpack k i + received unpack k is"
    by (simp add: received_def ac_simps)
  moreover have "(held_in k (subframe_buffer p') + freed k o2) + freed k o1 \<subseteq>#
      held_in k (subframe_buffer p) + got_by unpack k i + received unpack k is"
    by (rule mset_chain [OF IH(1) st(1)])
  moreover have "(held_in k (subframe_buffer p') + freed k o2) + freed k o1 =
      held_in k (subframe_buffer p) + got_by unpack k i + received unpack k is" if "k \<noteq> HI_DCI0"
    using IH(2) [OF that] st(2) [OF that] by (metis add.assoc add.commute)
  ultimately show ?case by (simp only:) simp
qed

section \<open>Well-formed states\<close>

lemma store_ok: "pnf_ok c p \<Longrightarrow> subframe_buffer_size c \<noteq> 0 \<Longrightarrow> \<exists>p' out. store_request c k relay r p = Some (p', out) \<and> pnf_ok c p'"
  using buffer_index_eq(2) [of c "req_sfn_sf r"] by (auto simp: pnf_ok_def store_request_def Let_def)

lemma serve_ok:
  "length b = 30 \<Longrightarrow> subframe_buffer_size c \<le> 30 \<Longrightarrow> subframe_buffer_size c \<noteq> 0 \<Longrightarrow>
   \<exists>b' out. serve_subframe c s stx b = Some (b', out) \<and> length b' = 30"
  using buffer_index_eq(2) [of c s] buffer_index_eq(2) [of c stx]
  by (auto simp: serve_subframe_def case_prod_beta)

text \<open>The SFN/SF that occur: those of the ticks and of the requests.\<close>

definition input_ok :: "(req_kind \<Rightarrow> u8 list \<Rightarrow> 'm request option) \<Rightarrow> pnf_input \<Rightarrow> bool" where
  "input_ok unpack i = (case i of Subframe now s \<Rightarrow> sfnsf_ok s
     | Message rx now msg \<Rightarrow> (case request_of unpack msg of None \<Rightarrow> True | Some (k, r) \<Rightarrow> sfnsf_ok (req_sfn_sf r)))"

lemma step_ok:
  assumes p: "pnf_ok c p" "sfnsf_ok (cur_sfn_sf p)" and i: "input_ok unpack i"
  shows "\<exists>p' out. pnf_step c unpack us i p = Some (p', out) \<and> pnf_ok c p' \<and> sfnsf_ok (cur_sfn_sf p') \<and>
    cur_sfn_sf p' = (case i of Subframe now s \<Rightarrow> s | _ \<Rightarrow> cur_sfn_sf p)"
proof (cases i)
  case (Subframe now s)
  show ?thesis
  proof (cases "subframe_buffer_size c = 0")
    case True
    then show ?thesis using p i Subframe by (simp add: pnf_step_def pnf_p7_subframe_ind_def pnf_ok_def input_ok_def Let_def)
  next
    case False
    then obtain b out where "serve_subframe c (shift_sfn_sf (sfn_sf_shift p) s) (sfnsf_add_sf s sf_ahead) (subframe_buffer p) = Some (b, out)"
      "length b = 30" using serve_ok p(1) unfolding pnf_ok_def by blast
    then show ?thesis using p i Subframe False
      by (simp add: pnf_step_def pnf_p7_subframe_ind_def pnf_ok_def input_ok_def Let_def case_prod_beta)
  qed
next
  case (Message rx now msg)
  show ?thesis
  proof (cases "request_of unpack msg")
    case None
    obtain q o1 where "pnf_dispatch_p7_message c unpack us rx now msg p = Some (q, o1)"
      "subframe_buffer q = subframe_buffer p" "cur_sfn_sf q = cur_sfn_sf p"
      using dispatch_other [OF None, of c us rx now p] by metis
    then show ?thesis using p Message by (simp add: pnf_step_def pnf_ok_def)
  next
    case (Some kr)
    obtain k r where kr: "request_of unpack msg = Some (k, r)" using Some by (cases kr) simp
    then obtain extra where e: "pnf_dispatch_p7_message c unpack us rx now msg p =
        map_option (\<lambda>(p', out). (p', out @ extra)) (handle_request c k (relayed k) (Some r) p)"
      by (rule dispatch_request)
    have r: "sfnsf_ok (req_sfn_sf r)" using i kr Message by (simp add: input_ok_def)
    have "\<exists>p' out. handle_request c k (relayed k) (Some r) p = Some (p', out) \<and> pnf_ok c p' \<and> cur_sfn_sf p' = cur_sfn_sf p"
    proof (cases "is_p7_request_in_window c (cur_sfn_sf p) (req_sfn_sf r)")
      case True
      then have "subframe_buffer_size c \<noteq> 0" using window_size [OF p(2) r] by blast
      from store_ok [OF p(1) this, of k "relayed k" r] True show ?thesis
        by (auto simp: handle_request_def store_request_def Let_def split: if_splits)
    next
      case False
      then show ?thesis using p(1) by (simp add: handle_request_def late_request_def pnf_ok_def)
    qed
    then show ?thesis using p(2) Message e by (auto simp: pnf_step_def)
  qed
qed

lemma run_ok:
  "pnf_ok c p \<Longrightarrow> sfnsf_ok (cur_sfn_sf p) \<Longrightarrow> \<forall>i \<in> set is. input_ok unpack i \<Longrightarrow>
   \<exists>p' out. run_pnf c unpack us is p = Some (p', out) \<and> pnf_ok c p' \<and> sfnsf_ok (cur_sfn_sf p')"
proof (induction "is" arbitrary: p rule: list.induct)
  case (Cons i "is")
  from step_ok [OF Cons.prems(1,2), of unpack i us] Cons.prems(3)
  obtain q o1 where q: "pnf_step c unpack us i p = Some (q, o1)" "pnf_ok c q" "sfnsf_ok (cur_sfn_sf q)" by auto
  from Cons.IH [OF q(2,3)] Cons.prems(3) q(1) show ?case by fastforce
qed simp

section \<open>Delivery\<close>

text \<open>Entry \<open>i\<close> holds the request \<open>r\<close> of kind \<open>k\<close> for its subframe.\<close>

definition holds_req :: "pnf_config \<Rightarrow> req_kind \<Rightarrow> 'm request \<Rightarrow> 'm subframe_entry list \<Rightarrow> bool" where
  "holds_req c k r b \<longleftrightarrow> length b = 30 \<and>
     (let e = b ! buffer_index c (req_sfn_sf r) in sb_sfn_sf e = req_sfn_sf r \<and> get_req k e = Some r)"

lemma mod_apart: "a mod n = b mod n \<Longrightarrow> a \<le> b \<Longrightarrow> b < a + n \<Longrightarrow> a = b" for a b n :: nat
proof -
  assume m: "a mod n = b mod n" and le: "a \<le> b" and lt: "b < a + n"
  have "n dvd b - a" using mod_eq_dvd_iff_nat [OF le, of n] m by simp
  moreover have "b - a < n" using le lt by arith
  ultimately have "b - a = 0" by (metis nat_dvd_not_less not_gr_zero)
  then show "a = b" using le by simp
qed

text \<open>A window that does not reach over the end of the SFN counter: different subframes have different entries.\<close>

lemma index_inj:
  assumes c: "subframe_buffer_size c \<le> 30" "subframe_buffer_size c \<noteq> 0"
    and s: "sfnsf_ok s" "sfnsf_ok t" and eq: "buffer_index c s = buffer_index c t"
    and near: "sfnsf_dec s < sfnsf_dec t + unat (subframe_buffer_size c)" "sfnsf_dec t < sfnsf_dec s + unat (subframe_buffer_size c)"
  shows "s = t"
proof (rule sfnsf_eqI [OF s])
  have "sfnsf_dec s mod unat (subframe_buffer_size c) = sfnsf_dec t mod unat (subframe_buffer_size c)"
    using eq by (simp add: buffer_index_eq [OF c])
  then show "sfnsf_dec s = sfnsf_dec t"
    using near mod_apart [of "sfnsf_dec s" "unat (subframe_buffer_size c)" "sfnsf_dec t"]
      mod_apart [of "sfnsf_dec t" "unat (subframe_buffer_size c)" "sfnsf_dec s"] by linarith
qed

lemma window_linear:
  assumes "sfnsf_ok cur" "sfnsf_ok s" "sfnsf_dec cur + unat (subframe_buffer_size c) < 10240"
    "subframe_buffer_size c \<le> 30"
  shows "is_p7_request_in_window c cur s \<longleftrightarrow> sfnsf_dec cur < sfnsf_dec s \<and> sfnsf_dec s \<le> sfnsf_dec cur + unat (subframe_buffer_size c)"
proof -
  define d where "d = int (sfnsf_dec s) - int (sfnsf_dec cur)"
  define n where "n = unat (subframe_buffer_size c)"
  have "uint (subframe_buffer_size c) \<le> 30" using assms(4) by (simp add: word_le_def)
  then have u: "uint (ucast (subframe_buffer_size c) :: u8) = int n"
    by (simp add: n_def unsigned_ucast_eq take_bit_int_eq_self)
  have r: "sfnsf_dec cur < 10240" "sfnsf_dec s < 10240" by (simp_all add: sfnsf_dec_less assms)
  have lin: "sfnsf_dec cur + n < 10240" using assms(3) by (simp add: n_def)
  have "is_p7_request_in_window c cur s \<longleftrightarrow> d mod 10240 \<in> {1..int n}"
    by (simp add: window_distance [OF assms(1,2)] u d_def)
  also have "\<dots> \<longleftrightarrow> 1 \<le> d \<and> d \<le> int n"
  proof (cases "0 \<le> d")
    case True
    then have "d mod 10240 = d" using r by (simp add: d_def)
    then show ?thesis by simp
  next
    case False
    then have "d mod 10240 = d + 10240" using r by (intro mod_once_below) (simp_all add: d_def)
    then show ?thesis using False r lin by (auto simp: d_def)
  qed
  also have "\<dots> \<longleftrightarrow> sfnsf_dec cur < sfnsf_dec s \<and> sfnsf_dec s \<le> sfnsf_dec cur + n" unfolding d_def by linarith
  finally show ?thesis by (simp add: n_def)
qed

lemma handle_keeps_req:
  assumes h: "holds_req c k r (subframe_buffer p)" and c: "subframe_buffer_size c \<le> 30"
    and ok: "sfnsf_ok (cur_sfn_sf p)" "sfnsf_ok (req_sfn_sf r)" "sfnsf_ok (req_sfn_sf r')"
    and lin: "sfnsf_dec (cur_sfn_sf p) + unat (subframe_buffer_size c) < 10240"
    and near: "sfnsf_dec (cur_sfn_sf p) < sfnsf_dec (req_sfn_sf r)"
      "sfnsf_dec (req_sfn_sf r) \<le> sfnsf_dec (cur_sfn_sf p) + unat (subframe_buffer_size c)"
    and other: "(k', req_sfn_sf r') \<noteq> (k, req_sfn_sf r)"
    and res: "handle_request c k' relay (Some r') p = Some (p', out)"
  shows "holds_req c k r (subframe_buffer p') \<and> cur_sfn_sf p' = cur_sfn_sf p \<and> sfn_sf_shift p' = sfn_sf_shift p"
proof (cases "is_p7_request_in_window c (cur_sfn_sf p) (req_sfn_sf r')")
  case False
  then show ?thesis using h res by (auto simp: handle_request_def late_request_def)
next
  case True
  then have w: "sfnsf_dec (cur_sfn_sf p) < sfnsf_dec (req_sfn_sf r')"
    "sfnsf_dec (req_sfn_sf r') \<le> sfnsf_dec (cur_sfn_sf p) + unat (subframe_buffer_size c)"
    by (simp_all add: window_linear [OF ok(1,3) lin c])
  have c0: "subframe_buffer_size c \<noteq> 0" using w by auto
  let ?i = "buffer_index c (req_sfn_sf r)" and ?j = "buffer_index c (req_sfn_sf r')" and ?b = "subframe_buffer p"
  have p': "?j < length ?b" "subframe_buffer p' = ?b[?j := set_req k' (Some r') ((?b ! ?j)\<lparr>sb_sfn_sf := req_sfn_sf r'\<rparr>)]"
    "cur_sfn_sf p' = cur_sfn_sf p" "sfn_sf_shift p' = sfn_sf_shift p"
    using res True by (auto simp: handle_request_def store_request_def Let_def split: if_splits)
  have "req_sfn_sf r = req_sfn_sf r'" if "?i = ?j"
    by (rule index_inj [OF c c0 ok(2,3) that]) (use near w in linarith)+
  then have "?i \<noteq> ?j \<or> req_sfn_sf r' = req_sfn_sf r \<and> k' \<noteq> k" using other by metis
  then show ?thesis
  proof
    assume "?i \<noteq> ?j"
    then show ?thesis using h p' by (simp add: holds_req_def Let_def)
  next
    assume "req_sfn_sf r' = req_sfn_sf r \<and> k' \<noteq> k"
    then have same: "req_sfn_sf r' = req_sfn_sf r" "k \<noteq> k'" by auto
    then show ?thesis using h p' by (simp add: holds_req_def Let_def)
  qed
qed

text \<open>The tick of subframe \<open>s\<close> leaves an entry for a later subframe alone.\<close>

lemma serve_tx_keeps:
  assumes h: "holds_req c k r b" and k: "stx = req_sfn_sf r \<Longrightarrow> k \<notin> set tx_kinds"
  shows "holds_req c k r (fst (serve_tx c stx b))"
proof -
  define x where "x = buffer_index c (req_sfn_sf r)"
  have b: "length b = 30" "sb_sfn_sf (b ! x) = req_sfn_sf r" "get_req k (b ! x) = Some r"
    using h by (simp_all add: holds_req_def Let_def x_def)
  show ?thesis
  proof (cases "buffer_index c stx = x")
    case True
    then show ?thesis
      using b k set_kinds(1) by (cases "x < 30") (auto simp: holds_req_def Let_def serve_tx_def list_update_beyond x_def [symmetric])
  next
    case False
    then show ?thesis using b by (simp add: holds_req_def Let_def serve_tx_def x_def [symmetric])
  qed
qed

lemma serve_rx_keeps:
  "holds_req c k r b \<Longrightarrow> buffer_index c s \<noteq> buffer_index c (req_sfn_sf r) \<Longrightarrow> holds_req c k r (fst (serve_rx c s b))"
  by (simp add: holds_req_def Let_def serve_rx_def)

lemma serve_keeps:
  assumes h: "holds_req c k r b" and c: "subframe_buffer_size c \<le> 30" "subframe_buffer_size c \<noteq> 0"
    and ok: "sfnsf_ok s" "sfnsf_ok (req_sfn_sf r)" and stx: "sfnsf_dec stx = sfnsf_dec s + 4"
    and near: "sfnsf_dec s + lead k < sfnsf_dec (req_sfn_sf r)"
      "sfnsf_dec (req_sfn_sf r) < sfnsf_dec s + unat (subframe_buffer_size c)"
    and res: "serve_subframe c s stx b = Some (b', out)"
  shows "holds_req c k r b'"
proof -
  have "s = req_sfn_sf r" if "buffer_index c s = buffer_index c (req_sfn_sf r)"
    by (rule index_inj [OF c ok(1,2) that]) (use near in linarith)+
  then have "buffer_index c s \<noteq> buffer_index c (req_sfn_sf r)" using near by auto
  moreover have "k \<notin> set tx_kinds" if "stx = req_sfn_sf r"
    using near(1) stx that by (auto simp: lead_def split: if_splits)
  ultimately show ?thesis
    unfolding serve_subframeD(3) [OF res] by (intro serve_rx_keeps serve_tx_keeps h)
qed

lemma serve_delivers:
  assumes h: "holds_req c k r b" and cb: "callbacks c k"
    and at: "if k \<in> set tx_kinds then stx = req_sfn_sf r else s = req_sfn_sf r"
    and res: "serve_subframe c s stx b = Some (b', out)"
  shows "Callback k r \<in> set out"
proof (cases "k \<in> set tx_kinds")
  case True
  then have "Callback k r \<in> set (snd (serve_tx c stx b))"
    using h cb at by (force simp: serve_tx_def serve_def deliver_def holds_req_def Let_def)
  then show ?thesis unfolding serve_subframeD(4) [OF res] by simp
next
  case False
  then have "holds_req c k r (fst (serve_tx c stx b))" by (intro serve_tx_keeps h) simp
  then have "Callback k r \<in> set (snd (serve_rx c s (fst (serve_tx c stx b))))"
    using cb at False set_kinds(2) [of k] by (force simp: serve_rx_def serve_def deliver_def holds_req_def Let_def)
  then show ?thesis unfolding serve_subframeD(4) [OF res] by simp
qed

text \<open>
  The inputs between a request of kind \<open>k\<close> for \<open>target\<close> and its delivery: no other request of this kind for
  this subframe and no shift of the frame timing.
\<close>

definition undisturbed :: "(req_kind \<Rightarrow> u8 list \<Rightarrow> 'm request option) \<Rightarrow> (u8 list \<Rightarrow> dl_node_sync option) \<Rightarrow> req_kind \<Rightarrow> u16 \<Rightarrow> pnf_input \<Rightarrow> bool" where
  "undisturbed unpack us k target i = (input_ok unpack i \<and> (case i of Subframe t s \<Rightarrow> True
     | Message rx now msg \<Rightarrow> (case us msg of None \<Rightarrow> True | Some m \<Rightarrow> delta_sfn_sf m = 0) \<and>
         (case request_of unpack msg of None \<Rightarrow> True | Some (k', r') \<Rightarrow> (k', req_sfn_sf r') \<noteq> (k, target))))"

definition tick_decs :: "pnf_input list \<Rightarrow> nat list" where
  "tick_decs is = List.map_filter (\<lambda>i. case i of Subframe t s \<Rightarrow> Some (sfnsf_dec s) | _ \<Rightarrow> None) is"

lemma tick_decs_simps [simp]:
  "tick_decs [] = []" "tick_decs (Subframe t s # is) = sfnsf_dec s # tick_decs is" "tick_decs (Message rx now msg # is) = tick_decs is"
  by (simp_all add: tick_decs_def List.map_filter_simps)

definition waits :: "pnf_config \<Rightarrow> req_kind \<Rightarrow> 'm request \<Rightarrow> 'm pnf_state \<Rightarrow> bool" where
  "waits c k r p \<longleftrightarrow> pnf_ok c p \<and> holds_req c k r (subframe_buffer p) \<and> sfnsf_ok (cur_sfn_sf p) \<and> sfn_sf_shift p = 0 \<and>
     sfnsf_dec (cur_sfn_sf p) + lead k < sfnsf_dec (req_sfn_sf r) \<and>
     sfnsf_dec (req_sfn_sf r) \<le> sfnsf_dec (cur_sfn_sf p) + unat (subframe_buffer_size c)"

lemma message_waits:
  assumes w: "waits c k r p" and r: "sfnsf_ok (req_sfn_sf r)" "sfnsf_dec (req_sfn_sf r) + unat (subframe_buffer_size c) < 10240"
    and i: "undisturbed unpack us k (req_sfn_sf r) (Message rx now msg)"
  shows "\<exists>p' out. pnf_step c unpack us (Message rx now msg) p = Some (p', out) \<and> waits c k r p' \<and> cur_sfn_sf p' = cur_sfn_sf p"
proof (cases "request_of unpack msg")
  case None
  obtain q o1 where q: "pnf_dispatch_p7_message c unpack us rx now msg p = Some (q, o1)" "list_all plain_event o1"
    "subframe_buffer q = subframe_buffer p" "cur_sfn_sf q = cur_sfn_sf p"
    "sfn_sf_shift q = (case us msg of None \<Rightarrow> sfn_sf_shift p | Some m \<Rightarrow>
       if (\<exists>h. nfapi_p7_message_header_unpack msg = Some h \<and> message_id h = NFAPI_DL_NODE_SYNC) \<and> delta_sfn_sf m \<noteq> 0
       then delta_sfn_sf m else sfn_sf_shift p)"
    by (rule dispatch_other [OF None])
  have "sfn_sf_shift q = sfn_sf_shift p" using i by (cases "us msg") (simp_all add: q(5) undisturbed_def)
  with q(1,3,4) show ?thesis using w by (auto simp: pnf_step_def waits_def pnf_ok_def)
next
  case (Some kr)
  obtain k' r' where kr: "request_of unpack msg = Some (k', r')" using Some by (cases kr) simp
  have ok: "pnf_ok c p" "sfnsf_ok (cur_sfn_sf p)" "input_ok unpack (Message rx now msg)" "sfnsf_ok (req_sfn_sf r')"
    "(k', req_sfn_sf r') \<noteq> (k, req_sfn_sf r)"
    using w i kr by (auto simp: waits_def undisturbed_def input_ok_def)
  obtain p' out where s: "pnf_step c unpack us (Message rx now msg) p = Some (p', out)" "pnf_ok c p'"
    using step_ok [OF ok(1-3), of us] by blast
  obtain extra where "pnf_dispatch_p7_message c unpack us rx now msg p =
      map_option (\<lambda>(p', out). (p', out @ extra)) (handle_request c k' (relayed k') (Some r') p)"
    using dispatch_request [OF kr, of c us rx now p] by metis
  then obtain o1 where h: "handle_request c k' (relayed k') (Some r') p = Some (p', o1)"
    using s(1) by (auto simp: pnf_step_def)
  have "holds_req c k r (subframe_buffer p') \<and> cur_sfn_sf p' = cur_sfn_sf p \<and> sfn_sf_shift p' = sfn_sf_shift p"
    by (rule handle_keeps_req [OF _ _ ok(2) r(1) ok(4) _ _ _ ok(5) h]) (use w r(2) ok(1) in \<open>auto simp: waits_def pnf_ok_def\<close>)
  then show ?thesis using s w by (auto simp: waits_def)
qed

lemma ahead_dec: "sfnsf_ok s \<Longrightarrow> sfnsf_dec s + 4 < 10240 \<Longrightarrow> sfnsf_ok (sfnsf_add_sf s sf_ahead) \<and> sfnsf_dec (sfnsf_add_sf s sf_ahead) = sfnsf_dec s + 4"
  using sfnsf_add_sf_dec [of s 4] by (auto simp: sf_ahead_def)

lemma tick_serves:
  assumes "pnf_step c unpack us (Subframe t s) p = Some (p', out)" "subframe_buffer_size c \<noteq> 0" "sfn_sf_shift p = 0"
  obtains out1 info where "serve_subframe c s (sfnsf_add_sf s sf_ahead) (subframe_buffer p) = Some (subframe_buffer p', out1)"
    "out = out1 @ info" "cur_sfn_sf p' = s" "sfn_sf_shift p' = 0"
  using subframe_ind_cases [of c t s p p' out] assms by (auto simp: pnf_step_def shift_sfn_sf_def)

lemma tick_waits:
  assumes w: "waits c k r p" and r: "sfnsf_ok (req_sfn_sf r)" "sfnsf_dec (req_sfn_sf r) + 4 < 10240"
    and s: "sfnsf_ok s" "sfnsf_dec s = sfnsf_dec (cur_sfn_sf p) + 1" "sfnsf_dec s + lead k < sfnsf_dec (req_sfn_sf r)"
  shows "\<exists>p' out. pnf_step c unpack us (Subframe t s) p = Some (p', out) \<and> waits c k r p' \<and> cur_sfn_sf p' = s"
proof -
  have p: "pnf_ok c p" "sfnsf_ok (cur_sfn_sf p)" "sfn_sf_shift p = 0" "holds_req c k r (subframe_buffer p)"
    "subframe_buffer_size c \<le> 30" using w by (auto simp: waits_def pnf_ok_def)
  have c: "subframe_buffer_size c \<noteq> 0" using w s by (auto simp: waits_def)
  obtain p' out where st: "pnf_step c unpack us (Subframe t s) p = Some (p', out)" "pnf_ok c p'"
    using step_ok [OF p(1,2), of unpack "Subframe t s" us] s(1) by (auto simp: input_ok_def)
  obtain out1 info where o: "serve_subframe c s (sfnsf_add_sf s sf_ahead) (subframe_buffer p) = Some (subframe_buffer p', out1)"
    "cur_sfn_sf p' = s" "sfn_sf_shift p' = 0" using tick_serves [OF st(1) c p(3)] by metis
  have "holds_req c k r (subframe_buffer p')"
    by (rule serve_keeps [OF p(4,5) c s(1) r(1) _ s(3) _ o(1)]) (use w s r ahead_dec [OF s(1)] in \<open>auto simp: waits_def\<close>)
  then show ?thesis using st o s w by (auto simp: waits_def)
qed

lemma run_waits:
  assumes r: "sfnsf_ok (req_sfn_sf r)" "sfnsf_dec (req_sfn_sf r) + unat (subframe_buffer_size c) < 10240"
    "sfnsf_dec (req_sfn_sf r) + 4 < 10240"
  shows "waits c k r p \<Longrightarrow> list_all (undisturbed unpack us k (req_sfn_sf r)) is \<Longrightarrow>
    tick_decs is = [sfnsf_dec (cur_sfn_sf p) + 1 ..< sfnsf_dec (req_sfn_sf r) - lead k] \<Longrightarrow>
    \<exists>p' out. run_pnf c unpack us is p = Some (p', out) \<and> waits c k r p' \<and>
      sfnsf_dec (cur_sfn_sf p') + 1 = sfnsf_dec (req_sfn_sf r) - lead k"
proof (induction "is" arbitrary: p rule: list.induct)
  case Nil
  then have "[sfnsf_dec (cur_sfn_sf p) + 1 ..< sfnsf_dec (req_sfn_sf r) - lead k] = []" by simp
  then show ?case using Nil(1) unfolding upt_eq_Nil_conv waits_def by auto
next
  case (Cons i "is")
  have "\<exists>q o1. pnf_step c unpack us i p = Some (q, o1) \<and> waits c k r q \<and>
      tick_decs is = [sfnsf_dec (cur_sfn_sf q) + 1 ..< sfnsf_dec (req_sfn_sf r) - lead k]"
  proof (cases i)
    case (Message rx now msg)
    then show ?thesis using message_waits [OF Cons.prems(1) r(1,2), of unpack us rx now msg] Cons.prems(2,3) by force
  next
    case (Subframe t s)
    then have d: "sfnsf_dec s # tick_decs is = [sfnsf_dec (cur_sfn_sf p) + 1 ..< sfnsf_dec (req_sfn_sf r) - lead k]"
      "sfnsf_ok s" using Cons.prems(2,3) by (simp_all add: undisturbed_def input_ok_def)
    have e: "sfnsf_dec s = sfnsf_dec (cur_sfn_sf p) + 1" "sfnsf_dec s + lead k < sfnsf_dec (req_sfn_sf r)"
      "tick_decs is = [sfnsf_dec s + 1 ..< sfnsf_dec (req_sfn_sf r) - lead k]"
      using d(1) [symmetric] by (auto simp: upt_eq_Cons_conv)
    show ?thesis using tick_waits [OF Cons.prems(1) r(1,3) d(2) e(1,2), of unpack us t] e(3) Subframe by force
  qed
  then obtain q o1 where q: "pnf_step c unpack us i p = Some (q, o1)" "waits c k r q"
    "tick_decs is = [sfnsf_dec (cur_sfn_sf q) + 1 ..< sfnsf_dec (req_sfn_sf r) - lead k]" by blast
  from Cons.IH [OF q(2) _ q(3)] Cons.prems(2) q(1) show ?case by auto
qed

lemma run_pnf_append:
  "run_pnf c unpack us (is @ js) p = (case run_pnf c unpack us is p of None \<Rightarrow> None
     | Some (q, o1) \<Rightarrow> map_option (\<lambda>(p', o2). (p', o1 @ o2)) (run_pnf c unpack us js q))"
  by (induction "is" arbitrary: p) (auto simp: option.map_comp comp_def split_def option.map_ident split: option.splits)

lemma accept_waits:
  assumes p: "pnf_ok c p" "sfnsf_ok (cur_sfn_sf p)" "sfn_sf_shift p = 0"
    and msg: "request_of unpack msg = Some (k, r)" "sfnsf_ok (req_sfn_sf r)"
    and time: "sfnsf_dec (cur_sfn_sf p) + lead k < sfnsf_dec (req_sfn_sf r)"
      "sfnsf_dec (req_sfn_sf r) \<le> sfnsf_dec (cur_sfn_sf p) + unat (subframe_buffer_size c)"
      "sfnsf_dec (req_sfn_sf r) + unat (subframe_buffer_size c) < 10240"
  shows "\<exists>q o1. pnf_step c unpack us (Message rx now msg) p = Some (q, o1) \<and> waits c k r q \<and> cur_sfn_sf q = cur_sfn_sf p"
proof -
  have c: "subframe_buffer_size c \<le> 30" "subframe_buffer_size c \<noteq> 0" using p(1) time by (auto simp: pnf_ok_def)
  have "is_p7_request_in_window c (cur_sfn_sf p) (req_sfn_sf r)"
    using time by (subst window_linear [OF p(2) msg(2) _ c(1)]) linarith+
  then have h: "handle_request c k (relayed k) (Some r) p = store_request c k (relayed k) r p"
    by (simp add: handle_request_def)
  obtain q out where q: "store_request c k (relayed k) r p = Some (q, out)" "pnf_ok c q"
    using store_ok [OF p(1) c(2)] by blast
  have "holds_req c k r (subframe_buffer q) \<and> cur_sfn_sf q = cur_sfn_sf p \<and> sfn_sf_shift q = sfn_sf_shift p"
    using q p(1) by (auto simp: store_request_def Let_def holds_req_def pnf_ok_def split: if_splits)
  moreover obtain extra where "pnf_dispatch_p7_message c unpack us rx now msg p =
      map_option (\<lambda>(p', out). (p', out @ extra)) (handle_request c k (relayed k) (Some r) p)"
    using dispatch_request [OF msg(1), of c us rx now p] by metis
  ultimately show ?thesis using q h p time by (simp add: pnf_step_def waits_def)
qed

lemma delivery_time:
  assumes "sfnsf_ok s" "sfnsf_ok x" "sfnsf_dec s + lead k = sfnsf_dec x" "sfnsf_dec x + 4 < 10240"
  shows "if k \<in> set tx_kinds then sfnsf_add_sf s sf_ahead = x else s = x"
  using assms ahead_dec [OF assms(1)] sfnsf_eqI [of s x] sfnsf_eqI [of "sfnsf_add_sf s sf_ahead" x]
  by (auto simp: lead_def split: if_splits)

section \<open>Properties\<close>

text \<open>
  C37. The window: a request is accepted exactly when its subframe is 1 to \<open>subframe_buffer_size\<close>
  subframes ahead of the current one, counted modulo the 10240 subframes of the SFN counter.
\<close>

theorem request_window:
  assumes "sfnsf_ok cur" "sfnsf_ok s"
  shows "is_p7_request_in_window c cur s \<longleftrightarrow>
    (int (sfnsf_dec s) - int (sfnsf_dec cur)) mod 10240 \<in> {1..uint (ucast (subframe_buffer_size c) :: u8)}"
  by (rule window_distance [OF assms])

text \<open>An example: a window of 8, with all callbacks, and messages that are one header and a request in the transmit time stamp.\<close>

definition sample_config :: "u16 \<Rightarrow> pnf_config" where
  "sample_config n = \<lparr>pnf_phy_id = 1, subframe_buffer_size = n, timing_info_mode_periodic = True, timing_info_mode_aperiodic = True,
     timing_info_period = 32, callbacks = (\<lambda>k. True), dummies = (\<lambda>k. True)\<rparr>"

definition sample_request :: "u16 \<Rightarrow> u16 \<Rightarrow> u8 list" where
  "sample_request mid sf = enc_p7_header \<lparr>phy_id = 1, message_id = mid, message_length = 16, m_segment_sequence = 0,
     checksum = 0, transmit_timestamp = ucast sf\<rparr>"

definition sample_unpack :: "req_kind \<Rightarrow> u8 list \<Rightarrow> unit request option" where
  "sample_unpack k msg = map_option (\<lambda>h. \<lparr>req_phy_id = phy_id h, req_sfn_sf = ucast (transmit_timestamp h), req_body = ()\<rparr>)
     (nfapi_p7_message_header_unpack msg)"

theorem request_window_witness:
  "is_p7_request_in_window (sample_config 8) 0x10 0x17 \<and> \<not> is_p7_request_in_window (sample_config 8) 0x10 0x19"
proof -
  have ok: "sfnsf_ok 0x10" "sfnsf_ok 0x17" "sfnsf_ok 0x19" by code_simp+
  have "(int (sfnsf_dec 0x17) - int (sfnsf_dec 0x10)) mod 10240 = 7" "(int (sfnsf_dec 0x19) - int (sfnsf_dec 0x10)) mod 10240 = 9"
    "uint (ucast (subframe_buffer_size (sample_config 8)) :: u8) = 8" by code_simp+
  then show ?thesis using request_window [OF ok(1,2)] request_window [OF ok(1,3)] by simp
qed





text \<open>
  C16. Well-formedness: with a window of at most 30 subframes and well-formed SFN/SF values no message and no tick reads or
  writes outside the array of buffers or divides by zero, and the state stays well formed.
\<close>

theorem pnf_well_formed:
  assumes "subframe_buffer_size c \<le> 30" "\<forall>i \<in> set is. input_ok unpack i"
  shows "\<exists>p' out. run_pnf c unpack us is init_pnf = Some (p', out) \<and> length (subframe_buffer p') = 30 \<and> sfnsf_ok (cur_sfn_sf p')"
proof -
  have "pnf_ok c (init_pnf :: 'a pnf_state)" "sfnsf_ok (cur_sfn_sf (init_pnf :: 'a pnf_state))"
    using assms(1) by (simp_all add: pnf_ok_def init_pnf_def sfnsf_ok_def)
  from run_ok [OF this assms(2), of us] show ?thesis by (auto simp: pnf_ok_def)
qed

theorem pnf_well_formed_witness:
  "\<exists>p' out. run_pnf (sample_config 30) sample_unpack (\<lambda>m. None) [Subframe 0 0x3ff9, Message 0 0 (sample_request NFAPI_TX_REQUEST 6)] init_pnf
     = Some (p', out) \<and> length (subframe_buffer p') = 30 \<and> sfnsf_ok (cur_sfn_sf p')"
proof (rule pnf_well_formed)
  show "subframe_buffer_size (sample_config 30) \<le> 30" by code_simp
  show "\<forall>i \<in> set [Subframe 0 0x3ff9, Message 0 0 (sample_request NFAPI_TX_REQUEST 6)]. input_ok sample_unpack i" by code_simp
qed

text \<open>
  What the window lets through although it is lost: a HI_DCI0 request for the next subframe is accepted and counted
  as on time, but its buffer was served four subframes ahead; no tick calls its callback, and the
  reset of the buffer drops it without freeing it.
\<close>

theorem late_request_lost:
  "let run = run_pnf (sample_config 8) sample_unpack (\<lambda>m. None)
       (Message 0 0 (sample_request NFAPI_HI_DCI0_REQUEST 1) # map (Subframe 0) [1, 2, 3, 4, 5, 6, 7, 8, 9]) init_pnf in
   (case run of None \<Rightarrow> False | Some (p', out) \<Rightarrow>
      hi_dci0_ontime (stats p') = 1 \<and> freed HI_DCI0 out = {#} \<and> list_all (\<lambda>e. get_req HI_DCI0 e = None) (subframe_buffer p') \<and>
      list_all (\<lambda>e. case e of Callback k r \<Rightarrow> False | _ \<Rightarrow> True) out)"
  by code_simp

text \<open>
  A window over the end of the SFN counter: 10240 is no multiple of 30, so with the largest window two subframes of one
  window share a buffer, and a request for the one pushes out the request for the other.
\<close>

theorem window_wrap_collision:
  "let p = init_pnf\<lparr>cur_sfn_sf := 0x3fe9\<rparr>; c = sample_config 30;
       r = (\<lambda>s. \<lparr>req_phy_id = 1, req_sfn_sf = s, req_body = ()\<rparr>) in
   is_p7_request_in_window c (cur_sfn_sf p) 0x3ff5 \<and> is_p7_request_in_window c (cur_sfn_sf p) 5 \<and>
   (case run_pnf c sample_unpack (\<lambda>m. None)
      [Message 0 0 (sample_request NFAPI_TX_REQUEST 0x3ff5), Message 0 0 (sample_request NFAPI_TX_REQUEST 5)] p of
      None \<Rightarrow> False | Some (p', out) \<Rightarrow> Free TX (r 0x3ff5) \<in> set out)"
  by code_simp

end
