(* ===== verification/Vnf_P7.thy ===== *)
theory Vnf_P7
  imports Nfapi_Ids Sfn_Time P7_Header
begin

unbundle bit_operations_syntax

text \<open>
  The P7 synchronisation of the VNF, \<^verbatim>\<open>vnf_p7.c\<close> and \<^verbatim>\<open>vnf_p7_interface.c\<close>: the
  connections to the PNFs, the periodic \<^verbatim>\<open>DL_NODE_SYNC\<close>, the handler of \<^verbatim>\<open>UL_NODE_SYNC\<close>, which moves the
  SFN of the VNF to that of the PNF, the handler of \<^verbatim>\<open>TIMING_INFO\<close>, the dispatcher and the subframe tick.

  The LTE and the NR handlers have the same text up to the representation of the
  current SFN and their constants; the record \<open>radio\<close> holds these, and the two handlers are instances.
  A C \<^verbatim>\<open>int\<close> is an \<open>int\<close>, cut to 32 bits by \<open>s32\<close> where C stores it; signed overflow wraps.
  The fields of \<^verbatim>\<open>nfapi_vnf_p7_connection_info\<close> that belong to sockets and to reassembly
  (modelled in P7_Segment) are left out.  Following a null pointer is \<open>None\<close>.
\<close>

section \<open>State\<close>

definition s32 :: "int \<Rightarrow> int" where "s32 x = signed_take_bit 31 x"

record 'pos conn =
  conn_phy_id :: int
  in_sync :: bool
  dl_out_sync_offset :: int
  dl_out_sync_period :: int
  dl_in_sync_offset :: int
  dl_in_sync_period :: int
  filtered_adjust :: bool
  min_sync_cycle_count :: u16
  latency :: "u32 list"
  average_latency :: u32
  offset_filtered :: int
  offset_trend :: int
  offset :: int
  zero_count :: u16
  adjustment :: int
  insync_minor_adjustment :: int
  insync_minor_adjustment_duration :: int
  previous_t1 :: u32
  previous_t2 :: u32
  previous_offset_filtered :: int
  position :: 'pos

record 'pos vnf_p7 =
  p7_connections :: "'pos conn list"
  vnf_start_time_hr :: u32
  next_start :: timespec

text \<open>
  \<open>pos_dec\<close> counts the subframes (slots) up to a position, \<open>pos_udec\<close> does so on the value
  converted to \<^verbatim>\<open>uint32_t\<close>, \<open>dec_pos\<close> goes back; \<open>tick_us\<close> is the length of a subframe (slot).
\<close>

record 'pos radio =
  pos_dec :: "'pos \<Rightarrow> int"
  pos_udec :: "'pos \<Rightarrow> int"
  dec_pos :: "int \<Rightarrow> 'pos"
  max_dec :: int
  tick_us :: int
  time_t1 :: "u32 \<Rightarrow> 'pos \<Rightarrow> u32 \<Rightarrow> u32"
  time_t4 :: "u32 \<Rightarrow> 'pos \<Rightarrow> u32 \<Rightarrow> u32"

definition lte :: "int radio" where
  "lte = \<lparr>pos_dec = NFAPI_SFNSF2DEC,
     pos_udec = (\<lambda>p. NFAPI_SFNSF2DEC (p mod 2 ^ 32)),
     dec_pos = (\<lambda>d. uint (of_int (NFAPI_SFNSFDEC2SFNSF d) :: u16)),
     max_dec = NFAPI_MAX_SFNSFDEC, tick_us = 1000,
     time_t1 = (\<lambda>now p start. calculate_t1 now (of_int p) start),
     time_t4 = (\<lambda>now p start. calculate_t4 now (of_int p) start)\<rparr>"

definition NFAPI_MAX_SFNSLOTDEC :: int where "NFAPI_MAX_SFNSLOTDEC = 1024 * 20"

definition nr :: "(int \<times> int) radio" where
  "nr = \<lparr>pos_dec = (\<lambda>(sfn, slot). NFAPI_SFNSLOT2DEC sfn slot),
     pos_udec = (\<lambda>(sfn, slot). NFAPI_SFNSLOT2DEC (sfn mod 2 ^ 32) (slot mod 2 ^ 32)),
     dec_pos = (\<lambda>d. (uint (of_int (NFAPI_SFNSLOTDEC2SFN d) :: u16), uint (of_int (NFAPI_SFNSLOTDEC2SLOT d) :: u16))),
     max_dec = NFAPI_MAX_SFNSLOTDEC, tick_us = 500,
     time_t1 = (\<lambda>now (sfn, slot) start. calculate_nr_t1 now (of_int sfn) (of_int slot) start),
     time_t4 = (\<lambda>now (sfn, slot) start. calculate_nr_t4 now (of_int sfn) (of_int slot) start)\<rparr>"

text \<open>What the VNF does to its surroundings; a received message is passed to the client as its type \<open>'m\<close>.\<close>

datatype ('pos, 'm) vnf_event =
    Dl_node_sync u16 u32
  | Sync_indication bool
  | Subframe_indication int 'pos
  | Indication 'm
  | Vendor_ext 'm

section \<open>Connections\<close>

definition vnf_p7_connection_info_list_add :: "'pos conn \<Rightarrow> 'pos vnf_p7 \<Rightarrow> 'pos vnf_p7" where
  "vnf_p7_connection_info_list_add node v = v\<lparr>p7_connections := node # p7_connections v\<rparr>"

fun find_conn :: "int \<Rightarrow> 'pos conn list \<Rightarrow> 'pos conn option" where
  "find_conn pid [] = None"
| "find_conn pid (c # cs) = (if conn_phy_id c = pid then Some c else find_conn pid cs)"

definition vnf_p7_connection_info_list_find :: "u16 \<Rightarrow> 'pos vnf_p7 \<Rightarrow> 'pos conn option" where
  "vnf_p7_connection_info_list_find pid v = find_conn (uint pid) (p7_connections v)"

fun delete_conn :: "int \<Rightarrow> 'pos conn list \<Rightarrow> 'pos conn option \<times> 'pos conn list" where
  "delete_conn pid [] = (None, [])"
| "delete_conn pid (c # cs) =
     (if conn_phy_id c = pid then (Some c, cs) else map_prod id ((#) c) (delete_conn pid cs))"

definition vnf_p7_connection_info_list_delete :: "u16 \<Rightarrow> 'pos vnf_p7 \<Rightarrow> 'pos conn option \<times> 'pos vnf_p7" where
  "vnf_p7_connection_info_list_delete pid v =
     map_prod id (\<lambda>cs. v\<lparr>p7_connections := cs\<rparr>) (delete_conn (uint pid) (p7_connections v))"

text \<open>A handler works on the connection that it has found, in place.\<close>

fun set_conn :: "int \<Rightarrow> 'pos conn \<Rightarrow> 'pos conn list \<Rightarrow> 'pos conn list" where
  "set_conn pid c' [] = []"
| "set_conn pid c' (c # cs) = (if conn_phy_id c = pid then c' # cs else c # set_conn pid c' cs)"

definition new_conn :: "int \<Rightarrow> 'pos \<Rightarrow> 'pos conn" where
  "new_conn pid origin =
     \<lparr>conn_phy_id = pid, in_sync = False, dl_out_sync_offset = 30, dl_out_sync_period = 10,
      dl_in_sync_offset = 30, dl_in_sync_period = 512, filtered_adjust = False, min_sync_cycle_count = 8,
      latency = replicate 8 0, average_latency = 0, offset_filtered = 0, offset_trend = 0, offset = 0,
      zero_count = 0, adjustment = 0, insync_minor_adjustment = 0, insync_minor_adjustment_duration = 0,
      previous_t1 = 0, previous_t2 = 0, previous_offset_filtered = 0, position = origin\<rparr>"

definition nfapi_vnf_p7_add_pnf :: "int \<Rightarrow> 'pos \<Rightarrow> 'pos vnf_p7 \<Rightarrow> 'pos vnf_p7" where
  "nfapi_vnf_p7_add_pnf pid origin v = vnf_p7_connection_info_list_add (new_conn pid origin) v"

definition nfapi_vnf_p7_del_pnf :: "int \<Rightarrow> 'pos vnf_p7 \<Rightarrow> 'pos vnf_p7" where
  "nfapi_vnf_p7_del_pnf pid v = snd (vnf_p7_connection_info_list_delete (of_int pid) v)"

section \<open>DL_NODE_SYNC\<close>

definition vnf_build_send_dl_node_sync :: "'pos radio \<Rightarrow> u32 \<Rightarrow> u32 \<Rightarrow> 'pos conn \<Rightarrow> ('pos, 'm) vnf_event list" where
  "vnf_build_send_dl_node_sync R now start c =
     [Dl_node_sync (of_int (conn_phy_id c)) (time_t1 R now (position c) start)]"

text \<open>\<^verbatim>\<open>x % NFAPI_MAX_SFNSLOTDEC\<close> is \<^verbatim>\<open>x % 1024 * 20\<close>, the macro has no parentheses.\<close>

definition sync_due :: "int \<Rightarrow> int \<Rightarrow> bool" where
  "sync_due count period \<longleftrightarrow> count AND uint (of_int (period - 1) :: u16) = 0"

definition vnf_sync :: "u32 \<Rightarrow> u32 \<Rightarrow> int conn \<Rightarrow> (int, 'm) vnf_event list" where
  "vnf_sync now start c =
     (let sfn_sf_dec = uint (of_int (NFAPI_SFNSF2DEC (position c)) :: u16) in
      if in_sync c then
        (if sync_due ((sfn_sf_dec + dl_in_sync_offset c) smod NFAPI_MAX_SFNSFDEC) (dl_in_sync_period c)
         then vnf_build_send_dl_node_sync lte now start c else [])
      else
        (if sync_due ((sfn_sf_dec + dl_out_sync_offset c) smod NFAPI_MAX_SFNSFDEC) (dl_out_sync_period c)
         then vnf_build_send_dl_node_sync lte now start c else []))"

definition vnf_nr_sync :: "u32 \<Rightarrow> u32 \<Rightarrow> (int \<times> int) conn \<Rightarrow> (int \<times> int, 'm) vnf_event list" where
  "vnf_nr_sync now start c =
     (let sfn_slot_dec = uint (of_int (NFAPI_SFNSLOT2DEC (fst (position c)) (snd (position c))) :: u16) in
      if in_sync c then
        (if sync_due ((sfn_slot_dec + dl_in_sync_offset c) smod 1024 * 20) (dl_in_sync_period c)
         then vnf_build_send_dl_node_sync nr now start c else [])
      else
        (if sync_due ((sfn_slot_dec + dl_out_sync_offset c) smod 1024 * 20) (dl_out_sync_period c)
         then vnf_build_send_dl_node_sync nr now start c else []))"

section \<open>UL_NODE_SYNC\<close>

record ul_node_sync =
  un_phy_id :: u16
  un_t1 :: u32
  un_t2 :: u32
  un_t3 :: u32

definition SYNC_CYCLE_COUNT :: nat where "SYNC_CYCLE_COUNT = 2"

text \<open>\<open>t4\<close> and \<open>t1\<close> are in microseconds, but what is added for a wrap is the number of subframes.\<close>

definition link_latency :: "int \<Rightarrow> u32 \<Rightarrow> u32 \<Rightarrow> u32 \<Rightarrow> u32 \<Rightarrow> u32" where
  "link_latency m t1 t2 t3 t4 =
     (let tx_2_rx = if t1 < t4 then t4 - t1 else t4 + of_int m - t1;
          pnf_proc_time = t3 - t2
      in drop_bit 1 (tx_2_rx - pnf_proc_time))"

text \<open>
  The array has eight entries.  The write at index 8, which \<open>new_conn\<close> asks for, is outside
  of it; the member that follows it in the structure is \<^verbatim>\<open>average_latency\<close>.
\<close>

definition set_latency :: "u16 \<Rightarrow> u32 \<Rightarrow> 'pos conn \<Rightarrow> 'pos conn option" where
  "set_latency i v c =
     (if unat i < 8 then Some (c\<lparr>latency := (latency c)[unat i := v]\<rparr>)
      else if i = 8 then Some (c\<lparr>average_latency := v\<rparr>)
      else None)"

definition new_offset :: "int \<Rightarrow> u32 \<Rightarrow> u32 \<Rightarrow> u32 \<Rightarrow> 'pos conn \<Rightarrow> int" where
  "new_offset m t1 t2 lat c =
     (if t2 < previous_t2 c \<and> previous_t1 c < t1 then sint (of_int m + t2 - t1 - lat)
      else if previous_t2 c < t2 \<and> t1 < previous_t1 c then sint (t2 - (t1 + of_int m) - lat)
      else sint (t2 - t1 - lat))"

text \<open>One eighth of the new value and seven eighths of the old one.\<close>

definition smooth :: "int \<Rightarrow> int \<Rightarrow> int" where
  "smooth old new =
     (let oldFilteredValueShifted = s32 (push_bit 5 old); newOffsetShifted = s32 (push_bit 5 new)
      in drop_bit 5 (s32 (drop_bit 3 newOffsetShifted + drop_bit 3 (s32 (oldFilteredValueShifted * 7)))))"

definition filter_offset :: "int \<Rightarrow> u32 \<Rightarrow> u32 \<Rightarrow> u32 \<Rightarrow> 'pos conn \<Rightarrow> 'pos conn" where
  "filter_offset m t1 t2 lat c =
     (let off = new_offset m t1 t2 lat c
      in c\<lparr>offset := off,
           offset_filtered := (if offset_filtered c = 0 then off else smooth (offset_filtered c) off)\<rparr>)"

definition adjust_too_bad :: "'pos conn \<Rightarrow> 'pos conn" where
  "adjust_too_bad c =
     (if filtered_adjust c \<and> (1000000 < offset_filtered c \<or> offset_filtered c < -1000000)
      then c\<lparr>filtered_adjust := False, zero_count := 0, min_sync_cycle_count := 2, in_sync := False\<rparr>
      else c)"

definition average :: "u32 \<Rightarrow> u32 \<Rightarrow> 'pos conn \<Rightarrow> 'pos conn" where
  "average t1 t2 c =
     (if filtered_adjust c then c
      else (let a = foldl (+) (average_latency c) (take SYNC_CYCLE_COUNT (latency c)) div of_nat SYNC_CYCLE_COUNT
            in c\<lparr>average_latency := a, offset := sint (t2 - (t1 - a))\<rparr>))"

definition target_dec :: "'pos radio \<Rightarrow> 'pos conn \<Rightarrow> int" where
  "target_dec R c =
     (let d = s32 (pos_dec R (position c));
          d' = (if filtered_adjust c then s32 (d + s32 (offset_filtered c + tick_us R div 2) sdiv tick_us R)
                else s32 (d + offset c sdiv tick_us R))
      in if d' < 0 then d' + max_dec R else if max_dec R \<le> d' then d' - max_dec R else d')"

definition new_trend :: "'pos conn \<Rightarrow> int" where
  "new_trend c =
     (let f = offset_filtered c; p = previous_offset_filtered c in
      if 0 < p then (if p < f then s32 (f + p) sdiv 2 else offset_trend c)
      else if p < 0 then (if f < p then s32 (- s32 (f + p)) sdiv 2 else offset_trend c)
      else offset_trend c)"

definition minor_adjustment_1 :: "'pos conn \<Rightarrow> int" where
  "minor_adjustment_1 c = (let a = offset_trend c sdiv 6 in if a = 0 then 2 else a)"

definition minor_adjustment_2 :: "'pos conn \<Rightarrow> int" where
  "minor_adjustment_2 c = (let a = offset_trend c sdiv 2 in if a = 0 then 10 else a)"

definition absolute_mode :: "'pos conn \<Rightarrow> 'pos conn" where
  "absolute_mode c =
     (if adjustment c < 10
      then (let z = zero_count c + 1
            in if 10 \<le> z then c\<lparr>filtered_adjust := True, zero_count := 0\<rparr> else c\<lparr>zero_count := z\<rparr>)
      else c\<lparr>zero_count := 0\<rparr>)"

definition insync_minor :: "'pos conn \<Rightarrow> 'pos conn" where
  "insync_minor c =
     (let f = offset_filtered c; a = minor_adjustment_1 c in
      if 250 < f then c\<lparr>insync_minor_adjustment := a, insync_minor_adjustment_duration := s32 (f sdiv a)\<rparr>
      else if f < -250
      then c\<lparr>insync_minor_adjustment := s32 (- a), insync_minor_adjustment_duration := s32 (f sdiv s32 (- a))\<rparr>
      else c\<lparr>insync_minor_adjustment := 0\<rparr>)"

text \<open>The branches for a positive and for a negative adjustment have the same text.\<close>

definition insync_off :: "'pos conn \<Rightarrow> 'pos conn" where
  "insync_off c =
     (let f = offset_filtered c; a = minor_adjustment_2 c in
      if 250 < f
      then c\<lparr>insync_minor_adjustment := a, insync_minor_adjustment_duration := s32 (2 * ((f - 250) sdiv a))\<rparr>
      else if f < -250
      then c\<lparr>insync_minor_adjustment := s32 (- a),
             insync_minor_adjustment_duration := s32 (2 * ((f + 250) sdiv s32 (- a)))\<rparr>
      else c)"

definition fine_mode :: "'pos conn \<Rightarrow> 'pos conn \<times> ('pos, 'm) vnf_event list" where
  "fine_mode c =
     (if adjustment c = 0
      then (if 10 \<le> zero_count c
            then (insync_minor (c\<lparr>in_sync := True\<rparr>), if in_sync c then [] else [Sync_indication (in_sync c)])
            else (let c' = c\<lparr>zero_count := zero_count c + 1\<rparr>
                  in (if in_sync c' then insync_minor c' else c', [])))
      else (if in_sync c then insync_off c else c, []))"

definition end_of_cycle :: "'pos radio \<Rightarrow> u32 \<Rightarrow> u32 \<Rightarrow> 'pos conn \<Rightarrow> 'pos conn \<times> ('pos, 'm) vnf_event list" where
  "end_of_cycle R t1 t2 c0 =
     (let c1 = average t1 t2 c0;
          new = dec_pos R (target_dec R c1);
          c2 = c1\<lparr>adjustment := s32 (pos_dec R new - pos_udec R (position c1)), previous_t1 := 0, previous_t2 := 0\<rparr>;
          c3 = c2\<lparr>offset_trend := new_trend c2\<rparr>;
          (c4, out) = (if filtered_adjust c3 then fine_mode c3 else (absolute_mode c3, []));
          c5 = (if in_sync c4 then c4 else c4\<lparr>position := new\<rparr>)
      in (c5\<lparr>previous_offset_filtered := offset_filtered c5, min_sync_cycle_count := 2,
             offset_filtered := 0, offset := 0\<rparr>, out))"

definition node_sync :: "'pos radio \<Rightarrow> u32 \<Rightarrow> u32 \<Rightarrow> u32 \<Rightarrow> u32 \<Rightarrow> 'pos conn \<Rightarrow> ('pos conn \<times> ('pos, 'm) vnf_event list) option" where
  "node_sync R t1 t2 t3 t4 c =
     (let lat = link_latency (max_dec R) t1 t2 t3 t4 in
      case set_latency (min_sync_cycle_count c) lat c of None \<Rightarrow> None
      | Some c1 \<Rightarrow>
          (let c2 = (if filtered_adjust c1 then filter_offset (max_dec R) t1 t2 lat c1 else c1);
               c3 = adjust_too_bad c2;
               c4 = (if min_sync_cycle_count c3 \<noteq> 0
                     then c3\<lparr>min_sync_cycle_count := min_sync_cycle_count c3 - 1\<rparr> else c3)
           in Some (if min_sync_cycle_count c4 = 0 then end_of_cycle R t1 t2 c4
                    else (c4\<lparr>previous_t1 := t1, previous_t2 := t2\<rparr>, []))))"

definition handle_ul_node_sync :: "'pos radio \<Rightarrow> u32 \<Rightarrow> ul_node_sync option \<Rightarrow> 'pos vnf_p7
  \<Rightarrow> ('pos vnf_p7 \<times> ('pos, 'm) vnf_event list) option" where
  "handle_ul_node_sync R now ind v =
     (case ind of None \<Rightarrow> Some (v, [])
      | Some m \<Rightarrow>
          (case vnf_p7_connection_info_list_find (un_phy_id m) v of None \<Rightarrow> None
           | Some c \<Rightarrow>
               map_option (\<lambda>(c', out).
                   (v\<lparr>p7_connections := set_conn (uint (un_phy_id m)) c' (p7_connections v)\<rparr>, out))
                 (node_sync R (un_t1 m) (un_t2 m) (un_t3 m) (time_t4 R now (position c) (vnf_start_time_hr v)) c)))"

definition vnf_handle_ul_node_sync :: "u32 \<Rightarrow> ul_node_sync option \<Rightarrow> int vnf_p7
  \<Rightarrow> (int vnf_p7 \<times> (int, 'm) vnf_event list) option" where
  "vnf_handle_ul_node_sync = handle_ul_node_sync lte"

definition vnf_nr_handle_ul_node_sync :: "u32 \<Rightarrow> ul_node_sync option \<Rightarrow> (int \<times> int) vnf_p7
  \<Rightarrow> ((int \<times> int) vnf_p7 \<times> (int \<times> int, 'm) vnf_event list) option" where
  "vnf_nr_handle_ul_node_sync = handle_ul_node_sync nr"

section \<open>TIMING_INFO\<close>

text \<open>
  The first connection of the list is the one that is set, whichever PNF has sent the
  message.  The difference is cut to \<^verbatim>\<open>int16_t\<close>.
\<close>

definition vnf_handle_timing_info :: "u32 option \<Rightarrow> int vnf_p7 \<Rightarrow> int vnf_p7" where
  "vnf_handle_timing_info ind v =
     (case (ind, p7_connections v) of
        (Some last_sfn_sf, c # cs) \<Rightarrow>
          (let delta = of_int (NFAPI_SFNSF2DEC (position c) - NFAPI_SFNSF2DEC (uint last_sfn_sf)) :: 16 word
           in if delta \<noteq> 0 then v\<lparr>p7_connections := c\<lparr>position := sint last_sfn_sf\<rparr> # cs\<rparr> else v)
      | _ \<Rightarrow> v)"

definition vnf_nr_handle_timing_info :: "(u32 \<times> u32) option \<Rightarrow> (int \<times> int) vnf_p7 \<Rightarrow> (int \<times> int) vnf_p7" where
  "vnf_nr_handle_timing_info ind v =
     (case (ind, p7_connections v) of
        (Some (last_sfn, last_slot), c # cs) \<Rightarrow>
          (let delta = of_int (NFAPI_SFNSLOT2DEC (fst (position c)) (snd (position c))
                 - NFAPI_SFNSLOT2DEC (uint last_sfn) (uint last_slot)) :: 16 word
           in if delta \<noteq> 0 then v\<lparr>p7_connections := c\<lparr>position := (sint last_sfn, sint last_slot)\<rparr> # cs\<rparr> else v)
      | _ \<Rightarrow> v)"

section \<open>Indications\<close>

text \<open>
  The argument is the unpacked message, \<open>None\<close> when it could not be unpacked.  The
  callbacks of the client are taken to be set; the lists of a message are freed after the callback.
\<close>

definition vnf_handle_indication :: "'m option \<Rightarrow> ('pos, 'm) vnf_event list" where
  "vnf_handle_indication ind = (case ind of None \<Rightarrow> [] | Some m \<Rightarrow> [Indication m])"

definition vnf_handle_harq_indication :: "'m option \<Rightarrow> ('pos, 'm) vnf_event list" where
  "vnf_handle_harq_indication ind = vnf_handle_indication ind"
definition vnf_handle_crc_indication :: "'m option \<Rightarrow> ('pos, 'm) vnf_event list" where
  "vnf_handle_crc_indication ind = vnf_handle_indication ind"
definition vnf_handle_rx_ulsch_indication :: "'m option \<Rightarrow> ('pos, 'm) vnf_event list" where
  "vnf_handle_rx_ulsch_indication ind = vnf_handle_indication ind"
definition vnf_handle_rach_indication :: "'m option \<Rightarrow> ('pos, 'm) vnf_event list" where
  "vnf_handle_rach_indication ind = vnf_handle_indication ind"
definition vnf_handle_srs_indication :: "'m option \<Rightarrow> ('pos, 'm) vnf_event list" where
  "vnf_handle_srs_indication ind = vnf_handle_indication ind"
definition vnf_handle_rx_sr_indication :: "'m option \<Rightarrow> ('pos, 'm) vnf_event list" where
  "vnf_handle_rx_sr_indication ind = vnf_handle_indication ind"
definition vnf_handle_rx_cqi_indication :: "'m option \<Rightarrow> ('pos, 'm) vnf_event list" where
  "vnf_handle_rx_cqi_indication ind = vnf_handle_indication ind"
definition vnf_handle_lbt_dl_indication :: "'m option \<Rightarrow> ('pos, 'm) vnf_event list" where
  "vnf_handle_lbt_dl_indication ind = vnf_handle_indication ind"
definition vnf_handle_nb_harq_indication :: "'m option \<Rightarrow> ('pos, 'm) vnf_event list" where
  "vnf_handle_nb_harq_indication ind = vnf_handle_indication ind"
definition vnf_handle_nrach_indication :: "'m option \<Rightarrow> ('pos, 'm) vnf_event list" where
  "vnf_handle_nrach_indication ind = vnf_handle_indication ind"
definition vnf_handle_nr_slot_indication :: "'m option \<Rightarrow> ('pos, 'm) vnf_event list" where
  "vnf_handle_nr_slot_indication ind = vnf_handle_indication ind"
definition vnf_handle_nr_rx_data_indication :: "'m option \<Rightarrow> ('pos, 'm) vnf_event list" where
  "vnf_handle_nr_rx_data_indication ind = vnf_handle_indication ind"
definition vnf_handle_nr_crc_indication :: "'m option \<Rightarrow> ('pos, 'm) vnf_event list" where
  "vnf_handle_nr_crc_indication ind = vnf_handle_indication ind"
definition vnf_handle_nr_srs_indication :: "'m option \<Rightarrow> ('pos, 'm) vnf_event list" where
  "vnf_handle_nr_srs_indication ind = vnf_handle_indication ind"
definition vnf_handle_nr_uci_indication :: "'m option \<Rightarrow> ('pos, 'm) vnf_event list" where
  "vnf_handle_nr_uci_indication ind = vnf_handle_indication ind"
definition vnf_handle_nr_rach_indication :: "'m option \<Rightarrow> ('pos, 'm) vnf_event list" where
  "vnf_handle_nr_rach_indication ind = vnf_handle_indication ind"

text \<open>The response to a release request is unpacked and dropped.\<close>

definition vnf_handle_ue_release_resp :: "'m option \<Rightarrow> ('pos, 'm) vnf_event list" where
  "vnf_handle_ue_release_resp resp = []"

definition vnf_handle_p7_vendor_extension :: "'m option \<Rightarrow> ('pos, 'm) vnf_event list" where
  "vnf_handle_p7_vendor_extension msg = (case msg of None \<Rightarrow> [] | Some m \<Rightarrow> [Vendor_ext m])"

section \<open>Dispatch\<close>

text \<open>
  \<open>unpack\<close> stands for \<^verbatim>\<open>nfapi_p7_message_unpack\<close> into the structure of the message id, the
  two other arguments for the same on the synchronisation and the timing messages.
\<close>

record ('pos, 'm) vnf_codec =
  unpack_sync :: "u8 list \<Rightarrow> ul_node_sync option"
  unpack_timing :: "u8 list \<Rightarrow> 'pos option"
  unpack_msg :: "u16 \<Rightarrow> u8 list \<Rightarrow> 'm option"

definition quietly :: "'pos vnf_p7 \<Rightarrow> ('pos, 'm) vnf_event list \<Rightarrow> ('pos vnf_p7 \<times> ('pos, 'm) vnf_event list) option" where
  "quietly v out = Some (v, out)"

definition vnf_dispatch_p7_message :: "(u32, 'm) vnf_codec \<Rightarrow> u32 \<Rightarrow> u8 list \<Rightarrow> int vnf_p7
  \<Rightarrow> (int vnf_p7 \<times> (int, 'm) vnf_event list) option" where
  "vnf_dispatch_p7_message cd now msg v =
     (case nfapi_p7_message_header_unpack msg of None \<Rightarrow> Some (v, [])
      | Some h \<Rightarrow>
          (let mid = message_id h; ind = unpack_msg cd mid msg in
           if mid = NFAPI_UL_NODE_SYNC then vnf_handle_ul_node_sync now (unpack_sync cd msg) v
           else if mid = NFAPI_TIMING_INFO then Some (vnf_handle_timing_info (unpack_timing cd msg) v, [])
           else if mid = NFAPI_HARQ_INDICATION then quietly v (vnf_handle_harq_indication ind)
           else if mid = NFAPI_CRC_INDICATION then quietly v (vnf_handle_crc_indication ind)
           else if mid = NFAPI_RX_ULSCH_INDICATION then quietly v (vnf_handle_rx_ulsch_indication ind)
           else if mid = NFAPI_RACH_INDICATION then quietly v (vnf_handle_rach_indication ind)
           else if mid = NFAPI_SRS_INDICATION then quietly v (vnf_handle_srs_indication ind)
           else if mid = NFAPI_RX_SR_INDICATION then quietly v (vnf_handle_rx_sr_indication ind)
           else if mid = NFAPI_RX_CQI_INDICATION then quietly v (vnf_handle_rx_cqi_indication ind)
           else if mid = NFAPI_LBT_DL_INDICATION then quietly v (vnf_handle_lbt_dl_indication ind)
           else if mid = NFAPI_NB_HARQ_INDICATION then quietly v (vnf_handle_nb_harq_indication ind)
           else if mid = NFAPI_NRACH_INDICATION then quietly v (vnf_handle_nrach_indication ind)
           else if mid = NFAPI_UE_RELEASE_RESPONSE then quietly v (vnf_handle_ue_release_resp ind)
           else if NFAPI_VENDOR_EXT_MSG_MIN \<le> mid \<and> mid \<le> NFAPI_VENDOR_EXT_MSG_MAX
           then quietly v (vnf_handle_p7_vendor_extension ind)
           else Some (v, [])))"

definition vnf_nr_dispatch_p7_message :: "(u32 \<times> u32, 'm) vnf_codec \<Rightarrow> u32 \<Rightarrow> u8 list \<Rightarrow> (int \<times> int) vnf_p7
  \<Rightarrow> ((int \<times> int) vnf_p7 \<times> (int \<times> int, 'm) vnf_event list) option" where
  "vnf_nr_dispatch_p7_message cd now msg v =
     (case nfapi_p7_message_header_unpack msg of None \<Rightarrow> Some (v, [])
      | Some h \<Rightarrow>
          (let mid = message_id h; ind = unpack_msg cd mid msg in
           if mid = NFAPI_NR_PHY_MSG_TYPE_UL_NODE_SYNC then vnf_nr_handle_ul_node_sync now (unpack_sync cd msg) v
           else if mid = NFAPI_TIMING_INFO then Some (vnf_nr_handle_timing_info (unpack_timing cd msg) v, [])
           else if mid = NFAPI_NR_PHY_MSG_TYPE_SLOT_INDICATION then quietly v (vnf_handle_nr_slot_indication ind)
           else if mid = NFAPI_NR_PHY_MSG_TYPE_RX_DATA_INDICATION then quietly v (vnf_handle_nr_rx_data_indication ind)
           else if mid = NFAPI_NR_PHY_MSG_TYPE_CRC_INDICATION then quietly v (vnf_handle_nr_crc_indication ind)
           else if mid = NFAPI_NR_PHY_MSG_TYPE_UCI_INDICATION then quietly v (vnf_handle_nr_uci_indication ind)
           else if mid = NFAPI_NR_PHY_MSG_TYPE_SRS_INDICATION then quietly v (vnf_handle_nr_srs_indication ind)
           else if mid = NFAPI_NR_PHY_MSG_TYPE_RACH_INDICATION then quietly v (vnf_handle_nr_rach_indication ind)
           else if mid = NFAPI_UE_RELEASE_RESPONSE then quietly v (vnf_handle_ue_release_resp ind)
           else if NFAPI_VENDOR_EXT_MSG_MIN \<le> mid \<and> mid \<le> NFAPI_VENDOR_EXT_MSG_MAX
           then quietly v (vnf_handle_p7_vendor_extension ind)
           else Some (v, [])))"

section \<open>The subframe tick\<close>

text \<open>
  The part of the loop of \<^verbatim>\<open>nfapi_vnf_p7_start\<close> that runs when the subframe is over.
  \<open>next_start\<close> is its local variable \<^verbatim>\<open>sf_start\<close>, the monotonic time at which the next subframe begins;
  the minor adjustment of the first connection shortens or lengthens the subframe.
\<close>

definition vnf_timespec_add :: "timespec \<Rightarrow> timespec \<Rightarrow> timespec" where
  "vnf_timespec_add lhs rhs =
     (let s = ts_sec lhs + ts_sec rhs; n = ts_nsec lhs + ts_nsec rhs
      in if n > 1000000000 then \<lparr>ts_sec = s + 1, ts_nsec = n - 1000000000\<rparr> else \<lparr>ts_sec = s, ts_nsec = n\<rparr>)"

definition minor_adjust :: "'pos conn \<Rightarrow> timespec \<Rightarrow> 'pos conn \<times> timespec" where
  "minor_adjust c t =
     (if in_sync c \<and> insync_minor_adjustment c \<noteq> 0 \<and> 0 < insync_minor_adjustment_duration c
      then (let n = ts_nsec t - s32 (insync_minor_adjustment c * 1000);
                t' = (if 1000000000 < n then \<lparr>ts_sec = ts_sec t + 1, ts_nsec = n - 1000000000\<rparr>
                      else if n < 0 then \<lparr>ts_sec = ts_sec t - 1, ts_nsec = n + 1000000000\<rparr>
                      else \<lparr>ts_sec = ts_sec t, ts_nsec = n\<rparr>);
                d = insync_minor_adjustment_duration c - 1
            in (c\<lparr>insync_minor_adjustment_duration := d,
                  insync_minor_adjustment := (if d = 0 then 0 else insync_minor_adjustment c)\<rparr>, t'))
      else (c, t))"

definition start_next_subframe :: "'pos vnf_p7 \<Rightarrow> 'pos vnf_p7" where
  "start_next_subframe v =
     (let t = vnf_timespec_add (next_start v) \<lparr>ts_sec = 0, ts_nsec = 1000000\<rparr>
      in case p7_connections v of
           [] \<Rightarrow> v\<lparr>next_start := t\<rparr>
         | c # cs \<Rightarrow> (case minor_adjust c t of (c', t') \<Rightarrow> v\<lparr>p7_connections := c' # cs, next_start := t'\<rparr>))"

definition advance_conn :: "int conn \<Rightarrow> int conn" where
  "advance_conn c = c\<lparr>position := uint (increment_sfn_sf (of_int (position c)))\<rparr>"

definition send_mac_subframe_indications :: "'pos vnf_p7 \<Rightarrow> ('pos, 'm) vnf_event list" where
  "send_mac_subframe_indications v =
     concat (map (\<lambda>c. if in_sync c then [Subframe_indication (conn_phy_id c) (position c)] else []) (p7_connections v))"

definition send_mac_slot_indications :: "'pos vnf_p7 \<Rightarrow> ('pos, 'm) vnf_event list" where
  "send_mac_slot_indications v =
     concat (map (\<lambda>c. if in_sync c then [Subframe_indication (conn_phy_id c) (position c)] else []) (p7_connections v))"

definition vnf_subframe_tick :: "u32 \<Rightarrow> int vnf_p7 \<Rightarrow> int vnf_p7 \<times> (int, 'm) vnf_event list" where
  "vnf_subframe_tick now v =
     (let v1 = start_next_subframe v;
          v' = v1\<lparr>vnf_start_time_hr := now, p7_connections := map advance_conn (p7_connections v1)\<rparr>
      in (v', concat (map (vnf_sync now now) (p7_connections v')) @ send_mac_subframe_indications v'))"

section \<open>Laws of the arithmetic\<close>

lemma s32_id: "-(2 ^ 31) \<le> x \<Longrightarrow> x < 2 ^ 31 \<Longrightarrow> s32 x = x"
  unfolding s32_def by (rule signed_take_bit_int_eq_self) simp_all

lemma sint_of_int_small: "-(2 ^ 31) \<le> x \<Longrightarrow> x < 2 ^ 31 \<Longrightarrow> sint (of_int x :: u32) = x"
  by (simp add: signed_of_int signed_take_bit_int_eq_self)

lemma drop_bit_mult: "drop_bit 3 (32 * x) = 4 * x" "drop_bit 3 (224 * x) = 28 * x" "drop_bit 5 (32 * x) = x" for x :: int
  by (simp_all add: drop_bit_eq_div)

lemma smooth_same: "\<bar>D\<bar> \<le> 9000000 \<Longrightarrow> smooth D D = D"
  by (simp add: smooth_def Let_def s32_id push_bit_eq_mult drop_bit_mult mult.commute [of D]
      mult.assoc flip: mult.assoc)

lemma sdiv_zero: "\<bar>x\<bar> < n \<Longrightarrow> x sdiv n = 0" for x n :: int
  by (auto simp: signed_divide_int_def sgn_if)

lemma sdiv_abs_le: "0 < n \<Longrightarrow> \<bar>x\<bar> < m * n \<Longrightarrow> \<bar>x sdiv n\<bar> < m" for x n m :: int
proof -
  assume n: "0 < n" and x: "\<bar>x\<bar> < m * n"
  have "\<bar>x\<bar> div n < m"
  proof (rule ccontr)
    assume "\<not> \<bar>x\<bar> div n < m"
    then have "m * n \<le> \<bar>x\<bar> div n * n" using n by (intro mult_right_mono) simp_all
    also have "\<bar>x\<bar> div n * n \<le> \<bar>x\<bar>" using pos_mod_sign [OF n, of "\<bar>x\<bar>"] div_mult_mod_eq [of "\<bar>x\<bar>" n] by linarith
    finally show False using x by simp
  qed
  moreover have "\<bar>x sdiv n\<bar> \<le> \<bar>x\<bar> div n"
    using n by (auto simp: signed_divide_int_def sgn_if abs_mult pos_imp_zdiv_nonneg_iff)
  ultimately show ?thesis by simp
qed

lemma half_of_double: "uint d < 2 ^ 31 \<Longrightarrow> drop_bit 1 (d + d) = d" for d :: u32
proof -
  assume d: "uint d < 2 ^ 31"
  have "uint (d + d) = (uint d + uint d) mod 2 ^ 32" unfolding uint_word_ariths(1) by simp
  then have "uint (d + d) = 2 * uint d" using d by simp
  moreover have "uint (drop_bit 1 (d + d)) = drop_bit 1 (uint (d + d))"
    by (simp only: unsigned_drop_bit_eq take_bit_int_eq_self [OF unsigned_greater_eq unsigned_less])
  ultimately have "uint (drop_bit 1 (d + d)) = uint d" by (simp only: drop_bit_eq_div) simp
  then show ?thesis by (simp only: word_uint_eq_iff)
qed

section \<open>The phases of synchronisation\<close>

text \<open>
  What the handler is meant to do, without the arithmetic: ten cycles with a small
  adjustment, then cycles with filtered offsets until eleven of them needed no adjustment, then in
  sync until the offset is out of bounds.
\<close>

datatype sync_phase = Acquire nat | Fine nat | Synced

inductive phase_step :: "sync_phase \<Rightarrow> bool \<Rightarrow> sync_phase \<Rightarrow> bool" where
  Stay: "phase_step p False p"
| Small: "n < 9 \<Longrightarrow> phase_step (Acquire n) False (Acquire (n + 1))"
| Restart: "phase_step (Acquire n) False (Acquire 0)"
| Filter: "phase_step (Acquire 9) False (Fine 0)"
| Aligned: "n < 10 \<Longrightarrow> phase_step (Fine n) False (Fine (n + 1))"
| In_sync: "phase_step (Fine 10) True Synced"
| Lost: "p = Synced \<or> p = Fine n \<Longrightarrow> phase_step p False (Acquire 0)"

inductive_cases phase_step_SyncedE: "phase_step p e Synced"

definition phase :: "'pos conn \<Rightarrow> sync_phase" where
  "phase c = (if in_sync c then Synced else if filtered_adjust c then Fine (unat (zero_count c))
     else Acquire (unat (zero_count c)))"

definition conn_ok :: "'pos conn \<Rightarrow> bool" where
  "conn_ok c \<longleftrightarrow> length (latency c) = 8 \<and> (in_sync c \<longrightarrow> filtered_adjust c) \<and>
     0 < unat (min_sync_cycle_count c) \<and> unat (min_sync_cycle_count c) \<le> 8 \<and>
     (filtered_adjust c \<longrightarrow> unat (min_sync_cycle_count c) \<le> 2 \<and> unat (zero_count c) \<le> 10) \<and>
     (\<not> filtered_adjust c \<longrightarrow> unat (zero_count c) < 10)"

text \<open>The number of messages until a connection can be in sync.\<close>

fun cycles_left :: "sync_phase \<Rightarrow> nat" where
  "cycles_left (Acquire n) = 20 - n"
| "cycles_left (Fine n) = 10 - n"
| "cycles_left Synced = 0"

definition messages_left :: "'pos conn \<Rightarrow> nat" where
  "messages_left c = (if in_sync c then 0 else unat (min_sync_cycle_count c) + 2 * cycles_left (phase c))"

lemma set_latency_sel:
  assumes "set_latency i v c = Some c'"
  shows "in_sync c' = in_sync c" "filtered_adjust c' = filtered_adjust c" "zero_count c' = zero_count c"
    "min_sync_cycle_count c' = min_sync_cycle_count c" "position c' = position c" "conn_phy_id c' = conn_phy_id c"
    "length (latency c') = length (latency c)" "offset_filtered c' = offset_filtered c" "offset_trend c' = offset_trend c"
    "previous_t1 c' = previous_t1 c" "previous_t2 c' = previous_t2 c"
    "previous_offset_filtered c' = previous_offset_filtered c"
  using assms by (auto simp: set_latency_def split: if_splits)

lemma set_latency_total: "unat i \<le> 8 \<Longrightarrow> \<exists>c'. set_latency i v c = Some c'"
  by (auto simp: set_latency_def word_unat_eq_iff)

lemma filter_offset_sel [simp]:
  "in_sync (filter_offset m t1 t2 lat c) = in_sync c" "filtered_adjust (filter_offset m t1 t2 lat c) = filtered_adjust c"
  "zero_count (filter_offset m t1 t2 lat c) = zero_count c" "position (filter_offset m t1 t2 lat c) = position c"
  "min_sync_cycle_count (filter_offset m t1 t2 lat c) = min_sync_cycle_count c"
  "conn_phy_id (filter_offset m t1 t2 lat c) = conn_phy_id c" "latency (filter_offset m t1 t2 lat c) = latency c"
  by (simp_all add: filter_offset_def Let_def)

lemma average_sel [simp]:
  "in_sync (average t1 t2 c) = in_sync c" "filtered_adjust (average t1 t2 c) = filtered_adjust c"
  "zero_count (average t1 t2 c) = zero_count c" "position (average t1 t2 c) = position c"
  "conn_phy_id (average t1 t2 c) = conn_phy_id c" "latency (average t1 t2 c) = latency c"
  "offset_filtered (average t1 t2 c) = offset_filtered c"
  by (simp_all add: average_def Let_def)

lemma insync_minor_sel [simp]:
  "in_sync (insync_minor c) = in_sync c" "filtered_adjust (insync_minor c) = filtered_adjust c"
  "zero_count (insync_minor c) = zero_count c" "position (insync_minor c) = position c"
  "conn_phy_id (insync_minor c) = conn_phy_id c" "latency (insync_minor c) = latency c"
  by (simp_all add: insync_minor_def Let_def)

lemma insync_off_sel [simp]:
  "in_sync (insync_off c) = in_sync c" "filtered_adjust (insync_off c) = filtered_adjust c"
  "zero_count (insync_off c) = zero_count c" "position (insync_off c) = position c"
  "conn_phy_id (insync_off c) = conn_phy_id c" "latency (insync_off c) = latency c"
  by (simp_all add: insync_off_def Let_def)

lemma u16_count: "unat (z :: u16) < 10 \<Longrightarrow> unat (z + 1) = unat z + 1"
  by (simp add: unat_word_ariths(1))

lemma u16_ge10: "(10 :: u16) \<le> z \<longleftrightarrow> 10 \<le> unat z"
  by (simp add: word_le_nat_alt)

lemma absolute_mode_step:
  assumes "\<not> filtered_adjust c" "unat (zero_count c) < 10" "\<not> in_sync c"
  shows "phase_step (phase c) False (phase (absolute_mode c))" "\<not> in_sync (absolute_mode c)"
    "filtered_adjust (absolute_mode c) \<Longrightarrow> unat (zero_count c) = 9 \<and> zero_count (absolute_mode c) = 0"
    "\<not> filtered_adjust (absolute_mode c) \<Longrightarrow> unat (zero_count (absolute_mode c)) < 10"
    "latency (absolute_mode c) = latency c" "conn_phy_id (absolute_mode c) = conn_phy_id c"
proof -
  have z: "unat (zero_count c + 1) = unat (zero_count c) + 1" using assms by (intro u16_count)
  have ph: "phase c = Acquire (unat (zero_count c))" using assms by (simp add: phase_def)
  have "phase (absolute_mode c) = Acquire 0" if "\<not> adjustment c < 10"
    using that assms by (simp add: phase_def absolute_mode_def)
  moreover have "phase (absolute_mode c) = Fine 0" if "adjustment c < 10" "unat (zero_count c) = 9"
    using that assms z by (simp add: phase_def absolute_mode_def u16_ge10)
  moreover have "phase (absolute_mode c) = Acquire (unat (zero_count c) + 1)" if "adjustment c < 10" "unat (zero_count c) < 9"
    using that assms z by (simp add: phase_def absolute_mode_def u16_ge10)
  moreover have "unat (zero_count c) = 9 \<or> unat (zero_count c) < 9" using assms(2) by linarith
  ultimately show "phase_step (phase c) False (phase (absolute_mode c))"
    unfolding ph by (metis phase_step.intros(2-4))
qed (use assms in \<open>auto simp: absolute_mode_def Let_def u16_ge10 u16_count split: if_splits\<close>)

lemma fine_mode_step:
  fixes c :: "'pos conn"
  assumes "filtered_adjust c" "unat (zero_count c) \<le> 10" and fm: "fine_mode c = (c', out :: ('pos, 'm) vnf_event list)"
  shows "phase_step (phase c) (out \<noteq> []) (phase c')" "out = [] \<or> out = [Sync_indication False]"
    "filtered_adjust c'" "unat (zero_count c') \<le> 10" "latency c' = latency c" "conn_phy_id c' = conn_phy_id c"
    "unat (zero_count c) \<le> unat (zero_count c') \<and> unat (zero_count c') \<le> unat (zero_count c) + 1"
    "in_sync c \<Longrightarrow> in_sync c'" "in_sync c' \<Longrightarrow> in_sync c \<or> adjustment c = 0 \<and> unat (zero_count c) = 10"
    "adjustment c = 0 \<Longrightarrow> unat (zero_count c) = 10 \<Longrightarrow> in_sync c' \<and> out = (if in_sync c then [] else [Sync_indication False])"
    "adjustment c = 0 \<Longrightarrow> unat (zero_count c) < 10 \<Longrightarrow> in_sync c' = in_sync c \<and> unat (zero_count c') = unat (zero_count c) + 1 \<and> out = []"
proof -
  consider "adjustment c = 0" "unat (zero_count c) = 10" | "adjustment c = 0" "unat (zero_count c) < 10"
    | "adjustment c \<noteq> 0" using assms(2) by linarith
  note cs = this
  have A: "in_sync c' \<and> filtered_adjust c' \<and> zero_count c' = zero_count c \<and> latency c' = latency c \<and>
      conn_phy_id c' = conn_phy_id c \<and> out = (if in_sync c then [] else [Sync_indication False])"
    if "adjustment c = 0" "unat (zero_count c) = 10"
    using fm that assms(1) by (auto simp: fine_mode_def u16_ge10 split: if_splits)
  have B: "in_sync c' = in_sync c \<and> filtered_adjust c' \<and> unat (zero_count c') = unat (zero_count c) + 1 \<and>
      latency c' = latency c \<and> conn_phy_id c' = conn_phy_id c \<and> out = []"
    if "adjustment c = 0" "unat (zero_count c) < 10"
    using fm that assms(1) by (auto simp: fine_mode_def u16_ge10 Let_def u16_count split: if_splits)
  have C: "in_sync c' = in_sync c \<and> filtered_adjust c' \<and> zero_count c' = zero_count c \<and>
      latency c' = latency c \<and> conn_phy_id c' = conn_phy_id c \<and> out = []"
    if "adjustment c \<noteq> 0"
    using fm that assms(1) by (auto simp: fine_mode_def split: if_splits)
  show "phase_step (phase c) (out \<noteq> []) (phase c')"
    using cs
  proof cases
    case 1
    then show ?thesis using A assms(1) by (auto simp: phase_def intro: phase_step.intros)
  next
    case 2
    then show ?thesis using B assms(1) phase_step.Aligned [of "unat (zero_count c)"]
      by (auto simp: phase_def intro: phase_step.Stay)
  next
    case 3
    then show ?thesis using C assms(1) by (auto simp: phase_def intro: phase_step.Stay)
  qed
  show "out = [] \<or> out = [Sync_indication False]" using cs A B C by cases auto
  show "filtered_adjust c'" "latency c' = latency c" "conn_phy_id c' = conn_phy_id c"
    using A B C assms(2) le_neq_implies_less by blast+
  show "unat (zero_count c') \<le> 10" using cs A B C assms(2) by cases auto
  show "unat (zero_count c) \<le> unat (zero_count c') \<and> unat (zero_count c') \<le> unat (zero_count c) + 1"
    using cs A B C by cases auto
  show "in_sync c \<Longrightarrow> in_sync c'" using cs A B C by cases auto
  show "in_sync c' \<Longrightarrow> in_sync c \<or> adjustment c = 0 \<and> unat (zero_count c) = 10" using cs A B C by cases auto
  show "adjustment c = 0 \<Longrightarrow> unat (zero_count c) = 10 \<Longrightarrow> in_sync c' \<and> out = (if in_sync c then [] else [Sync_indication False])"
    using A by blast
  show "adjustment c = 0 \<Longrightarrow> unat (zero_count c) < 10 \<Longrightarrow> in_sync c' = in_sync c \<and> unat (zero_count c') = unat (zero_count c) + 1 \<and> out = []"
    using B by blast
qed

lemma mode_position [simp]: "position (absolute_mode c) = position c" "position (fst (fine_mode c)) = position c"
  "average_latency (absolute_mode c) = average_latency c" "average_latency (fst (fine_mode c)) = average_latency c"
  "previous_t1 (absolute_mode c) = previous_t1 c" "previous_t1 (fst (fine_mode c)) = previous_t1 c"
  "previous_t2 (absolute_mode c) = previous_t2 c" "previous_t2 (fst (fine_mode c)) = previous_t2 c"
  by (auto simp: absolute_mode_def fine_mode_def Let_def insync_minor_def insync_off_def)

text \<open>The end of a cycle in terms of the two modes.\<close>

lemma end_of_cycle_cases:
  fixes c :: "'pos conn"
  assumes e: "end_of_cycle R t1 t2 c = (c', out :: ('pos, 'm) vnf_event list)"
  defines "new \<equiv> dec_pos R (target_dec R (average t1 t2 c))"
  obtains c3 c4 where
    "in_sync c3 = in_sync c" "filtered_adjust c3 = filtered_adjust c" "zero_count c3 = zero_count c"
    "latency c3 = latency c" "conn_phy_id c3 = conn_phy_id c" "position c3 = position c"
    "average_latency c3 = average_latency (average t1 t2 c)"
    "adjustment c3 = s32 (pos_dec R new - pos_udec R (position c))"
    "if filtered_adjust c then fine_mode c3 = (c4, out) else c4 = absolute_mode c3 \<and> out = []"
    "in_sync c' = in_sync c4" "filtered_adjust c' = filtered_adjust c4" "zero_count c' = zero_count c4"
    "latency c' = latency c4" "conn_phy_id c' = conn_phy_id c4" "average_latency c' = average_latency c4"
    "position c' = (if in_sync c4 then position c else new)" "min_sync_cycle_count c' = 2"
    "previous_t1 c' = 0" "previous_t2 c' = 0" "offset_filtered c' = 0"
proof -
  define c2 where "c2 = (average t1 t2 c)\<lparr>adjustment := s32 (pos_dec R new - pos_udec R (position c)),
    previous_t1 := 0, previous_t2 := 0\<rparr>"
  define c3 where "c3 = c2\<lparr>offset_trend := new_trend c2\<rparr>"
  define m :: "'pos conn \<times> ('pos, 'm) vnf_event list"
    where "m = (if filtered_adjust c3 then fine_mode c3 else (absolute_mode c3, []))"
  define c5 where "c5 = (if in_sync (fst m) then fst m else (fst m)\<lparr>position := new\<rparr>)"
  have sel: "in_sync c3 = in_sync c" "filtered_adjust c3 = filtered_adjust c" "zero_count c3 = zero_count c"
    "latency c3 = latency c" "conn_phy_id c3 = conn_phy_id c" "position c3 = position c"
    "average_latency c3 = average_latency (average t1 t2 c)"
    "adjustment c3 = s32 (pos_dec R new - pos_udec R (position c))"
    by (simp_all add: c3_def c2_def)
  have eq: "(c', out) = (c5\<lparr>previous_offset_filtered := offset_filtered c5, min_sync_cycle_count := 2,
      offset_filtered := 0, offset := 0\<rparr>, snd m)"
    unfolding e [symmetric] end_of_cycle_def Let_def new_def [symmetric] average_sel
      c2_def [symmetric] c3_def [symmetric] m_def [symmetric] by (simp add: c5_def split_def)
  have pos: "position (fst m) = position c" "previous_t1 (fst m) = 0" "previous_t2 (fst m) = 0"
    by (simp_all add: m_def sel c3_def c2_def)
  show thesis
  proof (rule that [of c3 "fst m"])
    show "if filtered_adjust c then fine_mode c3 = (fst m, out) else fst m = absolute_mode c3 \<and> out = []"
      using eq by (auto simp: m_def sel)
  qed (use sel eq pos in \<open>simp_all add: c5_def\<close>)
qed

lemma u16_pred: "0 < unat (z :: u16) \<Longrightarrow> unat (z - 1) = unat z - 1"
  by (subst unat_minus_one) auto

lemma adjust_too_bad_cases:
  "adjust_too_bad c = c \<or> filtered_adjust c \<and>
   adjust_too_bad c = c\<lparr>filtered_adjust := False, zero_count := 0, min_sync_cycle_count := 2, in_sync := False\<rparr>"
  by (simp add: adjust_too_bad_def)

lemma messages_left_cases:
  "in_sync c \<Longrightarrow> messages_left c = 0"
  "\<not> in_sync c \<Longrightarrow> filtered_adjust c \<Longrightarrow> messages_left c = unat (min_sync_cycle_count c) + 2 * (10 - unat (zero_count c))"
  "\<not> in_sync c \<Longrightarrow> \<not> filtered_adjust c \<Longrightarrow> messages_left c = unat (min_sync_cycle_count c) + 2 * (20 - unat (zero_count c))"
  by (simp_all add: messages_left_def phase_def)

lemma end_of_cycle_step:
  fixes c :: "'pos conn"
  assumes ok: "conn_ok c" and e: "end_of_cycle R t1 t2 (c\<lparr>min_sync_cycle_count := 0\<rparr>) = (c', out :: ('pos, 'm) vnf_event list)"
  shows "conn_ok c'" "phase_step (phase c) (out \<noteq> []) (phase c')" "out = [] \<or> out = [Sync_indication False]"
    "in_sync c' \<longrightarrow> position c' = position c" "conn_phy_id c' = conn_phy_id c"
    "messages_left (c\<lparr>min_sync_cycle_count := 1\<rparr>) \<le> messages_left c' + 1"
proof -
  let ?c = "c\<lparr>min_sync_cycle_count := 0\<rparr>"
  obtain c3 c4 where c3: "in_sync c3 = in_sync c" "filtered_adjust c3 = filtered_adjust c" "zero_count c3 = zero_count c"
    "latency c3 = latency c" "conn_phy_id c3 = conn_phy_id c" "position c3 = position c"
    and m: "if filtered_adjust c then fine_mode c3 = (c4, out) else c4 = absolute_mode c3 \<and> out = []"
    and c': "in_sync c' = in_sync c4" "filtered_adjust c' = filtered_adjust c4" "zero_count c' = zero_count c4"
    "latency c' = latency c4" "conn_phy_id c' = conn_phy_id c4" "min_sync_cycle_count c' = 2"
    "position c' = (if in_sync c4 then position c else dec_pos R (target_dec R (average t1 t2 ?c)))"
    by (rule end_of_cycle_cases [OF e]) simp
  have ph: "phase c3 = phase c" "phase c' = phase c4" using c3 c' by (simp_all add: phase_def)
  show "in_sync c' \<longrightarrow> position c' = position c" using c' by simp
  have "conn_ok c' \<and> phase_step (phase c) (out \<noteq> []) (phase c') \<and> (out = [] \<or> out = [Sync_indication False]) \<and>
    conn_phy_id c' = conn_phy_id c \<and> messages_left (c\<lparr>min_sync_cycle_count := 1\<rparr>) \<le> messages_left c' + 1"
  proof (cases "filtered_adjust c")
    case True
    have z: "unat (zero_count c3) \<le> 10" using ok True c3 by (simp add: conn_ok_def)
    have fm: "fine_mode c3 = (c4, out)" using m True by simp
    note f = fine_mode_step [OF _ z fm]
    have "messages_left (c\<lparr>min_sync_cycle_count := 1\<rparr>) \<le> messages_left c' + 1"
      using f(3,4,7,8,9) True c3 c' by (cases "in_sync c"; cases "in_sync c4") (auto simp: messages_left_cases)
    then show ?thesis using f True c3 c' ok ph by (auto simp: conn_ok_def)
  next
    case False
    have z: "\<not> filtered_adjust c3" "unat (zero_count c3) < 10" "\<not> in_sync c3"
      using ok False c3 by (auto simp: conn_ok_def)
    have am: "c4 = absolute_mode c3" "out = []" using m False by auto
    note f = absolute_mode_step [OF z, folded am(1)]
    have zle: "unat (zero_count c4) \<le> unat (zero_count c3) + 1" if "\<not> filtered_adjust c4"
      using that z unfolding am(1) by (auto simp: absolute_mode_def Let_def u16_count split: if_splits)
    have "messages_left (c\<lparr>min_sync_cycle_count := 1\<rparr>) \<le> messages_left c' + 1"
      using f(2,3) zle False z c3 c' by (cases "filtered_adjust c4") (auto simp: messages_left_cases)
    then show ?thesis using f False c3 c' ok ph am z by (auto simp: conn_ok_def)
  qed
  then show "conn_ok c'" "phase_step (phase c) (out \<noteq> []) (phase c')" "out = [] \<or> out = [Sync_indication False]"
    "conn_phy_id c' = conn_phy_id c" "messages_left (c\<lparr>min_sync_cycle_count := 1\<rparr>) \<le> messages_left c' + 1" by blast+
qed

lemma node_sync_step:
  fixes c :: "'pos conn"
  assumes ok: "conn_ok c"
  obtains c' and out :: "('pos, 'm) vnf_event list" where "node_sync R t1 t2 t3 t4 c = Some (c', out)"
    "conn_ok c'" "phase_step (phase c) (out \<noteq> []) (phase c')" "out = [] \<or> out = [Sync_indication False]"
    "in_sync c' \<longrightarrow> position c' = position c" "conn_phy_id c' = conn_phy_id c" "messages_left c \<le> messages_left c' + 1"
proof -
  define lat where "lat = link_latency (max_dec R) t1 t2 t3 t4"
  have "unat (min_sync_cycle_count c) \<le> 8" using ok by (simp add: conn_ok_def)
  then obtain c1 where c1: "set_latency (min_sync_cycle_count c) lat c = Some c1" using set_latency_total by blast
  note s1 = set_latency_sel [OF c1]
  define c2 where "c2 = (if filtered_adjust c1 then filter_offset (max_dec R) t1 t2 lat c1 else c1)"
  have s2: "in_sync c2 = in_sync c" "filtered_adjust c2 = filtered_adjust c" "zero_count c2 = zero_count c"
    "min_sync_cycle_count c2 = min_sync_cycle_count c" "position c2 = position c" "conn_phy_id c2 = conn_phy_id c"
    "length (latency c2) = length (latency c)"
    using s1 by (simp_all add: c2_def)
  have ok2: "conn_ok c2" "phase c2 = phase c" "messages_left c2 = messages_left c"
    using ok s2 by (simp_all add: conn_ok_def phase_def messages_left_def)
  define c3 where "c3 = adjust_too_bad c2"
  define c4 where "c4 = (if min_sync_cycle_count c3 \<noteq> 0
    then c3\<lparr>min_sync_cycle_count := min_sync_cycle_count c3 - 1\<rparr> else c3)"
  have ns: "node_sync R t1 t2 t3 t4 c = Some (if min_sync_cycle_count c4 = 0 then end_of_cycle R t1 t2 c4
      else (c4\<lparr>previous_t1 := t1, previous_t2 := t2\<rparr>, [] :: ('pos, 'm) vnf_event list))"
    by (simp add: node_sync_def lat_def [symmetric] c1 c2_def [symmetric] c3_def [symmetric] c4_def [symmetric])
  have count: "0 < unat (min_sync_cycle_count c2)" using ok2(1) by (simp add: conn_ok_def)
  then have nz: "min_sync_cycle_count c2 \<noteq> 0" by auto
  show thesis
  proof (cases "c3 = c2")
    case bad: False
    then have f: "filtered_adjust c2" and c3: "c3 = c2\<lparr>filtered_adjust := False, zero_count := 0, min_sync_cycle_count := 2, in_sync := False\<rparr>"
      using adjust_too_bad_cases [of c2] by (auto simp: c3_def)
    have c4: "c4 = c3\<lparr>min_sync_cycle_count := 1\<rparr>" by (simp add: c4_def c3)
    have ph: "phase c = Synced \<or> (\<exists>n. phase c = Fine n)" using f s2 by (simp add: phase_def)
    show thesis
    proof (rule that)
      show "node_sync R t1 t2 t3 t4 c = Some (c4\<lparr>previous_t1 := t1, previous_t2 := t2\<rparr>, [] :: ('pos, 'm) vnf_event list)"
        by (simp add: ns c4)
      show "phase_step (phase c) (([] :: ('pos, 'm) vnf_event list) \<noteq> []) (phase (c4\<lparr>previous_t1 := t1, previous_t2 := t2\<rparr>))"
        using ph phase_step.Lost by (auto simp: c4 c3 phase_def)
      have "messages_left c2 \<le> 22" using ok2(1) f by (cases "in_sync c2") (auto simp: messages_left_cases conn_ok_def)
      then show "messages_left c \<le> messages_left (c4\<lparr>previous_t1 := t1, previous_t2 := t2\<rparr>) + 1"
        by (simp add: c4 c3 messages_left_cases ok2(3) [symmetric])
    qed (use ok2 s2 in \<open>simp_all add: c4 c3 conn_ok_def\<close>)
  next
    case good: True
    show thesis
    proof (cases "min_sync_cycle_count c2 = 1")
      case True
      then have c4: "c4 = c2\<lparr>min_sync_cycle_count := 0\<rparr>" by (simp add: c4_def good)
      obtain c' and out :: "('pos, 'm) vnf_event list" where e: "end_of_cycle R t1 t2 c4 = (c', out)" by (cases "end_of_cycle R t1 t2 c4 :: _ \<times> ('pos, 'm) vnf_event list")
      have c2: "c2\<lparr>min_sync_cycle_count := 1\<rparr> = c2" using True by simp
      note e' = end_of_cycle_step [OF ok2(1) e [unfolded c4], unfolded c2 ok2 s2]
      show thesis by (rule that [OF _ e']) (simp add: ns c4 e [unfolded c4])
    next
      case False
      have c4: "c4 = c2\<lparr>min_sync_cycle_count := min_sync_cycle_count c2 - 1\<rparr>" using nz by (simp add: c4_def good)
      have n4: "min_sync_cycle_count c4 \<noteq> 0" using False by (simp add: c4)
      have u4: "unat (min_sync_cycle_count c4) = unat (min_sync_cycle_count c2) - 1" using u16_pred [OF count] by (simp add: c4)
      have u4': "0 < unat (min_sync_cycle_count c2 - 1)" using n4 by (simp add: c4 unat_gt_0)
      have ph4: "phase (c4\<lparr>previous_t1 := t1, previous_t2 := t2\<rparr>) = phase c"
        unfolding ok2(2) [symmetric] by (simp add: c4 phase_def)
      show thesis
      proof (rule that)
        show "node_sync R t1 t2 t3 t4 c = Some (c4\<lparr>previous_t1 := t1, previous_t2 := t2\<rparr>, [] :: ('pos, 'm) vnf_event list)"
          using n4 by (simp add: ns)
        show "phase_step (phase c) (([] :: ('pos, 'm) vnf_event list) \<noteq> []) (phase (c4\<lparr>previous_t1 := t1, previous_t2 := t2\<rparr>))"
          using phase_step.Stay [of "phase c"] unfolding ph4 by simp
        show "conn_ok (c4\<lparr>previous_t1 := t1, previous_t2 := t2\<rparr>)"
          using ok2(1) u4 u4' by (auto simp: c4 conn_ok_def)
        show "messages_left c \<le> messages_left (c4\<lparr>previous_t1 := t1, previous_t2 := t2\<rparr>) + 1"
          using u4 unfolding ok2(3) [symmetric] messages_left_def ph4 ok2(2) by (simp add: c4 s2(1,4)) arith
      qed (use s2 in \<open>simp_all add: c4\<close>)
    qed
  qed
qed

section \<open>A link with a constant delay\<close>

text \<open>
  The clock of the PNF is \<open>D\<close> microseconds ahead of that of the VNF and the link takes \<open>d\<close>
  microseconds each way; \<open>proc\<close> is the time the PNF needs to answer.  The position is the
  one that the ticks have brought the connection to when the answer arrives.
\<close>

definition exchange :: "'pos radio \<Rightarrow> int \<Rightarrow> u32 \<Rightarrow> 'pos \<times> u32 \<times> u32 \<Rightarrow> 'pos conn
  \<Rightarrow> ('pos conn \<times> ('pos, 'm) vnf_event list) option" where
  "exchange R D d x c =
     (case x of (p, t1, proc) \<Rightarrow>
        (let t2 = t1 + of_int D + d; t3 = t2 + proc; t4 = t3 - of_int D + d
         in node_sync R t1 t2 t3 t4 (c\<lparr>position := p\<rparr>)))"

fun exchanges :: "'pos radio \<Rightarrow> int \<Rightarrow> u32 \<Rightarrow> ('pos \<times> u32 \<times> u32) list \<Rightarrow> 'pos conn
  \<Rightarrow> ('pos conn \<times> ('pos, 'm) vnf_event list) option" where
  "exchanges R D d [] c = Some (c, [])"
| "exchanges R D d (x # xs) c =
     (case exchange R D d x c of None \<Rightarrow> None
      | Some (c', out) \<Rightarrow> map_option (\<lambda>(c'', out'). (c'', out @ out')) (exchanges R D d xs c'))"

lemma exchanges_append:
  fixes c :: "'pos conn"
  shows "exchanges R D d (xs @ ys) c = (case exchanges R D d xs c of None \<Rightarrow> None
     | Some (c', out) \<Rightarrow> map_option (\<lambda>(c'', out'). (c'', out @ out' :: ('pos, 'm) vnf_event list)) (exchanges R D d ys c'))"
proof (induction xs arbitrary: c)
  case Nil
  then show ?case by (simp add: option.map_ident split_def)
next
  case (Cons x xs)
  show ?case
  proof (cases "exchange R D d x c :: ('pos conn \<times> ('pos, 'm) vnf_event list) option")
    case (Some r)
    then show ?thesis by (cases r) (auto simp: Cons option.map_comp comp_def split_def split: option.split)
  qed simp
qed

text \<open>Neither clock wraps between the time stamps of one exchange.\<close>

definition no_wrap :: "int \<Rightarrow> u32 \<Rightarrow> u32 \<Rightarrow> u32 \<Rightarrow> bool" where
  "no_wrap D d t1 proc \<longleftrightarrow> 0 \<le> uint t1 + D + uint d \<and> uint t1 + D + uint d < 2 ^ 32 \<and>
     0 < 2 * uint d + uint proc \<and> uint t1 + 2 * uint d + uint proc < 2 ^ 32 \<and> uint d < 2 ^ 31"

lemma uint_of_int_u32: "0 \<le> x \<Longrightarrow> x < 2 ^ 32 \<Longrightarrow> uint (of_int x :: u32) = x"
  by (simp add: unsigned_of_int take_bit_int_eq_self)

lemma exchange_times:
  fixes t1 d proc :: u32
  assumes nw: "no_wrap D d t1 proc"
  defines "t2 \<equiv> t1 + of_int D + d" and "t3 \<equiv> t1 + of_int D + d + proc" and "t4 \<equiv> t1 + of_int D + d + proc - of_int D + d"
  shows "uint t2 = uint t1 + D + uint d" "link_latency m t1 t2 t3 t4 = d"
    "t2 - t1 - d = of_int D" "t2 - (t1 - d) = of_int (D + 2 * uint d)"
proof -
  have "t2 = of_int (uint t1 + D + uint d)" by (simp add: t2_def)
  then show u2: "uint t2 = uint t1 + D + uint d"
    using nw by (simp only: no_wrap_def uint_of_int_u32)
  have "t4 = of_int (uint t1 + 2 * uint d + uint proc)" by (simp add: t4_def)
  then have u4: "uint t4 = uint t1 + 2 * uint d + uint proc"
    using nw by (subst \<open>t4 = _\<close>, intro uint_of_int_u32) (auto simp: no_wrap_def)
  have lt: "t1 < t4" using nw u4 by (simp add: word_less_def no_wrap_def)
  have d: "t4 - t1 - (t3 - t2) = d + d" by (simp add: t4_def t3_def t2_def)
  show "link_latency m t1 t2 t3 t4 = d"
    using lt d half_of_double [of d] nw by (simp add: link_latency_def Let_def no_wrap_def)
  show "t2 - t1 - d = of_int D" "t2 - (t1 - d) = of_int (D + 2 * uint d)" by (simp_all add: t2_def)
qed

definition link_ok :: "('pos \<Rightarrow> bool) \<Rightarrow> int \<Rightarrow> u32 \<Rightarrow> 'pos \<times> u32 \<times> u32 \<Rightarrow> bool" where
  "link_ok pos_ok D d x \<longleftrightarrow> (case x of (p, t1, proc) \<Rightarrow> pos_ok p \<and> no_wrap D d t1 proc)"

text \<open>The state of a connection whose partner keeps to \<open>D\<close> and \<open>d\<close>.\<close>

definition steady :: "int \<Rightarrow> u32 \<Rightarrow> 'pos conn \<Rightarrow> bool" where
  "steady D d c \<longleftrightarrow> conn_ok c \<and> latency c ! 0 = 0 \<and>
     (previous_t1 c = 0 \<and> previous_t2 c = 0 \<or> uint (previous_t2 c) = uint (previous_t1 c) + D + uint d) \<and>
     (filtered_adjust c \<longrightarrow> offset_filtered c = 0 \<or> offset_filtered c = D) \<and>
     (\<not> filtered_adjust c \<longrightarrow> min_sync_cycle_count c = 8 \<or> average_latency c = d)"

lemma new_offset_steady:
  assumes "previous_t1 c = 0 \<and> previous_t2 c = 0 \<or> uint (previous_t2 c) = uint (previous_t1 c) + D + uint d"
    and "uint t2 = uint t1 + D + uint d" "t2 - t1 - d = of_int D" "\<bar>D\<bar> < 2 ^ 31"
  shows "new_offset m t1 t2 d c = D"
proof -
  have "(t2 < previous_t2 c \<and> previous_t1 c < t1) = False" "(previous_t2 c < t2 \<and> t1 < previous_t1 c) = False"
    using assms(1,2) uint_ge_0 [of t1] uint_ge_0 [of t2] by (auto simp: word_less_def)
  then show ?thesis
    unfolding new_offset_def using assms(3,4) by (simp only: if_False assms(3) sint_of_int_small)
qed

text \<open>The state right before the end of a cycle, with what the last message has measured.\<close>

lemma measured:
  fixes c :: "'pos conn"
  assumes s: "steady D d c" and nw: "no_wrap D d t1 proc"
    and D: "filtered_adjust c \<Longrightarrow> \<bar>D\<bar> \<le> 1000000"
  obtains c2 where
    "exchange R D d (p, t1, proc) c = Some (if min_sync_cycle_count c = 1
       then end_of_cycle R t1 (t1 + of_int D + d) (c2\<lparr>min_sync_cycle_count := 0\<rparr>)
       else (c2\<lparr>min_sync_cycle_count := min_sync_cycle_count c - 1, previous_t1 := t1, previous_t2 := t1 + of_int D + d\<rparr>,
             [] :: ('pos, 'm) vnf_event list))"
    "in_sync c2 = in_sync c" "filtered_adjust c2 = filtered_adjust c" "zero_count c2 = zero_count c"
    "position c2 = p" "length (latency c2) = 8" "latency c2 ! 0 = 0"
    "min_sync_cycle_count c = 1 \<Longrightarrow> latency c2 ! 1 = d"
    "filtered_adjust c \<Longrightarrow> offset_filtered c2 = D"
    "\<not> filtered_adjust c \<Longrightarrow> average_latency c2 = d"
proof -
  let ?t2 = "t1 + of_int D + d"
  note et = exchange_times [OF nw]
  have ok: "conn_ok c" and l0: "latency c ! 0 = 0" using s by (simp_all add: steady_def)
  have cnt: "0 < unat (min_sync_cycle_count c)" "unat (min_sync_cycle_count c) \<le> 8" "length (latency c) = 8"
    using ok by (simp_all add: conn_ok_def)
  define c0 where "c0 = c\<lparr>position := p\<rparr>"
  have s0: "in_sync c0 = in_sync c" "filtered_adjust c0 = filtered_adjust c" "zero_count c0 = zero_count c"
    "min_sync_cycle_count c0 = min_sync_cycle_count c" "position c0 = p" "latency c0 = latency c"
    "offset_filtered c0 = offset_filtered c" "previous_t1 c0 = previous_t1 c" "previous_t2 c0 = previous_t2 c"
    "average_latency c0 = average_latency c" by (simp_all add: c0_def)
  obtain c1 where c1: "set_latency (min_sync_cycle_count c0) d c0 = Some c1" using set_latency_total cnt s0(4) by metis
  note s1 = set_latency_sel [OF c1, unfolded s0]
  have lat1: "latency c1 ! 0 = 0" "min_sync_cycle_count c = 1 \<Longrightarrow> latency c1 ! 1 = d"
    using c1 l0 cnt by (auto simp: set_latency_def nth_list_update s0 split: if_splits)
  have avg1: "average_latency c1 = d" if "\<not> filtered_adjust c"
  proof (cases "min_sync_cycle_count c = 8")
    case True
    then show ?thesis using c1 by (simp add: set_latency_def s0) auto
  next
    case False
    then have "unat (min_sync_cycle_count c) < 8" using cnt by (auto simp: word_unat_eq_iff le_less)
    then show ?thesis using c1 s that False by (auto simp: set_latency_def steady_def s0)
  qed
  define c2 where "c2 = (if filtered_adjust c1 then filter_offset (max_dec R) t1 ?t2 d c1 else c1)"
  have off: "new_offset (max_dec R) t1 ?t2 d c1 = D" if "filtered_adjust c"
    using s s1 et(1,3) D [OF that] by (intro new_offset_steady) (auto simp: steady_def)
  have f2: "offset_filtered c2 = D" if "filtered_adjust c"
    using that s s1 D by (auto simp: c2_def filter_offset_def off steady_def smooth_same)
  have bad: "adjust_too_bad c2 = c2"
    using f2 D s1 by (auto simp: adjust_too_bad_def c2_def)
  have m2: "min_sync_cycle_count c2 = min_sync_cycle_count c" using s1 by (simp add: c2_def)
  have nz: "min_sync_cycle_count c \<noteq> 0" using cnt by auto
  have u: "unat (min_sync_cycle_count c - 1) = unat (min_sync_cycle_count c) - 1" using cnt by (intro u16_pred)
  have m1: "min_sync_cycle_count c - 1 = 0 \<longleftrightarrow> min_sync_cycle_count c = 1"
    using u cnt by (auto simp: word_unat_eq_iff)
  have "exchange R D d (p, t1, proc) c = node_sync R t1 ?t2 (t1 + of_int D + d + proc) (t1 + of_int D + d + proc - of_int D + d) c0"
    by (simp add: exchange_def Let_def c0_def)
  also have "\<dots> = Some (if min_sync_cycle_count c = 1 then end_of_cycle R t1 ?t2 (c2\<lparr>min_sync_cycle_count := 0\<rparr>)
       else (c2\<lparr>min_sync_cycle_count := min_sync_cycle_count c - 1, previous_t1 := t1, previous_t2 := ?t2\<rparr>, []))"
    unfolding node_sync_def et(2) Let_def c1 option.case c2_def [symmetric] bad m2
    using nz m1 by simp
  finally show thesis
    by (rule that) (use s1 lat1 avg1 f2 m2 cnt in \<open>simp_all add: c2_def filter_offset_def Let_def\<close>)
qed

text \<open>A message that does not end its cycle.\<close>

lemma steady_mid_cycle:
  assumes s: "steady D d c" and n: "min_sync_cycle_count c \<noteq> 1"
    and c2: "in_sync c2 = in_sync c" "filtered_adjust c2 = filtered_adjust c" "zero_count c2 = zero_count c"
    "length (latency c2) = 8" "latency c2 ! 0 = 0"
    "filtered_adjust c \<Longrightarrow> offset_filtered c2 = D" "\<not> filtered_adjust c \<Longrightarrow> average_latency c2 = d"
    and u2: "uint t2 = uint t1 + D + uint d"
  shows "steady D d (c2\<lparr>min_sync_cycle_count := min_sync_cycle_count c - 1, previous_t1 := t1, previous_t2 := t2\<rparr>)"
    "unat (min_sync_cycle_count c - 1) + 1 = unat (min_sync_cycle_count c)"
proof -
  let ?c = "c2\<lparr>min_sync_cycle_count := min_sync_cycle_count c - 1, previous_t1 := t1, previous_t2 := t2\<rparr>"
  have cnt: "0 < unat (min_sync_cycle_count c)" using s by (simp add: steady_def conn_ok_def)
  have u: "unat (min_sync_cycle_count c - 1) = unat (min_sync_cycle_count c) - 1" using cnt by (intro u16_pred)
  have one: "1 < unat (min_sync_cycle_count c)" using n cnt by (auto simp: word_unat_eq_iff)
  have "conn_ok ?c" using s c2 u one by (auto simp: steady_def conn_ok_def)
  then show "steady D d ?c" using c2 u2 by (auto simp: steady_def)
  show "unat (min_sync_cycle_count c - 1) + 1 = unat (min_sync_cycle_count c)" using u cnt by simp
qed

lemma mid_cycle:
  "steady D d c \<Longrightarrow> \<not> filtered_adjust c \<Longrightarrow> list_all (\<lambda>(p, t1, proc). no_wrap D d t1 proc) xs
    \<Longrightarrow> length xs < unat (min_sync_cycle_count c) \<Longrightarrow>
   \<exists>c'. exchanges R D d xs c = Some (c', [] :: ('pos, 'm) vnf_event list) \<and> steady D d c' \<and> \<not> filtered_adjust c'
     \<and> unat (min_sync_cycle_count c') + length xs = unat (min_sync_cycle_count c)"
proof (induction xs arbitrary: c)
  case Nil
  then show ?case by simp
next
  case (Cons x xs)
  obtain p t1 proc where x: "x = (p, t1, proc)" by (cases x)
  have nw: "no_wrap D d t1 proc" using Cons.prems(3) by (simp add: x)
  have n: "min_sync_cycle_count c \<noteq> 1" using Cons.prems(4) by auto
  have D: "filtered_adjust c \<Longrightarrow> \<bar>D\<bar> \<le> 1000000" using Cons.prems(2) by simp
  obtain c2 where c2:
    "exchange R D d (p, t1, proc) c = Some (if min_sync_cycle_count c = 1
       then end_of_cycle R t1 (t1 + of_int D + d) (c2\<lparr>min_sync_cycle_count := 0\<rparr>)
       else (c2\<lparr>min_sync_cycle_count := min_sync_cycle_count c - 1, previous_t1 := t1, previous_t2 := t1 + of_int D + d\<rparr>,
             [] :: ('pos, 'm) vnf_event list))"
    "in_sync c2 = in_sync c" "filtered_adjust c2 = filtered_adjust c" "zero_count c2 = zero_count c"
    "position c2 = p" "length (latency c2) = 8" "latency c2 ! 0 = 0"
    "min_sync_cycle_count c = 1 \<Longrightarrow> latency c2 ! 1 = d"
    "filtered_adjust c \<Longrightarrow> offset_filtered c2 = D" "\<not> filtered_adjust c \<Longrightarrow> average_latency c2 = d"
    by (rule measured [OF Cons.prems(1) nw D, where R = R and p = p]) (blast, rule that)
  define c' where "c' = c2\<lparr>min_sync_cycle_count := min_sync_cycle_count c - 1, previous_t1 := t1,
    previous_t2 := t1 + of_int D + d\<rparr>"
  note mid = steady_mid_cycle [OF Cons.prems(1) n c2(2-4,6,7,9,10) exchange_times(1) [OF nw], folded c'_def]
  have f: "\<not> filtered_adjust c'" using c2(3) Cons.prems(2) by (simp add: c'_def)
  have u: "unat (min_sync_cycle_count c') + 1 = unat (min_sync_cycle_count c)" using mid(2) by (simp add: c'_def)
  have e: "exchange R D d x c = Some (c', [] :: ('pos, 'm) vnf_event list)" using c2(1) n by (simp add: x c'_def)
  have "list_all (\<lambda>(p, t1, proc). no_wrap D d t1 proc) xs" "length xs < unat (min_sync_cycle_count c')"
    using Cons.prems(3,4) u by simp_all
  from Cons.IH [OF mid(1) f this] e u show ?case by fastforce
qed

text \<open>What the synchronisation needs of a way to count subframes or slots.\<close>

locale sync_radio =
  fixes R :: "'pos radio" and pos_ok :: "'pos \<Rightarrow> bool"
  assumes dec_pos: "0 \<le> k \<Longrightarrow> k < max_dec R \<Longrightarrow> pos_ok (dec_pos R k) \<and> pos_dec R (dec_pos R k) = k"
    and pos_dec: "pos_ok p \<Longrightarrow> 0 \<le> pos_dec R p \<and> pos_dec R p < max_dec R \<and> pos_udec R p = pos_dec R p
      \<and> dec_pos R (pos_dec R p) = p"
    and sizes: "0 < max_dec R" "max_dec R \<le> 20480" "500 \<le> tick_us R" "tick_us R \<le> 1000"
begin

lemma move:
  assumes p: "pos_ok (position c)" and k: "\<bar>k\<bar> \<le> max_dec R"
    and kdef: "k = (if filtered_adjust c then s32 (offset_filtered c + tick_us R div 2) sdiv tick_us R
      else offset c sdiv tick_us R)"
  shows "target_dec R c = (pos_dec R (position c) + k) mod max_dec R"
proof -
  let ?d = "pos_dec R (position c)"
  have d: "0 \<le> ?d" "?d < max_dec R" using pos_dec [OF p] by blast+
  have e: "s32 ?d = ?d" "s32 (?d + k) = ?d + k" using d k sizes by (intro s32_id; simp)+
  have inner: "(if filtered_adjust c then s32 (s32 ?d + s32 (offset_filtered c + tick_us R div 2) sdiv tick_us R)
      else s32 (s32 ?d + offset c sdiv tick_us R)) = ?d + k"
    using e kdef by (cases "filtered_adjust c") simp_all
  have "target_dec R c = (if ?d + k < 0 then ?d + k + max_dec R else if max_dec R \<le> ?d + k then ?d + k - max_dec R else ?d + k)"
    unfolding target_dec_def Let_def inner ..
  moreover have "(?d + k) mod max_dec R = ?d + k + max_dec R" if "?d + k < 0"
    using that d k mod_pos_pos_trivial [of "?d + k + max_dec R" "max_dec R"] by simp
  moreover have "(?d + k) mod max_dec R = ?d + k - max_dec R" if "max_dec R \<le> ?d + k"
    using that d k mod_pos_pos_trivial [of "?d + k - max_dec R" "max_dec R"] minus_mod_self2 [of "?d + k" "max_dec R"] by simp
  moreover have "(?d + k) mod max_dec R = ?d + k" if "0 \<le> ?d + k" "?d + k < max_dec R"
    using that by simp
  ultimately show ?thesis by auto
qed

lemma no_move:
  assumes "pos_ok (position c)" "target_dec R c = pos_dec R (position c)"
  shows "dec_pos R (target_dec R c) = position c"
    "s32 (pos_dec R (dec_pos R (target_dec R c)) - pos_udec R (position c)) = 0"
  using pos_dec [OF assms(1)] assms(2) by (simp_all add: s32_id)

text \<open>How far the end of a cycle moves the position, in absolute and in filtered mode.\<close>

lemma absolute_target:
  assumes p: "pos_ok (position c)" and f: "\<not> filtered_adjust c" and a: "average_latency c = d"
    and l: "length (latency c) = 8" "latency c ! 0 = 0" "latency c ! 1 = d" and d: "uint d < 2 ^ 31"
    and t2: "t2 - (t1 - d) = of_int (D + 2 * uint d)" and D: "\<bar>D + 2 * uint d\<bar> < max_dec R * tick_us R"
  shows "average_latency (average t1 t2 c) = d"
    "target_dec R (average t1 t2 c) = (pos_dec R (position c) + (D + 2 * uint d) sdiv tick_us R) mod max_dec R"
proof -
  obtain a0 a1 rest where ls: "latency c = a0 # a1 # rest"
    using l(1) by (cases "latency c"; cases "tl (latency c)") auto
  have "(d + d) div 2 = drop_bit 1 (d + d)" by (simp add: drop_bit_eq_div)
  then have "(d + d) div 2 = d" using half_of_double [OF d] by simp
  then have avg: "foldl (+) (average_latency c) (take SYNC_CYCLE_COUNT (latency c)) div of_nat SYNC_CYCLE_COUNT = d"
    using l(2,3) a by (simp add: ls SYNC_CYCLE_COUNT_def)
  then show "average_latency (average t1 t2 c) = d" using f by (simp add: average_def)
  have "max_dec R * tick_us R \<le> 20480 * 1000" using sizes by (intro mult_mono) simp_all
  then have off: "sint (t2 - (t1 - d)) = D + 2 * uint d"
    unfolding t2 using D by (intro sint_of_int_small) simp_all
  have "\<bar>(D + 2 * uint d) sdiv tick_us R\<bar> < max_dec R" using sizes D by (intro sdiv_abs_le) simp_all
  then show "target_dec R (average t1 t2 c) = (pos_dec R (position c) + (D + 2 * uint d) sdiv tick_us R) mod max_dec R"
    using p f off avg by (subst move) (auto simp: average_def)
qed

lemma filtered_target:
  assumes p: "pos_ok (position c)" and f: "filtered_adjust c" and o: "offset_filtered c = D"
    and D: "\<bar>D\<bar> \<le> 1000000" and M: "2002 \<le> max_dec R"
  shows "target_dec R (average t1 t2 c) = (pos_dec R (position c) + (D + tick_us R div 2) sdiv tick_us R) mod max_dec R"
proof -
  have av: "average t1 t2 c = c" using f by (simp add: average_def)
  have h: "0 \<le> tick_us R div 2" "tick_us R div 2 \<le> 500" using sizes by auto
  have s: "s32 (D + tick_us R div 2) = D + tick_us R div 2" using D h by (intro s32_id) simp_all
  have "2002 * 500 \<le> max_dec R * tick_us R" using sizes M by (intro mult_mono) simp_all
  then have "\<bar>(D + tick_us R div 2) sdiv tick_us R\<bar> < max_dec R" using D h sizes by (intro sdiv_abs_le) auto
  then show ?thesis unfolding av using p f s o by (subst move) auto
qed

lemma steady_end_of_cycle:
  fixes c :: "'pos conn"
  assumes s: "steady D d c" and e: "end_of_cycle R t1 t2 (c2\<lparr>min_sync_cycle_count := 0\<rparr>) = (c', out :: ('pos, 'm) vnf_event list)"
    and one: "min_sync_cycle_count c = 1"
    and c2: "in_sync c2 = in_sync c" "filtered_adjust c2 = filtered_adjust c" "zero_count c2 = zero_count c"
    "position c2 = p" "length (latency c2) = 8" "latency c2 ! 0 = 0" "latency c2 ! 1 = d"
    "filtered_adjust c \<Longrightarrow> offset_filtered c2 = D" "\<not> filtered_adjust c \<Longrightarrow> average_latency c2 = d"
    and t2: "t2 - (t1 - d) = of_int (D + 2 * uint d)" and d: "uint d < 2 ^ 31"
    and p: "pos_ok p" and near: "\<bar>D + 2 * uint d\<bar> < tick_us R" "\<bar>D + tick_us R div 2\<bar> < tick_us R" and M: "2002 \<le> max_dec R"
  shows "steady D d c'" "position c' = p"
    "in_sync c \<Longrightarrow> in_sync c' \<and> out = []"
    "\<not> in_sync c \<Longrightarrow> messages_left c = messages_left c' + 1 \<and> out = (if in_sync c' then [Sync_indication False] else [])"
proof -
  let ?c = "c2\<lparr>min_sync_cycle_count := 0\<rparr>"
  have ok: "conn_ok c" using s by (simp add: steady_def)
  have dbl: "0 \<le> pos_dec R p" "pos_dec R p < max_dec R" using pos_dec [OF p] by blast+
  have small: "\<bar>D\<bar> \<le> 1000000" using near sizes by auto
  have tgt: "target_dec R (average t1 t2 ?c) = pos_dec R p" and avg: "\<not> filtered_adjust c \<Longrightarrow> average_latency (average t1 t2 ?c) = d"
  proof -
    have A: "average_latency (average t1 t2 ?c) = d \<and> target_dec R (average t1 t2 ?c) = pos_dec R p" if f: "\<not> filtered_adjust c"
    proof -
      have "1 * tick_us R \<le> max_dec R * tick_us R" using sizes by (intro mult_right_mono) simp_all
      then have "\<bar>D + 2 * uint d\<bar> < max_dec R * tick_us R" using near(1) by simp
      from absolute_target [OF _ _ _ _ _ _ d t2 this, of ?c] f c2 p dbl sdiv_zero [OF near(1)]
      show ?thesis by (simp add: mod_pos_pos_trivial)
    qed
    have B: "target_dec R (average t1 t2 ?c) = pos_dec R p" if f: "filtered_adjust c"
      using filtered_target [OF _ _ _ small M, of ?c t1 t2] f c2 p dbl sdiv_zero [OF near(2)]
      by (simp add: mod_pos_pos_trivial)
    show "target_dec R (average t1 t2 ?c) = pos_dec R p" using A B by blast
    show "\<not> filtered_adjust c \<Longrightarrow> average_latency (average t1 t2 ?c) = d" using A by blast
  qed
  obtain c3 c4 where c3: "in_sync c3 = in_sync c" "filtered_adjust c3 = filtered_adjust c" "zero_count c3 = zero_count c"
    "latency c3 = latency c2" "average_latency c3 = average_latency (average t1 t2 ?c)"
    "adjustment c3 = s32 (pos_dec R (dec_pos R (pos_dec R p)) - pos_udec R p)"
    and m: "if filtered_adjust c then fine_mode c3 = (c4, out) else c4 = absolute_mode c3 \<and> out = []"
    and c': "in_sync c' = in_sync c4" "filtered_adjust c' = filtered_adjust c4" "zero_count c' = zero_count c4"
    "latency c' = latency c4" "average_latency c' = average_latency c4" "min_sync_cycle_count c' = 2"
    "position c' = (if in_sync c4 then p else dec_pos R (pos_dec R p))"
    "previous_t1 c' = 0" "previous_t2 c' = 0" "offset_filtered c' = 0"
    using c2(1-4) by (rule_tac end_of_cycle_cases [OF e]) (simp add: tgt)
  have bck: "dec_pos R (pos_dec R p) = p" "pos_udec R p = pos_dec R p" using pos_dec [OF p] by blast+
  have adj: "adjustment c3 = 0" using c3 by (simp add: bck s32_id)
  show "position c' = p" using c' bck by simp
  have "steady D d c' \<and> (in_sync c \<longrightarrow> in_sync c' \<and> out = []) \<and>
    (\<not> in_sync c \<longrightarrow> messages_left c = messages_left c' + 1 \<and> out = (if in_sync c' then [Sync_indication False] else []))"
  proof (cases "filtered_adjust c")
    case True
    have z: "unat (zero_count c3) \<le> 10" using ok True c3 by (simp add: conn_ok_def)
    have fm: "fine_mode c3 = (c4, out)" using m True by simp
    note f = fine_mode_step [OF _ z fm]
    have g: "filtered_adjust c4" "unat (zero_count c4) \<le> 10" "latency c4 = latency c2"
      using f(3,4,5) True c3(1,2,4) by simp_all
    have "conn_ok c'" using g c' c2(5) by (simp add: conn_ok_def)
    then have st: "steady D d c'" using g c' c2(6) by (simp add: steady_def)
    have "in_sync c \<longrightarrow> in_sync c' \<and> out = []"
    proof (cases "unat (zero_count c3) = 10")
      case full: True
      then show ?thesis using f(10) True c3(1,2) c'(1) adj by simp
    next
      case False
      then have "unat (zero_count c3) < 10" using z by simp
      then show ?thesis using f(11) True c3(1,2) c'(1) adj by simp
    qed
    moreover have "messages_left c = messages_left c' + 1 \<and> out = (if in_sync c' then [Sync_indication False] else [])"
      if n: "\<not> in_sync c"
    proof (cases "unat (zero_count c3) = 10")
      case full: True
      then have "in_sync c4" "out = [Sync_indication False]" using f(10) True c3(1,2) adj n by simp_all
      then show ?thesis using full True n c3(3) c'(1) one by (simp add: messages_left_cases)
    next
      case False
      then have lt: "unat (zero_count c3) < 10" using z by simp
      then have "\<not> in_sync c4" "out = []" "unat (zero_count c4) = unat (zero_count c3) + 1"
        using f(11) True c3(1,2) adj n by simp_all
      then show ?thesis using lt True n g c3(3) c'(1,2,3,6) one by (simp add: messages_left_cases)
    qed
    ultimately show ?thesis using st by blast
  next
    case False
    have z: "\<not> filtered_adjust c3" "unat (zero_count c3) < 10" "\<not> in_sync c3"
      using ok False c3 by (auto simp: conn_ok_def)
    have am: "c4 = absolute_mode c3" "out = []" using m False by auto
    note f = absolute_mode_step [OF z, folded am(1)]
    have up: "unat (zero_count c4) = unat (zero_count c3) + 1" if "\<not> filtered_adjust c4"
      using that z adj unfolding am(1) by (auto simp: absolute_mode_def Let_def u16_count split: if_splits)
    have n: "\<not> in_sync c4" "\<not> in_sync c" using f(2) z(3) c3(1) by simp_all
    have l: "latency c4 = latency c2" "average_latency c4 = d" using f(5) c3(4,5) avg [OF False] by (simp_all add: am)
    have z4: "filtered_adjust c4 \<Longrightarrow> unat (zero_count c) = 9 \<and> zero_count c4 = 0"
      "\<not> filtered_adjust c4 \<Longrightarrow> unat (zero_count c4) < 10 \<and> unat (zero_count c4) = unat (zero_count c) + 1"
      using f(3,4) up c3(3) by simp_all
    have st: "steady D d c'"
      using z4 n l c' c2(5,6) by (cases "filtered_adjust c4") (simp_all add: steady_def conn_ok_def)
    have "messages_left c = messages_left c' + 1"
      using z4 n False c'(1,2,3,6) one by (cases "filtered_adjust c4") (simp_all add: messages_left_cases, arith)
    then show ?thesis using st n c'(1) am(2) by simp
  qed
  then show "steady D d c'" "in_sync c \<Longrightarrow> in_sync c' \<and> out = []"
    "\<not> in_sync c \<Longrightarrow> messages_left c = messages_left c' + 1 \<and> out = (if in_sync c' then [Sync_indication False] else [])"
    by blast+
qed

lemma steady_exchange:
  fixes c :: "'pos conn"
  assumes s: "steady D d c" and nw: "no_wrap D d t1 proc" and p: "pos_ok p"
    and near: "\<bar>D + 2 * uint d\<bar> < tick_us R" "\<bar>D + tick_us R div 2\<bar> < tick_us R" and M: "2002 \<le> max_dec R"
  obtains c' and out :: "('pos, 'm) vnf_event list" where "exchange R D d (p, t1, proc) c = Some (c', out)"
    "steady D d c'" "position c' = p" "in_sync c \<Longrightarrow> in_sync c' \<and> out = []"
    "\<not> in_sync c \<Longrightarrow> messages_left c = messages_left c' + 1 \<and> out = (if in_sync c' then [Sync_indication False] else [])"
proof -
  have D: "filtered_adjust c \<Longrightarrow> \<bar>D\<bar> \<le> 1000000" using near sizes by auto
  obtain c2 where c2:
    "exchange R D d (p, t1, proc) c = Some (if min_sync_cycle_count c = 1
       then end_of_cycle R t1 (t1 + of_int D + d) (c2\<lparr>min_sync_cycle_count := 0\<rparr>)
       else (c2\<lparr>min_sync_cycle_count := min_sync_cycle_count c - 1, previous_t1 := t1, previous_t2 := t1 + of_int D + d\<rparr>,
             [] :: ('pos, 'm) vnf_event list))"
    "in_sync c2 = in_sync c" "filtered_adjust c2 = filtered_adjust c" "zero_count c2 = zero_count c"
    "position c2 = p" "length (latency c2) = 8" "latency c2 ! 0 = 0"
    "min_sync_cycle_count c = 1 \<Longrightarrow> latency c2 ! 1 = d"
    "filtered_adjust c \<Longrightarrow> offset_filtered c2 = D" "\<not> filtered_adjust c \<Longrightarrow> average_latency c2 = d"
    by (rule measured [OF s nw D, where R = R and p = p]) (blast, rule that)
  note et = exchange_times [OF nw]
  have d: "uint d < 2 ^ 31" using nw by (simp add: no_wrap_def)
  show thesis
  proof (cases "min_sync_cycle_count c = 1")
    case True
    obtain c' and out :: "('pos, 'm) vnf_event list"
      where e: "end_of_cycle R t1 (t1 + of_int D + d) (c2\<lparr>min_sync_cycle_count := 0\<rparr>) = (c', out)"
      by (cases "end_of_cycle R t1 (t1 + of_int D + d) (c2\<lparr>min_sync_cycle_count := 0\<rparr>) :: _ \<times> ('pos, 'm) vnf_event list")
    note e' = steady_end_of_cycle [OF s e True c2(2-7) c2(8) [OF True] c2(9,10) et(4) d p near M]
    show thesis by (rule that [OF _ e']) (simp add: c2(1) True e)
  next
    case False
    define c' where "c' = c2\<lparr>min_sync_cycle_count := min_sync_cycle_count c - 1, previous_t1 := t1,
      previous_t2 := t1 + of_int D + d\<rparr>"
    have st: "steady D d c'" and one: "unat (min_sync_cycle_count c') + 1 = unat (min_sync_cycle_count c)"
      using steady_mid_cycle [OF s False c2(2-4,6,7,9,10) et(1)] by (simp_all add: c'_def)
    have "messages_left c = messages_left c' + 1" if "\<not> in_sync c"
      using that one c2 by (simp add: messages_left_def phase_def c'_def)
    with st show thesis
      by (intro that [of c' "[]"]) (simp_all add: c2 c'_def False)
  qed
qed

lemma steady_exchanges:
  fixes c :: "'pos conn"
  assumes near: "\<bar>D + 2 * uint d\<bar> < tick_us R" "\<bar>D + tick_us R div 2\<bar> < tick_us R" and M: "2002 \<le> max_dec R"
  shows "steady D d c \<Longrightarrow> list_all (link_ok pos_ok D d) xs \<Longrightarrow>
    \<exists>c'. exchanges R D d xs c =
        Some (c', if \<not> in_sync c \<and> messages_left c \<le> length xs then [Sync_indication False :: ('pos, 'm) vnf_event] else [])
      \<and> steady D d c' \<and> (in_sync c' \<longleftrightarrow> messages_left c \<le> length xs)
      \<and> (xs \<noteq> [] \<longrightarrow> position c' = fst (last xs))"
proof (induction xs arbitrary: c)
  case Nil
  have "messages_left c = 0 \<longleftrightarrow> in_sync c" using Nil(1) by (auto simp: messages_left_def steady_def conn_ok_def)
  then show ?case using Nil by auto
next
  case (Cons x xs)
  obtain p t1 proc where x: "x = (p, t1, proc)" by (cases x)
  have "no_wrap D d t1 proc" "pos_ok p" using Cons.prems(2) by (simp_all add: x link_ok_def)
  from steady_exchange [OF Cons.prems(1) this near M] obtain c1 and out :: "('pos, 'm) vnf_event list" where
    c1: "exchange R D d (p, t1, proc) c = Some (c1, out)" "steady D d c1" "position c1 = p"
      "in_sync c \<Longrightarrow> in_sync c1 \<and> out = []"
      "\<not> in_sync c \<Longrightarrow> messages_left c = messages_left c1 + 1 \<and> out = (if in_sync c1 then [Sync_indication False] else [])"
    by blast
  have z: "messages_left c1 = 0 \<longleftrightarrow> in_sync c1" using c1(2) by (auto simp: messages_left_def steady_def conn_ok_def)
  obtain c' where c': "exchanges R D d xs c1 =
        Some (c', if \<not> in_sync c1 \<and> messages_left c1 \<le> length xs then [Sync_indication False :: ('pos, 'm) vnf_event] else [])"
      "steady D d c'" "in_sync c' \<longleftrightarrow> messages_left c1 \<le> length xs" "xs \<noteq> [] \<longrightarrow> position c' = fst (last xs)"
    using Cons.IH [OF c1(2)] Cons.prems(2) by auto
  have pos: "position c' = fst (last (x # xs))" using c' c1(1,3) by (cases "xs = []") (simp_all add: x)
  have z0: "in_sync c \<Longrightarrow> messages_left c = 0" by (simp add: messages_left_def)
  show ?case
    using c1(1,4,5) c' pos z z0 by (cases "in_sync c"; cases "in_sync c1") (auto simp: x)
qed

text \<open>Where the first cycle takes the position.\<close>

lemma absolute_cycle:
  fixes c :: "'pos conn"
  assumes s: "steady D d c" "\<not> filtered_adjust c" and xs: "list_all (link_ok pos_ok D d) (xs @ [x])"
    and n: "length xs + 1 = unat (min_sync_cycle_count c)" and D: "\<bar>D + 2 * uint d\<bar> < max_dec R * tick_us R"
  shows "\<exists>c'. exchanges R D d (xs @ [x]) c = Some (c', [] :: ('pos, 'm) vnf_event list) \<and> \<not> in_sync c' \<and>
    position c' = dec_pos R ((pos_dec R (fst x) + (D + 2 * uint d) sdiv tick_us R) mod max_dec R)"
proof -
  obtain p t1 proc where x: "x = (p, t1, proc)" by (cases x)
  have nw: "no_wrap D d t1 proc" and p: "pos_ok p" using xs by (simp_all add: x link_ok_def)
  have d: "uint d < 2 ^ 31" using nw by (simp add: no_wrap_def)
  have "list_all (\<lambda>(p, t1, proc). no_wrap D d t1 proc) xs"
    using xs by (auto simp: link_ok_def list_all_iff)
  then obtain c1 where c1: "exchanges R D d xs c = Some (c1, [] :: ('pos, 'm) vnf_event list)" "steady D d c1"
    "\<not> filtered_adjust c1" "unat (min_sync_cycle_count c1) + length xs = unat (min_sync_cycle_count c)"
    using mid_cycle [OF s] n by fastforce
  have one: "min_sync_cycle_count c1 = 1" using c1(4) n by (simp add: word_unat_eq_iff)
  have f: "filtered_adjust c1 \<Longrightarrow> \<bar>D\<bar> \<le> 1000000" using c1(3) by simp
  obtain c2 where c2:
    "exchange R D d (p, t1, proc) c1 = Some (if min_sync_cycle_count c1 = 1
       then end_of_cycle R t1 (t1 + of_int D + d) (c2\<lparr>min_sync_cycle_count := 0\<rparr>)
       else (c2\<lparr>min_sync_cycle_count := min_sync_cycle_count c1 - 1, previous_t1 := t1, previous_t2 := t1 + of_int D + d\<rparr>,
             [] :: ('pos, 'm) vnf_event list))"
    "in_sync c2 = in_sync c1" "filtered_adjust c2 = filtered_adjust c1"
    "position c2 = p" "length (latency c2) = 8" "latency c2 ! 0 = 0"
    "min_sync_cycle_count c1 = 1 \<Longrightarrow> latency c2 ! 1 = d" "\<not> filtered_adjust c1 \<Longrightarrow> average_latency c2 = d"
    by (rule measured [OF c1(2) nw f, where R = R and p = p]) (blast, rule that)
  let ?c = "c2\<lparr>min_sync_cycle_count := 0\<rparr>"
  obtain c' and out :: "('pos, 'm) vnf_event list" where e: "end_of_cycle R t1 (t1 + of_int D + d) ?c = (c', out)"
    by (cases "end_of_cycle R t1 (t1 + of_int D + d) ?c :: _ \<times> ('pos, 'm) vnf_event list")
  have tgt: "target_dec R (average t1 (t1 + of_int D + d) ?c) = (pos_dec R p + (D + 2 * uint d) sdiv tick_us R) mod max_dec R"
    using absolute_target [OF _ _ _ _ _ _ d exchange_times(4) [OF nw] D, of ?c] c2(2-8) c1(3) one p by simp
  have ns: "\<not> in_sync c1" using c1(2,3) by (auto simp: steady_def conn_ok_def)
  obtain c3 c4 where c3: "in_sync c3 = in_sync c1" "filtered_adjust c3 = filtered_adjust c1"
    and m: "if filtered_adjust c1 then fine_mode c3 = (c4, out) else c4 = absolute_mode c3 \<and> out = []"
    and c': "in_sync c' = in_sync c4" "position c' = (if in_sync c4 then p
      else dec_pos R ((pos_dec R p + (D + 2 * uint d) sdiv tick_us R) mod max_dec R))"
    using c2(2-4) by (rule_tac end_of_cycle_cases [OF e]) (simp add: tgt)
  have "in_sync c4 = in_sync c3" "out = []" using m c1(3) by (auto simp: absolute_mode_def Let_def)
  then have "position c' = dec_pos R ((pos_dec R p + (D + 2 * uint d) sdiv tick_us R) mod max_dec R)" "\<not> in_sync c'"
    "exchange R D d x c1 = Some (c', [] :: ('pos, 'm) vnf_event list)"
    using c' c3 ns c2(1) e one by (simp_all add: x)
  then show ?thesis by (simp add: exchanges_append c1(1) x)
qed

end

section \<open>The two radios\<close>

definition sfnsf_pos :: "int \<Rightarrow> bool" where
  "sfnsf_pos p \<longleftrightarrow> 0 \<le> p \<and> p < 16384 \<and> p mod 16 < 10"

definition sfnslot_pos :: "int \<times> int \<Rightarrow> bool" where
  "sfnslot_pos p \<longleftrightarrow> 0 \<le> fst p \<and> fst p < 1024 \<and> 0 \<le> snd p \<and> snd p < 20"

lemma sfnsf2dec_int: "NFAPI_SFNSF2DEC s = s div 16 * 10 + s mod 16"
  by (simp add: NFAPI_SFNSF2DEC_def drop_bit_eq_div low_bits)

lemma sfnsf_pos_dec: "sfnsf_pos p \<Longrightarrow> 0 \<le> NFAPI_SFNSF2DEC p \<and> NFAPI_SFNSF2DEC p < 10240"
  unfolding sfnsf_pos_def sfnsf2dec_int by presburger

lemma uint_u16: "0 \<le> x \<Longrightarrow> x < 65536 \<Longrightarrow> uint (of_int x :: u16) = x"
  by (simp add: unsigned_of_int take_bit_int_eq_self)

interpretation lte_radio: sync_radio lte sfnsf_pos
proof
  fix k :: int
  assume k: "0 \<le> k" "k < max_dec lte"
  then have "0 \<le> k \<and> k < 10240" by (simp add: lte_def NFAPI_MAX_SFNSFDEC_def)
  then have "k div 10 * 16 + k mod 10 < 16384" "0 \<le> k div 10 * 16 + k mod 10" by presburger+
  then have d: "dec_pos lte k = k div 10 * 16 + k mod 10" using k by (simp add: lte_def dec2sfnsf uint_u16 del: of_int_add of_int_mult)
  have "k div 10 * 16 + k mod 10 = k mod 10 + 16 * (k div 10)" by simp
  then have "(k div 10 * 16 + k mod 10) div 16 = k div 10" "(k div 10 * 16 + k mod 10) mod 16 = k mod 10"
    using pos_mod_bound [of 10 k] pos_mod_sign [of 10 k] by presburger+
  then show "sfnsf_pos (dec_pos lte k) \<and> pos_dec lte (dec_pos lte k) = k"
    unfolding d using k \<open>k div 10 * 16 + k mod 10 < 16384\<close> by (simp add: lte_def sfnsf_pos_def sfnsf2dec_int)
next
  fix p assume p: "sfnsf_pos p"
  have d: "0 \<le> NFAPI_SFNSF2DEC p" "NFAPI_SFNSF2DEC p < 10240" using sfnsf_pos_dec [OF p] by blast+
  have m: "0 \<le> p mod 16" "p mod 16 < 10" using p by (simp_all add: sfnsf_pos_def)
  then have "(p div 16 * 10 + p mod 16) div 10 = p div 16" "(p div 16 * 10 + p mod 16) mod 10 = p mod 16"
    by (simp_all add: add.commute [of "p div 16 * 10"] div_mult_self1 mod_mult_self1)
  then have "NFAPI_SFNSFDEC2SFNSF (NFAPI_SFNSF2DEC p) = p" using d by (simp add: dec2sfnsf sfnsf2dec_int)
  moreover have "uint (of_int p :: u16) = p" using p by (simp add: sfnsf_pos_def uint_u16)
  moreover have "p mod 4294967296 = p" using p by (simp add: sfnsf_pos_def)
  ultimately show "0 \<le> pos_dec lte p \<and> pos_dec lte p < max_dec lte \<and> pos_udec lte p = pos_dec lte p
      \<and> dec_pos lte (pos_dec lte p) = p"
    using d by (simp add: lte_def NFAPI_MAX_SFNSFDEC_def)
qed (simp_all add: lte_def NFAPI_MAX_SFNSFDEC_def)

interpretation nr_radio: sync_radio nr sfnslot_pos
proof
  fix k :: int
  assume k: "0 \<le> k" "k < max_dec nr"
  then have "k div 20 < 1024" "0 \<le> k div 20" by (simp_all add: nr_def NFAPI_MAX_SFNSLOTDEC_def)
  then show "sfnslot_pos (dec_pos nr k) \<and> pos_dec nr (dec_pos nr k) = k"
    using k by (simp add: nr_def sfnslot_pos_def NFAPI_SFNSLOTDEC2SFN_def NFAPI_SFNSLOTDEC2SLOT_def uint_u16
        NFAPI_SFNSLOT2DEC_def sdiv_nonneg smod_nonneg)
next
  fix p assume p: "sfnslot_pos p"
  obtain sfn slot where ps: "p = (sfn, slot)" by (cases p)
  have b: "0 \<le> sfn" "sfn < 1024" "0 \<le> slot" "slot < 20" using p by (simp_all add: sfnslot_pos_def ps)
  then have "0 \<le> sfn * 20 + slot" "sfn * 20 + slot < 20480" by simp_all
  then show "0 \<le> pos_dec nr p \<and> pos_dec nr p < max_dec nr \<and> pos_udec nr p = pos_dec nr p
      \<and> dec_pos nr (pos_dec nr p) = p"
    using b by (simp add: nr_def ps NFAPI_SFNSLOTDEC2SFN_def NFAPI_SFNSLOTDEC2SLOT_def uint_u16
        NFAPI_SFNSLOT2DEC_def sdiv_nonneg smod_nonneg NFAPI_MAX_SFNSLOTDEC_def)
qed (simp_all add: nr_def NFAPI_MAX_SFNSLOTDEC_def)

section \<open>Runs of the VNF\<close>

text \<open>What reaches the P7 thread of the VNF: packets, the end of a subframe, PNFs coming and going.\<close>

datatype vnf_input = Packet u32 "u8 list" | Tick u32 | Add_pnf u16 | Del_pnf u16

fun vnf_step :: "(u32, 'm) vnf_codec \<Rightarrow> vnf_input \<Rightarrow> int vnf_p7 \<Rightarrow> (int vnf_p7 \<times> (int, 'm) vnf_event list) option" where
  "vnf_step cd (Packet now msg) v = vnf_dispatch_p7_message cd now msg v"
| "vnf_step cd (Tick now) v = Some (vnf_subframe_tick now v)"
| "vnf_step cd (Add_pnf pid) v = Some (nfapi_vnf_p7_add_pnf (uint pid) 0 v, [])"
| "vnf_step cd (Del_pnf pid) v = Some (nfapi_vnf_p7_del_pnf (uint pid) v, [])"

fun vnf_run :: "(u32, 'm) vnf_codec \<Rightarrow> vnf_input list \<Rightarrow> int vnf_p7 \<Rightarrow> (int vnf_p7 \<times> (int, 'm) vnf_event list) option" where
  "vnf_run cd [] v = Some (v, [])"
| "vnf_run cd (i # is') v =
     (case vnf_step cd i v of None \<Rightarrow> None
      | Some (v', out) \<Rightarrow> map_option (\<lambda>(v'', out'). (v'', out @ out')) (vnf_run cd is' v'))"

definition vnf_ok :: "'pos vnf_p7 \<Rightarrow> bool" where
  "vnf_ok v \<longleftrightarrow> list_all conn_ok (p7_connections v)"

lemma find_conn_SomeD: "find_conn pid cs = Some c \<Longrightarrow> c \<in> set cs \<and> conn_phy_id c = pid"
  by (induction cs) (auto split: if_splits)

lemma list_all_set_conn: "list_all P cs \<Longrightarrow> P c' \<Longrightarrow> list_all P (set_conn pid c' cs)"
  by (induction cs) auto

lemma list_all_delete_conn: "list_all P cs \<Longrightarrow> list_all P (snd (delete_conn pid cs))"
  by (induction cs) (auto simp: map_prod_def split_def)

lemma conn_ok_new [simp]: "conn_ok (new_conn pid origin)"
  by (simp add: conn_ok_def new_conn_def)

lemma conn_ok_position [simp]: "conn_ok (c\<lparr>position := p\<rparr>) = conn_ok c"
  by (simp add: conn_ok_def)

lemma handle_ul_node_sync_cases:
  fixes v :: "'pos vnf_p7"
  assumes ok: "vnf_ok v"
  shows "handle_ul_node_sync R now ind v = (None :: ('pos vnf_p7 \<times> ('pos, 'm) vnf_event list) option) \<longleftrightarrow>
      (\<exists>m. ind = Some m \<and> vnf_p7_connection_info_list_find (un_phy_id m) v = None)"
    "handle_ul_node_sync R now ind v = Some (v', out :: ('pos, 'm) vnf_event list) \<Longrightarrow> vnf_ok v'"
proof -
  have known: "\<exists>v' out. handle_ul_node_sync R now (Some m) v = Some (v', out :: ('pos, 'm) vnf_event list) \<and> vnf_ok v'"
    if f: "vnf_p7_connection_info_list_find (un_phy_id m) v = Some c" for m c
  proof -
    have c: "conn_ok c"
      using ok find_conn_SomeD f by (fastforce simp: vnf_p7_connection_info_list_find_def vnf_ok_def list_all_iff)
    obtain c' and out :: "('pos, 'm) vnf_event list" where
      "node_sync R (un_t1 m) (un_t2 m) (un_t3 m) (time_t4 R now (position c) (vnf_start_time_hr v)) c = Some (c', out)" "conn_ok c'"
      using node_sync_step [OF c] by metis
    then show ?thesis
      using ok f by (auto simp: handle_ul_node_sync_def vnf_ok_def list_all_set_conn)
  qed
  show "handle_ul_node_sync R now ind v = (None :: ('pos vnf_p7 \<times> ('pos, 'm) vnf_event list) option) \<longleftrightarrow>
      (\<exists>m. ind = Some m \<and> vnf_p7_connection_info_list_find (un_phy_id m) v = None)"
  proof (cases "\<exists>m c. ind = Some m \<and> vnf_p7_connection_info_list_find (un_phy_id m) v = Some c")
    case True
    then show ?thesis using known by fastforce
  next
    case False
    then show ?thesis by (auto simp: handle_ul_node_sync_def split: option.splits)
  qed
  assume h: "handle_ul_node_sync R now ind v = Some (v', out :: ('pos, 'm) vnf_event list)"
  show "vnf_ok v'"
  proof (cases ind)
    case None
    then show ?thesis using h ok by (simp add: handle_ul_node_sync_def)
  next
    case (Some m)
    then obtain c where "vnf_p7_connection_info_list_find (un_phy_id m) v = Some c"
      using h by (cases "vnf_p7_connection_info_list_find (un_phy_id m) v") (simp_all add: handle_ul_node_sync_def)
    from known [OF this] h Some show ?thesis by auto
  qed
qed

lemma vnf_ok_timing_info: "vnf_ok v \<Longrightarrow> vnf_ok (vnf_handle_timing_info ind v)"
  by (auto simp: vnf_handle_timing_info_def vnf_ok_def Let_def split: option.split list.split)

lemma vnf_ok_next_subframe: "vnf_ok v \<Longrightarrow> vnf_ok (start_next_subframe v)"
  by (auto simp: start_next_subframe_def vnf_ok_def Let_def minor_adjust_def conn_ok_def split: list.split)

definition lost_phy :: "(u32, 'm) vnf_codec \<Rightarrow> vnf_input \<Rightarrow> int vnf_p7 \<Rightarrow> bool" where
  "lost_phy cd i v = (case i of
     Packet now msg \<Rightarrow>
       (case (nfapi_p7_message_header_unpack msg, unpack_sync cd msg) of
          (Some h, Some m) \<Rightarrow>
            message_id h = NFAPI_UL_NODE_SYNC \<and> vnf_p7_connection_info_list_find (un_phy_id m) v = None
        | _ \<Rightarrow> False)
   | _ \<Rightarrow> False)"

lemma vnf_dispatch_other:
  "nfapi_p7_message_header_unpack msg = Some h \<Longrightarrow> message_id h \<noteq> NFAPI_UL_NODE_SYNC \<Longrightarrow> message_id h \<noteq> NFAPI_TIMING_INFO
    \<Longrightarrow> \<exists>out. vnf_dispatch_p7_message cd now msg v = Some (v, out)"
  by (simp add: vnf_dispatch_p7_message_def Let_def quietly_def)

lemma vnf_step_cases:
  fixes cd :: "(u32, 'm) vnf_codec"
  assumes ok: "vnf_ok v"
  shows "if lost_phy cd i v then vnf_step cd i v = None else \<exists>v' out. vnf_step cd i v = Some (v', out) \<and> vnf_ok v'"
proof (cases i)
  case (Packet now msg)
  show ?thesis
  proof (cases "nfapi_p7_message_header_unpack msg")
    case None
    then show ?thesis using ok by (simp add: Packet vnf_dispatch_p7_message_def lost_phy_def)
  next
    case (Some h)
    consider "message_id h = NFAPI_UL_NODE_SYNC" | "message_id h = NFAPI_TIMING_INFO" "message_id h \<noteq> NFAPI_UL_NODE_SYNC"
      | "message_id h \<noteq> NFAPI_UL_NODE_SYNC" "message_id h \<noteq> NFAPI_TIMING_INFO" by blast
    then show ?thesis
    proof cases
      case 1
      let ?r = "handle_ul_node_sync lte now (unpack_sync cd msg) v :: (int vnf_p7 \<times> (int, 'm) vnf_event list) option"
      have r: "vnf_step cd i v = ?r"
        using Some 1 by (simp add: Packet vnf_dispatch_p7_message_def Let_def vnf_handle_ul_node_sync_def)
      have l: "lost_phy cd i v \<longleftrightarrow> ?r = None"
        unfolding handle_ul_node_sync_cases(1) [OF ok] using Some 1
        by (auto simp: Packet lost_phy_def split: option.split)
      show ?thesis
        using handle_ul_node_sync_cases(2) [OF ok, of lte now "unpack_sync cd msg"] unfolding r l by (cases ?r) auto
    next
      case 2
      then show ?thesis using Some vnf_ok_timing_info [OF ok]
        by (simp add: Packet vnf_dispatch_p7_message_def Let_def lost_phy_def split: option.split)
    next
      case 3
      then show ?thesis using vnf_dispatch_other [OF Some 3, of cd now v] ok Some
        by (auto simp: Packet lost_phy_def split: option.split)
    qed
  qed
next
  case (Tick now)
  then show ?thesis using vnf_ok_next_subframe [OF ok]
    by (simp add: lost_phy_def vnf_subframe_tick_def Let_def vnf_ok_def list.pred_map comp_def advance_conn_def)
next
  case (Add_pnf pid)
  then show ?thesis using ok
    by (simp add: lost_phy_def nfapi_vnf_p7_add_pnf_def vnf_p7_connection_info_list_add_def vnf_ok_def)
next
  case (Del_pnf pid)
  then show ?thesis using ok
    by (simp add: lost_phy_def nfapi_vnf_p7_del_pnf_def vnf_p7_connection_info_list_delete_def vnf_ok_def
        list_all_delete_conn split_def map_prod_def)
qed

lemma vnf_run_append:
  "vnf_run cd (xs @ ys) v = (case vnf_run cd xs v of None \<Rightarrow> None
     | Some (v', out) \<Rightarrow> map_option (\<lambda>(v'', out'). (v'', out @ out')) (vnf_run cd ys v'))"
proof (induction xs arbitrary: v)
  case Nil
  then show ?case by (simp add: option.map_ident split_def)
next
  case (Cons x xs)
  show ?case
  proof (cases "vnf_step cd x v")
    case (Some r)
    then show ?thesis by (cases r) (auto simp: Cons option.map_comp comp_def split_def split: option.split)
  qed simp
qed

lemma vnf_run_cases:
  "vnf_ok v \<Longrightarrow>
    (case vnf_run cd xs v of Some (v', out) \<Rightarrow> vnf_ok v'
     | None \<Rightarrow> \<exists>pre i post v' out. xs = pre @ i # post \<and> vnf_run cd pre v = Some (v', out) \<and> lost_phy cd i v')"
proof (induction xs arbitrary: v)
  case Nil
  then show ?case by simp
next
  case (Cons x xs)
  show ?case
  proof (cases "lost_phy cd x v")
    case True
    then have "x # xs = [] @ x # xs \<and> vnf_run cd [] v = Some (v, []) \<and> lost_phy cd x v" by simp
    then show ?thesis using vnf_step_cases [OF Cons.prems, of cd x] True by (simp, blast)
  next
    case False
    then obtain v1 out1 where 1: "vnf_step cd x v = Some (v1, out1)" "vnf_ok v1"
      using vnf_step_cases [OF Cons.prems, of cd x] by auto
    show ?thesis
    proof (cases "vnf_run cd xs v1")
      case None
      then obtain pre i post v' out where "xs = pre @ i # post" "vnf_run cd pre v1 = Some (v', out)" "lost_phy cd i v'"
        using Cons.IH [OF 1(2)] by auto
      then have "x # xs = (x # pre) @ i # post \<and> vnf_run cd (x # pre) v = Some (v', out1 @ out) \<and> lost_phy cd i v'"
        using 1(1) by simp
      then show ?thesis using None 1(1) by (simp, blast)
    next
      case (Some r)
      then show ?thesis using Cons.IH [OF 1(2)] 1(1) by (auto split: prod.splits)
    qed
  qed
qed

lemma messages_left_new [simp]: "messages_left (new_conn pid origin) = 48"
  by (simp add: messages_left_def phase_def new_conn_def)

lemma steady_new: "steady D d (new_conn pid origin)"
  by (simp add: steady_def new_conn_def conn_ok_def)

lemma new_conn_sel [simp]: "\<not> in_sync (new_conn pid origin)" "\<not> filtered_adjust (new_conn pid origin)"
  "min_sync_cycle_count (new_conn pid origin) = 8"
  by (simp_all add: new_conn_def)

lemma radio_sizes: "max_dec lte = 10240" "tick_us lte = 1000" "max_dec nr = 20480" "tick_us nr = 500"
  by (simp_all add: lte_def nr_def NFAPI_MAX_SFNSFDEC_def NFAPI_MAX_SFNSLOTDEC_def)

lemma pos_dec_unfold: "pos_dec lte p = NFAPI_SFNSF2DEC p" "pos_dec nr q = NFAPI_SFNSLOT2DEC (fst q) (snd q)"
  by (simp_all add: lte_def nr_def split_def)

text \<open>The two masks.\<close>

lemma sync_due_512: "sync_due x 512 \<longleftrightarrow> x mod 512 = 0"
proof -
  have "x AND 511 = take_bit 9 x" by (simp add: take_bit_eq_mask mask_eq_exp_minus_1)
  then show ?thesis by (simp add: sync_due_def take_bit_eq_mod)
qed

lemma mask9: "x AND 9 = (x mod 16) AND 9" for x :: int
proof -
  have "x AND 9 = x AND (15 AND 9)" by simp
  also have "\<dots> = (x AND 15) AND 9" by (simp only: and.assoc)
  also have "x AND 15 = take_bit 4 x" by (simp add: take_bit_eq_mask mask_eq_exp_minus_1)
  finally show ?thesis by (simp add: take_bit_eq_mod)
qed

lemma sync_due_10: "sync_due x 10 \<longleftrightarrow> x mod 16 \<in> {0, 2, 4, 6}"
proof -
  have "x mod 16 \<in> {0, 1, 2, 3, 4, 5, 6, 7, 8, 9, 10, 11, 12, 13, 14, 15}"
    unfolding insert_iff empty_iff by presburger
  then show ?thesis unfolding sync_due_def by (auto simp: mask9 [of x])
qed

lemma macro_period: "y mod 1024 * 20 mod 512 = 0 \<longleftrightarrow> y mod 128 = 0" for y :: int
proof -
  have "y mod 1024 * 20 mod 512 = 0 \<longleftrightarrow> 4 * 128 dvd 4 * (5 * (y mod 1024))"
    by (simp add: dvd_eq_mod_eq_0 mult.commute)
  also have "\<dots> \<longleftrightarrow> 128 dvd 5 * (y mod 1024)" by (simp only: dvd_mult_cancel_left) simp
  also have "\<dots> \<longleftrightarrow> 128 dvd y mod 1024"
    using coprime_power_left_iff [of 2 7 "5 :: int"] by (intro coprime_dvd_mult_right_iff) simp
  also have "\<dots> \<longleftrightarrow> 128 dvd y" by (rule dvd_mod_iff) simp
  finally show ?thesis by (simp add: dvd_eq_mod_eq_0)
qed

section \<open>Properties\<close>





text \<open>
  C33. The first eight exchanges of a connection (two, once a cycle is over) move
  the position of the VNF, at the last of them, by the clock difference plus twice the delay, in whole
  subframes or slots cut towards zero, modulo the frame period: the delay has the wrong sign, the
  position does not settle on that of the PNF unless twice the delay is below one subframe.
\<close>

theorem sync_correction:
  assumes "list_all (link_ok sfnsf_pos D d) (xs @ [x])" "length xs = 7" "\<bar>D + 2 * uint d\<bar> < 10240 * 1000"
    and "list_all (link_ok sfnslot_pos D' d') (ys @ [y])" "length ys = 7" "\<bar>D' + 2 * uint d'\<bar> < 20480 * 500"
  shows "(\<exists>c'. exchanges lte D d (xs @ [x]) (new_conn pid p) = Some (c', [] :: (int, 'm) vnf_event list) \<and>
      sfnsf_pos (position c') \<and>
      NFAPI_SFNSF2DEC (position c') = (NFAPI_SFNSF2DEC (fst x) + (D + 2 * uint d) sdiv 1000) mod 10240) \<and>
    (\<exists>c'. exchanges nr D' d' (ys @ [y]) (new_conn pid' p') = Some (c', [] :: (int \<times> int, 'm) vnf_event list) \<and>
      sfnslot_pos (position c') \<and>
      NFAPI_SFNSLOT2DEC (fst (position c')) (snd (position c')) =
        (NFAPI_SFNSLOT2DEC (fst (fst y)) (snd (fst y)) + (D' + 2 * uint d') sdiv 500) mod 20480)"
proof
  obtain c' where c': "exchanges lte D d (xs @ [x]) (new_conn pid p) = Some (c', [] :: (int, 'm) vnf_event list)"
    "position c' = dec_pos lte ((pos_dec lte (fst x) + (D + 2 * uint d) sdiv tick_us lte) mod max_dec lte)"
    using lte_radio.absolute_cycle [OF steady_new new_conn_sel(2) assms(1), of pid p, where 'm = 'm] assms(2,3)
    by (auto simp: radio_sizes)
  have "0 \<le> (pos_dec lte (fst x) + (D + 2 * uint d) sdiv tick_us lte) mod max_dec lte"
    "(pos_dec lte (fst x) + (D + 2 * uint d) sdiv tick_us lte) mod max_dec lte < max_dec lte"
    by (simp_all add: radio_sizes)
  from lte_radio.dec_pos [OF this] c'
  show "\<exists>c'. exchanges lte D d (xs @ [x]) (new_conn pid p) = Some (c', [] :: (int, 'm) vnf_event list) \<and>
      sfnsf_pos (position c') \<and>
      NFAPI_SFNSF2DEC (position c') = (NFAPI_SFNSF2DEC (fst x) + (D + 2 * uint d) sdiv 1000) mod 10240"
    by (simp add: radio_sizes pos_dec_unfold)
next
  obtain c' where c': "exchanges nr D' d' (ys @ [y]) (new_conn pid' p') = Some (c', [] :: (int \<times> int, 'm) vnf_event list)"
    "position c' = dec_pos nr ((pos_dec nr (fst y) + (D' + 2 * uint d') sdiv tick_us nr) mod max_dec nr)"
    using nr_radio.absolute_cycle [OF steady_new new_conn_sel(2) assms(4), of pid' p', where 'm = 'm] assms(5,6)
    by (auto simp: radio_sizes)
  have "0 \<le> (pos_dec nr (fst y) + (D' + 2 * uint d') sdiv tick_us nr) mod max_dec nr"
    "(pos_dec nr (fst y) + (D' + 2 * uint d') sdiv tick_us nr) mod max_dec nr < max_dec nr"
    by (simp_all add: radio_sizes)
  from nr_radio.dec_pos [OF this] c'
  show "\<exists>c'. exchanges nr D' d' (ys @ [y]) (new_conn pid' p') = Some (c', [] :: (int \<times> int, 'm) vnf_event list) \<and>
      sfnslot_pos (position c') \<and>
      NFAPI_SFNSLOT2DEC (fst (position c')) (snd (position c')) =
        (NFAPI_SFNSLOT2DEC (fst (fst y)) (snd (fst y)) + (D' + 2 * uint d') sdiv 500) mod 20480"
    by (simp add: radio_sizes pos_dec_unfold)
qed

theorem sync_correction_witness:
  "\<exists>c'. exchanges lte 500000 600 (replicate 7 (0x25, 0x1000, 20) @ [(0x30, 0x2000, 20)]) (new_conn 1 0) =
      Some (c', [] :: (int, unit) vnf_event list) \<and> NFAPI_SFNSF2DEC (position c') = 531"
proof -
  have "list_all (link_ok sfnsf_pos 500000 600) (replicate 7 (0x25, 0x1000, 20) @ [(0x30, 0x2000, 20)])"
    "list_all (link_ok sfnslot_pos 0 0) (replicate 7 ((3, 7), 0x1000, 20) @ [((3, 7), 0x1000, 20)])"
    by (auto simp: list_all_iff link_ok_def no_wrap_def sfnsf_pos_def sfnslot_pos_def)
  from sync_correction [OF this(1) _ _ this(2), of 1 0 1 "(0, 0)", where 'm = unit]
  show ?thesis by (auto simp: sfnsf2dec_int sdiv_nonneg)
qed

text \<open>
  When node syncs are sent.  An LTE connection with the default periods sends
  one every 512 subframes in sync; the mask of the period 10 used out of sync is not a
  power of two minus one and picks four subframes of sixteen; an NR connection in
  sync sends one every 128 slots, four times as often as its period says.
\<close>

theorem vnf_sync_times:
  fixes c :: "int conn" and n :: "(int \<times> int) conn"
  assumes "sfnsf_pos (position c)" "dl_in_sync_offset c = 30" "dl_in_sync_period c = 512"
    "dl_out_sync_offset c = 30" "dl_out_sync_period c = 10"
    and "sfnslot_pos (position n)" "in_sync n" "dl_in_sync_offset n = 30" "dl_in_sync_period n = 512"
  shows "(vnf_sync now start c \<noteq> ([] :: (int, 'm) vnf_event list) \<longleftrightarrow>
      (if in_sync c then (NFAPI_SFNSF2DEC (position c) + 30) mod 512 = 0
       else (NFAPI_SFNSF2DEC (position c) + 30) mod 16 \<in> {0, 2, 4, 6})) \<and>
    (vnf_nr_sync now start n \<noteq> ([] :: (int \<times> int, 'm) vnf_event list) \<longleftrightarrow>
      (NFAPI_SFNSLOT2DEC (fst (position n)) (snd (position n)) + 30) mod 128 = 0)"
proof
  let ?d = "NFAPI_SFNSF2DEC (position c)"
  have d: "0 \<le> ?d" "?d < 10240" using sfnsf_pos_dec [OF assms(1)] by blast+
  then have u: "uint (of_int ?d :: u16) = ?d" by (simp add: uint_u16)
  have m: "(?d + 30) mod 10240 mod 512 = (?d + 30) mod 512" "(?d + 30) mod 10240 mod 16 = (?d + 30) mod 16"
    by (simp_all add: mod_mod_cancel)
  show "vnf_sync now start c \<noteq> ([] :: (int, 'm) vnf_event list) \<longleftrightarrow>
      (if in_sync c then (NFAPI_SFNSF2DEC (position c) + 30) mod 512 = 0
       else (NFAPI_SFNSF2DEC (position c) + 30) mod 16 \<in> {0, 2, 4, 6})"
    using d assms(2-5)
    by (simp add: vnf_sync_def Let_def u sync_due_512 smod_nonneg NFAPI_MAX_SFNSFDEC_def m sync_due_10
        vnf_build_send_dl_node_sync_def)
next
  obtain sfn slot where p: "position n = (sfn, slot)" by (cases "position n")
  let ?d = "NFAPI_SFNSLOT2DEC sfn slot"
  have d: "0 \<le> ?d" "?d < 20480" using assms(6) by (simp_all add: sfnslot_pos_def p NFAPI_SFNSLOT2DEC_def)
  then have u: "uint (of_int ?d :: u16) = ?d" by (simp add: uint_u16)
  show "vnf_nr_sync now start n \<noteq> ([] :: (int \<times> int, 'm) vnf_event list) \<longleftrightarrow>
      (NFAPI_SFNSLOT2DEC (fst (position n)) (snd (position n)) + 30) mod 128 = 0"
    using d assms(7-9)
    by (simp add: vnf_nr_sync_def Let_def p u sync_due_512 smod_nonneg macro_period vnf_build_send_dl_node_sync_def)
qed

theorem vnf_sync_times_witness:
  "vnf_sync 0 0 (new_conn 1 0x302) \<noteq> ([] :: (int, unit) vnf_event list) \<and>
    vnf_nr_sync 0 0 ((new_conn 1 (4, 18))\<lparr>in_sync := True\<rparr>) \<noteq> ([] :: (int \<times> int, unit) vnf_event list)"
  using vnf_sync_times [of "new_conn 1 0x302" "(new_conn 1 (4, 18))\<lparr>in_sync := True\<rparr>" 0 0, where 'm = unit]
  by (simp add: new_conn_def sfnsf_pos_def sfnslot_pos_def sfnsf2dec_int NFAPI_SFNSLOT2DEC_def)


end
