(* ===== verification/P5_Header.thy ===== *)
theory P5_Header
  imports Nfapi_Ids Nfapi_Codec
begin

text \<open>
  The frame of the P5 and P4 messages, \<^verbatim>\<open>nfapi_p5.c\<close>: an eight byte header and the
  body that the message id selects.  The two radios share the header but not the length field: LTE counts the
  whole message, NR the body only.

  The functions that unpack a body return 0 on failure and 1 on success, the frame
  returns that number, or -1 when the header cannot be read or the id is unknown.  Here -1 is \<open>None\<close>, and the
  result of the body is the \<open>bool\<close> that is returned with what was decoded up to the failure.
\<close>

record p5_header =
  p5_phy_id :: u16
  p5_message_id :: u16
  p5_message_length :: u16
  p5_spare :: u16

definition NFAPI_HEADER_LENGTH :: nat where "NFAPI_HEADER_LENGTH = 8"

text \<open>The TLVs of CONFIG.request that PNF and VNF look at, \<open>None\<close> for one that is absent; the port is 0 then.\<close>

record config_body =
  tlv_timing_window :: "u8 option"
  tlv_timing_info_mode :: "u8 option"
  tlv_timing_info_period :: "u8 option"
  tlv_dl_bandwidth :: "u16 option"
  tlv_ul_bandwidth :: "u16 option"
  p7_vnf_port :: u16

section \<open>Packing\<close>

definition pack_p5_header :: "p5_header \<Rightarrow> wbuf \<Rightarrow> wbuf option" where
  "pack_p5_header h w =
     push16 (p5_phy_id h) w \<bind> (\<lambda>w. push16 (p5_message_id h) w \<bind> (\<lambda>w. push16 0 w \<bind> push16 (p5_spare h)))"

definition p5_frame_pack :: "(nat \<Rightarrow> nat) \<Rightarrow> (wbuf \<Rightarrow> wbuf option) \<Rightarrow> p5_header \<Rightarrow> u8 list \<Rightarrow> (u8 list \<times> nat) option" where
  "p5_frame_pack len body h buf =
     (case pack_p5_header h \<lparr>wb_mem = buf, wb_pos = 0, wb_end = length buf\<rparr> of None \<Rightarrow> None
      | Some w1 \<Rightarrow>
          (case body w1 of None \<Rightarrow> None
           | Some w2 \<Rightarrow>
               if 0xFFFF < wb_pos w2 \<or> length buf < wb_pos w2 then None
               else map_option (\<lambda>w3. (wb_mem w3, wb_pos w2)) (push16 (of_nat (len (wb_pos w2))) (w2\<lparr>wb_pos := 4\<rparr>))))"

text \<open>\<open>body\<close> is the packer of the message id, \<open>None\<close> for an id that the switch does not have.\<close>

definition nfapi_p5_message_pack :: "(u16 \<Rightarrow> (wbuf \<Rightarrow> wbuf option) option) \<Rightarrow> p5_header \<Rightarrow> u8 list \<Rightarrow> (u8 list \<times> nat) option" where
  "nfapi_p5_message_pack body h buf =
     (case body (p5_message_id h) of None \<Rightarrow> None | Some b \<Rightarrow> p5_frame_pack (\<lambda>n. n) b h buf)"

definition nfapi_nr_p5_message_pack :: "(u16 \<Rightarrow> (wbuf \<Rightarrow> wbuf option) option) \<Rightarrow> p5_header \<Rightarrow> u8 list \<Rightarrow> (u8 list \<times> nat) option" where
  "nfapi_nr_p5_message_pack body h buf =
     (case body (p5_message_id h) of None \<Rightarrow> None
      | Some b \<Rightarrow> p5_frame_pack (\<lambda>n. n - NFAPI_HEADER_LENGTH) b h buf)"

text \<open>The ids that the switches of the two packers have.\<close>

definition p5_packs :: "u16 \<Rightarrow> bool" where
  "p5_packs mid \<longleftrightarrow> mid \<in> {NFAPI_PNF_PARAM_REQUEST, NFAPI_PNF_PARAM_RESPONSE, NFAPI_PNF_CONFIG_REQUEST,
     NFAPI_PNF_CONFIG_RESPONSE, NFAPI_PNF_START_REQUEST, NFAPI_PNF_START_RESPONSE, NFAPI_PNF_STOP_REQUEST,
     NFAPI_PNF_STOP_RESPONSE, NFAPI_PARAM_REQUEST, NFAPI_PARAM_RESPONSE, NFAPI_CONFIG_REQUEST, NFAPI_CONFIG_RESPONSE,
     NFAPI_START_REQUEST, NFAPI_START_RESPONSE, NFAPI_STOP_REQUEST, NFAPI_STOP_RESPONSE,
     NFAPI_MEASUREMENT_REQUEST, NFAPI_MEASUREMENT_RESPONSE}"

definition nr_p5_packs :: "u16 \<Rightarrow> bool" where
  "nr_p5_packs mid \<longleftrightarrow> mid \<in> {NFAPI_NR_PHY_MSG_TYPE_PNF_PARAM_REQUEST, NFAPI_PNF_PARAM_RESPONSE,
     NFAPI_NR_PHY_MSG_TYPE_PNF_CONFIG_REQUEST, NFAPI_NR_PHY_MSG_TYPE_PNF_CONFIG_RESPONSE,
     NFAPI_NR_PHY_MSG_TYPE_PNF_START_REQUEST, NFAPI_NR_PHY_MSG_TYPE_PNF_START_RESPONSE,
     NFAPI_NR_PHY_MSG_TYPE_PNF_STOP_REQUEST, NFAPI_PNF_STOP_RESPONSE, NFAPI_NR_PHY_MSG_TYPE_PARAM_REQUEST,
     NFAPI_NR_PHY_MSG_TYPE_PARAM_RESPONSE, NFAPI_NR_PHY_MSG_TYPE_CONFIG_REQUEST, NFAPI_NR_PHY_MSG_TYPE_CONFIG_RESPONSE,
     NFAPI_NR_PHY_MSG_TYPE_START_REQUEST, NFAPI_NR_PHY_MSG_TYPE_START_RESPONSE,
     NFAPI_NR_PHY_MSG_TYPE_STOP_REQUEST, NFAPI_NR_PHY_MSG_TYPE_STOP_RESPONSE}"

section \<open>Unpacking\<close>

definition unpack_p5_header :: "rbuf \<Rightarrow> (p5_header \<times> rbuf) option" where
  "unpack_p5_header r =
     pull16 r \<bind> (\<lambda>(a, r). pull16 r \<bind> (\<lambda>(b, r). pull16 r \<bind> (\<lambda>(c, r). pull16 r \<bind> (\<lambda>(d, r).
     Some (\<lparr>p5_phy_id = a, p5_message_id = b, p5_message_length = c, p5_spare = d\<rparr>, r)))))"

definition nfapi_p5_message_header_unpack :: "u8 list \<Rightarrow> p5_header option" where
  "nfapi_p5_message_header_unpack msg =
     (if length msg < NFAPI_HEADER_LENGTH then None else map_option fst (unpack_p5_header (rb_of msg)))"

definition p5_frame_unpack :: "(u16 \<Rightarrow> (rbuf \<Rightarrow> 'b \<times> bool) option) \<Rightarrow> u8 list \<Rightarrow> (p5_header \<times> 'b \<times> bool) option" where
  "p5_frame_unpack body msg =
     (if length msg < NFAPI_HEADER_LENGTH then None
      else case unpack_p5_header (rb_of msg) of None \<Rightarrow> None
           | Some (h, r) \<Rightarrow> map_option (\<lambda>b. (h, b r)) (body (p5_message_id h)))"

definition nfapi_p5_message_unpack :: "(u16 \<Rightarrow> (rbuf \<Rightarrow> 'b \<times> bool) option) \<Rightarrow> u8 list \<Rightarrow> (p5_header \<times> 'b \<times> bool) option" where
  "nfapi_p5_message_unpack body msg = p5_frame_unpack body msg"

definition nfapi_nr_p5_message_unpack :: "(u16 \<Rightarrow> (rbuf \<Rightarrow> 'b \<times> bool) option) \<Rightarrow> u8 list \<Rightarrow> (p5_header \<times> 'b \<times> bool) option" where
  "nfapi_nr_p5_message_unpack body msg = p5_frame_unpack body msg"

section \<open>Reading from the connection\<close>

text \<open>
  The connection keeps the boundaries of messages.  The receivers peek at eight bytes, take the length
  from the header and read that many bytes: of a longer message the end is missing and the flag that a complete message
  was read with it, of a shorter one the rest of the buffer is what the memory \<open>junk\<close> held.
  The result is the message that is dispatched, \<open>None\<close> if the receiver takes the connection for lost.
\<close>

definition read_into :: "(nat \<Rightarrow> u8) \<Rightarrow> nat \<Rightarrow> u8 list \<Rightarrow> u8 list" where
  "read_into junk n wire = take n wire @ map junk [length wire ..< n]"

definition p5_read :: "(u16 \<Rightarrow> nat) \<Rightarrow> (nat \<Rightarrow> u8) \<Rightarrow> u8 list \<Rightarrow> u8 list option" where
  "p5_read msg_size junk wire =
     (case nfapi_p5_message_header_unpack (read_into junk NFAPI_HEADER_LENGTH wire) of None \<Rightarrow> None
      | Some h \<Rightarrow> (let n = msg_size (p5_message_length h) in if n < length wire then None else Some (read_into junk n wire)))"

text \<open>The message size of the LTE and of the NR receivers.\<close>

definition lte_size :: "u16 \<Rightarrow> nat" where "lte_size l = unat l"
definition nr_size :: "u16 \<Rightarrow> nat" where "nr_size l = unat l + NFAPI_HEADER_LENGTH"

section \<open>Laws\<close>

definition enc_p5_header :: "p5_header \<Rightarrow> u8 list" where
  "enc_p5_header h = be16 (p5_phy_id h) @ be16 (p5_message_id h) @ be16 (p5_message_length h) @ be16 (p5_spare h)"

lemma length_enc_p5_header [simp]: "length (enc_p5_header h) = 8"
  by (simp add: enc_p5_header_def)

lemma writes_pack_p5_header [writes_intro]:
  "writes (pack_p5_header h) (enc_p5_header (h\<lparr>p5_message_length := 0\<rparr>))"
  unfolding pack_p5_header_def [abs_def]
  by (rule writes_cong, (rule writes_intro)+) (simp add: enc_p5_header_def)

lemma reads_unpack_p5_header [reads_intro]: "reads unpack_p5_header h (enc_p5_header h)"
  unfolding unpack_p5_header_def [abs_def] enc_p5_header_def
  by (rule reads_cong, (rule reads_intro)+) (auto intro: p5_header.equality)

interpretation p5hdr: codec pack_p5_header unpack_p5_header enc_p5_header "\<lambda>h. p5_message_length h = 0"
proof
  fix h :: p5_header assume "p5_message_length h = 0"
  then have "h\<lparr>p5_message_length := 0\<rparr> = h" by (auto intro: p5_header.equality)
  then show "writes (pack_p5_header h) (enc_p5_header h)" using writes_pack_p5_header [of h] by simp
qed (rule reads_intro)

lemma p5_frame_pack_writes:
  assumes body: "writes body bs" and room: "8 + length bs \<le> length buf" "8 + length bs \<le> 0xFFFF"
  shows "p5_frame_pack len body h buf =
    Some ((enc_p5_header (h\<lparr>p5_message_length := of_nat (len (8 + length bs))\<rparr>) @ bs) @ drop (8 + length bs) buf, 8 + length bs)"
proof -
  let ?w = "\<lparr>wb_mem = buf, wb_pos = 0, wb_end = length buf\<rparr>"
  let ?l = "of_nat (len (8 + length bs)) :: u16"
  let ?hz = "h\<lparr>p5_message_length := 0\<rparr>"
  let ?hd = "be16 (p5_phy_id h) @ be16 (p5_message_id h)" and ?tl = "be16 (p5_spare h)"
  have ok: "wbuf_ok ?w" "wb_room ?w = length buf" by (simp_all add: wbuf_ok_def wb_room_def)
  have w1: "pack_p5_header h ?w = Some (wb_write (enc_p5_header ?hz) ?w)"
    using room ok by (simp add: writesD [OF writes_pack_p5_header])
  have ok1: "wbuf_ok (wb_write (enc_p5_header ?hz) ?w)" using room ok by (simp add: wbuf_ok_write)
  have w2: "body (wb_write (enc_p5_header ?hz) ?w) = Some (wb_write (enc_p5_header ?hz @ bs) ?w)"
    using room ok by (simp add: writesD [OF body ok1] wb_room_write wb_write_write)
  let ?w2 = "wb_write (enc_p5_header ?hz @ bs) ?w"
  have w3: "push16 ?l (?w2\<lparr>wb_pos := 4\<rparr>) = Some (wb_write (be16 ?l) (?w2\<lparr>wb_pos := 4\<rparr>))"
    using room by (subst writesD [OF writes_push16]) (auto simp: wbuf_ok_def wb_room_def wb_write_def)
  have mem: "wb_mem ?w2 = ?hd @ be16 0 @ ?tl @ bs @ drop (8 + length bs) buf"
    by (simp add: wb_write_def upd_at_def enc_p5_header_def eval_nat_numeral)
  have "wb_mem (wb_write (be16 ?l) (?w2\<lparr>wb_pos := 4\<rparr>)) = ?hd @ be16 ?l @ ?tl @ bs @ drop (8 + length bs) buf"
    unfolding wb_write_sel(3) by (simp add: mem upd_at_def)
  then have m: "wb_mem (wb_write (be16 ?l) (?w2\<lparr>wb_pos := 4\<rparr>)) =
      (enc_p5_header (h\<lparr>p5_message_length := ?l\<rparr>) @ bs) @ drop (8 + length bs) buf"
    by (simp add: enc_p5_header_def)
  have p: "wb_pos ?w2 = 8 + length bs" by (simp add: wb_write_sel)
  have "\<not> (0xFFFF < 8 + length bs \<or> length buf < 8 + length bs)" using room by simp
  then show ?thesis
    unfolding p5_frame_pack_def w1 option.case w2 p w3 option.map m by (simp only: if_False)
qed

lemma p5_frame_pack_fails:
  assumes body: "writes body bs" and room: "length buf < 8 + length bs \<or> 0xFFFF < 8 + length bs"
  shows "p5_frame_pack len body h buf = None"
proof (cases "8 \<le> length buf")
  case True
  let ?w = "\<lparr>wb_mem = buf, wb_pos = 0, wb_end = length buf\<rparr>" and ?hz = "h\<lparr>p5_message_length := 0\<rparr>"
  have ok: "wbuf_ok ?w" "wb_room ?w = length buf" by (simp_all add: wbuf_ok_def wb_room_def)
  have w1: "pack_p5_header h ?w = Some (wb_write (enc_p5_header ?hz) ?w)"
    using True ok by (simp add: writesD [OF writes_pack_p5_header])
  have ok1: "wbuf_ok (wb_write (enc_p5_header ?hz) ?w)" using True ok by (simp add: wbuf_ok_write)
  show ?thesis
    using room True ok unfolding p5_frame_pack_def w1 by (auto simp: writesD [OF body ok1] wb_room_write wb_write_sel)
next
  case False
  let ?w = "\<lparr>wb_mem = buf, wb_pos = 0, wb_end = length buf\<rparr>"
  have "wbuf_ok ?w" "wb_room ?w = length buf" by (simp_all add: wbuf_ok_def wb_room_def)
  then show ?thesis using False by (simp add: p5_frame_pack_def writesD [OF writes_pack_p5_header])
qed

lemma p5_header_unpack_enc: "nfapi_p5_message_header_unpack (enc_p5_header h @ rest) = Some h"
  using readsD [OF reads_unpack_p5_header, of "rb_of (enc_p5_header h @ rest)" h rest]
  by (simp add: nfapi_p5_message_header_unpack_def NFAPI_HEADER_LENGTH_def)

lemma p5_frame_unpack_enc:
  "p5_frame_unpack body (enc_p5_header h @ rest) =
     map_option (\<lambda>b. (h, b (rb_adv 8 (rb_of (enc_p5_header h @ rest))))) (body (p5_message_id h))"
  using readsD [OF reads_unpack_p5_header, of "rb_of (enc_p5_header h @ rest)" h rest]
  by (simp add: p5_frame_unpack_def NFAPI_HEADER_LENGTH_def)

lemma p5_frame_unpack_header:
  "p5_frame_unpack body msg = Some (h, b) \<Longrightarrow> nfapi_p5_message_header_unpack msg = Some h"
  by (auto simp: p5_frame_unpack_def nfapi_p5_message_header_unpack_def split: if_splits option.splits)

lemma read_into_whole: "length wire = n \<Longrightarrow> read_into junk n wire = wire"
  by (simp add: read_into_def)

lemma p5_read_enc:
  "p5_read msg_size junk (enc_p5_header h @ bs) =
     (let n = msg_size (p5_message_length h) in if n < 8 + length bs then None else Some (read_into junk n (enc_p5_header h @ bs)))"
proof -
  have "read_into junk NFAPI_HEADER_LENGTH (enc_p5_header h @ bs) = enc_p5_header h"
    by (simp add: read_into_def NFAPI_HEADER_LENGTH_def)
  then show ?thesis using p5_header_unpack_enc [of h "[]"] by (simp add: p5_read_def)
qed

lemma p5_read_exact:
  "msg_size (p5_message_length h) = 8 + length bs \<Longrightarrow> p5_read msg_size junk (enc_p5_header h @ bs) = Some (enc_p5_header h @ bs)"
  by (simp add: p5_read_enc read_into_whole)

lemma p5_read_short:
  "msg_size (p5_message_length h) < 8 + length bs \<Longrightarrow> p5_read msg_size junk (enc_p5_header h @ bs) = None"
  by (simp add: p5_read_enc Let_def)

lemma p5_read_long:
  "msg_size (p5_message_length h) = 8 + length bs + k \<Longrightarrow> p5_read msg_size junk (enc_p5_header h @ bs) =
     Some ((enc_p5_header h @ bs) @ map junk [8 + length bs ..< 8 + length bs + k])"
  by (simp add: p5_read_enc read_into_def)

text \<open>
  C23. Transport of a P5 message: on each radio the receiver gets exactly the bytes that were packed, the header with the length
  filled in, then the body.  The two radios cannot be mixed: an LTE receiver takes the connection
  for lost when it gets an NR message, and an NR receiver reads eight bytes of stale memory behind an LTE message.
\<close>

theorem p5_frame_transport:
  assumes body: "pk (p5_message_id h) = Some body" "writes body bs" and room: "8 + length bs \<le> length buf" "8 + length bs \<le> 0xFFFF"
  defines "n \<equiv> 8 + length bs"
  shows "\<exists>lte nr. nfapi_p5_message_pack pk h buf = Some (lte @ drop n buf, n) \<and>
    nfapi_nr_p5_message_pack pk h buf = Some (nr @ drop n buf, n) \<and>
    p5_read lte_size junk lte = Some lte \<and> p5_read nr_size junk nr = Some nr \<and>
    nfapi_p5_message_header_unpack lte = Some (h\<lparr>p5_message_length := of_nat n\<rparr>) \<and> drop 8 lte = bs \<and>
    nfapi_p5_message_header_unpack nr = Some (h\<lparr>p5_message_length := of_nat (n - 8)\<rparr>) \<and> drop 8 nr = bs \<and>
    p5_read lte_size junk nr = None \<and> p5_read nr_size junk lte = Some (lte @ map junk [n ..< n + 8])"
proof -
  let ?lte = "enc_p5_header (h\<lparr>p5_message_length := of_nat n\<rparr>) @ bs"
  let ?nr = "enc_p5_header (h\<lparr>p5_message_length := of_nat (n - 8)\<rparr>) @ bs"
  have u: "unat (of_nat n :: u16) = n" "unat (of_nat (n - 8) :: u16) = n - 8" "n - 8 = length bs"
  proof -
    have "n < 2 ^ 16" "n - 8 < 2 ^ 16" using room by (simp_all add: n_def)
    then show "unat (of_nat n :: u16) = n" "unat (of_nat (n - 8) :: u16) = n - 8"
      by (simp_all only: unsigned_of_nat) (simp_all add: take_bit_nat_eq_self)
  qed (simp add: n_def)
  have lte: "nfapi_p5_message_pack pk h buf = Some (?lte @ drop n buf, n)"
    using p5_frame_pack_writes [OF body(2) room] by (simp add: nfapi_p5_message_pack_def body n_def)
  have nr: "nfapi_nr_p5_message_pack pk h buf = Some (?nr @ drop n buf, n)"
    using p5_frame_pack_writes [OF body(2) room] by (simp add: nfapi_nr_p5_message_pack_def body n_def NFAPI_HEADER_LENGTH_def)
  have size: "lte_size (of_nat n) = 8 + length bs" "nr_size (of_nat (n - 8)) = 8 + length bs"
      "lte_size (of_nat (n - 8)) < 8 + length bs" "nr_size (of_nat n) = 8 + length bs + 8"
    unfolding lte_size_def nr_size_def NFAPI_HEADER_LENGTH_def u(1,2) by (simp_all add: n_def)
  have "p5_read lte_size junk ?lte = Some ?lte" "p5_read nr_size junk ?nr = Some ?nr" "p5_read lte_size junk ?nr = None"
    by (intro p5_read_exact p5_read_short; simp add: size)+
  moreover have "p5_read nr_size junk ?lte = Some (?lte @ map junk [n ..< n + 8])"
    using p5_read_long [of nr_size "h\<lparr>p5_message_length := of_nat n\<rparr>" bs 8] size(4) unfolding n_def by simp
  ultimately show ?thesis
    using lte nr p5_header_unpack_enc [of _ bs] by (intro exI [of _ ?lte] exI [of _ ?nr]) simp
qed

theorem p5_frame_transport_witness:
  "\<exists>lte nr. nfapi_p5_message_pack (\<lambda>mid. Some (push32 7)) \<lparr>p5_phy_id = 1, p5_message_id = 0x10B, p5_message_length = 0, p5_spare = 0\<rparr> (replicate 12 0)
      = Some (lte @ drop (8 + length (be32 7)) (replicate 12 0), 8 + length (be32 7)) \<and> length lte = 12 \<and>
    p5_read lte_size (\<lambda>i. 0) lte = Some lte \<and> p5_read lte_size (\<lambda>i. 0) nr = None"
proof -
  have r: "8 + length (be32 7) \<le> length (replicate 12 (0 :: u8))" "8 + length (be32 7) \<le> 0xFFFF" by simp_all
  from p5_frame_transport [where pk = "\<lambda>mid. Some (push32 7)" and h = "\<lparr>p5_phy_id = 1, p5_message_id = 0x10B, p5_message_length = 0, p5_spare = 0\<rparr>"
      and junk = "\<lambda>i. 0", OF refl writes_push32 r]
  obtain lte nr where "nfapi_p5_message_pack (\<lambda>mid. Some (push32 7)) \<lparr>p5_phy_id = 1, p5_message_id = 0x10B, p5_message_length = 0, p5_spare = 0\<rparr> (replicate 12 0)
      = Some (lte @ drop (8 + length (be32 7)) (replicate 12 0), 8 + length (be32 7))"
    "p5_read lte_size (\<lambda>i. 0) lte = Some lte" "p5_read lte_size (\<lambda>i. 0) nr = None" "drop 8 lte = be32 7" by blast
  moreover from this(4) have "length (drop 8 lte) = 4" by simp
  then have "length lte = 12" by simp
  ultimately show ?thesis by blast
qed

end
