(* ===== verification/Pnf_P5.thy ===== *)
theory Pnf_P5
  imports P5_Header
begin

text \<open>
  The configuration side of the PNF, \<^verbatim>\<open>pnf.c\<close> and \<^verbatim>\<open>pnf_interface.c\<close>: the state of the PNF
  and of its PHYs, one handler per P5 and P4 request, the functions by which the client
  answers, and the two dispatchers.

  The client is a record of callbacks (\<open>None\<close> is a callback that is not set); a callback is
  a function on the state that may answer any number of times.  \<open>'u\<close> is the client's own
  state, \<open>'b\<close> what a message contains besides its header and the PHY list of
  PNF_CONFIG.request, \<open>'e\<close> what the client does besides answering.
  Sending succeeds when the message can be packed.  Vendor extension TLVs are left out.
\<close>

section \<open>State\<close>

datatype p5_state = PNF_IDLE | PNF_CONFIGURED | PNF_RUNNING

datatype phy_state = PHY_IDLE | PHY_CONFIGURED | PHY_RUNNING

record phy_config =
  pc_phy_id :: u16
  pc_state :: phy_state

record 'u pnf =
  pnf_p5_state :: p5_state
  phys :: "phy_config list"
  user :: 'u

text \<open>\<open>rf_config\<close> holds the PHY ids of the TLV \<^verbatim>\<open>pnf_phy_rf_config\<close>, \<open>None\<close> if it is absent.\<close>

record 'b p5_body =
  rf_config :: "u16 list option"
  contents :: 'b

type_synonym 'b p5_msg = "p5_header \<times> 'b p5_body"

datatype 'e p5_event = Sent u16 u16 u32 | Client 'e

definition NFAPI_MSG_OK :: u32 where "NFAPI_MSG_OK = 0"
definition NFAPI_MSG_INVALID_STATE :: u32 where "NFAPI_MSG_INVALID_STATE = 1"
definition NFAPI_MSG_INVALID_CONFIG :: u32 where "NFAPI_MSG_INVALID_CONFIG = 2"
definition NFAPI_NR_START_MSG_INVALID_STATE :: u32 where "NFAPI_NR_START_MSG_INVALID_STATE = 1"

type_synonym ('u, 'e) p5_result = "'u pnf \<times> 'e p5_event list"
type_synonym ('u, 'b, 'e) pnf_callback = "'b p5_msg \<Rightarrow> 'u pnf \<Rightarrow> ('u, 'e) p5_result"
type_synonym ('u, 'b, 'e) phy_callback = "phy_config \<Rightarrow> 'b p5_msg \<Rightarrow> 'u pnf \<Rightarrow> ('u, 'e) p5_result"

record ('u, 'b, 'e) p5_client =
  pnf_param_req :: "('u, 'b, 'e) pnf_callback option"
  pnf_config_req :: "('u, 'b, 'e) pnf_callback option"
  pnf_start_req :: "('u, 'b, 'e) pnf_callback option"
  pnf_stop_req :: "('u, 'b, 'e) pnf_callback option"
  param_req :: "('u, 'b, 'e) phy_callback option"
  config_req :: "('u, 'b, 'e) phy_callback option"
  start_req :: "('u, 'b, 'e) phy_callback option"
  stop_req :: "('u, 'b, 'e) phy_callback option"
  measurement_req :: "('u, 'b, 'e) phy_callback option"
  rssi_req :: "('u, 'b, 'e) phy_callback option"
  cell_search_req :: "('u, 'b, 'e) phy_callback option"
  broadcast_detect_req :: "('u, 'b, 'e) phy_callback option"
  system_information_schedule_req :: "('u, 'b, 'e) phy_callback option"
  system_information_req :: "('u, 'b, 'e) phy_callback option"
  nmm_stop_req :: "('u, 'b, 'e) phy_callback option"
  pnf_nr_param_req :: "('u, 'b, 'e) pnf_callback option"
  pnf_nr_config_req :: "('u, 'b, 'e) pnf_callback option"
  pnf_nr_start_req :: "('u, 'b, 'e) pnf_callback option"
  nr_param_req :: "('u, 'b, 'e) phy_callback option"
  nr_config_req :: "('u, 'b, 'e) phy_callback option"
  nr_start_req :: "('u, 'b, 'e) phy_callback option"
  nr_stop_req :: "('u, 'b, 'e) phy_callback option"
  allocate_p4_p5_vendor_ext :: "(u16 \<Rightarrow> bool) option"
  vendor_ext :: "('u, 'b, 'e) pnf_callback option"

section \<open>The list of PHYs\<close>

definition nfapi_pnf_phy_config_delete_all :: "'u pnf \<Rightarrow> 'u pnf" where
  "nfapi_pnf_phy_config_delete_all p = p\<lparr>phys := []\<rparr>"

definition nfapi_pnf_phy_config_add :: "phy_config \<Rightarrow> 'u pnf \<Rightarrow> 'u pnf" where
  "nfapi_pnf_phy_config_add phy p = p\<lparr>phys := phy # phys p\<rparr>"

fun find_phy :: "u16 \<Rightarrow> phy_config list \<Rightarrow> phy_config option" where
  "find_phy i [] = None"
| "find_phy i (c # cs) = (if pc_phy_id c = i then Some c else find_phy i cs)"

definition nfapi_pnf_phy_config_find :: "'u pnf \<Rightarrow> u16 \<Rightarrow> phy_config option" where
  "nfapi_pnf_phy_config_find p i = find_phy i (phys p)"

text \<open>The state of a PHY is set through the pointer that was found.\<close>

fun set_phy_state :: "u16 \<Rightarrow> phy_state \<Rightarrow> phy_config list \<Rightarrow> phy_config list" where
  "set_phy_state i s [] = []"
| "set_phy_state i s (c # cs) = (if pc_phy_id c = i then c\<lparr>pc_state := s\<rparr> # cs else c # set_phy_state i s cs)"

section \<open>Sending\<close>

definition pnf_pack_and_send_p5_message :: "u16 \<Rightarrow> u16 \<Rightarrow> u32 \<Rightarrow> 'u pnf \<Rightarrow> ('u, 'e) p5_result" where
  "pnf_pack_and_send_p5_message mid phy err p = (p, if p5_packs mid then [Sent mid phy err] else [])"

definition pnf_nr_pack_and_send_p5_message :: "u16 \<Rightarrow> u16 \<Rightarrow> u32 \<Rightarrow> 'u pnf \<Rightarrow> ('u, 'e) p5_result" where
  "pnf_nr_pack_and_send_p5_message mid phy err p = (p, if nr_p5_packs mid then [Sent mid phy err] else [])"

definition pnf_pack_and_send_p4_message :: "u16 \<Rightarrow> u16 \<Rightarrow> u32 \<Rightarrow> 'u pnf \<Rightarrow> ('u, 'e) p5_result" where
  "pnf_pack_and_send_p4_message mid phy err p = (p, [Sent mid phy err])"

section \<open>The answers\<close>

text \<open>The arguments are the message id, the PHY id and the error code that the client has filled in.\<close>

definition nfapi_pnf_pnf_param_resp :: "u16 \<Rightarrow> u16 \<Rightarrow> u32 \<Rightarrow> 'u pnf \<Rightarrow> ('u, 'e) p5_result" where
  "nfapi_pnf_pnf_param_resp mid phy err p = pnf_pack_and_send_p5_message mid phy err p"

definition nfapi_nr_pnf_pnf_param_resp :: "u16 \<Rightarrow> u16 \<Rightarrow> u32 \<Rightarrow> 'u pnf \<Rightarrow> ('u, 'e) p5_result" where
  "nfapi_nr_pnf_pnf_param_resp mid phy err p = pnf_nr_pack_and_send_p5_message mid phy err p"

definition nfapi_pnf_pnf_config_resp :: "u16 \<Rightarrow> u16 \<Rightarrow> u32 \<Rightarrow> 'u pnf \<Rightarrow> ('u, 'e) p5_result" where
  "nfapi_pnf_pnf_config_resp mid phy err p =
     pnf_pack_and_send_p5_message mid phy err (if err = NFAPI_MSG_OK then p\<lparr>pnf_p5_state := PNF_CONFIGURED\<rparr> else p)"

definition nfapi_nr_pnf_pnf_config_resp :: "u16 \<Rightarrow> u16 \<Rightarrow> u32 \<Rightarrow> 'u pnf \<Rightarrow> ('u, 'e) p5_result" where
  "nfapi_nr_pnf_pnf_config_resp mid phy err p =
     pnf_nr_pack_and_send_p5_message mid phy err (if err = NFAPI_MSG_OK then p\<lparr>pnf_p5_state := PNF_CONFIGURED\<rparr> else p)"

definition nfapi_pnf_pnf_start_resp :: "u16 \<Rightarrow> u16 \<Rightarrow> u32 \<Rightarrow> 'u pnf \<Rightarrow> ('u, 'e) p5_result" where
  "nfapi_pnf_pnf_start_resp mid phy err p =
     pnf_pack_and_send_p5_message mid phy err (if err = NFAPI_MSG_OK then p\<lparr>pnf_p5_state := PNF_RUNNING\<rparr> else p)"

definition nfapi_nr_pnf_pnf_start_resp :: "u16 \<Rightarrow> u16 \<Rightarrow> u32 \<Rightarrow> 'u pnf \<Rightarrow> ('u, 'e) p5_result" where
  "nfapi_nr_pnf_pnf_start_resp mid phy err p =
     pnf_nr_pack_and_send_p5_message mid phy err (if err = NFAPI_MSG_OK then p\<lparr>pnf_p5_state := PNF_RUNNING\<rparr> else p)"

definition nfapi_pnf_pnf_stop_resp :: "u16 \<Rightarrow> u16 \<Rightarrow> u32 \<Rightarrow> 'u pnf \<Rightarrow> ('u, 'e) p5_result" where
  "nfapi_pnf_pnf_stop_resp mid phy err p =
     pnf_pack_and_send_p5_message mid phy err (if err = NFAPI_MSG_OK then p\<lparr>pnf_p5_state := PNF_CONFIGURED\<rparr> else p)"

definition nfapi_pnf_param_resp :: "u16 \<Rightarrow> u16 \<Rightarrow> u32 \<Rightarrow> 'u pnf \<Rightarrow> ('u, 'e) p5_result" where
  "nfapi_pnf_param_resp mid phy err p = pnf_pack_and_send_p5_message mid phy err p"

definition nfapi_nr_pnf_param_resp :: "u16 \<Rightarrow> u16 \<Rightarrow> u32 \<Rightarrow> 'u pnf \<Rightarrow> ('u, 'e) p5_result" where
  "nfapi_nr_pnf_param_resp mid phy err p = pnf_nr_pack_and_send_p5_message mid phy err p"

definition nfapi_pnf_config_resp :: "u16 \<Rightarrow> u16 \<Rightarrow> u32 \<Rightarrow> 'u pnf \<Rightarrow> ('u, 'e) p5_result" where
  "nfapi_pnf_config_resp mid phy err p =
     (case nfapi_pnf_phy_config_find p phy of None \<Rightarrow> (p, [])
      | Some c \<Rightarrow> pnf_pack_and_send_p5_message mid phy err
          (if err = NFAPI_MSG_OK then p\<lparr>phys := set_phy_state phy PHY_CONFIGURED (phys p)\<rparr> else p))"

definition nfapi_nr_pnf_config_resp :: "u16 \<Rightarrow> u16 \<Rightarrow> u32 \<Rightarrow> 'u pnf \<Rightarrow> ('u, 'e) p5_result" where
  "nfapi_nr_pnf_config_resp mid phy err p =
     (case nfapi_pnf_phy_config_find p phy of None \<Rightarrow> (p, [])
      | Some c \<Rightarrow> pnf_nr_pack_and_send_p5_message mid phy err
          (if err = NFAPI_MSG_OK then p\<lparr>phys := set_phy_state phy PHY_CONFIGURED (phys p)\<rparr> else p))"

definition nfapi_pnf_start_resp :: "u16 \<Rightarrow> u16 \<Rightarrow> u32 \<Rightarrow> 'u pnf \<Rightarrow> ('u, 'e) p5_result" where
  "nfapi_pnf_start_resp mid phy err p =
     (case nfapi_pnf_phy_config_find p phy of None \<Rightarrow> (p, [])
      | Some c \<Rightarrow> pnf_pack_and_send_p5_message mid phy err
          (if err = NFAPI_MSG_OK then p\<lparr>phys := set_phy_state phy PHY_RUNNING (phys p)\<rparr> else p))"

definition nfapi_nr_pnf_start_resp :: "u16 \<Rightarrow> u16 \<Rightarrow> u32 \<Rightarrow> 'u pnf \<Rightarrow> ('u, 'e) p5_result" where
  "nfapi_nr_pnf_start_resp mid phy err p =
     (case nfapi_pnf_phy_config_find p phy of None \<Rightarrow> (p, [])
      | Some c \<Rightarrow> pnf_nr_pack_and_send_p5_message mid phy err
          (if err = NFAPI_MSG_OK then p\<lparr>phys := set_phy_state phy PHY_RUNNING (phys p)\<rparr> else p))"

definition nfapi_pnf_stop_resp :: "u16 \<Rightarrow> u16 \<Rightarrow> u32 \<Rightarrow> 'u pnf \<Rightarrow> ('u, 'e) p5_result" where
  "nfapi_pnf_stop_resp mid phy err p =
     (case nfapi_pnf_phy_config_find p phy of None \<Rightarrow> (p, [])
      | Some c \<Rightarrow> pnf_pack_and_send_p5_message mid phy err
          (if err = NFAPI_MSG_OK then p\<lparr>phys := set_phy_state phy PHY_CONFIGURED (phys p)\<rparr> else p))"

definition nfapi_pnf_measurement_resp :: "u16 \<Rightarrow> u16 \<Rightarrow> u32 \<Rightarrow> 'u pnf \<Rightarrow> ('u, 'e) p5_result" where
  "nfapi_pnf_measurement_resp mid phy err p = pnf_pack_and_send_p5_message mid phy err p"

definition nfapi_pnf_rssi_resp :: "u16 \<Rightarrow> u16 \<Rightarrow> u32 \<Rightarrow> 'u pnf \<Rightarrow> ('u, 'e) p5_result" where
  "nfapi_pnf_rssi_resp mid phy err p = pnf_pack_and_send_p4_message mid phy err p"

definition nfapi_pnf_rssi_ind :: "u16 \<Rightarrow> u16 \<Rightarrow> u32 \<Rightarrow> 'u pnf \<Rightarrow> ('u, 'e) p5_result" where
  "nfapi_pnf_rssi_ind mid phy err p = pnf_pack_and_send_p4_message mid phy err p"

definition nfapi_pnf_cell_search_resp :: "u16 \<Rightarrow> u16 \<Rightarrow> u32 \<Rightarrow> 'u pnf \<Rightarrow> ('u, 'e) p5_result" where
  "nfapi_pnf_cell_search_resp mid phy err p = pnf_pack_and_send_p4_message mid phy err p"

definition nfapi_pnf_cell_search_ind :: "u16 \<Rightarrow> u16 \<Rightarrow> u32 \<Rightarrow> 'u pnf \<Rightarrow> ('u, 'e) p5_result" where
  "nfapi_pnf_cell_search_ind mid phy err p = pnf_pack_and_send_p4_message mid phy err p"

definition nfapi_pnf_broadcast_detect_resp :: "u16 \<Rightarrow> u16 \<Rightarrow> u32 \<Rightarrow> 'u pnf \<Rightarrow> ('u, 'e) p5_result" where
  "nfapi_pnf_broadcast_detect_resp mid phy err p = pnf_pack_and_send_p4_message mid phy err p"

definition nfapi_pnf_broadcast_detect_ind :: "u16 \<Rightarrow> u16 \<Rightarrow> u32 \<Rightarrow> 'u pnf \<Rightarrow> ('u, 'e) p5_result" where
  "nfapi_pnf_broadcast_detect_ind mid phy err p = pnf_pack_and_send_p4_message mid phy err p"

definition nfapi_pnf_system_information_schedule_resp :: "u16 \<Rightarrow> u16 \<Rightarrow> u32 \<Rightarrow> 'u pnf \<Rightarrow> ('u, 'e) p5_result" where
  "nfapi_pnf_system_information_schedule_resp mid phy err p = pnf_pack_and_send_p4_message mid phy err p"

definition nfapi_pnf_system_information_schedule_ind :: "u16 \<Rightarrow> u16 \<Rightarrow> u32 \<Rightarrow> 'u pnf \<Rightarrow> ('u, 'e) p5_result" where
  "nfapi_pnf_system_information_schedule_ind mid phy err p = pnf_pack_and_send_p4_message mid phy err p"

definition nfapi_pnf_system_information_resp :: "u16 \<Rightarrow> u16 \<Rightarrow> u32 \<Rightarrow> 'u pnf \<Rightarrow> ('u, 'e) p5_result" where
  "nfapi_pnf_system_information_resp mid phy err p = pnf_pack_and_send_p4_message mid phy err p"

definition nfapi_pnf_system_information_ind :: "u16 \<Rightarrow> u16 \<Rightarrow> u32 \<Rightarrow> 'u pnf \<Rightarrow> ('u, 'e) p5_result" where
  "nfapi_pnf_system_information_ind mid phy err p = pnf_pack_and_send_p4_message mid phy err p"

definition nfapi_pnf_nmm_stop_resp :: "u16 \<Rightarrow> u16 \<Rightarrow> u32 \<Rightarrow> 'u pnf \<Rightarrow> ('u, 'e) p5_result" where
  "nfapi_pnf_nmm_stop_resp mid phy err p = pnf_pack_and_send_p4_message mid phy err p"

definition nfapi_pnf_vendor_extension :: "u16 \<Rightarrow> u16 \<Rightarrow> u32 \<Rightarrow> 'u pnf \<Rightarrow> ('u, 'e) p5_result" where
  "nfapi_pnf_vendor_extension mid phy err p = pnf_pack_and_send_p5_message mid phy err p"

section \<open>The handlers\<close>

text \<open>
  The argument is the unpacked message; its last component, whether the whole body could be
  decoded, is not looked at: the handlers test for a negative result only.
\<close>

type_synonym 'b unpacked = "(p5_header \<times> 'b p5_body \<times> bool) option"

definition call_client :: "('u, 'b, 'e) pnf_callback option \<Rightarrow> ('u, 'b, 'e) pnf_callback" where
  "call_client cb m p = (case cb of None \<Rightarrow> (p, []) | Some f \<Rightarrow> f m p)"

text \<open>What the handlers of the requests to the PNF and to a PHY have in common.\<close>

definition pnf_request :: "(p5_state \<Rightarrow> bool) \<Rightarrow> ('u, 'b, 'e) pnf_callback \<Rightarrow> ('u pnf \<Rightarrow> ('u, 'e) p5_result)
  \<Rightarrow> 'b unpacked \<Rightarrow> 'u pnf \<Rightarrow> ('u, 'e) p5_result" where
  "pnf_request guard accept refuse msg p =
     (case msg of None \<Rightarrow> (p, [])
      | Some (h, b, ok) \<Rightarrow> if guard (pnf_p5_state p) then accept (h, b) p else refuse p)"

definition phy_request :: "(phy_state \<Rightarrow> bool) \<Rightarrow> ('u, 'b, 'e) phy_callback option
  \<Rightarrow> (u16 \<Rightarrow> u16 \<Rightarrow> u32 \<Rightarrow> 'u pnf \<Rightarrow> ('u, 'e) p5_result) \<Rightarrow> u16 \<Rightarrow> u32 \<Rightarrow> u32
  \<Rightarrow> 'b unpacked \<Rightarrow> 'u pnf \<Rightarrow> ('u, 'e) p5_result" where
  "phy_request guard cb resp mid bad_state bad_phy msg p =
     (case msg of None \<Rightarrow> (p, [])
      | Some (h, b, ok) \<Rightarrow>
          if pnf_p5_state p = PNF_RUNNING
          then (case nfapi_pnf_phy_config_find p (p5_phy_id h) of
                  Some c \<Rightarrow> if guard (pc_state c) then (case cb of None \<Rightarrow> (p, []) | Some f \<Rightarrow> f c (h, b) p)
                            else resp mid (p5_phy_id h) bad_state p
                | None \<Rightarrow> resp mid (p5_phy_id h) bad_phy p)
          else resp mid (p5_phy_id h) bad_state p)"

text \<open>PNF_CONFIG.request replaces the list of PHYs before the client is asked.\<close>

definition create_phys :: "'b p5_msg \<Rightarrow> 'u pnf \<Rightarrow> 'u pnf" where
  "create_phys m p =
     (let p' = nfapi_pnf_phy_config_delete_all p in
      case rf_config (snd m) of None \<Rightarrow> p'
      | Some ids \<Rightarrow> foldl (\<lambda>q i. nfapi_pnf_phy_config_add \<lparr>pc_phy_id = i, pc_state = PHY_IDLE\<rparr> q) p' ids)"

definition pnf_handle_pnf_param_request :: "('u, 'b, 'e) p5_client \<Rightarrow> 'b unpacked \<Rightarrow> 'u pnf \<Rightarrow> ('u, 'e) p5_result" where
  "pnf_handle_pnf_param_request cl = pnf_request (\<lambda>s. s = PNF_IDLE) (call_client (pnf_param_req cl))
     (nfapi_pnf_pnf_param_resp NFAPI_PNF_PARAM_RESPONSE 0 NFAPI_MSG_INVALID_STATE)"

definition pnf_nr_handle_pnf_param_request :: "('u, 'b, 'e) p5_client \<Rightarrow> 'b unpacked \<Rightarrow> 'u pnf \<Rightarrow> ('u, 'e) p5_result" where
  "pnf_nr_handle_pnf_param_request cl = pnf_request (\<lambda>s. s = PNF_IDLE) (call_client (pnf_nr_param_req cl))
     (nfapi_nr_pnf_pnf_param_resp NFAPI_NR_PHY_MSG_TYPE_PNF_PARAM_RESPONSE 0 NFAPI_MSG_INVALID_STATE)"

definition pnf_handle_pnf_config_request :: "('u, 'b, 'e) p5_client \<Rightarrow> 'b unpacked \<Rightarrow> 'u pnf \<Rightarrow> ('u, 'e) p5_result" where
  "pnf_handle_pnf_config_request cl = pnf_request (\<lambda>s. s \<noteq> PNF_RUNNING) (\<lambda>m p. call_client (pnf_config_req cl) m (create_phys m p))
     (nfapi_pnf_pnf_config_resp NFAPI_PNF_CONFIG_RESPONSE 0 NFAPI_MSG_INVALID_STATE)"

definition pnf_nr_handle_pnf_config_request :: "('u, 'b, 'e) p5_client \<Rightarrow> 'b unpacked \<Rightarrow> 'u pnf \<Rightarrow> ('u, 'e) p5_result" where
  "pnf_nr_handle_pnf_config_request cl = pnf_request (\<lambda>s. s \<noteq> PNF_RUNNING) (\<lambda>m p. call_client (pnf_nr_config_req cl) m (create_phys m p))
     (nfapi_nr_pnf_pnf_config_resp NFAPI_PNF_CONFIG_RESPONSE 0 NFAPI_MSG_INVALID_STATE)"

definition pnf_handle_pnf_start_request :: "('u, 'b, 'e) p5_client \<Rightarrow> 'b unpacked \<Rightarrow> 'u pnf \<Rightarrow> ('u, 'e) p5_result" where
  "pnf_handle_pnf_start_request cl = pnf_request (\<lambda>s. s = PNF_CONFIGURED) (call_client (pnf_start_req cl))
     (nfapi_pnf_pnf_start_resp NFAPI_PNF_START_RESPONSE 0 NFAPI_MSG_INVALID_STATE)"

definition pnf_nr_handle_pnf_start_request :: "('u, 'b, 'e) p5_client \<Rightarrow> 'b unpacked \<Rightarrow> 'u pnf \<Rightarrow> ('u, 'e) p5_result" where
  "pnf_nr_handle_pnf_start_request cl = pnf_request (\<lambda>s. s = PNF_CONFIGURED) (call_client (pnf_nr_start_req cl))
     (nfapi_nr_pnf_pnf_start_resp NFAPI_PNF_START_RESPONSE 0 NFAPI_MSG_INVALID_STATE)"

definition pnf_handle_pnf_stop_request :: "('u, 'b, 'e) p5_client \<Rightarrow> 'b unpacked \<Rightarrow> 'u pnf \<Rightarrow> ('u, 'e) p5_result" where
  "pnf_handle_pnf_stop_request cl = pnf_request (\<lambda>s. s = PNF_RUNNING) (call_client (pnf_stop_req cl))
     (nfapi_pnf_pnf_stop_resp NFAPI_PNF_STOP_RESPONSE 0 NFAPI_MSG_INVALID_STATE)"

definition pnf_handle_param_request :: "('u, 'b, 'e) p5_client \<Rightarrow> 'b unpacked \<Rightarrow> 'u pnf \<Rightarrow> ('u, 'e) p5_result" where
  "pnf_handle_param_request cl = phy_request (\<lambda>s. s = PHY_IDLE) (param_req cl) nfapi_pnf_param_resp
     NFAPI_PARAM_RESPONSE NFAPI_MSG_INVALID_STATE NFAPI_MSG_INVALID_CONFIG"

definition pnf_nr_handle_param_request :: "('u, 'b, 'e) p5_client \<Rightarrow> 'b unpacked \<Rightarrow> 'u pnf \<Rightarrow> ('u, 'e) p5_result" where
  "pnf_nr_handle_param_request cl = phy_request (\<lambda>s. s = PHY_IDLE) (nr_param_req cl) nfapi_nr_pnf_param_resp
     NFAPI_NR_PHY_MSG_TYPE_PARAM_RESPONSE NFAPI_MSG_INVALID_STATE NFAPI_MSG_INVALID_CONFIG"

definition pnf_handle_config_request :: "('u, 'b, 'e) p5_client \<Rightarrow> 'b unpacked \<Rightarrow> 'u pnf \<Rightarrow> ('u, 'e) p5_result" where
  "pnf_handle_config_request cl = phy_request (\<lambda>s. s \<noteq> PHY_RUNNING) (config_req cl) nfapi_pnf_config_resp
     NFAPI_CONFIG_RESPONSE NFAPI_MSG_INVALID_STATE NFAPI_MSG_INVALID_CONFIG"

text \<open>The NR handler refuses with the message id of LTE.\<close>

definition pnf_nr_handle_config_request :: "('u, 'b, 'e) p5_client \<Rightarrow> 'b unpacked \<Rightarrow> 'u pnf \<Rightarrow> ('u, 'e) p5_result" where
  "pnf_nr_handle_config_request cl = phy_request (\<lambda>s. s \<noteq> PHY_RUNNING) (nr_config_req cl) nfapi_nr_pnf_config_resp
     NFAPI_CONFIG_RESPONSE NFAPI_MSG_INVALID_STATE NFAPI_MSG_INVALID_CONFIG"

definition pnf_handle_start_request :: "('u, 'b, 'e) p5_client \<Rightarrow> 'b unpacked \<Rightarrow> 'u pnf \<Rightarrow> ('u, 'e) p5_result" where
  "pnf_handle_start_request cl = phy_request (\<lambda>s. s \<noteq> PHY_RUNNING) (start_req cl) nfapi_pnf_start_resp
     NFAPI_START_RESPONSE NFAPI_MSG_INVALID_STATE NFAPI_MSG_INVALID_CONFIG"

definition pnf_nr_handle_start_request :: "('u, 'b, 'e) p5_client \<Rightarrow> 'b unpacked \<Rightarrow> 'u pnf \<Rightarrow> ('u, 'e) p5_result" where
  "pnf_nr_handle_start_request cl = phy_request (\<lambda>s. s \<noteq> PHY_RUNNING) (nr_start_req cl) nfapi_nr_pnf_start_resp
     NFAPI_NR_PHY_MSG_TYPE_START_RESPONSE NFAPI_NR_START_MSG_INVALID_STATE NFAPI_NR_START_MSG_INVALID_STATE"

text \<open>The guard of STOP.request and NMM_STOP.request is that the PHY does not run.\<close>

definition pnf_handle_stop_request :: "('u, 'b, 'e) p5_client \<Rightarrow> 'b unpacked \<Rightarrow> 'u pnf \<Rightarrow> ('u, 'e) p5_result" where
  "pnf_handle_stop_request cl = phy_request (\<lambda>s. s \<noteq> PHY_RUNNING) (stop_req cl) nfapi_pnf_stop_resp
     NFAPI_STOP_RESPONSE NFAPI_MSG_INVALID_STATE NFAPI_MSG_INVALID_CONFIG"

definition pnf_nr_handle_stop_request :: "('u, 'b, 'e) p5_client \<Rightarrow> 'b unpacked \<Rightarrow> 'u pnf \<Rightarrow> ('u, 'e) p5_result" where
  "pnf_nr_handle_stop_request cl = phy_request (\<lambda>s. s \<noteq> PHY_RUNNING) (nr_stop_req cl) nfapi_pnf_stop_resp
     NFAPI_NR_PHY_MSG_TYPE_STOP_RESPONSE NFAPI_MSG_INVALID_STATE NFAPI_MSG_INVALID_CONFIG"

definition pnf_handle_measurement_request :: "('u, 'b, 'e) p5_client \<Rightarrow> 'b unpacked \<Rightarrow> 'u pnf \<Rightarrow> ('u, 'e) p5_result" where
  "pnf_handle_measurement_request cl = phy_request (\<lambda>s. s \<noteq> PHY_RUNNING) (measurement_req cl) nfapi_pnf_measurement_resp
     NFAPI_MEASUREMENT_RESPONSE NFAPI_MSG_INVALID_STATE NFAPI_MSG_INVALID_CONFIG"

definition pnf_handle_rssi_request :: "('u, 'b, 'e) p5_client \<Rightarrow> 'b unpacked \<Rightarrow> 'u pnf \<Rightarrow> ('u, 'e) p5_result" where
  "pnf_handle_rssi_request cl = phy_request (\<lambda>s. s = PHY_RUNNING) (rssi_req cl) nfapi_pnf_rssi_resp
     NFAPI_RSSI_RESPONSE NFAPI_MSG_INVALID_STATE NFAPI_MSG_INVALID_CONFIG"

definition pnf_handle_cell_search_request :: "('u, 'b, 'e) p5_client \<Rightarrow> 'b unpacked \<Rightarrow> 'u pnf \<Rightarrow> ('u, 'e) p5_result" where
  "pnf_handle_cell_search_request cl = phy_request (\<lambda>s. s = PHY_RUNNING) (cell_search_req cl) nfapi_pnf_cell_search_resp
     NFAPI_CELL_SEARCH_RESPONSE NFAPI_MSG_INVALID_STATE NFAPI_MSG_INVALID_CONFIG"

definition pnf_handle_broadcast_detect_request :: "('u, 'b, 'e) p5_client \<Rightarrow> 'b unpacked \<Rightarrow> 'u pnf \<Rightarrow> ('u, 'e) p5_result" where
  "pnf_handle_broadcast_detect_request cl = phy_request (\<lambda>s. s = PHY_RUNNING) (broadcast_detect_req cl) nfapi_pnf_broadcast_detect_resp
     NFAPI_BROADCAST_DETECT_RESPONSE NFAPI_MSG_INVALID_STATE NFAPI_MSG_INVALID_CONFIG"

definition pnf_handle_system_information_schedule_request :: "('u, 'b, 'e) p5_client \<Rightarrow> 'b unpacked \<Rightarrow> 'u pnf \<Rightarrow> ('u, 'e) p5_result" where
  "pnf_handle_system_information_schedule_request cl = phy_request (\<lambda>s. s = PHY_RUNNING) (system_information_schedule_req cl) nfapi_pnf_system_information_schedule_resp
     NFAPI_SYSTEM_INFORMATION_SCHEDULE_RESPONSE NFAPI_MSG_INVALID_STATE NFAPI_MSG_INVALID_CONFIG"

definition pnf_handle_system_information_request :: "('u, 'b, 'e) p5_client \<Rightarrow> 'b unpacked \<Rightarrow> 'u pnf \<Rightarrow> ('u, 'e) p5_result" where
  "pnf_handle_system_information_request cl = phy_request (\<lambda>s. s = PHY_RUNNING) (system_information_req cl) nfapi_pnf_system_information_resp
     NFAPI_SYSTEM_INFORMATION_RESPONSE NFAPI_MSG_INVALID_STATE NFAPI_MSG_INVALID_CONFIG"

definition pnf_handle_nmm_stop_request :: "('u, 'b, 'e) p5_client \<Rightarrow> 'b unpacked \<Rightarrow> 'u pnf \<Rightarrow> ('u, 'e) p5_result" where
  "pnf_handle_nmm_stop_request cl = phy_request (\<lambda>s. s \<noteq> PHY_RUNNING) (nmm_stop_req cl) nfapi_pnf_nmm_stop_resp
     NFAPI_NMM_STOP_RESPONSE NFAPI_MSG_INVALID_STATE NFAPI_MSG_INVALID_CONFIG"

text \<open>The function that unpacks a vendor extension message returns 0 when it succeeds.\<close>

definition pnf_handle_vendor_extension :: "('u, 'b, 'e) p5_client \<Rightarrow> u16 \<Rightarrow> 'b unpacked \<Rightarrow> 'u pnf \<Rightarrow> ('u, 'e) p5_result" where
  "pnf_handle_vendor_extension cl mid msg p =
     (case allocate_p4_p5_vendor_ext cl of None \<Rightarrow> (p, [])
      | Some alloc \<Rightarrow>
          if alloc mid
          then (case msg of Some (h, b, False) \<Rightarrow> call_client (vendor_ext cl) (h, b) p | _ \<Rightarrow> (p, []))
          else (p, []))"

section \<open>Dispatch\<close>

text \<open>The body decoders by message id: of P5 for LTE and NR, and of P4.\<close>

record 'b p5_codec =
  lte_body :: "u16 \<Rightarrow> (rbuf \<Rightarrow> 'b p5_body \<times> bool) option"
  nr_body :: "u16 \<Rightarrow> (rbuf \<Rightarrow> 'b p5_body \<times> bool) option"
  p4_body :: "u16 \<Rightarrow> (rbuf \<Rightarrow> 'b p5_body \<times> bool) option"

definition pnf_handle_p5_message :: "('u, 'b, 'e) p5_client \<Rightarrow> 'b p5_codec \<Rightarrow> u8 list \<Rightarrow> 'u pnf \<Rightarrow> ('u, 'e) p5_result" where
  "pnf_handle_p5_message cl cd msg p =
     (case nfapi_p5_message_header_unpack msg of None \<Rightarrow> (p, [])
      | Some h \<Rightarrow>
          (let mid = p5_message_id h; lte = nfapi_p5_message_unpack (lte_body cd) msg;
               nr = nfapi_nr_p5_message_unpack (nr_body cd) msg; p4 = nfapi_p5_message_unpack (p4_body cd) msg in
           if mid = NFAPI_PNF_PARAM_REQUEST then pnf_handle_pnf_param_request cl lte p
           else if mid = NFAPI_PNF_CONFIG_REQUEST then pnf_handle_pnf_config_request cl lte p
           else if mid = NFAPI_PNF_START_REQUEST then pnf_handle_pnf_start_request cl lte p
           else if mid = NFAPI_PNF_STOP_REQUEST then pnf_handle_pnf_stop_request cl lte p
           else if mid = NFAPI_PARAM_REQUEST then pnf_handle_param_request cl lte p
           else if mid = NFAPI_CONFIG_REQUEST then pnf_handle_config_request cl lte p
           else if mid = NFAPI_START_REQUEST then pnf_handle_start_request cl lte p
           else if mid = NFAPI_STOP_REQUEST then pnf_handle_stop_request cl lte p
           else if mid = NFAPI_MEASUREMENT_REQUEST then pnf_handle_measurement_request cl lte p
           else if mid = NFAPI_RSSI_REQUEST then pnf_handle_rssi_request cl p4 p
           else if mid = NFAPI_CELL_SEARCH_REQUEST then pnf_handle_cell_search_request cl p4 p
           else if mid = NFAPI_BROADCAST_DETECT_REQUEST then pnf_handle_broadcast_detect_request cl p4 p
           else if mid = NFAPI_SYSTEM_INFORMATION_SCHEDULE_REQUEST then pnf_handle_system_information_schedule_request cl p4 p
           else if mid = NFAPI_SYSTEM_INFORMATION_REQUEST then pnf_handle_system_information_request cl p4 p
           else if mid = NFAPI_NMM_STOP_REQUEST then pnf_handle_nmm_stop_request cl p4 p
           else if NFAPI_VENDOR_EXT_MSG_MIN \<le> mid \<and> mid \<le> NFAPI_VENDOR_EXT_MSG_MAX
           then pnf_handle_vendor_extension cl mid lte p
           else (p, [])))"

definition pnf_nr_handle_p5_message :: "('u, 'b, 'e) p5_client \<Rightarrow> 'b p5_codec \<Rightarrow> u8 list \<Rightarrow> 'u pnf \<Rightarrow> ('u, 'e) p5_result" where
  "pnf_nr_handle_p5_message cl cd msg p =
     (case nfapi_p5_message_header_unpack msg of None \<Rightarrow> (p, [])
      | Some h \<Rightarrow>
          (let mid = p5_message_id h; lte = nfapi_p5_message_unpack (lte_body cd) msg;
               nr = nfapi_nr_p5_message_unpack (nr_body cd) msg; p4 = nfapi_p5_message_unpack (p4_body cd) msg in
           if mid = NFAPI_NR_PHY_MSG_TYPE_PNF_PARAM_REQUEST then pnf_nr_handle_pnf_param_request cl nr p
           else if mid = NFAPI_NR_PHY_MSG_TYPE_PNF_CONFIG_REQUEST then pnf_nr_handle_pnf_config_request cl nr p
           else if mid = NFAPI_NR_PHY_MSG_TYPE_PNF_START_REQUEST then pnf_nr_handle_pnf_start_request cl nr p
           else if mid = NFAPI_PNF_STOP_REQUEST then pnf_handle_pnf_stop_request cl lte p
           else if mid = NFAPI_NR_PHY_MSG_TYPE_PARAM_REQUEST then pnf_nr_handle_param_request cl nr p
           else if mid = NFAPI_NR_PHY_MSG_TYPE_CONFIG_REQUEST then pnf_nr_handle_config_request cl nr p
           else if mid = NFAPI_NR_PHY_MSG_TYPE_START_REQUEST then pnf_nr_handle_start_request cl nr p
           else if mid = NFAPI_NR_PHY_MSG_TYPE_STOP_REQUEST then pnf_nr_handle_stop_request cl nr p
           else if mid = NFAPI_MEASUREMENT_REQUEST then pnf_handle_measurement_request cl lte p
           else if mid = NFAPI_RSSI_REQUEST then pnf_handle_rssi_request cl p4 p
           else if mid = NFAPI_CELL_SEARCH_REQUEST then pnf_handle_cell_search_request cl p4 p
           else if mid = NFAPI_BROADCAST_DETECT_REQUEST then pnf_handle_broadcast_detect_request cl p4 p
           else if mid = NFAPI_SYSTEM_INFORMATION_SCHEDULE_REQUEST then pnf_handle_system_information_schedule_request cl p4 p
           else if mid = NFAPI_SYSTEM_INFORMATION_REQUEST then pnf_handle_system_information_request cl p4 p
           else if mid = NFAPI_NMM_STOP_REQUEST then pnf_handle_nmm_stop_request cl p4 p
           else if NFAPI_VENDOR_EXT_MSG_MIN \<le> mid \<and> mid \<le> NFAPI_VENDOR_EXT_MSG_MAX
           then pnf_handle_vendor_extension cl mid lte p
           else (p, [])))"

text \<open>What a message on the connection does; the flag says whether the connection is still there.\<close>

definition pnf_read_dispatch_message :: "('u, 'b, 'e) p5_client \<Rightarrow> 'b p5_codec \<Rightarrow> (nat \<Rightarrow> u8) \<Rightarrow> u8 list \<Rightarrow> 'u pnf \<Rightarrow> ('u, 'e) p5_result \<times> bool" where
  "pnf_read_dispatch_message cl cd junk wire p =
     (case p5_read lte_size junk wire of None \<Rightarrow> ((p, []), False) | Some msg \<Rightarrow> (pnf_handle_p5_message cl cd msg p, True))"

definition pnf_nr_read_dispatch_message :: "('u, 'b, 'e) p5_client \<Rightarrow> 'b p5_codec \<Rightarrow> (nat \<Rightarrow> u8) \<Rightarrow> u8 list \<Rightarrow> 'u pnf \<Rightarrow> ('u, 'e) p5_result \<times> bool" where
  "pnf_nr_read_dispatch_message cl cd junk wire p =
     (case p5_read nr_size junk wire of None \<Rightarrow> ((p, []), False) | Some msg \<Rightarrow> (pnf_nr_handle_p5_message cl cd msg p, True))"

text \<open>The end of \<^verbatim>\<open>pnf_message_pump\<close>, when the connection is lost.\<close>

definition pnf_connection_lost :: "'u pnf \<Rightarrow> 'u pnf" where
  "pnf_connection_lost p = p\<lparr>pnf_p5_state := PNF_IDLE\<rparr>"

section \<open>Laws\<close>

lemmas sending_defs = pnf_pack_and_send_p5_message_def pnf_nr_pack_and_send_p5_message_def pnf_pack_and_send_p4_message_def

lemmas response_defs = sending_defs nfapi_pnf_pnf_param_resp_def nfapi_nr_pnf_pnf_param_resp_def
  nfapi_pnf_pnf_config_resp_def nfapi_nr_pnf_pnf_config_resp_def nfapi_pnf_pnf_start_resp_def
  nfapi_nr_pnf_pnf_start_resp_def nfapi_pnf_pnf_stop_resp_def nfapi_pnf_param_resp_def nfapi_nr_pnf_param_resp_def
  nfapi_pnf_config_resp_def nfapi_nr_pnf_config_resp_def nfapi_pnf_start_resp_def nfapi_nr_pnf_start_resp_def
  nfapi_pnf_stop_resp_def nfapi_pnf_measurement_resp_def nfapi_pnf_rssi_resp_def nfapi_pnf_rssi_ind_def
  nfapi_pnf_cell_search_resp_def nfapi_pnf_cell_search_ind_def nfapi_pnf_broadcast_detect_resp_def
  nfapi_pnf_broadcast_detect_ind_def nfapi_pnf_system_information_schedule_resp_def
  nfapi_pnf_system_information_schedule_ind_def nfapi_pnf_system_information_resp_def
  nfapi_pnf_system_information_ind_def nfapi_pnf_nmm_stop_resp_def

lemmas error_codes = NFAPI_MSG_OK_def NFAPI_MSG_INVALID_STATE_def NFAPI_MSG_INVALID_CONFIG_def NFAPI_NR_START_MSG_INVALID_STATE_def

text \<open>A refusal changes nothing and sends at most one answer, with an error.\<close>

definition refusal :: "('u pnf \<Rightarrow> ('u, 'e) p5_result) \<Rightarrow> bool" where
  "refusal f \<longleftrightarrow> (\<forall>p. fst (f p) = p \<and> (snd (f p) = [] \<or> (\<exists>mid phy err. err \<noteq> NFAPI_MSG_OK \<and> snd (f p) = [Sent mid phy err])))"

lemma refusal_responses:
  assumes "err \<noteq> NFAPI_MSG_OK"
  shows "refusal (nfapi_pnf_pnf_param_resp mid phy err)" "refusal (nfapi_nr_pnf_pnf_param_resp mid phy err)"
    "refusal (nfapi_pnf_pnf_config_resp mid phy err)" "refusal (nfapi_nr_pnf_pnf_config_resp mid phy err)"
    "refusal (nfapi_pnf_pnf_start_resp mid phy err)" "refusal (nfapi_nr_pnf_pnf_start_resp mid phy err)"
    "refusal (nfapi_pnf_pnf_stop_resp mid phy err)" "refusal (nfapi_pnf_param_resp mid phy err)"
    "refusal (nfapi_nr_pnf_param_resp mid phy err)" "refusal (nfapi_pnf_config_resp mid phy err)"
    "refusal (nfapi_nr_pnf_config_resp mid phy err)" "refusal (nfapi_pnf_start_resp mid phy err)"
    "refusal (nfapi_nr_pnf_start_resp mid phy err)" "refusal (nfapi_pnf_stop_resp mid phy err)"
    "refusal (nfapi_pnf_measurement_resp mid phy err)" "refusal (nfapi_pnf_rssi_resp mid phy err)"
    "refusal (nfapi_pnf_cell_search_resp mid phy err)" "refusal (nfapi_pnf_broadcast_detect_resp mid phy err)"
    "refusal (nfapi_pnf_system_information_schedule_resp mid phy err)" "refusal (nfapi_pnf_system_information_resp mid phy err)"
    "refusal (nfapi_pnf_nmm_stop_resp mid phy err)"
  using assms by (simp_all add: refusal_def response_defs split: option.split)

lemma error_codes_not_ok:
  "NFAPI_MSG_INVALID_STATE \<noteq> NFAPI_MSG_OK" "NFAPI_MSG_INVALID_CONFIG \<noteq> NFAPI_MSG_OK" "NFAPI_NR_START_MSG_INVALID_STATE \<noteq> NFAPI_MSG_OK"
  by (simp_all add: error_codes)

lemma foldl_add_phys:
  fixes q :: "'u pnf"
  defines "add \<equiv> \<lambda>(q :: 'u pnf) i. nfapi_pnf_phy_config_add \<lparr>pc_phy_id = i, pc_state = PHY_IDLE\<rparr> q"
  shows "foldl add q ids = q\<lparr>phys := rev (map (\<lambda>i. \<lparr>pc_phy_id = i, pc_state = PHY_IDLE\<rparr>) ids) @ phys q\<rparr>"
  by (induction ids arbitrary: q) (simp_all add: add_def nfapi_pnf_phy_config_add_def)

lemma create_phys_eq:
  "create_phys m p = p\<lparr>phys := (case rf_config (snd m) of None \<Rightarrow> []
     | Some ids \<Rightarrow> rev (map (\<lambda>i. \<lparr>pc_phy_id = i, pc_state = PHY_IDLE\<rparr>) ids))\<rparr>"
  by (simp add: create_phys_def nfapi_pnf_phy_config_delete_all_def foldl_add_phys Let_def split: option.split)

lemma find_phy_id: "find_phy i cs = Some c \<Longrightarrow> pc_phy_id c = i \<and> c \<in> set cs"
  by (induction i cs rule: find_phy.induct) (auto split: if_splits)

lemma find_set_phy_state:
  "find_phy i (set_phy_state j s cs) = (if i = j then map_option (pc_state_update (\<lambda>_. s)) (find_phy i cs) else find_phy i cs)"
  by (induction j s cs rule: set_phy_state.induct) auto

lemma length_set_phy_state [simp]: "length (set_phy_state i s cs) = length cs"
  by (induction i s cs rule: set_phy_state.induct) simp_all

section \<open>The client as an interface\<close>

text \<open>The callbacks that a message id selects, with the states in which they are called.\<close>

definition lte_pnf_callbacks :: "('u, 'b, 'e) p5_client \<Rightarrow> (u16 \<times> (p5_state \<Rightarrow> bool) \<times> ('u, 'b, 'e) pnf_callback option) list" where
  "lte_pnf_callbacks cl =
     [(NFAPI_PNF_PARAM_REQUEST, (\<lambda>s. s = PNF_IDLE), pnf_param_req cl),
      (NFAPI_PNF_START_REQUEST, (\<lambda>s. s = PNF_CONFIGURED), pnf_start_req cl),
      (NFAPI_PNF_STOP_REQUEST, (\<lambda>s. s = PNF_RUNNING), pnf_stop_req cl)]"

definition nr_pnf_callbacks :: "('u, 'b, 'e) p5_client \<Rightarrow> (u16 \<times> (p5_state \<Rightarrow> bool) \<times> ('u, 'b, 'e) pnf_callback option) list" where
  "nr_pnf_callbacks cl =
     [(NFAPI_NR_PHY_MSG_TYPE_PNF_PARAM_REQUEST, (\<lambda>s. s = PNF_IDLE), pnf_nr_param_req cl),
      (NFAPI_NR_PHY_MSG_TYPE_PNF_START_REQUEST, (\<lambda>s. s = PNF_CONFIGURED), pnf_nr_start_req cl),
      (NFAPI_PNF_STOP_REQUEST, (\<lambda>s. s = PNF_RUNNING), pnf_stop_req cl)]"

definition common_phy_callbacks :: "('u, 'b, 'e) p5_client \<Rightarrow> (u16 \<times> (phy_state \<Rightarrow> bool) \<times> ('u, 'b, 'e) phy_callback option) list" where
  "common_phy_callbacks cl =
     [(NFAPI_MEASUREMENT_REQUEST, (\<lambda>s. s \<noteq> PHY_RUNNING), measurement_req cl),
      (NFAPI_RSSI_REQUEST, (\<lambda>s. s = PHY_RUNNING), rssi_req cl),
      (NFAPI_CELL_SEARCH_REQUEST, (\<lambda>s. s = PHY_RUNNING), cell_search_req cl),
      (NFAPI_BROADCAST_DETECT_REQUEST, (\<lambda>s. s = PHY_RUNNING), broadcast_detect_req cl),
      (NFAPI_SYSTEM_INFORMATION_SCHEDULE_REQUEST, (\<lambda>s. s = PHY_RUNNING), system_information_schedule_req cl),
      (NFAPI_SYSTEM_INFORMATION_REQUEST, (\<lambda>s. s = PHY_RUNNING), system_information_req cl),
      (NFAPI_NMM_STOP_REQUEST, (\<lambda>s. s \<noteq> PHY_RUNNING), nmm_stop_req cl)]"

definition lte_phy_callbacks :: "('u, 'b, 'e) p5_client \<Rightarrow> (u16 \<times> (phy_state \<Rightarrow> bool) \<times> ('u, 'b, 'e) phy_callback option) list" where
  "lte_phy_callbacks cl =
     [(NFAPI_PARAM_REQUEST, (\<lambda>s. s = PHY_IDLE), param_req cl),
      (NFAPI_CONFIG_REQUEST, (\<lambda>s. s \<noteq> PHY_RUNNING), config_req cl),
      (NFAPI_START_REQUEST, (\<lambda>s. s \<noteq> PHY_RUNNING), start_req cl),
      (NFAPI_STOP_REQUEST, (\<lambda>s. s \<noteq> PHY_RUNNING), stop_req cl)] @ common_phy_callbacks cl"

definition nr_phy_callbacks :: "('u, 'b, 'e) p5_client \<Rightarrow> (u16 \<times> (phy_state \<Rightarrow> bool) \<times> ('u, 'b, 'e) phy_callback option) list" where
  "nr_phy_callbacks cl =
     [(NFAPI_NR_PHY_MSG_TYPE_PARAM_REQUEST, (\<lambda>s. s = PHY_IDLE), nr_param_req cl),
      (NFAPI_NR_PHY_MSG_TYPE_CONFIG_REQUEST, (\<lambda>s. s \<noteq> PHY_RUNNING), nr_config_req cl),
      (NFAPI_NR_PHY_MSG_TYPE_START_REQUEST, (\<lambda>s. s \<noteq> PHY_RUNNING), nr_start_req cl),
      (NFAPI_NR_PHY_MSG_TYPE_STOP_REQUEST, (\<lambda>s. s \<noteq> PHY_RUNNING), nr_stop_req cl)] @ common_phy_callbacks cl"

text \<open>What a handler gets when it unpacks a message with header \<open>h\<close>.\<close>

definition unpacked_as :: "('b p5_msg \<Rightarrow> bool) \<Rightarrow> p5_header \<Rightarrow> 'b unpacked \<Rightarrow> bool" where
  "unpacked_as good h msg = (case msg of None \<Rightarrow> True | Some (h', b, ok) \<Rightarrow> h' = h \<and> good (h, b))"

text \<open>Every decoding of a message is good.\<close>

definition decodes_good :: "'b p5_codec \<Rightarrow> ('b p5_msg \<Rightarrow> bool) \<Rightarrow> u8 list \<Rightarrow> bool" where
  "decodes_good cd good msg \<longleftrightarrow> (\<forall>body \<in> {lte_body cd, nr_body cd, p4_body cd}.
     case p5_frame_unpack body msg of None \<Rightarrow> True | Some (h, b, ok) \<Rightarrow> good (h, b))"

lemma decodes_goodD:
  assumes "decodes_good cd good msg" "nfapi_p5_message_header_unpack msg = Some h"
  shows "unpacked_as good h (nfapi_p5_message_unpack (lte_body cd) msg)"
    "unpacked_as good h (nfapi_nr_p5_message_unpack (nr_body cd) msg)"
    "unpacked_as good h (nfapi_p5_message_unpack (p4_body cd) msg)"
  using assms by (auto simp: decodes_good_def unpacked_as_def nfapi_p5_message_unpack_def nfapi_nr_p5_message_unpack_def
      dest: p5_frame_unpack_header split: option.splits)

text \<open>
  What the library promises to a property \<open>step\<close> of one message: if the client keeps it
  whenever one of its callbacks is called, every message keeps it.  \<open>good\<close> is what is known of the messages.
\<close>

locale pnf_client =
  fixes pnf_cbs :: "(u16 \<times> (p5_state \<Rightarrow> bool) \<times> ('u, 'b, 'e) pnf_callback option) list"
    and config_cb :: "('u, 'b, 'e) pnf_callback option"
    and phy_cbs :: "(u16 \<times> (phy_state \<Rightarrow> bool) \<times> ('u, 'b, 'e) phy_callback option) list"
    and good :: "'b p5_msg \<Rightarrow> bool"
    and step :: "p5_header \<Rightarrow> 'u pnf \<Rightarrow> ('u, 'e) p5_result \<Rightarrow> bool"
  assumes ignored: "step h p (p, [])"
    and refused: "err \<noteq> NFAPI_MSG_OK \<Longrightarrow> step h p (p, [Sent mid phy err])"
    and pnf_answer: "(p5_message_id h, g, Some f) \<in> set pnf_cbs \<Longrightarrow> g (pnf_p5_state p) \<Longrightarrow> good (h, b) \<Longrightarrow> step h p (f (h, b) p)"
    and config_answer: "p5_message_id h = NFAPI_PNF_CONFIG_REQUEST \<Longrightarrow> pnf_p5_state p \<noteq> PNF_RUNNING \<Longrightarrow> good (h, b) \<Longrightarrow>
      step h p (call_client config_cb (h, b) (create_phys (h, b) p))"
    and phy_answer: "(p5_message_id h, gp, Some fp) \<in> set phy_cbs \<Longrightarrow> pnf_p5_state p = PNF_RUNNING \<Longrightarrow>
      find_phy (p5_phy_id h) (phys p) = Some c \<Longrightarrow> gp (pc_state c) \<Longrightarrow> good (h, b) \<Longrightarrow> step h p (fp c (h, b) p)"
begin

lemma if_step: "(c \<Longrightarrow> step h p r) \<Longrightarrow> (\<not> c \<Longrightarrow> step h p r') \<Longrightarrow> step h p (if c then r else r')"
  by simp

lemma refusal_step: "refusal f \<Longrightarrow> step h p (f p)"
proof -
  assume "refusal f"
  then have f: "f p = (p, snd (f p))" "snd (f p) = [] \<or> (\<exists>mid phy err. err \<noteq> NFAPI_MSG_OK \<and> snd (f p) = [Sent mid phy err])"
    by (simp_all add: refusal_def prod_eq_iff)
  from f(2) have "step h p (p, snd (f p))" using ignored refused by auto
  then show "step h p (f p)" using f(1) by simp
qed

lemma pnf_request_step:
  assumes cb: "(p5_message_id h, g, cb) \<in> set pnf_cbs" and r: "refusal refuse"
    and msg: "unpacked_as good h msg"
  shows "step h p (pnf_request g (call_client cb) refuse msg p)"
proof (cases msg)
  case None
  then show ?thesis by (simp add: pnf_request_def ignored)
next
  case (Some m)
  then obtain b ok where m: "msg = Some (h, b, ok)" "good (h, b)" using msg by (cases m) (auto simp: unpacked_as_def)
  show ?thesis
    using m refusal_step [OF r] pnf_answer [of h g _ p b] cb
    by (cases cb) (simp_all add: pnf_request_def call_client_def ignored)
qed

lemma config_request_step:
  assumes h: "p5_message_id h = NFAPI_PNF_CONFIG_REQUEST" and r: "refusal refuse"
    and msg: "unpacked_as good h msg"
  shows "step h p (pnf_request (\<lambda>s. s \<noteq> PNF_RUNNING) (\<lambda>m p. call_client config_cb m (create_phys m p)) refuse msg p)"
proof (cases msg)
  case None
  then show ?thesis by (simp add: pnf_request_def ignored)
next
  case (Some m)
  then obtain b ok where m: "msg = Some (h, b, ok)" "good (h, b)" using msg by (cases m) (auto simp: unpacked_as_def)
  then show ?thesis using refusal_step [OF r] config_answer [OF h] by (simp add: pnf_request_def)
qed

lemma phy_request_step:
  assumes cb: "(p5_message_id h, g, cb) \<in> set phy_cbs"
    and r: "\<And>phy. refusal (resp mid phy bad_state)" "\<And>phy. refusal (resp mid phy bad_phy)"
    and msg: "unpacked_as good h msg"
  shows "step h p (phy_request g cb resp mid bad_state bad_phy msg p)"
proof (cases msg)
  case None
  then show ?thesis by (simp add: phy_request_def ignored)
next
  case (Some m)
  then obtain b ok where m: "msg = Some (h, b, ok)" "good (h, b)" using msg by (cases m) (auto simp: unpacked_as_def)
  show ?thesis
  proof (cases "pnf_p5_state p = PNF_RUNNING \<and> (\<exists>c. find_phy (p5_phy_id h) (phys p) = Some c \<and> g (pc_state c))")
    case False
    then show ?thesis using m refusal_step [OF r(1)] refusal_step [OF r(2)]
      by (auto simp: phy_request_def nfapi_pnf_phy_config_find_def split: option.split)
  next
    case True
    then obtain c where c: "pnf_p5_state p = PNF_RUNNING" "find_phy (p5_phy_id h) (phys p) = Some c" "g (pc_state c)" by blast
    show ?thesis
    proof (cases cb)
      case None
      then show ?thesis using m c by (simp add: phy_request_def nfapi_pnf_phy_config_find_def ignored)
    next
      case (Some f)
      then show ?thesis using m c phy_answer [of h g f p c b] cb by (simp add: phy_request_def nfapi_pnf_phy_config_find_def)
    qed
  qed
qed

end

lemmas p5_ids = NFAPI_PNF_PARAM_REQUEST_def NFAPI_PNF_CONFIG_REQUEST_def NFAPI_PNF_START_REQUEST_def NFAPI_PNF_STOP_REQUEST_def
  NFAPI_PARAM_REQUEST_def NFAPI_CONFIG_REQUEST_def NFAPI_START_REQUEST_def NFAPI_STOP_REQUEST_def
  NFAPI_MEASUREMENT_REQUEST_def NFAPI_RSSI_REQUEST_def NFAPI_CELL_SEARCH_REQUEST_def NFAPI_BROADCAST_DETECT_REQUEST_def
  NFAPI_SYSTEM_INFORMATION_SCHEDULE_REQUEST_def NFAPI_SYSTEM_INFORMATION_REQUEST_def NFAPI_NMM_STOP_REQUEST_def
  NFAPI_NR_PHY_MSG_TYPE_PNF_PARAM_REQUEST_def NFAPI_NR_PHY_MSG_TYPE_PNF_CONFIG_REQUEST_def
  NFAPI_NR_PHY_MSG_TYPE_PNF_START_REQUEST_def NFAPI_NR_PHY_MSG_TYPE_PARAM_REQUEST_def
  NFAPI_NR_PHY_MSG_TYPE_CONFIG_REQUEST_def NFAPI_NR_PHY_MSG_TYPE_START_REQUEST_def NFAPI_NR_PHY_MSG_TYPE_STOP_REQUEST_def
  NFAPI_VENDOR_EXT_MSG_MIN_def NFAPI_VENDOR_EXT_MSG_MAX_def

lemmas p5_handler_defs = pnf_handle_pnf_param_request_def pnf_handle_pnf_config_request_def pnf_handle_pnf_start_request_def
  pnf_handle_pnf_stop_request_def pnf_handle_param_request_def pnf_handle_config_request_def pnf_handle_start_request_def
  pnf_handle_stop_request_def pnf_handle_measurement_request_def pnf_handle_rssi_request_def pnf_handle_cell_search_request_def
  pnf_handle_broadcast_detect_request_def pnf_handle_system_information_schedule_request_def
  pnf_handle_system_information_request_def pnf_handle_nmm_stop_request_def pnf_handle_vendor_extension_def
  pnf_nr_handle_pnf_param_request_def pnf_nr_handle_pnf_config_request_def pnf_nr_handle_pnf_start_request_def
  pnf_nr_handle_param_request_def pnf_nr_handle_config_request_def pnf_nr_handle_start_request_def
  pnf_nr_handle_stop_request_def

locale lte_client = pnf_client "lte_pnf_callbacks cl" "pnf_config_req cl" "lte_phy_callbacks cl" good step
  for cl :: "('u, 'b, 'e) p5_client" and good step +
  assumes no_vendor_ext: "allocate_p4_p5_vendor_ext cl = None"
begin

lemma message_step:
  assumes d: "decodes_good cd good msg" and h: "nfapi_p5_message_header_unpack msg = Some h"
  shows "step h p (pnf_handle_p5_message cl cd msg p)"
proof -
  note unpacked = decodes_goodD [OF d h]
  show ?thesis
    unfolding pnf_handle_p5_message_def h option.case Let_def p5_handler_defs no_vendor_ext
    by (intro if_step; (rule ignored)?)
      (auto intro!: pnf_request_step config_request_step phy_request_step unpacked refusal_responses error_codes_not_ok
        simp: lte_pnf_callbacks_def lte_phy_callbacks_def common_phy_callbacks_def)
qed

end

locale nr_client = pnf_client "nr_pnf_callbacks cl" "pnf_nr_config_req cl" "nr_phy_callbacks cl" good step
  for cl :: "('u, 'b, 'e) p5_client" and good step +
  assumes no_vendor_ext: "allocate_p4_p5_vendor_ext cl = None"
begin

lemma message_step:
  assumes d: "decodes_good cd good msg" and h: "nfapi_p5_message_header_unpack msg = Some h"
  shows "step h p (pnf_nr_handle_p5_message cl cd msg p)"
proof -
  note unpacked = decodes_goodD [OF d h]
  show ?thesis
    unfolding pnf_nr_handle_p5_message_def h option.case Let_def p5_handler_defs no_vendor_ext
    by (intro if_step; (rule ignored)?)
      (auto intro!: pnf_request_step config_request_step phy_request_step unpacked refusal_responses error_codes_not_ok
        simp: nr_pnf_callbacks_def nr_phy_callbacks_def common_phy_callbacks_def
          NFAPI_NR_PHY_MSG_TYPE_PNF_CONFIG_REQUEST_def NFAPI_PNF_CONFIG_REQUEST_def)
qed

end

end
