(* ===== verification/Proxy_P5.thy ===== *)
theory Proxy_P5
  imports Pnf_P5 Pnf_P7
begin

unbundle bit_operations_syntax

text \<open>
  The callbacks with which the proxy answers the VNF, \<^verbatim>\<open>nfapi_pnf.c\<close>: what
  it keeps of the requests (\<open>phy_info\<close>, the first PHY of \<^verbatim>\<open>pnf_info\<close>), the P7 instance that
  START.request creates, and the two configurations \<^verbatim>\<open>configure_nfapi_pnf\<close> and
  \<^verbatim>\<open>configure_nr_nfapi_pnf\<close>.  Of the requests only CONFIG.request is read: \<open>config_body\<close>
  are the TLVs the proxy looks for.  The addresses and the parameters that the answers report are left out.

  Then the state machine that the nFAPI specification asks of a PNF, \<open>fapi_step\<close>,
  and the proof that the proxy follows it as long as a PNF has one PHY.
\<close>

section \<open>State and events\<close>

record phy_info =
  phy_info_id :: u16
  remote_port :: u16
  dl_channel_bw_support :: u16
  ul_channel_bw_support :: u16
  phy_timing_window :: u8
  phy_timing_info_mode :: u8
  phy_timing_info_period :: u8

definition zero_phy_info :: phy_info where
  "zero_phy_info = \<lparr>phy_info_id = 0, remote_port = 0, dl_channel_bw_support = 0, ul_channel_bw_support = 0,
     phy_timing_window = 0, phy_timing_info_mode = 0, phy_timing_info_period = 0\<rparr>"

text \<open>What the proxy does besides answering: the P7 thread of a radio and the first tick.\<close>

datatype p7_radio = Lte | Nr

datatype proxy_event = Start_p7 p7_radio pnf_config | First_tick p7_radio pnf_config u16

type_synonym proxy_pnf = "phy_info pnf"
type_synonym proxy_msg = "config_body p5_msg"
type_synonym proxy_result = "(phy_info, proxy_event) p5_result"

definition p5_then :: "('u, 'e) p5_result \<Rightarrow> ('u pnf \<Rightarrow> ('u, 'e) p5_result) \<Rightarrow> ('u, 'e) p5_result" where
  "p5_then r f = (case r of (p, out) \<Rightarrow> case f p of (p', out') \<Rightarrow> (p', out @ out'))"

definition emit :: "'e \<Rightarrow> 'u pnf \<Rightarrow> ('u, 'e) p5_result" where
  "emit e p = (p, [Client e])"

section \<open>Requests to the PNF\<close>

definition pnf_param_request :: "proxy_msg \<Rightarrow> proxy_pnf \<Rightarrow> proxy_result" where
  "pnf_param_request m p = nfapi_pnf_pnf_param_resp NFAPI_PNF_PARAM_RESPONSE 0 NFAPI_MSG_OK p"

definition pnf_nr_param_request :: "proxy_msg \<Rightarrow> proxy_pnf \<Rightarrow> proxy_result" where
  "pnf_nr_param_request m p = nfapi_nr_pnf_pnf_param_resp NFAPI_PNF_PARAM_RESPONSE 0 NFAPI_MSG_OK p"

text \<open>The first PHY of the list; the array of a list that is absent or empty is zero.\<close>

definition first_phy_id :: "proxy_msg \<Rightarrow> u16" where
  "first_phy_id m = (case rf_config (snd m) of Some (i # is) \<Rightarrow> i | _ \<Rightarrow> 0)"

definition pnf_config_request :: "proxy_msg \<Rightarrow> proxy_pnf \<Rightarrow> proxy_result" where
  "pnf_config_request m p =
     nfapi_pnf_pnf_config_resp NFAPI_PNF_CONFIG_RESPONSE 0 NFAPI_MSG_OK
       (p\<lparr>user := (user p)\<lparr>phy_info_id := first_phy_id m\<rparr>\<rparr>)"

definition pnf_nr_config_request :: "proxy_msg \<Rightarrow> proxy_pnf \<Rightarrow> proxy_result" where
  "pnf_nr_config_request m p =
     nfapi_nr_pnf_pnf_config_resp NFAPI_NR_PHY_MSG_TYPE_PNF_CONFIG_RESPONSE 0 NFAPI_MSG_OK
       (p\<lparr>user := (user p)\<lparr>phy_info_id := first_phy_id m\<rparr>\<rparr>)"

definition pnf_start_request :: "proxy_msg \<Rightarrow> proxy_pnf \<Rightarrow> proxy_result" where
  "pnf_start_request m p =
     (if phy_info_id (user p) \<noteq> 0 then nfapi_pnf_pnf_start_resp NFAPI_PNF_START_RESPONSE 0 NFAPI_MSG_OK p else (p, []))"

definition pnf_nr_start_request :: "proxy_msg \<Rightarrow> proxy_pnf \<Rightarrow> proxy_result" where
  "pnf_nr_start_request m p =
     (if phy_info_id (user p) \<noteq> 0
      then nfapi_nr_pnf_pnf_start_resp NFAPI_NR_PHY_MSG_TYPE_PNF_START_RESPONSE 0 NFAPI_MSG_OK p else (p, []))"

definition pnf_stop_request :: "proxy_msg \<Rightarrow> proxy_pnf \<Rightarrow> proxy_result" where
  "pnf_stop_request m p = nfapi_pnf_pnf_stop_resp NFAPI_PNF_STOP_RESPONSE 0 NFAPI_MSG_OK p"

section \<open>Requests to a PHY\<close>

definition param_request :: "phy_config \<Rightarrow> proxy_msg \<Rightarrow> proxy_pnf \<Rightarrow> proxy_result" where
  "param_request phy m p = nfapi_pnf_param_resp NFAPI_PARAM_RESPONSE (p5_phy_id (fst m)) 0 p"

definition nr_param_request :: "phy_config \<Rightarrow> proxy_msg \<Rightarrow> proxy_pnf \<Rightarrow> proxy_result" where
  "nr_param_request phy m p = nfapi_nr_pnf_param_resp NFAPI_NR_PHY_MSG_TYPE_PARAM_RESPONSE (p5_phy_id (fst m)) 0 p"

text \<open>The TLVs go into the state; the two modes fall back to 0, the window and the bandwidths keep their value.\<close>

definition apply_config :: "config_body \<Rightarrow> phy_info \<Rightarrow> phy_info" where
  "apply_config b i =
     i\<lparr>phy_timing_window := case_option (phy_timing_window i) id (tlv_timing_window b),
       phy_timing_info_mode := case_option 0 id (tlv_timing_info_mode b),
       phy_timing_info_period := case_option 0 id (tlv_timing_info_period b),
       dl_channel_bw_support := case_option (dl_channel_bw_support i) id (tlv_dl_bandwidth b),
       ul_channel_bw_support := case_option (ul_channel_bw_support i) id (tlv_ul_bandwidth b),
       remote_port := p7_vnf_port b\<rparr>"

definition config_request :: "phy_config \<Rightarrow> proxy_msg \<Rightarrow> proxy_pnf \<Rightarrow> proxy_result" where
  "config_request phy m p =
     (let i = apply_config (contents (snd m)) (user p) in
      nfapi_pnf_config_resp NFAPI_CONFIG_RESPONSE (phy_info_id i) 0 (p\<lparr>user := i\<rparr>))"

definition nr_config_request :: "phy_config \<Rightarrow> proxy_msg \<Rightarrow> proxy_pnf \<Rightarrow> proxy_result" where
  "nr_config_request phy m p =
     (let i = apply_config (contents (snd m)) (user p) in
      nfapi_nr_pnf_config_resp NFAPI_NR_PHY_MSG_TYPE_CONFIG_RESPONSE (phy_info_id i) 0 (p\<lparr>user := i\<rparr>))"

definition nfapi_send_pnf_start_resp :: "u16 \<Rightarrow> proxy_pnf \<Rightarrow> proxy_result" where
  "nfapi_send_pnf_start_resp pid p = nfapi_pnf_start_resp NFAPI_START_RESPONSE pid NFAPI_MSG_OK p"

definition nfapi_nr_send_pnf_start_resp :: "u16 \<Rightarrow> proxy_pnf \<Rightarrow> proxy_result" where
  "nfapi_nr_send_pnf_start_resp pid p =
     nfapi_nr_pnf_start_resp NFAPI_NR_PHY_MSG_TYPE_START_RESPONSE pid NFAPI_MSG_OK p"

text \<open>The defaults of \<^verbatim>\<open>pnf_p7_interface.c\<close>, and what START.request makes of them.\<close>

definition nfapi_pnf_p7_config_create :: pnf_config where
  "nfapi_pnf_p7_config_create =
     \<lparr>pnf_phy_id = 0, subframe_buffer_size = 8, timing_info_mode_periodic = True, timing_info_mode_aperiodic = True,
      timing_info_period = 32, callbacks = (\<lambda>k. False), dummies = (\<lambda>k. False)\<rparr>"

definition fill_p7_config :: "u16 \<Rightarrow> phy_info \<Rightarrow> pnf_config \<Rightarrow> pnf_config" where
  "fill_p7_config pid i c =
     (let mode = phy_timing_info_mode i;
          c = c\<lparr>pnf_phy_id := pid, subframe_buffer_size := ucast (phy_timing_window i)\<rparr>;
          c = (if mode AND 1 \<noteq> 0 then c\<lparr>timing_info_mode_periodic := True, timing_info_period := phy_timing_info_period i\<rparr> else c);
          c = (if mode AND 2 \<noteq> 0 then c\<lparr>timing_info_mode_aperiodic := True\<rparr> else c)
      in c\<lparr>callbacks := (\<lambda>k. k = LBT_DL_CONFIG), dummies := (\<lambda>k. k = DL_CONFIG)\<rparr>)"

definition start_request :: "phy_config \<Rightarrow> proxy_msg \<Rightarrow> proxy_pnf \<Rightarrow> proxy_result" where
  "start_request phy m p =
     (let c = fill_p7_config (pc_phy_id phy) (user p) nfapi_pnf_p7_config_create in
      p5_then (p5_then (emit (Start_p7 Lte c) p) (nfapi_send_pnf_start_resp (pnf_phy_id c)))
        (emit (First_tick Lte c 0)))"

definition nr_start_request :: "phy_config \<Rightarrow> proxy_msg \<Rightarrow> proxy_pnf \<Rightarrow> proxy_result" where
  "nr_start_request phy m p =
     (let c = fill_p7_config (pc_phy_id phy) (user p) nfapi_pnf_p7_config_create in
      p5_then (p5_then (emit (Start_p7 Nr c) p) (nfapi_nr_send_pnf_start_resp (pnf_phy_id c)))
        (emit (First_tick Nr c 0)))"

definition NFAPI_P4_MSG_OK :: u32 where "NFAPI_P4_MSG_OK = 100"

definition measurement_request :: "phy_config \<Rightarrow> proxy_msg \<Rightarrow> proxy_pnf \<Rightarrow> proxy_result" where
  "measurement_request phy m p = nfapi_pnf_measurement_resp NFAPI_MEASUREMENT_RESPONSE (p5_phy_id (fst m)) NFAPI_MSG_OK p"

definition rssi_request :: "phy_config \<Rightarrow> proxy_msg \<Rightarrow> proxy_pnf \<Rightarrow> proxy_result" where
  "rssi_request phy m p =
     p5_then (nfapi_pnf_rssi_resp NFAPI_RSSI_RESPONSE (p5_phy_id (fst m)) NFAPI_P4_MSG_OK p)
       (nfapi_pnf_rssi_ind NFAPI_RSSI_INDICATION (p5_phy_id (fst m)) NFAPI_P4_MSG_OK)"

definition cell_search_request :: "phy_config \<Rightarrow> proxy_msg \<Rightarrow> proxy_pnf \<Rightarrow> proxy_result" where
  "cell_search_request phy m p =
     p5_then (nfapi_pnf_cell_search_resp NFAPI_CELL_SEARCH_RESPONSE (p5_phy_id (fst m)) NFAPI_P4_MSG_OK p)
       (nfapi_pnf_cell_search_ind NFAPI_CELL_SEARCH_INDICATION (p5_phy_id (fst m)) NFAPI_P4_MSG_OK)"

definition broadcast_detect_request :: "phy_config \<Rightarrow> proxy_msg \<Rightarrow> proxy_pnf \<Rightarrow> proxy_result" where
  "broadcast_detect_request phy m p =
     p5_then (nfapi_pnf_broadcast_detect_resp NFAPI_BROADCAST_DETECT_RESPONSE (p5_phy_id (fst m)) NFAPI_P4_MSG_OK p)
       (nfapi_pnf_broadcast_detect_ind NFAPI_BROADCAST_DETECT_INDICATION (p5_phy_id (fst m)) NFAPI_P4_MSG_OK)"

definition system_information_schedule_request :: "phy_config \<Rightarrow> proxy_msg \<Rightarrow> proxy_pnf \<Rightarrow> proxy_result" where
  "system_information_schedule_request phy m p =
     p5_then (nfapi_pnf_system_information_schedule_resp NFAPI_SYSTEM_INFORMATION_SCHEDULE_RESPONSE (p5_phy_id (fst m)) NFAPI_P4_MSG_OK p)
       (nfapi_pnf_system_information_schedule_ind NFAPI_SYSTEM_INFORMATION_SCHEDULE_INDICATION (p5_phy_id (fst m)) NFAPI_P4_MSG_OK)"

definition system_information_request :: "phy_config \<Rightarrow> proxy_msg \<Rightarrow> proxy_pnf \<Rightarrow> proxy_result" where
  "system_information_request phy m p =
     p5_then (nfapi_pnf_system_information_resp NFAPI_SYSTEM_INFORMATION_RESPONSE (p5_phy_id (fst m)) NFAPI_P4_MSG_OK p)
       (nfapi_pnf_system_information_ind NFAPI_SYSTEM_INFORMATION_INDICATION (p5_phy_id (fst m)) NFAPI_P4_MSG_OK)"

definition nmm_stop_request :: "phy_config \<Rightarrow> proxy_msg \<Rightarrow> proxy_pnf \<Rightarrow> proxy_result" where
  "nmm_stop_request phy m p = nfapi_pnf_nmm_stop_resp NFAPI_NMM_STOP_RESPONSE (p5_phy_id (fst m)) NFAPI_P4_MSG_OK p"

section \<open>The two configurations\<close>

type_synonym proxy_client = "(phy_info, config_body, proxy_event) p5_client"

definition configure_nfapi_pnf :: proxy_client where
  "configure_nfapi_pnf =
     \<lparr>pnf_param_req = Some pnf_param_request, pnf_config_req = Some pnf_config_request,
      pnf_start_req = Some pnf_start_request, pnf_stop_req = Some pnf_stop_request,
      param_req = Some param_request, config_req = Some config_request, start_req = Some start_request, stop_req = None,
      measurement_req = Some measurement_request, rssi_req = Some rssi_request, cell_search_req = Some cell_search_request,
      broadcast_detect_req = Some broadcast_detect_request,
      system_information_schedule_req = Some system_information_schedule_request,
      system_information_req = Some system_information_request, nmm_stop_req = Some nmm_stop_request,
      pnf_nr_param_req = None, pnf_nr_config_req = None, pnf_nr_start_req = None,
      nr_param_req = None, nr_config_req = None, nr_start_req = None, nr_stop_req = None,
      allocate_p4_p5_vendor_ext = None, vendor_ext = None\<rparr>"

definition configure_nr_nfapi_pnf :: proxy_client where
  "configure_nr_nfapi_pnf =
     \<lparr>pnf_param_req = None, pnf_config_req = None, pnf_start_req = None, pnf_stop_req = Some pnf_stop_request,
      param_req = None, config_req = None, start_req = None, stop_req = None,
      measurement_req = Some measurement_request, rssi_req = Some rssi_request, cell_search_req = Some cell_search_request,
      broadcast_detect_req = Some broadcast_detect_request,
      system_information_schedule_req = Some system_information_schedule_request,
      system_information_req = Some system_information_request, nmm_stop_req = Some nmm_stop_request,
      pnf_nr_param_req = Some pnf_nr_param_request, pnf_nr_config_req = Some pnf_nr_config_request,
      pnf_nr_start_req = Some pnf_nr_start_request,
      nr_param_req = Some nr_param_request, nr_config_req = Some nr_config_request,
      nr_start_req = Some nr_start_request, nr_stop_req = None,
      allocate_p4_p5_vendor_ext = None, vendor_ext = None\<rparr>"

text \<open>The PNF of a radio: its dispatcher and its client.  An input is a message or the loss of the connection.\<close>

datatype p5_input = Received "u8 list" | Connection_lost

definition proxy_init :: proxy_pnf where
  "proxy_init = \<lparr>pnf_p5_state = PNF_IDLE, phys = [], user = zero_phy_info\<rparr>"

definition proxy_step :: "p7_radio \<Rightarrow> config_body p5_codec \<Rightarrow> p5_input \<Rightarrow> proxy_pnf \<Rightarrow> proxy_result" where
  "proxy_step r cd i p =
     (case i of Connection_lost \<Rightarrow> (pnf_connection_lost p, [])
      | Received msg \<Rightarrow> (case r of Lte \<Rightarrow> pnf_handle_p5_message configure_nfapi_pnf cd msg p
                                | Nr \<Rightarrow> pnf_nr_handle_p5_message configure_nr_nfapi_pnf cd msg p))"

fun run_proxy :: "p7_radio \<Rightarrow> config_body p5_codec \<Rightarrow> p5_input list \<Rightarrow> proxy_pnf \<Rightarrow> proxy_result" where
  "run_proxy r cd [] p = (p, [])"
| "run_proxy r cd (i # is) p = p5_then (proxy_step r cd i p) (run_proxy r cd is)"

section \<open>The state machine of the specification\<close>

type_synonym fapi_state = "p5_state \<times> phy_config list"

definition config_request_id :: "p7_radio \<Rightarrow> u16" where
  "config_request_id r = (case r of Lte \<Rightarrow> NFAPI_CONFIG_REQUEST | Nr \<Rightarrow> NFAPI_NR_PHY_MSG_TYPE_CONFIG_REQUEST)"

definition config_response_id :: "p7_radio \<Rightarrow> u16" where
  "config_response_id r = (case r of Lte \<Rightarrow> NFAPI_CONFIG_RESPONSE | Nr \<Rightarrow> NFAPI_NR_PHY_MSG_TYPE_CONFIG_RESPONSE)"

definition start_request_id :: "p7_radio \<Rightarrow> u16" where
  "start_request_id r = (case r of Lte \<Rightarrow> NFAPI_START_REQUEST | Nr \<Rightarrow> NFAPI_NR_PHY_MSG_TYPE_START_REQUEST)"

text \<open>The answers that announce no change of state.\<close>

fun plain_answer :: "proxy_event p5_event \<Rightarrow> bool" where
  "plain_answer (Client e) = False"
| "plain_answer (Sent mid phy err) = (err \<noteq> NFAPI_MSG_OK \<or> mid \<notin> {NFAPI_PNF_CONFIG_RESPONSE, NFAPI_PNF_START_RESPONSE,
     NFAPI_PNF_STOP_RESPONSE, NFAPI_CONFIG_RESPONSE, NFAPI_NR_PHY_MSG_TYPE_CONFIG_RESPONSE, NFAPI_START_RESPONSE, NFAPI_STOP_RESPONSE})"

text \<open>
  One request with header \<open>h\<close>: either nothing but plain answers, or the transition that the request asks for, from
  the states where it is allowed, announced by its answer.
\<close>

inductive fapi_step :: "p7_radio \<Rightarrow> p5_header \<Rightarrow> fapi_state \<Rightarrow> proxy_event p5_event list \<Rightarrow> fapi_state \<Rightarrow> bool" for r h where
  answered: "list_all plain_answer out \<Longrightarrow> fapi_step r h s out s"
| pnf_configured: "p5_message_id h = NFAPI_PNF_CONFIG_REQUEST \<Longrightarrow> s \<noteq> PNF_RUNNING \<Longrightarrow> \<forall>c \<in> set cs'. pc_state c = PHY_IDLE \<Longrightarrow>
    length cs' \<le> 1 \<Longrightarrow> fapi_step r h (s, cs) [Sent NFAPI_PNF_CONFIG_RESPONSE 0 NFAPI_MSG_OK] (PNF_CONFIGURED, cs')"
| pnf_started: "p5_message_id h = NFAPI_PNF_START_REQUEST \<Longrightarrow>
    fapi_step r h (PNF_CONFIGURED, cs) [Sent NFAPI_PNF_START_RESPONSE 0 NFAPI_MSG_OK] (PNF_RUNNING, cs)"
| pnf_stopped: "p5_message_id h = NFAPI_PNF_STOP_REQUEST \<Longrightarrow>
    fapi_step r h (PNF_RUNNING, cs) [Sent NFAPI_PNF_STOP_RESPONSE 0 NFAPI_MSG_OK] (PNF_CONFIGURED, cs)"
| phy_configured: "p5_message_id h = config_request_id r \<Longrightarrow> find_phy (p5_phy_id h) cs = Some c \<Longrightarrow> pc_state c \<noteq> PHY_RUNNING \<Longrightarrow>
    fapi_step r h (PNF_RUNNING, cs) [Sent (config_response_id r) (p5_phy_id h) NFAPI_MSG_OK]
      (PNF_RUNNING, set_phy_state (p5_phy_id h) PHY_CONFIGURED cs)"
| phy_started: "p5_message_id h = start_request_id r \<Longrightarrow> find_phy (p5_phy_id h) cs = Some c \<Longrightarrow> pc_state c \<noteq> PHY_RUNNING \<Longrightarrow>
    pnf_phy_id cfg = p5_phy_id h \<Longrightarrow>
    fapi_step r h (PNF_RUNNING, cs)
      [Client (Start_p7 r cfg), Sent NFAPI_START_RESPONSE (p5_phy_id h) NFAPI_MSG_OK, Client (First_tick r cfg 0)]
      (PNF_RUNNING, set_phy_state (p5_phy_id h) PHY_RUNNING cs)"

inductive fapi_run :: "p7_radio \<Rightarrow> p5_input list \<Rightarrow> fapi_state \<Rightarrow> proxy_event p5_event list \<Rightarrow> fapi_state \<Rightarrow> bool" for r where
  ended: "fapi_run r [] s [] s"
| received: "nfapi_p5_message_header_unpack msg = Some h \<Longrightarrow> fapi_step r h s out s' \<Longrightarrow> fapi_run r is s' outs s'' \<Longrightarrow>
    fapi_run r (Received msg # is) s (out @ outs) s''"
| no_header: "nfapi_p5_message_header_unpack msg = None \<Longrightarrow> fapi_run r is s outs s' \<Longrightarrow> fapi_run r (Received msg # is) s outs s'"
| lost: "fapi_run r is (PNF_IDLE, cs) outs s' \<Longrightarrow> fapi_run r (Connection_lost # is) (s, cs) outs s'"

lemmas proxy_defs = pnf_param_request_def pnf_nr_param_request_def pnf_config_request_def pnf_nr_config_request_def
  pnf_start_request_def pnf_nr_start_request_def pnf_stop_request_def param_request_def nr_param_request_def
  config_request_def nr_config_request_def start_request_def nr_start_request_def nfapi_send_pnf_start_resp_def
  nfapi_nr_send_pnf_start_resp_def measurement_request_def rssi_request_def cell_search_request_def broadcast_detect_request_def
  system_information_schedule_request_def system_information_request_def nmm_stop_request_def p5_then_def emit_def

lemmas response_ids = NFAPI_PNF_PARAM_RESPONSE_def NFAPI_PNF_CONFIG_RESPONSE_def NFAPI_PNF_START_RESPONSE_def NFAPI_PNF_STOP_RESPONSE_def
  NFAPI_PARAM_RESPONSE_def NFAPI_CONFIG_RESPONSE_def NFAPI_START_RESPONSE_def NFAPI_STOP_RESPONSE_def NFAPI_MEASUREMENT_RESPONSE_def
  NFAPI_RSSI_RESPONSE_def NFAPI_RSSI_INDICATION_def NFAPI_CELL_SEARCH_RESPONSE_def NFAPI_CELL_SEARCH_INDICATION_def
  NFAPI_BROADCAST_DETECT_RESPONSE_def NFAPI_BROADCAST_DETECT_INDICATION_def NFAPI_SYSTEM_INFORMATION_SCHEDULE_RESPONSE_def
  NFAPI_SYSTEM_INFORMATION_SCHEDULE_INDICATION_def NFAPI_SYSTEM_INFORMATION_RESPONSE_def NFAPI_SYSTEM_INFORMATION_INDICATION_def
  NFAPI_NMM_STOP_RESPONSE_def NFAPI_NR_PHY_MSG_TYPE_PNF_PARAM_RESPONSE_def NFAPI_NR_PHY_MSG_TYPE_PNF_CONFIG_RESPONSE_def
  NFAPI_NR_PHY_MSG_TYPE_PNF_START_RESPONSE_def NFAPI_NR_PHY_MSG_TYPE_PARAM_RESPONSE_def NFAPI_NR_PHY_MSG_TYPE_CONFIG_RESPONSE_def
  NFAPI_NR_PHY_MSG_TYPE_START_RESPONSE_def NFAPI_NR_PHY_MSG_TYPE_STOP_RESPONSE_def

text \<open>The packers know the ids of the answers that announce a transition.\<close>

lemma packs_responses [simp]:
  "p5_packs NFAPI_PNF_PARAM_RESPONSE" "p5_packs NFAPI_PNF_CONFIG_RESPONSE" "p5_packs NFAPI_PNF_START_RESPONSE"
  "p5_packs NFAPI_PNF_STOP_RESPONSE" "p5_packs NFAPI_PARAM_RESPONSE" "p5_packs NFAPI_CONFIG_RESPONSE" "p5_packs NFAPI_START_RESPONSE"
  "p5_packs NFAPI_MEASUREMENT_RESPONSE" "nr_p5_packs NFAPI_PNF_PARAM_RESPONSE" "nr_p5_packs NFAPI_NR_PHY_MSG_TYPE_PNF_CONFIG_RESPONSE"
  "nr_p5_packs NFAPI_NR_PHY_MSG_TYPE_PNF_START_RESPONSE" "nr_p5_packs NFAPI_NR_PHY_MSG_TYPE_PARAM_RESPONSE"
  "nr_p5_packs NFAPI_NR_PHY_MSG_TYPE_CONFIG_RESPONSE" "nr_p5_packs NFAPI_NR_PHY_MSG_TYPE_START_RESPONSE"
  by (simp_all add: p5_packs_def nr_p5_packs_def)

lemma fill_p7_config_sel [simp]:
  "pnf_phy_id (fill_p7_config i u c) = i" "subframe_buffer_size (fill_p7_config i u c) = ucast (phy_timing_window u)"
  by (simp_all add: fill_p7_config_def Let_def)

section \<open>Refinement\<close>

text \<open>The configured PHY is the one that the proxy keeps.\<close>

definition one_phy :: "proxy_pnf \<Rightarrow> bool" where
  "one_phy p \<longleftrightarrow> length (phys p) \<le> 1 \<and> (\<forall>c \<in> set (phys p). pc_phy_id c = phy_info_id (user p))"

definition at_most_one_phy :: "proxy_msg \<Rightarrow> bool" where
  "at_most_one_phy m \<longleftrightarrow> (case rf_config (snd m) of None \<Rightarrow> True | Some ids \<Rightarrow> length ids \<le> 1)"

definition fapi_of :: "proxy_pnf \<Rightarrow> fapi_state" where
  "fapi_of p = (pnf_p5_state p, phys p)"

definition follows_fapi :: "p7_radio \<Rightarrow> p5_header \<Rightarrow> proxy_pnf \<Rightarrow> proxy_result \<Rightarrow> bool" where
  "follows_fapi r h p res \<longleftrightarrow> (one_phy p \<longrightarrow> one_phy (fst res) \<and> fapi_step r h (fapi_of p) (snd res) (fapi_of (fst res)))"

lemma plain_follows: "fst res = p \<Longrightarrow> list_all plain_answer (snd res) \<Longrightarrow> follows_fapi r h p res"
  by (auto simp: follows_fapi_def fapi_of_def intro: answered)

lemma one_phy_set_state:
  "one_phy p \<Longrightarrow> one_phy (p\<lparr>phys := set_phy_state i s (phys p)\<rparr>)"
  by (cases "phys p") (auto simp: one_phy_def)

lemma one_phy_user:
  "phy_info_id u = phy_info_id (user p) \<Longrightarrow> one_phy (p\<lparr>user := u\<rparr>) = one_phy p"
  by (simp add: one_phy_def)

lemma one_phy_found: "one_phy p \<Longrightarrow> find_phy i (phys p) = Some c \<Longrightarrow> phy_info_id (user p) = i \<and> pc_phy_id c = i"
  using find_phy_id [of i "phys p" c] by (auto simp: one_phy_def)

lemmas client_defs = configure_nfapi_pnf_def configure_nr_nfapi_pnf_def lte_pnf_callbacks_def nr_pnf_callbacks_def
  lte_phy_callbacks_def nr_phy_callbacks_def common_phy_callbacks_def

lemma config_follows:
  assumes "p5_message_id h = NFAPI_PNF_CONFIG_REQUEST" "pnf_p5_state p \<noteq> PNF_RUNNING" "at_most_one_phy (h, b)"
  shows "follows_fapi r h p (pnf_config_request (h, b) (create_phys (h, b) p))"
    "follows_fapi r h p (pnf_nr_config_request (h, b) (create_phys (h, b) p))"
proof -
  have "length (phys (create_phys (h, b) p)) \<le> 1" "\<forall>c \<in> set (phys (create_phys (h, b) p)). pc_state c = PHY_IDLE"
    "\<forall>c \<in> set (phys (create_phys (h, b) p)). pc_phy_id c = first_phy_id (h, b)"
    using assms(3) by (auto simp: create_phys_eq at_most_one_phy_def first_phy_id_def le_Suc_eq length_Suc_conv split: option.splits list.splits)
  with assms(1,2) pnf_configured [of h "pnf_p5_state p" "phys (create_phys (h, b) p)" r "phys p"]
  show "follows_fapi r h p (pnf_config_request (h, b) (create_phys (h, b) p))"
    "follows_fapi r h p (pnf_nr_config_request (h, b) (create_phys (h, b) p))"
    by (simp_all add: follows_fapi_def one_phy_def fapi_of_def proxy_defs response_defs
        NFAPI_NR_PHY_MSG_TYPE_PNF_CONFIG_RESPONSE_def NFAPI_PNF_CONFIG_RESPONSE_def
        packs_responses [unfolded NFAPI_NR_PHY_MSG_TYPE_PNF_CONFIG_RESPONSE_def NFAPI_PNF_CONFIG_RESPONSE_def])
qed

lemma start_follows:
  assumes "p5_message_id h = NFAPI_PNF_START_REQUEST" "pnf_p5_state p = PNF_CONFIGURED"
  shows "follows_fapi r h p (pnf_start_request m p)" "follows_fapi r h p (pnf_nr_start_request m p)"
  using assms pnf_started [OF assms(1), of r "phys p"]
  by (simp_all add: follows_fapi_def one_phy_def fapi_of_def proxy_defs response_defs answered
      NFAPI_NR_PHY_MSG_TYPE_PNF_START_RESPONSE_def NFAPI_PNF_START_RESPONSE_def
      packs_responses [unfolded NFAPI_NR_PHY_MSG_TYPE_PNF_START_RESPONSE_def NFAPI_PNF_START_RESPONSE_def])

lemma stop_follows:
  assumes "p5_message_id h = NFAPI_PNF_STOP_REQUEST" "pnf_p5_state p = PNF_RUNNING"
  shows "follows_fapi r h p (pnf_stop_request m p)"
  using assms pnf_stopped [OF assms(1), of r "phys p"]
  by (simp add: follows_fapi_def one_phy_def fapi_of_def proxy_defs response_defs)

lemma phy_config_follows:
  assumes "p5_message_id h = config_request_id r" "pnf_p5_state p = PNF_RUNNING"
    "find_phy (p5_phy_id h) (phys p) = Some c" "pc_state c \<noteq> PHY_RUNNING"
  shows "r = Lte \<Longrightarrow> follows_fapi r h p (config_request c' (h, b) p)" "r = Nr \<Longrightarrow> follows_fapi r h p (nr_config_request c' (h, b) p)"
  using assms phy_configured [OF assms(1,3,4)] one_phy_found [of p "p5_phy_id h" c] one_phy_set_state [of p "p5_phy_id h" PHY_CONFIGURED]
  by (auto simp: follows_fapi_def one_phy_def fapi_of_def proxy_defs response_defs Let_def apply_config_def
      nfapi_pnf_phy_config_find_def config_response_id_def NFAPI_MSG_OK_def)

lemma phy_start_follows:
  assumes "p5_message_id h = start_request_id r" "pnf_p5_state p = PNF_RUNNING"
    "find_phy (p5_phy_id h) (phys p) = Some c" "pc_state c \<noteq> PHY_RUNNING"
  shows "r = Lte \<Longrightarrow> follows_fapi r h p (start_request c m p)" "r = Nr \<Longrightarrow> follows_fapi r h p (nr_start_request c m p)"
proof -
  have c: "pc_phy_id c = p5_phy_id h" using find_phy_id [OF assms(3)] by simp
  have e: "NFAPI_NR_PHY_MSG_TYPE_START_RESPONSE = NFAPI_START_RESPONSE"
    by (simp add: NFAPI_NR_PHY_MSG_TYPE_START_RESPONSE_def NFAPI_START_RESPONSE_def)
  show "r = Lte \<Longrightarrow> follows_fapi r h p (start_request c m p)" "r = Nr \<Longrightarrow> follows_fapi r h p (nr_start_request c m p)"
    using assms phy_started [OF assms(1,3,4), of "fill_p7_config (pc_phy_id c) (user p) nfapi_pnf_p7_config_create"] c
      one_phy_set_state [of p "p5_phy_id h" PHY_RUNNING] packs_responses(14)
    by (auto simp: follows_fapi_def fapi_of_def proxy_defs response_defs Let_def nfapi_pnf_phy_config_find_def e)
qed

lemma plain_callbacks:
  "follows_fapi r h p (pnf_param_request m p)" "follows_fapi r h p (pnf_nr_param_request m p)"
  "follows_fapi r h p (param_request c m p)" "follows_fapi r h p (nr_param_request c m p)"
  "follows_fapi r h p (measurement_request c m p)" "follows_fapi r h p (rssi_request c m p)"
  "follows_fapi r h p (cell_search_request c m p)" "follows_fapi r h p (broadcast_detect_request c m p)"
  "follows_fapi r h p (system_information_schedule_request c m p)" "follows_fapi r h p (system_information_request c m p)"
  "follows_fapi r h p (nmm_stop_request c m p)"
  by (rule plain_follows; simp add: proxy_defs response_defs response_ids)+

interpretation lte_proxy: lte_client configure_nfapi_pnf at_most_one_phy "follows_fapi Lte"
proof
  show "follows_fapi Lte h p (p, [])" for h p by (rule plain_follows) simp_all
  show "follows_fapi Lte h p (p, [Sent mid phy err])" if "err \<noteq> NFAPI_MSG_OK" for h p err mid phy
    using that by (intro plain_follows) simp_all
  show "follows_fapi Lte h p (call_client (pnf_config_req configure_nfapi_pnf) (h, b) (create_phys (h, b) p))"
    if "p5_message_id h = NFAPI_PNF_CONFIG_REQUEST" "pnf_p5_state p \<noteq> PNF_RUNNING" "at_most_one_phy (h, b)" for h p b
    using config_follows(1) [OF that] by (simp add: configure_nfapi_pnf_def call_client_def)
qed (auto simp: client_defs config_request_id_def start_request_id_def
    intro: plain_callbacks start_follows stop_follows phy_config_follows phy_start_follows)

lemma same_ids:
  "NFAPI_NR_PHY_MSG_TYPE_PNF_START_REQUEST = NFAPI_PNF_START_REQUEST"
  by (simp add: NFAPI_NR_PHY_MSG_TYPE_PNF_START_REQUEST_def NFAPI_PNF_START_REQUEST_def)

interpretation nr_proxy: nr_client configure_nr_nfapi_pnf at_most_one_phy "follows_fapi Nr"
proof
  show "follows_fapi Nr h p (p, [])" for h p by (rule plain_follows) simp_all
  show "follows_fapi Nr h p (p, [Sent mid phy err])" if "err \<noteq> NFAPI_MSG_OK" for h p err mid phy
    using that by (intro plain_follows) simp_all
  show "follows_fapi Nr h p (call_client (pnf_nr_config_req configure_nr_nfapi_pnf) (h, b) (create_phys (h, b) p))"
    if "p5_message_id h = NFAPI_PNF_CONFIG_REQUEST" "pnf_p5_state p \<noteq> PNF_RUNNING" "at_most_one_phy (h, b)" for h p b
    using config_follows(2) [OF that] by (simp add: configure_nr_nfapi_pnf_def call_client_def)
qed (auto simp: client_defs config_request_id_def start_request_id_def same_ids
    intro: plain_callbacks start_follows stop_follows phy_config_follows phy_start_follows)

lemma proxy_step_follows:
  assumes "decodes_good cd at_most_one_phy msg" "nfapi_p5_message_header_unpack msg = Some h"
  shows "follows_fapi r h p (proxy_step r cd (Received msg) p)"
  using lte_proxy.message_step [OF assms] nr_proxy.message_step [OF assms] by (cases r) (simp_all add: proxy_step_def)

lemma proxy_step_no_header:
  "nfapi_p5_message_header_unpack msg = None \<Longrightarrow> proxy_step r cd (Received msg) p = (p, [])"
  by (cases r) (simp_all add: proxy_step_def pnf_handle_p5_message_def pnf_nr_handle_p5_message_def)

definition input_good :: "config_body p5_codec \<Rightarrow> (proxy_msg \<Rightarrow> bool) \<Rightarrow> p5_input \<Rightarrow> bool" where
  "input_good cd good i = (case i of Received msg \<Rightarrow> decodes_good cd good msg | Connection_lost \<Rightarrow> True)"

lemma run_proxy_follows:
  "one_phy p \<Longrightarrow> \<forall>i \<in> set is. input_good cd at_most_one_phy i \<Longrightarrow>
   one_phy (fst (run_proxy r cd is p)) \<and> fapi_run r is (fapi_of p) (snd (run_proxy r cd is p)) (fapi_of (fst (run_proxy r cd is p)))"
proof (induction "is" arbitrary: p)
  case Nil
  then show ?case by (simp add: ended)
next
  case (Cons i "is")
  obtain q out where q: "proxy_step r cd i p = (q, out)" by fastforce
  obtain q' out' where q': "run_proxy r cd is q = (q', out')" by fastforce
  have run: "run_proxy r cd (i # is) p = (q', out @ out')" by (simp add: q q' p5_then_def)
  have good: "\<forall>i \<in> set is. input_good cd at_most_one_phy i" using Cons.prems(2) by simp
  show ?case
  proof (cases i)
    case Connection_lost
    then have "q = pnf_connection_lost p" "out = []" using q by (simp_all add: proxy_step_def)
    moreover have "one_phy (pnf_connection_lost p)" "fapi_of (pnf_connection_lost p) = (PNF_IDLE, phys p)"
      using Cons.prems(1) by (simp_all add: one_phy_def fapi_of_def pnf_connection_lost_def)
    ultimately show ?thesis using Cons.IH [of q] good run q' Connection_lost
      by (auto simp: fapi_of_def intro: lost)
  next
    case (Received msg)
    show ?thesis
    proof (cases "nfapi_p5_message_header_unpack msg")
      case None
      then have "q = p" "out = []" using q Received by (simp_all add: proxy_step_no_header)
      then show ?thesis using Cons.IH [of q] Cons.prems(1) good run q' Received None by (auto intro: no_header)
    next
      case (Some h)
      have "follows_fapi r h p (q, out)"
        using proxy_step_follows [OF _ Some, of cd r p] Cons.prems(2) q Received by (simp add: input_good_def)
      then have "one_phy q" "fapi_step r h (fapi_of p) out (fapi_of q)" using Cons.prems(1) by (simp_all add: follows_fapi_def)
      then show ?thesis using Cons.IH [of q] good run q' Received Some by (auto intro: received)
    qed
  qed
qed

section \<open>How often P7 is started\<close>

definition is_start :: "proxy_event p5_event \<Rightarrow> bool" where
  "is_start e = (case e of Client (Start_p7 r c) \<Rightarrow> True | _ \<Rightarrow> False)"

definition is_pnf_config_ok :: "proxy_event p5_event \<Rightarrow> bool" where
  "is_pnf_config_ok e \<longleftrightarrow> e = Sent NFAPI_PNF_CONFIG_RESPONSE 0 NFAPI_MSG_OK"

definition not_running :: "phy_config list \<Rightarrow> nat" where
  "not_running cs = length (filter (\<lambda>c. pc_state c \<noteq> PHY_RUNNING) cs)"

lemma not_running_set:
  "find_phy i cs = Some c \<Longrightarrow> pc_state c \<noteq> PHY_RUNNING \<Longrightarrow>
   not_running (set_phy_state i s cs) + (if s = PHY_RUNNING then 1 else 0) = not_running cs"
  by (induction i s cs rule: set_phy_state.induct) (auto simp: not_running_def split: if_splits)

lemma not_running_length: "not_running cs \<le> length cs"
  by (simp add: not_running_def)

lemma plain_not_start: "list_all plain_answer out \<Longrightarrow> filter is_start out = []"
  by (induction out) (auto simp: is_start_def split: p5_event.split proxy_event.split)

lemma fapi_step_starts:
  "fapi_step r h s out s' \<Longrightarrow>
   length (filter is_start out) + not_running (snd s') \<le> length (filter is_pnf_config_ok out) + not_running (snd s)"
proof (induction rule: fapi_step.induct)
  case (pnf_configured s cs' cs)
  then show ?case using not_running_length [of cs'] by (simp add: is_start_def is_pnf_config_ok_def)
next
  case (phy_configured cs c)
  then show ?case using not_running_set [OF phy_configured(2,3), of PHY_CONFIGURED] by (simp add: is_start_def)
next
  case (phy_started cs c cfg)
  then show ?case using not_running_set [OF phy_started(2,3), of PHY_RUNNING] by (simp add: is_start_def)
next
  case (answered out s)
  then show ?case by (simp add: plain_not_start)
qed (simp_all add: is_start_def)

lemma fapi_run_starts:
  "fapi_run r is s out s' \<Longrightarrow>
   length (filter is_start out) + not_running (snd s') \<le> length (filter is_pnf_config_ok out) + not_running (snd s)"
proof (induction rule: fapi_run.induct)
  case (received msg h s out s' "is" outs s'')
  then show ?case using fapi_step_starts [OF received(2)] by simp
qed simp_all

section \<open>The window of the P7 instances\<close>

definition small_window :: "proxy_msg \<Rightarrow> bool" where
  "small_window m \<longleftrightarrow> (case tlv_timing_window (contents (snd m)) of None \<Rightarrow> True | Some w \<Rightarrow> w \<le> 30)"

definition windows_ok :: "p5_header \<Rightarrow> proxy_pnf \<Rightarrow> proxy_result \<Rightarrow> bool" where
  "windows_ok h p res \<longleftrightarrow> (phy_timing_window (user p) \<le> 30 \<longrightarrow> phy_timing_window (user (fst res)) \<le> 30 \<and>
     (\<forall>r c. Client (Start_p7 r c) \<in> set (snd res) \<longrightarrow> subframe_buffer_size c \<le> 30))"

lemma ucast_window: "(w :: u8) \<le> 30 \<Longrightarrow> (ucast w :: u16) \<le> 30"
  by (simp add: word_le_nat_alt unsigned_ucast_eq take_bit_nat_eq_self)

lemma windows_plain:
  "user (fst res) = user p \<Longrightarrow> list_all (\<lambda>e. \<not> is_start e) (snd res) \<Longrightarrow> windows_ok h p res"
  by (force simp: windows_ok_def is_start_def list_all_iff)

lemma windows_callbacks:
  "windows_ok h p (pnf_param_request m p)" "windows_ok h p (pnf_nr_param_request m p)"
  "windows_ok h p (param_request c m p)" "windows_ok h p (nr_param_request c m p)"
  "windows_ok h p (pnf_start_request m p)" "windows_ok h p (pnf_nr_start_request m p)" "windows_ok h p (pnf_stop_request m p)"
  "windows_ok h p (measurement_request c m p)" "windows_ok h p (rssi_request c m p)"
  "windows_ok h p (cell_search_request c m p)" "windows_ok h p (broadcast_detect_request c m p)"
  "windows_ok h p (system_information_schedule_request c m p)" "windows_ok h p (system_information_request c m p)"
  "windows_ok h p (nmm_stop_request c m p)"
  by (rule windows_plain; simp add: proxy_defs response_defs is_start_def)+

lemma windows_config:
  "windows_ok h p (pnf_config_request m (create_phys m p))" "windows_ok h p (pnf_nr_config_request m (create_phys m p))"
  by (simp_all add: windows_ok_def proxy_defs response_defs create_phys_eq)

lemma windows_phy_config:
  "small_window (h, b) \<Longrightarrow> windows_ok h p (config_request c (h, b) p)" "small_window (h, b) \<Longrightarrow> windows_ok h p (nr_config_request c (h, b) p)"
  by (auto simp: windows_ok_def proxy_defs response_defs apply_config_def small_window_def Let_def split: option.splits)

lemma windows_phy_start:
  "windows_ok h p (start_request c m p)" "windows_ok h p (nr_start_request c m p)"
  by (auto simp: windows_ok_def proxy_defs response_defs Let_def ucast_window split: option.splits)

interpretation lte_windows: lte_client configure_nfapi_pnf small_window windows_ok
proof
  show "windows_ok h p (p, [])" "windows_ok h p (p, [Sent mid phy err])" for h p mid phy err
    by (rule windows_plain; simp add: is_start_def)+
  show "windows_ok h p (call_client (pnf_config_req configure_nfapi_pnf) (h, b) (create_phys (h, b) p))" for h p b
    using windows_config(1) by (simp add: configure_nfapi_pnf_def call_client_def)
qed (auto simp: client_defs intro: windows_callbacks windows_phy_config windows_phy_start)

interpretation nr_windows: nr_client configure_nr_nfapi_pnf small_window windows_ok
proof
  show "windows_ok h p (p, [])" "windows_ok h p (p, [Sent mid phy err])" for h p mid phy err
    by (rule windows_plain; simp add: is_start_def)+
  show "windows_ok h p (call_client (pnf_nr_config_req configure_nr_nfapi_pnf) (h, b) (create_phys (h, b) p))" for h p b
    using windows_config(2) by (simp add: configure_nr_nfapi_pnf_def call_client_def)
qed (auto simp: client_defs intro: windows_callbacks windows_phy_config windows_phy_start)

lemma proxy_step_windows:
  assumes "input_good cd small_window i" "phy_timing_window (user p) \<le> 30"
  shows "phy_timing_window (user (fst (proxy_step r cd i p))) \<le> 30 \<and>
    (\<forall>r' c. Client (Start_p7 r' c) \<in> set (snd (proxy_step r cd i p)) \<longrightarrow> subframe_buffer_size c \<le> 30)"
proof (cases i)
  case Connection_lost
  then show ?thesis using assms by (simp add: proxy_step_def pnf_connection_lost_def)
next
  case (Received msg)
  show ?thesis
  proof (cases "nfapi_p5_message_header_unpack msg")
    case None
    then show ?thesis using assms Received by (simp add: proxy_step_no_header)
  next
    case (Some h)
    have "decodes_good cd small_window msg" using assms Received by (simp add: input_good_def)
    note s = lte_windows.message_step [OF this Some, of p] nr_windows.message_step [OF this Some, of p]
    show ?thesis using s assms Received by (cases r) (simp_all add: proxy_step_def windows_ok_def)
  qed
qed

lemma run_proxy_windows:
  "\<forall>i \<in> set is. input_good cd small_window i \<Longrightarrow> phy_timing_window (user p) \<le> 30 \<Longrightarrow>
   Client (Start_p7 r' c) \<in> set (snd (run_proxy r cd is p)) \<Longrightarrow> subframe_buffer_size c \<le> 30"
proof (induction "is" arbitrary: p)
  case (Cons i "is")
  obtain q out where q: "proxy_step r cd i p = (q, out)" by fastforce
  have w: "phy_timing_window (user q) \<le> 30 \<and> (\<forall>r' c. Client (Start_p7 r' c) \<in> set out \<longrightarrow> subframe_buffer_size c \<le> 30)"
    using proxy_step_windows [of cd i p r] Cons.prems q by simp
  show ?case using Cons.IH [of q] Cons.prems w q by (auto simp: p5_then_def case_prod_beta)
qed simp

section \<open>Stopping\<close>

definition no_stop :: "p5_header \<Rightarrow> proxy_pnf \<Rightarrow> proxy_result \<Rightarrow> bool" where
  "no_stop h p res \<longleftrightarrow> (\<forall>phy. Sent NFAPI_STOP_RESPONSE phy NFAPI_MSG_OK \<notin> set (snd res))"

lemma no_stop_callbacks:
  "no_stop h p (pnf_param_request m q)" "no_stop h p (pnf_nr_param_request m q)"
  "no_stop h p (pnf_config_request m q)" "no_stop h p (pnf_nr_config_request m q)"
  "no_stop h p (pnf_start_request m q)" "no_stop h p (pnf_nr_start_request m q)" "no_stop h p (pnf_stop_request m q)"
  "no_stop h p (param_request c m q)" "no_stop h p (nr_param_request c m q)"
  "no_stop h p (config_request c m q)" "no_stop h p (nr_config_request c m q)"
  "no_stop h p (start_request c m q)" "no_stop h p (nr_start_request c m q)"
  "no_stop h p (measurement_request c m q)" "no_stop h p (rssi_request c m q)"
  "no_stop h p (cell_search_request c m q)" "no_stop h p (broadcast_detect_request c m q)"
  "no_stop h p (system_information_schedule_request c m q)" "no_stop h p (system_information_request c m q)"
  "no_stop h p (nmm_stop_request c m q)"
  by (simp_all add: no_stop_def proxy_defs response_defs response_ids error_codes NFAPI_P4_MSG_OK_def Let_def split: option.split)

interpretation lte_stops: lte_client configure_nfapi_pnf "\<lambda>m. True" no_stop
proof
  show "no_stop h p (call_client (pnf_config_req configure_nfapi_pnf) (h, b) (create_phys (h, b) p))" for h p b
    by (simp add: configure_nfapi_pnf_def call_client_def no_stop_callbacks)
qed (auto simp: client_defs no_stop_def [of _ _ "(_, [])"] no_stop_def [of _ _ "(_, [_])"] intro: no_stop_callbacks)

interpretation nr_stops: nr_client configure_nr_nfapi_pnf "\<lambda>m. True" no_stop
proof
  show "no_stop h p (call_client (pnf_nr_config_req configure_nr_nfapi_pnf) (h, b) (create_phys (h, b) p))" for h p b
    by (simp add: configure_nr_nfapi_pnf_def call_client_def no_stop_callbacks)
qed (auto simp: client_defs no_stop_def [of _ _ "(_, [])"] no_stop_def [of _ _ "(_, [_])"] intro: no_stop_callbacks)

section \<open>Starting up\<close>

text \<open>The message \<open>msg\<close> reaches the handler of the radio as a request \<open>mid\<close> to PHY \<open>i\<close> with the body \<open>b\<close>.\<close>

definition arrives :: "p7_radio \<Rightarrow> config_body p5_codec \<Rightarrow> u8 list \<Rightarrow> u16 \<Rightarrow> u16 \<Rightarrow> config_body p5_body \<Rightarrow> bool" where
  "arrives r cd msg mid i b \<longleftrightarrow> (\<exists>h ok. p5_frame_unpack (case r of Lte \<Rightarrow> lte_body cd | Nr \<Rightarrow> nr_body cd) msg = Some (h, b, ok) \<and>
     p5_message_id h = mid \<and> p5_phy_id h = i)"

lemma proxy_requests:
  assumes "arrives r cd msg mid i b"
  shows "mid = NFAPI_PNF_CONFIG_REQUEST \<Longrightarrow> pnf_p5_state p \<noteq> PNF_RUNNING \<Longrightarrow>
      proxy_step r cd (Received msg) p =
        (\<lparr>pnf_p5_state = PNF_CONFIGURED, phys = phys (create_phys (h', b) p),
          user = (user p)\<lparr>phy_info_id := first_phy_id (h', b)\<rparr>\<rparr>,
         [Sent NFAPI_PNF_CONFIG_RESPONSE 0 NFAPI_MSG_OK])"
    "mid = NFAPI_PNF_START_REQUEST \<Longrightarrow> pnf_p5_state p = PNF_CONFIGURED \<Longrightarrow> phy_info_id (user p) \<noteq> 0 \<Longrightarrow>
      proxy_step r cd (Received msg) p = (p\<lparr>pnf_p5_state := PNF_RUNNING\<rparr>, [Sent NFAPI_PNF_START_RESPONSE 0 NFAPI_MSG_OK])"
    "mid = config_request_id r \<Longrightarrow> pnf_p5_state p = PNF_RUNNING \<Longrightarrow> find_phy i (phys p) = Some c \<Longrightarrow> pc_state c \<noteq> PHY_RUNNING \<Longrightarrow>
      find_phy (phy_info_id (user p)) (phys p) \<noteq> None \<Longrightarrow>
      proxy_step r cd (Received msg) p =
        (p\<lparr>user := apply_config (contents b) (user p), phys := set_phy_state (phy_info_id (user p)) PHY_CONFIGURED (phys p)\<rparr>,
         [Sent (config_response_id r) (phy_info_id (user p)) NFAPI_MSG_OK])"
    "mid = start_request_id r \<Longrightarrow> pnf_p5_state p = PNF_RUNNING \<Longrightarrow> find_phy i (phys p) = Some c \<Longrightarrow> pc_state c \<noteq> PHY_RUNNING \<Longrightarrow>
      proxy_step r cd (Received msg) p =
        (p\<lparr>phys := set_phy_state i PHY_RUNNING (phys p)\<rparr>,
         [Client (Start_p7 r (fill_p7_config i (user p) nfapi_pnf_p7_config_create)), Sent NFAPI_START_RESPONSE i NFAPI_MSG_OK,
          Client (First_tick r (fill_p7_config i (user p) nfapi_pnf_p7_config_create) 0)])"
proof -
  obtain h ok where u: "p5_frame_unpack (case r of Lte \<Rightarrow> lte_body cd | Nr \<Rightarrow> nr_body cd) msg = Some (h, b, ok)"
    and h: "p5_message_id h = mid" "p5_phy_id h = i" using assms by (auto simp: arrives_def)
  note hd = p5_frame_unpack_header [OF u]
  note defs = proxy_step_def pnf_handle_p5_message_def pnf_nr_handle_p5_message_def hd nfapi_p5_message_unpack_def
    nfapi_nr_p5_message_unpack_def h p5_handler_defs pnf_request_def phy_request_def call_client_def configure_nfapi_pnf_def
    configure_nr_nfapi_pnf_def proxy_defs response_defs nfapi_pnf_phy_config_find_def Let_def
  show "proxy_step r cd (Received msg) p =
        (\<lparr>pnf_p5_state = PNF_CONFIGURED, phys = phys (create_phys (h', b) p),
          user = (user p)\<lparr>phy_info_id := first_phy_id (h', b)\<rparr>\<rparr>,
         [Sent NFAPI_PNF_CONFIG_RESPONSE 0 NFAPI_MSG_OK])"
    if "mid = NFAPI_PNF_CONFIG_REQUEST" "pnf_p5_state p \<noteq> PNF_RUNNING"
    using that u by (cases r) (auto simp: defs p5_ids response_ids create_phys_eq first_phy_id_def
        packs_responses [unfolded response_ids] split: option.split)
  show "proxy_step r cd (Received msg) p = (p\<lparr>pnf_p5_state := PNF_RUNNING\<rparr>, [Sent NFAPI_PNF_START_RESPONSE 0 NFAPI_MSG_OK])"
    if "mid = NFAPI_PNF_START_REQUEST" "pnf_p5_state p = PNF_CONFIGURED" "phy_info_id (user p) \<noteq> 0"
    using that u by (cases r) (auto simp: defs p5_ids response_ids packs_responses [unfolded response_ids])
  show "proxy_step r cd (Received msg) p =
        (p\<lparr>user := apply_config (contents b) (user p), phys := set_phy_state (phy_info_id (user p)) PHY_CONFIGURED (phys p)\<rparr>,
         [Sent (config_response_id r) (phy_info_id (user p)) NFAPI_MSG_OK])"
    if "mid = config_request_id r" "pnf_p5_state p = PNF_RUNNING" "find_phy i (phys p) = Some c" "pc_state c \<noteq> PHY_RUNNING"
      "find_phy (phy_info_id (user p)) (phys p) \<noteq> None"
    using that u by (cases r) (auto simp: defs p5_ids response_ids packs_responses [unfolded response_ids] config_request_id_def
        config_response_id_def apply_config_def NFAPI_MSG_OK_def)
  show "proxy_step r cd (Received msg) p =
        (p\<lparr>phys := set_phy_state i PHY_RUNNING (phys p)\<rparr>,
         [Client (Start_p7 r (fill_p7_config i (user p) nfapi_pnf_p7_config_create)), Sent NFAPI_START_RESPONSE i NFAPI_MSG_OK,
          Client (First_tick r (fill_p7_config i (user p) nfapi_pnf_p7_config_create) 0)])"
    if "mid = start_request_id r" "pnf_p5_state p = PNF_RUNNING" "find_phy i (phys p) = Some c" "pc_state c \<noteq> PHY_RUNNING"
    using that u find_phy_id [OF that(3)]
    by (cases r) (auto simp: defs p5_ids response_ids packs_responses [unfolded response_ids] start_request_id_def)
qed

section \<open>Properties\<close>

text \<open>A decoder for examples: the bodies of PNF_CONFIG.request and CONFIG.request are fixed.\<close>

definition sample_p5_body :: "u16 list \<Rightarrow> config_body p5_body" where
  "sample_p5_body ids = \<lparr>rf_config = Some ids, contents = \<lparr>tlv_timing_window = Some 30, tlv_timing_info_mode = Some 3,
     tlv_timing_info_period = Some 10, tlv_dl_bandwidth = None, tlv_ul_bandwidth = None, p7_vnf_port = 50011\<rparr>\<rparr>"

definition sample_p5_codec :: "u16 list \<Rightarrow> config_body p5_codec" where
  "sample_p5_codec ids =
     (let d = (\<lambda>mid. if mid = NFAPI_RSSI_REQUEST then None else Some (\<lambda>r. (sample_p5_body ids, True)))
      in \<lparr>lte_body = d, nr_body = d, p4_body = d\<rparr>)"

definition sample_p5_msg :: "u16 \<Rightarrow> u16 \<Rightarrow> u8 list" where
  "sample_p5_msg mid phy = enc_p5_header \<lparr>p5_phy_id = phy, p5_message_id = mid, p5_message_length = 8, p5_spare = 0\<rparr>"

definition sample_startup :: "p5_input list" where
  "sample_startup = [Received (sample_p5_msg NFAPI_PNF_CONFIG_REQUEST 0), Received (sample_p5_msg NFAPI_PNF_START_REQUEST 0),
     Received (sample_p5_msg NFAPI_CONFIG_REQUEST 1), Received (sample_p5_msg NFAPI_START_REQUEST 1)]"


lemma sample_startup_good: "i \<in> set sample_startup \<Longrightarrow> input_good (sample_p5_codec [1]) at_most_one_phy i"
  by (auto simp: sample_startup_def sample_p5_codec_def sample_p5_body_def input_good_def decodes_good_def at_most_one_phy_def Let_def
      p5_frame_unpack_def split: option.split if_splits)


text \<open>
  C18. A PHY that runs stays as it is until the VNF configures the PNF anew: over every run with at most one PHY, P7 is
  started at most once for every PNF_CONFIG.request that was granted.
\<close>

theorem p7_started_once:
  assumes "\<forall>i \<in> set is. input_good cd at_most_one_phy i"
  shows "length (filter is_start (snd (run_proxy r cd is proxy_init))) \<le>
    length (filter is_pnf_config_ok (snd (run_proxy r cd is proxy_init)))"
proof -
  have "one_phy proxy_init" by (simp add: one_phy_def proxy_init_def)
  from fapi_run_starts [OF conjunct2 [OF run_proxy_follows [OF this assms, of r]]] show ?thesis
    by (simp add: fapi_of_def proxy_init_def not_running_def)
qed

theorem p7_started_once_witness:
  "length (filter is_start (snd (run_proxy Lte (sample_p5_codec [1]) sample_startup proxy_init))) \<le>
     length (filter is_pnf_config_ok (snd (run_proxy Lte (sample_p5_codec [1]) sample_startup proxy_init)))"
  by (rule p7_started_once) (blast intro: sample_startup_good)

lemma startup_run:
  assumes idle: "pnf_p5_state p \<noteq> PNF_RUNNING" and i: "i \<noteq> 0"
    and m1: "arrives r cd m1 NFAPI_PNF_CONFIG_REQUEST i1 b1" "rf_config b1 = Some [i]"
    and m2: "arrives r cd m2 NFAPI_PNF_START_REQUEST i2 b2"
    and m3: "arrives r cd m3 (config_request_id r) i b3" "tlv_timing_window (contents b3) = Some w"
    and m4: "arrives r cd m4 (start_request_id r) i b4"
  defines "c \<equiv> fill_p7_config i (apply_config (contents b3) ((user p)\<lparr>phy_info_id := i\<rparr>)) nfapi_pnf_p7_config_create"
  shows "\<exists>p'. run_proxy r cd [Received m1, Received m2, Received m3, Received m4] p =
      (p', [Sent NFAPI_PNF_CONFIG_RESPONSE 0 NFAPI_MSG_OK, Sent NFAPI_PNF_START_RESPONSE 0 NFAPI_MSG_OK,
            Sent (config_response_id r) i NFAPI_MSG_OK, Client (Start_p7 r c), Sent NFAPI_START_RESPONSE i NFAPI_MSG_OK,
            Client (First_tick r c 0)]) \<and>
    fapi_of p' = (PNF_RUNNING, [\<lparr>pc_phy_id = i, pc_state = PHY_RUNNING\<rparr>]) \<and>
    pnf_phy_id c = i \<and> subframe_buffer_size c = ucast w"
proof -
  define p1 where "p1 = \<lparr>pnf_p5_state = PNF_CONFIGURED, phys = [\<lparr>pc_phy_id = i, pc_state = PHY_IDLE\<rparr>], user = (user p)\<lparr>phy_info_id := i\<rparr>\<rparr>"
  have s1: "proxy_step r cd (Received m1) p = (p1, [Sent NFAPI_PNF_CONFIG_RESPONSE 0 NFAPI_MSG_OK])"
    using proxy_requests(1) [OF m1(1) refl idle, of undefined] m1(2) by (simp add: p1_def create_phys_eq first_phy_id_def)
  define p2 where "p2 = p1\<lparr>pnf_p5_state := PNF_RUNNING\<rparr>"
  have s2: "proxy_step r cd (Received m2) p1 = (p2, [Sent NFAPI_PNF_START_RESPONSE 0 NFAPI_MSG_OK])"
    using proxy_requests(2) [OF m2 refl, of p1] i by (simp add: p1_def p2_def)
  define p3 where "p3 = p2\<lparr>user := apply_config (contents b3) (user p2), phys := [\<lparr>pc_phy_id = i, pc_state = PHY_CONFIGURED\<rparr>]\<rparr>"
  have s3: "proxy_step r cd (Received m3) p2 = (p3, [Sent (config_response_id r) i NFAPI_MSG_OK])"
    using proxy_requests(3) [OF m3(1) refl, of p2] by (simp add: p1_def p2_def p3_def)
  define p4 where "p4 = p3\<lparr>phys := [\<lparr>pc_phy_id = i, pc_state = PHY_RUNNING\<rparr>]\<rparr>"
  have s4: "proxy_step r cd (Received m4) p3 =
      (p4, [Client (Start_p7 r c), Sent NFAPI_START_RESPONSE i NFAPI_MSG_OK, Client (First_tick r c 0)])"
    using proxy_requests(4) [OF m4 refl, of p3] by (simp add: p1_def p2_def p3_def p4_def c_def)
  have "subframe_buffer_size c = ucast w" "pnf_phy_id c = i" using m3(2) by (simp_all add: c_def apply_config_def)
  moreover have "fapi_of p4 = (PNF_RUNNING, [\<lparr>pc_phy_id = i, pc_state = PHY_RUNNING\<rparr>])"
    by (simp add: fapi_of_def p4_def p3_def p2_def)
  ultimately show ?thesis by (intro exI [of _ p4]) (simp add: p5_then_def s1 s2 s3 s4)
qed



lemma sample_arrives:
  "mid \<noteq> NFAPI_RSSI_REQUEST \<Longrightarrow> arrives r (sample_p5_codec ids) (sample_p5_msg mid phy) mid phy (sample_p5_body ids)"
  by (cases r) (auto simp: arrives_def sample_p5_codec_def sample_p5_msg_def p5_frame_unpack_enc [where rest = "[]", simplified] Let_def)

lemma rssi_id: "NFAPI_PNF_CONFIG_REQUEST \<noteq> NFAPI_RSSI_REQUEST" "NFAPI_PNF_START_REQUEST \<noteq> NFAPI_RSSI_REQUEST"
  "config_request_id r \<noteq> NFAPI_RSSI_REQUEST" "start_request_id r \<noteq> NFAPI_RSSI_REQUEST"
  by (cases r; simp add: config_request_id_def start_request_id_def p5_ids)+


lemma sample_startup_small: "i \<in> set sample_startup \<Longrightarrow> input_good (sample_p5_codec [1]) small_window i"
  by (auto simp: sample_startup_def sample_p5_codec_def sample_p5_body_def input_good_def decodes_good_def small_window_def Let_def
      p5_frame_unpack_def word_le_nat_alt split: option.split if_splits)

lemma sample_startup_events:
  "\<exists>p' c. run_proxy Lte (sample_p5_codec [1]) sample_startup proxy_init =
      (p', [Sent NFAPI_PNF_CONFIG_RESPONSE 0 NFAPI_MSG_OK, Sent NFAPI_PNF_START_RESPONSE 0 NFAPI_MSG_OK,
            Sent (config_response_id Lte) 1 NFAPI_MSG_OK, Client (Start_p7 Lte c), Sent NFAPI_START_RESPONSE 1 NFAPI_MSG_OK,
            Client (First_tick Lte c 0)])"
proof -
  have e: "NFAPI_CONFIG_REQUEST = config_request_id Lte" "NFAPI_START_REQUEST = start_request_id Lte"
    by (simp_all add: config_request_id_def start_request_id_def)
  have h: "pnf_p5_state proxy_init \<noteq> PNF_RUNNING" "(1 :: u16) \<noteq> 0" "rf_config (sample_p5_body [1]) = Some [1]"
    "tlv_timing_window (contents (sample_p5_body [1])) = Some 30"
    by (simp_all add: proxy_init_def sample_p5_body_def)
  show ?thesis unfolding sample_startup_def e
    using startup_run [OF h(1,2) sample_arrives [OF rssi_id(1)] h(3) sample_arrives [OF rssi_id(2)] sample_arrives [OF rssi_id(3)] h(4)
        sample_arrives [OF rssi_id(4)], of Lte] by blast
qed


text \<open>
  Without the restriction to one PHY the proxy leaves the state machine: CONFIG.request for a second PHY \<open>j\<close> is granted
  in the name of the first PHY \<open>i\<close>, which runs, and takes it back to CONFIGURED, while \<open>j\<close> keeps its state; a
  START.request for \<open>i\<close> is then granted again and starts a second P7 instance for it.
\<close>

theorem second_phy_restarts_first:
  assumes run: "pnf_p5_state p = PNF_RUNNING" and i: "phy_info_id (user p) = i" "find_phy i (phys p) = Some c" "pc_state c = PHY_RUNNING"
    and j: "j \<noteq> i" "find_phy j (phys p) = Some d" "pc_state d \<noteq> PHY_RUNNING"
    and m: "arrives r cd m1 (config_request_id r) j b1" "arrives r cd m2 (start_request_id r) i b2"
  shows "\<exists>p1 p2 cfg. proxy_step r cd (Received m1) p = (p1, [Sent (config_response_id r) i NFAPI_MSG_OK]) \<and>
    find_phy i (phys p1) = Some (c\<lparr>pc_state := PHY_CONFIGURED\<rparr>) \<and> find_phy j (phys p1) = Some d \<and>
    proxy_step r cd (Received m2) p1 =
      (p2, [Client (Start_p7 r cfg), Sent NFAPI_START_RESPONSE i NFAPI_MSG_OK, Client (First_tick r cfg 0)])"
proof -
  define p1 where "p1 = p\<lparr>user := apply_config (contents b1) (user p), phys := set_phy_state i PHY_CONFIGURED (phys p)\<rparr>"
  have s1: "proxy_step r cd (Received m1) p = (p1, [Sent (config_response_id r) i NFAPI_MSG_OK])"
    using proxy_requests(3) [OF m(1) refl run j(2,3)] i by (simp add: p1_def)
  have f: "find_phy i (phys p1) = Some (c\<lparr>pc_state := PHY_CONFIGURED\<rparr>)" "find_phy j (phys p1) = Some d"
    using i j by (simp_all add: p1_def find_set_phy_state)
  have "pnf_p5_state p1 = PNF_RUNNING" using run by (simp add: p1_def)
  from proxy_requests(4) [OF m(2) refl this f(1)] s1 f show ?thesis by auto
qed

definition sample_two_phys :: proxy_pnf where
  "sample_two_phys = \<lparr>pnf_p5_state = PNF_RUNNING, phys = [\<lparr>pc_phy_id = 2, pc_state = PHY_IDLE\<rparr>, \<lparr>pc_phy_id = 1, pc_state = PHY_RUNNING\<rparr>],
     user = zero_phy_info\<lparr>phy_info_id := 1\<rparr>\<rparr>"

theorem second_phy_restarts_first_witness:
  "\<exists>p1 p2 cfg. proxy_step Lte (sample_p5_codec [1, 2]) (Received (sample_p5_msg (config_request_id Lte) 2)) sample_two_phys =
      (p1, [Sent (config_response_id Lte) 1 NFAPI_MSG_OK]) \<and>
    find_phy 1 (phys p1) = Some (\<lparr>pc_phy_id = 1, pc_state = PHY_RUNNING\<rparr>\<lparr>pc_state := PHY_CONFIGURED\<rparr>) \<and>
    find_phy 2 (phys p1) = Some \<lparr>pc_phy_id = 2, pc_state = PHY_IDLE\<rparr> \<and>
    proxy_step Lte (sample_p5_codec [1, 2]) (Received (sample_p5_msg (start_request_id Lte) 1)) p1 =
      (p2, [Client (Start_p7 Lte cfg), Sent NFAPI_START_RESPONSE 1 NFAPI_MSG_OK, Client (First_tick Lte cfg 0)])"
  by (rule second_phy_restarts_first [OF _ _ _ _ _ _ _ sample_arrives sample_arrives])
    (simp_all add: rssi_id sample_two_phys_def)

text \<open>
  C30. No PHY is ever stopped: whatever the VNF sends and however many PHYs it has configured, on neither radio does
  the proxy grant a STOP.request.  For a PHY that runs the library refuses it (its guard is inverted), for the others
  the callback that would answer is not set.
\<close>

theorem stop_never_granted:
  "Sent NFAPI_STOP_RESPONSE phy NFAPI_MSG_OK \<notin> set (snd (run_proxy r cd is p))"
proof (induction "is" arbitrary: p)
  case (Cons i "is")
  have "Sent NFAPI_STOP_RESPONSE phy NFAPI_MSG_OK \<notin> set (snd (proxy_step r cd i p))"
  proof (cases i)
    case (Received msg)
    have good: "decodes_good cd (\<lambda>m. True) msg" by (simp add: decodes_good_def split: option.split)
    show ?thesis
    proof (cases "nfapi_p5_message_header_unpack msg")
      case (Some h)
      show ?thesis
        using lte_stops.message_step [OF good Some, of p] nr_stops.message_step [OF good Some, of p] Received
        by (cases r) (simp_all add: proxy_step_def no_stop_def)
    qed (simp add: Received proxy_step_no_header)
  qed (simp add: proxy_step_def)
  then show ?case using Cons.IH by (simp add: p5_then_def case_prod_beta)
qed simp

text \<open>
  The NR handler loses its refusals of CONFIG.request: in every state in which it refuses, because the PNF does not run, the PHY is
  unknown or it runs already, it answers with the message id of LTE, which the NR packer does not know, and nothing is
  sent.  In the same states the LTE handler answers with an error, unless the PHY is unknown: then its response function finds no PHY
  either and sends nothing.
\<close>

theorem nr_config_refusal_lost:
  assumes "\<not> (pnf_p5_state p = PNF_RUNNING \<and> (\<exists>c. find_phy (p5_phy_id h) (phys p) = Some c \<and> pc_state c \<noteq> PHY_RUNNING))"
  shows "pnf_nr_handle_config_request cl (Some (h, b, ok)) p = (p, []) \<and>
    pnf_handle_config_request cl (Some (h, b, ok)) p =
      (p, if find_phy (p5_phy_id h) (phys p) = None then [] else [Sent NFAPI_CONFIG_RESPONSE (p5_phy_id h) NFAPI_MSG_INVALID_STATE])"
  using assms by (auto simp: pnf_nr_handle_config_request_def pnf_handle_config_request_def phy_request_def nfapi_pnf_phy_config_find_def
      nfapi_pnf_config_resp_def nfapi_nr_pnf_config_resp_def sending_defs error_codes nr_p5_packs_def response_ids p5_ids
      NFAPI_NR_PHY_MSG_TYPE_PNF_STOP_REQUEST_def packs_responses [unfolded response_ids] split: option.splits)

theorem nr_config_refusal_lost_witness:
  "pnf_nr_handle_config_request configure_nr_nfapi_pnf
       (Some (\<lparr>p5_phy_id = 1, p5_message_id = 2, p5_message_length = 0, p5_spare = 0\<rparr>, sample_p5_body [1], True)) proxy_init = (proxy_init, []) \<and>
   pnf_handle_config_request configure_nr_nfapi_pnf
       (Some (\<lparr>p5_phy_id = 1, p5_message_id = 2, p5_message_length = 0, p5_spare = 0\<rparr>, sample_p5_body [1], True)) proxy_init =
     (proxy_init, if find_phy (p5_phy_id \<lparr>p5_phy_id = 1, p5_message_id = 2, p5_message_length = 0, p5_spare = 0\<rparr>) (phys proxy_init) = None then []
       else [Sent NFAPI_CONFIG_RESPONSE (p5_phy_id \<lparr>p5_phy_id = 1, p5_message_id = 2, p5_message_length = 0, p5_spare = 0\<rparr>) NFAPI_MSG_INVALID_STATE])"
  by (rule nr_config_refusal_lost) (simp add: proxy_init_def)

end
