(* ===== verification/Vnf_P5.thy ===== *)
theory Vnf_P5
  imports P5_Header
begin

text \<open>
  The configuration side of the VNF, \<^verbatim>\<open>vnf.c\<close> and \<^verbatim>\<open>vnf_interface.c\<close>: the connected PNFs and
  the PHYs, the functions by which the client sends its requests, one handler for each response
  and indication, the two dispatchers, and the part of \<^verbatim>\<open>nfapi_vnf_start\<close> that accepts, reads and drops connections.

  As in Pnf_P5 the client is a record of callbacks on the state.  \<open>'b\<close> is what a response contains besides its error code and the
  P7 address of the PNF.  Of the requests only CONFIG.request is looked at.  Following a null pointer
  is \<open>None\<close>.  A call of \<^verbatim>\<open>sctp_sendmsg\<close> or \<^verbatim>\<open>malloc\<close> that fails is not modelled, nor are vendor extension TLVs.
\<close>

section \<open>State\<close>

record vnf_phy =
  vp_p5_idx :: int
  vp_phy_id :: int
  vp_timing_window :: u8
  vp_timing_info_mode :: u8
  vp_timing_info_period :: u8
  p7_pnf_ip :: "u8 list"
  p7_pnf_sin_port :: u16

record vnf_pnf =
  vn_p5_idx :: int
  to_delete :: bool

record 'u vnf =
  phy_list :: "vnf_phy list"
  pnf_list :: "vnf_pnf list"
  next_phy_id :: u16
  vnf_user :: 'u

text \<open>The body of a response; a TLV that is absent is \<open>None\<close>.\<close>

record 'b vnf_body =
  error_code :: u32
  p7_pnf_address_tlv :: "u8 list option"
  p7_pnf_port_tlv :: "u16 option"
  vb_contents :: 'b

type_synonym 'b vnf_msg = "p5_header \<times> 'b vnf_body"
type_synonym 'b vnf_unpacked = "(p5_header \<times> 'b vnf_body \<times> bool) option"

text \<open>What the VNF sends: to which PNF, the header, and the body if it is a CONFIG.request.\<close>

datatype 'e vnf_p5_event = Request int p5_header "config_body option" | Vnf_client 'e

type_synonym ('u, 'e) vnf_result = "'u vnf \<times> 'e vnf_p5_event list"
type_synonym ('u, 'b, 'e) vnf_callback = "int \<Rightarrow> 'b vnf_msg \<Rightarrow> 'u vnf \<Rightarrow> ('u, 'e) vnf_result"

record ('u, 'b, 'e) vnf_client =
  pnf_connection_indication :: "(int \<Rightarrow> 'u vnf \<Rightarrow> ('u, 'e) vnf_result) option"
  pnf_nr_connection_indication :: "(int \<Rightarrow> 'u vnf \<Rightarrow> ('u, 'e) vnf_result) option"
  pnf_disconnect_indication :: "(int \<Rightarrow> 'u vnf \<Rightarrow> ('u, 'e) vnf_result) option"
  pnf_nr_param_resp :: "('u, 'b, 'e) vnf_callback option"
  pnf_param_resp :: "('u, 'b, 'e) vnf_callback option"
  pnf_config_resp :: "('u, 'b, 'e) vnf_callback option"
  pnf_nr_config_resp :: "('u, 'b, 'e) vnf_callback option"
  pnf_start_resp :: "('u, 'b, 'e) vnf_callback option"
  pnf_nr_start_resp :: "('u, 'b, 'e) vnf_callback option"
  pnf_stop_resp :: "('u, 'b, 'e) vnf_callback option"
  param_resp :: "('u, 'b, 'e) vnf_callback option"
  nr_param_resp :: "('u, 'b, 'e) vnf_callback option"
  nr_config_resp :: "('u, 'b, 'e) vnf_callback option"
  config_resp :: "('u, 'b, 'e) vnf_callback option"
  start_resp :: "('u, 'b, 'e) vnf_callback option"
  nr_start_resp :: "('u, 'b, 'e) vnf_callback option"
  stop_resp :: "('u, 'b, 'e) vnf_callback option"
  measurement_resp :: "('u, 'b, 'e) vnf_callback option"
  rssi_resp :: "('u, 'b, 'e) vnf_callback option"
  rssi_ind :: "('u, 'b, 'e) vnf_callback option"
  cell_search_resp :: "('u, 'b, 'e) vnf_callback option"
  cell_search_ind :: "('u, 'b, 'e) vnf_callback option"
  broadcast_detect_resp :: "('u, 'b, 'e) vnf_callback option"
  broadcast_detect_ind :: "('u, 'b, 'e) vnf_callback option"
  system_information_schedule_resp :: "('u, 'b, 'e) vnf_callback option"
  system_information_schedule_ind :: "('u, 'b, 'e) vnf_callback option"
  system_information_resp :: "('u, 'b, 'e) vnf_callback option"
  system_information_ind :: "('u, 'b, 'e) vnf_callback option"
  nmm_stop_resp :: "('u, 'b, 'e) vnf_callback option"
  vnf_allocate_p4_p5_vendor_ext :: "(u16 \<Rightarrow> bool) option"
  vnf_vendor_ext :: "('u, 'b, 'e) vnf_callback option"

definition nfapi_vnf_config_create :: "'u \<Rightarrow> 'u vnf" where
  "nfapi_vnf_config_create u = \<lparr>phy_list = [], pnf_list = [], next_phy_id = 1, vnf_user = u\<rparr>"

section \<open>The lists\<close>

definition nfapi_vnf_phy_info_list_add :: "vnf_phy \<Rightarrow> 'u vnf \<Rightarrow> 'u vnf" where
  "nfapi_vnf_phy_info_list_add i v = v\<lparr>phy_list := i # phy_list v\<rparr>"

fun find_vnf_phy :: "int \<Rightarrow> vnf_phy list \<Rightarrow> vnf_phy option" where
  "find_vnf_phy i [] = None"
| "find_vnf_phy i (c # cs) = (if vp_phy_id c = i then Some c else find_vnf_phy i cs)"

definition nfapi_vnf_phy_info_list_find :: "'u vnf \<Rightarrow> u16 \<Rightarrow> vnf_phy option" where
  "nfapi_vnf_phy_info_list_find v i = find_vnf_phy (uint i) (phy_list v)"

text \<open>A PHY is changed through the pointer that was found.\<close>

fun update_vnf_phy :: "int \<Rightarrow> (vnf_phy \<Rightarrow> vnf_phy) \<Rightarrow> vnf_phy list \<Rightarrow> vnf_phy list" where
  "update_vnf_phy i f [] = []"
| "update_vnf_phy i f (c # cs) = (if vp_phy_id c = i then f c # cs else c # update_vnf_phy i f cs)"

definition nfapi_vnf_pnf_list_add :: "vnf_pnf \<Rightarrow> 'u vnf \<Rightarrow> 'u vnf" where
  "nfapi_vnf_pnf_list_add n v = v\<lparr>pnf_list := n # pnf_list v\<rparr>"

fun find_vnf_pnf :: "int \<Rightarrow> vnf_pnf list \<Rightarrow> vnf_pnf option" where
  "find_vnf_pnf i [] = None"
| "find_vnf_pnf i (c # cs) = (if vn_p5_idx c = i then Some c else find_vnf_pnf i cs)"

definition nfapi_vnf_pnf_list_find :: "'u vnf \<Rightarrow> int \<Rightarrow> vnf_pnf option" where
  "nfapi_vnf_pnf_list_find v i = find_vnf_pnf i (pnf_list v)"

section \<open>Sending requests\<close>

text \<open>The index of the PNF is cut to 16 bits.\<close>

definition vnf_pack_and_send_p5_message :: "int \<Rightarrow> p5_header \<Rightarrow> config_body option \<Rightarrow> 'u vnf \<Rightarrow> ('u, 'e) vnf_result" where
  "vnf_pack_and_send_p5_message p5_idx h b v =
     (let i = uint (of_int p5_idx :: u16) in
      (v, if nfapi_vnf_pnf_list_find v i \<noteq> None \<and> p5_packs (p5_message_id h) then [Request i h b] else []))"

definition vnf_nr_pack_and_send_p5_message :: "int \<Rightarrow> p5_header \<Rightarrow> config_body option \<Rightarrow> 'u vnf \<Rightarrow> ('u, 'e) vnf_result" where
  "vnf_nr_pack_and_send_p5_message p5_idx h b v =
     (let i = uint (of_int p5_idx :: u16) in
      (v, if nfapi_vnf_pnf_list_find v i \<noteq> None \<and> nr_p5_packs (p5_message_id h) then [Request i h b] else []))"

definition vnf_pack_and_send_p4_message :: "int \<Rightarrow> p5_header \<Rightarrow> 'u vnf \<Rightarrow> ('u, 'e) vnf_result" where
  "vnf_pack_and_send_p4_message p5_idx h v =
     (let i = uint (of_int p5_idx :: u16) in (v, if nfapi_vnf_pnf_list_find v i \<noteq> None then [Request i h None] else []))"

definition nfapi_nr_vnf_pnf_param_req :: "int \<Rightarrow> p5_header \<Rightarrow> 'u vnf \<Rightarrow> ('u, 'e) vnf_result" where
  "nfapi_nr_vnf_pnf_param_req p5_idx h v = vnf_nr_pack_and_send_p5_message p5_idx h None v"

definition nfapi_vnf_pnf_param_req :: "int \<Rightarrow> p5_header \<Rightarrow> 'u vnf \<Rightarrow> ('u, 'e) vnf_result" where
  "nfapi_vnf_pnf_param_req p5_idx h v = vnf_pack_and_send_p5_message p5_idx h None v"

definition nfapi_nr_vnf_pnf_config_req :: "int \<Rightarrow> p5_header \<Rightarrow> 'u vnf \<Rightarrow> ('u, 'e) vnf_result" where
  "nfapi_nr_vnf_pnf_config_req p5_idx h v = vnf_nr_pack_and_send_p5_message p5_idx h None v"

definition nfapi_vnf_pnf_config_req :: "int \<Rightarrow> p5_header \<Rightarrow> 'u vnf \<Rightarrow> ('u, 'e) vnf_result" where
  "nfapi_vnf_pnf_config_req p5_idx h v = vnf_pack_and_send_p5_message p5_idx h None v"

definition nfapi_vnf_pnf_start_req :: "int \<Rightarrow> p5_header \<Rightarrow> 'u vnf \<Rightarrow> ('u, 'e) vnf_result" where
  "nfapi_vnf_pnf_start_req p5_idx h v = vnf_pack_and_send_p5_message p5_idx h None v"

definition nfapi_nr_vnf_pnf_start_req :: "int \<Rightarrow> p5_header \<Rightarrow> 'u vnf \<Rightarrow> ('u, 'e) vnf_result" where
  "nfapi_nr_vnf_pnf_start_req p5_idx h v = vnf_nr_pack_and_send_p5_message p5_idx h None v"

definition nfapi_vnf_pnf_stop_req :: "int \<Rightarrow> p5_header \<Rightarrow> 'u vnf \<Rightarrow> ('u, 'e) vnf_result" where
  "nfapi_vnf_pnf_stop_req p5_idx h v = vnf_pack_and_send_p5_message p5_idx h None v"

definition nfapi_nr_vnf_param_req :: "int \<Rightarrow> p5_header \<Rightarrow> 'u vnf \<Rightarrow> ('u, 'e) vnf_result" where
  "nfapi_nr_vnf_param_req p5_idx h v = vnf_nr_pack_and_send_p5_message p5_idx h None v"

definition nfapi_vnf_param_req :: "int \<Rightarrow> p5_header \<Rightarrow> 'u vnf \<Rightarrow> ('u, 'e) vnf_result" where
  "nfapi_vnf_param_req p5_idx h v = vnf_pack_and_send_p5_message p5_idx h None v"

text \<open>CONFIG.request: the library replaces the timing TLVs by those of the PHY.\<close>

definition set_timing :: "vnf_phy \<Rightarrow> config_body \<Rightarrow> config_body" where
  "set_timing phy b = b\<lparr>tlv_timing_window := Some (vp_timing_window phy), tlv_timing_info_mode := Some (vp_timing_info_mode phy),
     tlv_timing_info_period := Some (vp_timing_info_period phy)\<rparr>"

definition nfapi_nr_vnf_config_req :: "int \<Rightarrow> p5_header \<Rightarrow> config_body \<Rightarrow> 'u vnf \<Rightarrow> ('u, 'e) vnf_result" where
  "nfapi_nr_vnf_config_req p5_idx h b v =
     (case nfapi_vnf_phy_info_list_find v (p5_phy_id h) of None \<Rightarrow> (v, [])
      | Some phy \<Rightarrow> vnf_nr_pack_and_send_p5_message p5_idx h (Some (set_timing phy b)) v)"

definition nfapi_vnf_config_req :: "int \<Rightarrow> p5_header \<Rightarrow> config_body \<Rightarrow> 'u vnf \<Rightarrow> ('u, 'e) vnf_result" where
  "nfapi_vnf_config_req p5_idx h b v =
     (case nfapi_vnf_phy_info_list_find v (p5_phy_id h) of None \<Rightarrow> (v, [])
      | Some phy \<Rightarrow> vnf_pack_and_send_p5_message p5_idx h (Some (set_timing phy b)) v)"

definition nfapi_vnf_start_req :: "int \<Rightarrow> p5_header \<Rightarrow> 'u vnf \<Rightarrow> ('u, 'e) vnf_result" where
  "nfapi_vnf_start_req p5_idx h v = vnf_pack_and_send_p5_message p5_idx h None v"

definition nfapi_nr_vnf_start_req :: "int \<Rightarrow> p5_header \<Rightarrow> 'u vnf \<Rightarrow> ('u, 'e) vnf_result" where
  "nfapi_nr_vnf_start_req p5_idx h v = vnf_nr_pack_and_send_p5_message p5_idx h None v"

definition nfapi_vnf_stop_req :: "int \<Rightarrow> p5_header \<Rightarrow> 'u vnf \<Rightarrow> ('u, 'e) vnf_result" where
  "nfapi_vnf_stop_req p5_idx h v = vnf_pack_and_send_p5_message p5_idx h None v"

definition nfapi_vnf_measurement_req :: "int \<Rightarrow> p5_header \<Rightarrow> 'u vnf \<Rightarrow> ('u, 'e) vnf_result" where
  "nfapi_vnf_measurement_req p5_idx h v = vnf_pack_and_send_p5_message p5_idx h None v"

definition nfapi_vnf_rssi_request :: "int \<Rightarrow> p5_header \<Rightarrow> 'u vnf \<Rightarrow> ('u, 'e) vnf_result" where
  "nfapi_vnf_rssi_request p5_idx h v = vnf_pack_and_send_p4_message p5_idx h v"

definition nfapi_vnf_cell_search_request :: "int \<Rightarrow> p5_header \<Rightarrow> 'u vnf \<Rightarrow> ('u, 'e) vnf_result" where
  "nfapi_vnf_cell_search_request p5_idx h v = vnf_pack_and_send_p4_message p5_idx h v"

definition nfapi_vnf_broadcast_detect_request :: "int \<Rightarrow> p5_header \<Rightarrow> 'u vnf \<Rightarrow> ('u, 'e) vnf_result" where
  "nfapi_vnf_broadcast_detect_request p5_idx h v = vnf_pack_and_send_p4_message p5_idx h v"

definition nfapi_vnf_system_information_schedule_request :: "int \<Rightarrow> p5_header \<Rightarrow> 'u vnf \<Rightarrow> ('u, 'e) vnf_result" where
  "nfapi_vnf_system_information_schedule_request p5_idx h v = vnf_pack_and_send_p4_message p5_idx h v"

definition nfapi_vnf_system_information_request :: "int \<Rightarrow> p5_header \<Rightarrow> 'u vnf \<Rightarrow> ('u, 'e) vnf_result" where
  "nfapi_vnf_system_information_request p5_idx h v = vnf_pack_and_send_p4_message p5_idx h v"

definition nfapi_vnf_nmm_stop_request :: "int \<Rightarrow> p5_header \<Rightarrow> 'u vnf \<Rightarrow> ('u, 'e) vnf_result" where
  "nfapi_vnf_nmm_stop_request p5_idx h v = vnf_pack_and_send_p4_message p5_idx h v"

definition nfapi_vnf_vendor_extension :: "int \<Rightarrow> p5_header \<Rightarrow> 'u vnf \<Rightarrow> ('u, 'e) vnf_result" where
  "nfapi_vnf_vendor_extension p5_idx h v = vnf_pack_and_send_p5_message p5_idx h None v"

text \<open>A new PHY, and its id.\<close>

definition nfapi_vnf_allocate_phy :: "int \<Rightarrow> 'u vnf \<Rightarrow> 'u vnf \<times> u16" where
  "nfapi_vnf_allocate_phy p5_idx v =
     (let i = \<lparr>vp_p5_idx = p5_idx, vp_phy_id = uint (next_phy_id v), vp_timing_window = 30, vp_timing_info_mode = 3,
            vp_timing_info_period = 10, p7_pnf_ip = [0, 0, 0, 0], p7_pnf_sin_port = 0\<rparr>
      in (nfapi_vnf_phy_info_list_add i (v\<lparr>next_phy_id := next_phy_id v + 1\<rparr>), next_phy_id v))"

section \<open>The handlers\<close>

definition NFAPI_VNF_MSG_OK :: u32 where "NFAPI_VNF_MSG_OK = 0"

definition call_vnf_client :: "('u, 'b, 'e) vnf_callback option \<Rightarrow> ('u, 'b, 'e) vnf_callback" where
  "call_vnf_client cb p5_idx m v = (case cb of None \<Rightarrow> (v, []) | Some f \<Rightarrow> f p5_idx m v)"

text \<open>The handlers that only call the client, and those that call it for a positive response.\<close>

definition vnf_response :: "('u, 'b, 'e) vnf_callback option \<Rightarrow> int \<Rightarrow> 'b vnf_unpacked \<Rightarrow> 'u vnf \<Rightarrow> ('u, 'e) vnf_result option" where
  "vnf_response cb p5_idx msg v =
     (case msg of None \<Rightarrow> Some (v, []) | Some (h, b, ok) \<Rightarrow> Some (call_vnf_client cb p5_idx (h, b) v))"

definition vnf_positive_response :: "('u, 'b, 'e) vnf_callback option \<Rightarrow> int \<Rightarrow> 'b vnf_unpacked \<Rightarrow> 'u vnf \<Rightarrow> ('u, 'e) vnf_result option" where
  "vnf_positive_response cb p5_idx msg v =
     (case msg of None \<Rightarrow> Some (v, [])
      | Some (h, b, ok) \<Rightarrow> if error_code b = NFAPI_VNF_MSG_OK then Some (call_vnf_client cb p5_idx (h, b) v) else Some (v, []))"

text \<open>PARAM.response stores the P7 address in the PHY; that the PHY exists is not checked.\<close>

definition store_p7_address :: "u16 \<Rightarrow> 'b vnf_body \<Rightarrow> 'u vnf \<Rightarrow> 'u vnf option" where
  "store_p7_address i b v =
     (if p7_pnf_address_tlv b = None \<and> p7_pnf_port_tlv b = None then Some v
      else if nfapi_vnf_phy_info_list_find v i = None then None
      else Some (v\<lparr>phy_list := update_vnf_phy (uint i) (\<lambda>phy.
             phy\<lparr>p7_pnf_ip := case_option (p7_pnf_ip phy) id (p7_pnf_address_tlv b),
                 p7_pnf_sin_port := case_option (p7_pnf_sin_port phy) id (p7_pnf_port_tlv b)\<rparr>) (phy_list v)\<rparr>))"

definition vnf_address_response :: "('u, 'b, 'e) vnf_callback option \<Rightarrow> int \<Rightarrow> 'b vnf_unpacked \<Rightarrow> 'u vnf \<Rightarrow> ('u, 'e) vnf_result option" where
  "vnf_address_response cb p5_idx msg v =
     (case msg of None \<Rightarrow> Some (v, [])
      | Some (h, b, ok) \<Rightarrow>
          (case if error_code b = NFAPI_VNF_MSG_OK then store_p7_address (p5_phy_id h) b v else Some v of None \<Rightarrow> None
           | Some v' \<Rightarrow> Some (call_vnf_client cb p5_idx (h, b) v')))"

definition vnf_nr_handle_pnf_param_response :: "('u, 'b, 'e) vnf_client \<Rightarrow> int \<Rightarrow> 'b vnf_unpacked \<Rightarrow> 'u vnf \<Rightarrow> ('u, 'e) vnf_result option" where
  "vnf_nr_handle_pnf_param_response cl = vnf_response (pnf_nr_param_resp cl)"

definition vnf_handle_pnf_param_response :: "('u, 'b, 'e) vnf_client \<Rightarrow> int \<Rightarrow> 'b vnf_unpacked \<Rightarrow> 'u vnf \<Rightarrow> ('u, 'e) vnf_result option" where
  "vnf_handle_pnf_param_response cl = vnf_response (pnf_param_resp cl)"

definition vnf_nr_handle_pnf_config_response :: "('u, 'b, 'e) vnf_client \<Rightarrow> int \<Rightarrow> 'b vnf_unpacked \<Rightarrow> 'u vnf \<Rightarrow> ('u, 'e) vnf_result option" where
  "vnf_nr_handle_pnf_config_response cl = vnf_response (pnf_nr_config_resp cl)"

definition vnf_handle_pnf_config_response :: "('u, 'b, 'e) vnf_client \<Rightarrow> int \<Rightarrow> 'b vnf_unpacked \<Rightarrow> 'u vnf \<Rightarrow> ('u, 'e) vnf_result option" where
  "vnf_handle_pnf_config_response cl = vnf_response (pnf_config_resp cl)"

definition vnf_nr_handle_pnf_start_response :: "('u, 'b, 'e) vnf_client \<Rightarrow> int \<Rightarrow> 'b vnf_unpacked \<Rightarrow> 'u vnf \<Rightarrow> ('u, 'e) vnf_result option" where
  "vnf_nr_handle_pnf_start_response cl = vnf_response (pnf_nr_start_resp cl)"

definition vnf_handle_pnf_start_response :: "('u, 'b, 'e) vnf_client \<Rightarrow> int \<Rightarrow> 'b vnf_unpacked \<Rightarrow> 'u vnf \<Rightarrow> ('u, 'e) vnf_result option" where
  "vnf_handle_pnf_start_response cl = vnf_response (pnf_start_resp cl)"

definition vnf_handle_pnf_stop_response :: "('u, 'b, 'e) vnf_client \<Rightarrow> int \<Rightarrow> 'b vnf_unpacked \<Rightarrow> 'u vnf \<Rightarrow> ('u, 'e) vnf_result option" where
  "vnf_handle_pnf_stop_response cl = vnf_response (pnf_stop_resp cl)"

definition vnf_handle_param_response :: "('u, 'b, 'e) vnf_client \<Rightarrow> int \<Rightarrow> 'b vnf_unpacked \<Rightarrow> 'u vnf \<Rightarrow> ('u, 'e) vnf_result option" where
  "vnf_handle_param_response cl = vnf_address_response (param_resp cl)"

definition vnf_nr_handle_param_response :: "('u, 'b, 'e) vnf_client \<Rightarrow> int \<Rightarrow> 'b vnf_unpacked \<Rightarrow> 'u vnf \<Rightarrow> ('u, 'e) vnf_result option" where
  "vnf_nr_handle_param_response cl = vnf_address_response (nr_param_resp cl)"

definition vnf_nr_handle_config_response :: "('u, 'b, 'e) vnf_client \<Rightarrow> int \<Rightarrow> 'b vnf_unpacked \<Rightarrow> 'u vnf \<Rightarrow> ('u, 'e) vnf_result option" where
  "vnf_nr_handle_config_response cl = vnf_positive_response (nr_config_resp cl)"

definition vnf_handle_config_response :: "('u, 'b, 'e) vnf_client \<Rightarrow> int \<Rightarrow> 'b vnf_unpacked \<Rightarrow> 'u vnf \<Rightarrow> ('u, 'e) vnf_result option" where
  "vnf_handle_config_response cl = vnf_positive_response (config_resp cl)"

definition vnf_handle_start_response :: "('u, 'b, 'e) vnf_client \<Rightarrow> int \<Rightarrow> 'b vnf_unpacked \<Rightarrow> 'u vnf \<Rightarrow> ('u, 'e) vnf_result option" where
  "vnf_handle_start_response cl = vnf_response (start_resp cl)"

definition vnf_nr_handle_start_response :: "('u, 'b, 'e) vnf_client \<Rightarrow> int \<Rightarrow> 'b vnf_unpacked \<Rightarrow> 'u vnf \<Rightarrow> ('u, 'e) vnf_result option" where
  "vnf_nr_handle_start_response cl = vnf_positive_response (nr_start_resp cl)"

definition vnf_handle_stop_response :: "('u, 'b, 'e) vnf_client \<Rightarrow> int \<Rightarrow> 'b vnf_unpacked \<Rightarrow> 'u vnf \<Rightarrow> ('u, 'e) vnf_result option" where
  "vnf_handle_stop_response cl = vnf_response (stop_resp cl)"

definition vnf_handle_measurement_response :: "('u, 'b, 'e) vnf_client \<Rightarrow> int \<Rightarrow> 'b vnf_unpacked \<Rightarrow> 'u vnf \<Rightarrow> ('u, 'e) vnf_result option" where
  "vnf_handle_measurement_response cl = vnf_response (measurement_resp cl)"

definition vnf_handle_rssi_response :: "('u, 'b, 'e) vnf_client \<Rightarrow> int \<Rightarrow> 'b vnf_unpacked \<Rightarrow> 'u vnf \<Rightarrow> ('u, 'e) vnf_result option" where
  "vnf_handle_rssi_response cl = vnf_response (rssi_resp cl)"

definition vnf_handle_rssi_indication :: "('u, 'b, 'e) vnf_client \<Rightarrow> int \<Rightarrow> 'b vnf_unpacked \<Rightarrow> 'u vnf \<Rightarrow> ('u, 'e) vnf_result option" where
  "vnf_handle_rssi_indication cl = vnf_response (rssi_ind cl)"

definition vnf_handle_cell_search_response :: "('u, 'b, 'e) vnf_client \<Rightarrow> int \<Rightarrow> 'b vnf_unpacked \<Rightarrow> 'u vnf \<Rightarrow> ('u, 'e) vnf_result option" where
  "vnf_handle_cell_search_response cl = vnf_response (cell_search_resp cl)"

definition vnf_handle_cell_search_indication :: "('u, 'b, 'e) vnf_client \<Rightarrow> int \<Rightarrow> 'b vnf_unpacked \<Rightarrow> 'u vnf \<Rightarrow> ('u, 'e) vnf_result option" where
  "vnf_handle_cell_search_indication cl = vnf_response (cell_search_ind cl)"

definition vnf_handle_broadcast_detect_response :: "('u, 'b, 'e) vnf_client \<Rightarrow> int \<Rightarrow> 'b vnf_unpacked \<Rightarrow> 'u vnf \<Rightarrow> ('u, 'e) vnf_result option" where
  "vnf_handle_broadcast_detect_response cl = vnf_response (broadcast_detect_resp cl)"

definition vnf_handle_broadcast_detect_indication :: "('u, 'b, 'e) vnf_client \<Rightarrow> int \<Rightarrow> 'b vnf_unpacked \<Rightarrow> 'u vnf \<Rightarrow> ('u, 'e) vnf_result option" where
  "vnf_handle_broadcast_detect_indication cl = vnf_response (broadcast_detect_ind cl)"

definition vnf_handle_system_information_schedule_response :: "('u, 'b, 'e) vnf_client \<Rightarrow> int \<Rightarrow> 'b vnf_unpacked \<Rightarrow> 'u vnf \<Rightarrow> ('u, 'e) vnf_result option" where
  "vnf_handle_system_information_schedule_response cl = vnf_response (system_information_schedule_resp cl)"

definition vnf_handle_system_information_schedule_indication :: "('u, 'b, 'e) vnf_client \<Rightarrow> int \<Rightarrow> 'b vnf_unpacked \<Rightarrow> 'u vnf \<Rightarrow> ('u, 'e) vnf_result option" where
  "vnf_handle_system_information_schedule_indication cl = vnf_response (system_information_schedule_ind cl)"

definition vnf_handle_system_information_response :: "('u, 'b, 'e) vnf_client \<Rightarrow> int \<Rightarrow> 'b vnf_unpacked \<Rightarrow> 'u vnf \<Rightarrow> ('u, 'e) vnf_result option" where
  "vnf_handle_system_information_response cl = vnf_response (system_information_resp cl)"

definition vnf_handle_system_information_indication :: "('u, 'b, 'e) vnf_client \<Rightarrow> int \<Rightarrow> 'b vnf_unpacked \<Rightarrow> 'u vnf \<Rightarrow> ('u, 'e) vnf_result option" where
  "vnf_handle_system_information_indication cl = vnf_response (system_information_ind cl)"

definition vnf_handle_nmm_stop_response :: "('u, 'b, 'e) vnf_client \<Rightarrow> int \<Rightarrow> 'b vnf_unpacked \<Rightarrow> 'u vnf \<Rightarrow> ('u, 'e) vnf_result option" where
  "vnf_handle_nmm_stop_response cl = vnf_response (nmm_stop_resp cl)"

definition vnf_handle_vendor_extension :: "('u, 'b, 'e) vnf_client \<Rightarrow> u16 \<Rightarrow> int \<Rightarrow> 'b vnf_unpacked \<Rightarrow> 'u vnf \<Rightarrow> ('u, 'e) vnf_result option" where
  "vnf_handle_vendor_extension cl mid p5_idx msg v =
     (case vnf_allocate_p4_p5_vendor_ext cl of None \<Rightarrow> Some (v, [])
      | Some alloc \<Rightarrow> if alloc mid then vnf_response (vnf_vendor_ext cl) p5_idx msg v else Some (v, []))"

section \<open>Dispatch\<close>

record 'b vnf_p5_codec =
  vnf_lte_body :: "u16 \<Rightarrow> (rbuf \<Rightarrow> 'b vnf_body \<times> bool) option"
  vnf_nr_body :: "u16 \<Rightarrow> (rbuf \<Rightarrow> 'b vnf_body \<times> bool) option"
  vnf_p4_body :: "u16 \<Rightarrow> (rbuf \<Rightarrow> 'b vnf_body \<times> bool) option"

definition vnf_nr_handle_p4_p5_message :: "('u, 'b, 'e) vnf_client \<Rightarrow> 'b vnf_p5_codec \<Rightarrow> int \<Rightarrow> u8 list \<Rightarrow> 'u vnf \<Rightarrow> ('u, 'e) vnf_result option" where
  "vnf_nr_handle_p4_p5_message cl cd p5_idx msg v =
     (case nfapi_p5_message_header_unpack msg of None \<Rightarrow> Some (v, [])
      | Some h \<Rightarrow>
          (let mid = p5_message_id h; lte = nfapi_p5_message_unpack (vnf_lte_body cd) msg;
               nr = nfapi_nr_p5_message_unpack (vnf_nr_body cd) msg; p4 = nfapi_p5_message_unpack (vnf_p4_body cd) msg in
           if mid = NFAPI_NR_PHY_MSG_TYPE_PNF_PARAM_RESPONSE then vnf_nr_handle_pnf_param_response cl p5_idx nr v
           else if mid = NFAPI_NR_PHY_MSG_TYPE_PNF_CONFIG_RESPONSE then vnf_nr_handle_pnf_config_response cl p5_idx nr v
           else if mid = NFAPI_NR_PHY_MSG_TYPE_PNF_START_RESPONSE then vnf_nr_handle_pnf_start_response cl p5_idx nr v
           else if mid = NFAPI_PNF_STOP_RESPONSE then vnf_handle_pnf_stop_response cl p5_idx lte v
           else if mid = NFAPI_NR_PHY_MSG_TYPE_PARAM_RESPONSE then vnf_nr_handle_param_response cl p5_idx nr v
           else if mid = NFAPI_NR_PHY_MSG_TYPE_CONFIG_RESPONSE then vnf_nr_handle_config_response cl p5_idx nr v
           else if mid = NFAPI_NR_PHY_MSG_TYPE_START_RESPONSE then vnf_nr_handle_start_response cl p5_idx nr v
           else if mid = NFAPI_NR_PHY_MSG_TYPE_STOP_RESPONSE then vnf_handle_stop_response cl p5_idx lte v
           else if NFAPI_VENDOR_EXT_MSG_MIN \<le> mid \<and> mid \<le> NFAPI_VENDOR_EXT_MSG_MAX
           then vnf_handle_vendor_extension cl mid p5_idx lte v
           else Some (v, [])))"

definition vnf_handle_p4_p5_message :: "('u, 'b, 'e) vnf_client \<Rightarrow> 'b vnf_p5_codec \<Rightarrow> int \<Rightarrow> u8 list \<Rightarrow> 'u vnf \<Rightarrow> ('u, 'e) vnf_result option" where
  "vnf_handle_p4_p5_message cl cd p5_idx msg v =
     (case nfapi_p5_message_header_unpack msg of None \<Rightarrow> Some (v, [])
      | Some h \<Rightarrow>
          (let mid = p5_message_id h; lte = nfapi_p5_message_unpack (vnf_lte_body cd) msg;
               nr = nfapi_nr_p5_message_unpack (vnf_nr_body cd) msg; p4 = nfapi_p5_message_unpack (vnf_p4_body cd) msg in
           if mid = NFAPI_PNF_PARAM_RESPONSE then vnf_handle_pnf_param_response cl p5_idx lte v
           else if mid = NFAPI_PNF_CONFIG_RESPONSE then vnf_handle_pnf_config_response cl p5_idx lte v
           else if mid = NFAPI_PNF_START_RESPONSE then vnf_handle_pnf_start_response cl p5_idx lte v
           else if mid = NFAPI_PNF_STOP_RESPONSE then vnf_handle_pnf_stop_response cl p5_idx lte v
           else if mid = NFAPI_PARAM_RESPONSE then vnf_handle_param_response cl p5_idx lte v
           else if mid = NFAPI_CONFIG_RESPONSE then vnf_handle_config_response cl p5_idx lte v
           else if mid = NFAPI_START_RESPONSE then vnf_handle_start_response cl p5_idx lte v
           else if mid = NFAPI_STOP_RESPONSE then vnf_handle_stop_response cl p5_idx lte v
           else if mid = NFAPI_MEASUREMENT_RESPONSE then vnf_handle_measurement_response cl p5_idx lte v
           else if mid = NFAPI_RSSI_RESPONSE then vnf_handle_rssi_response cl p5_idx p4 v
           else if mid = NFAPI_RSSI_INDICATION then vnf_handle_rssi_indication cl p5_idx p4 v
           else if mid = NFAPI_CELL_SEARCH_RESPONSE then vnf_handle_cell_search_response cl p5_idx p4 v
           else if mid = NFAPI_CELL_SEARCH_INDICATION then vnf_handle_cell_search_indication cl p5_idx p4 v
           else if mid = NFAPI_BROADCAST_DETECT_RESPONSE then vnf_handle_broadcast_detect_response cl p5_idx p4 v
           else if mid = NFAPI_BROADCAST_DETECT_INDICATION then vnf_handle_broadcast_detect_indication cl p5_idx p4 v
           else if mid = NFAPI_SYSTEM_INFORMATION_SCHEDULE_RESPONSE then vnf_handle_system_information_schedule_response cl p5_idx p4 v
           else if mid = NFAPI_SYSTEM_INFORMATION_SCHEDULE_INDICATION then vnf_handle_system_information_schedule_indication cl p5_idx p4 v
           else if mid = NFAPI_SYSTEM_INFORMATION_RESPONSE then vnf_handle_system_information_response cl p5_idx p4 v
           else if mid = NFAPI_SYSTEM_INFORMATION_INDICATION then vnf_handle_system_information_indication cl p5_idx p4 v
           else if mid = NFAPI_NMM_STOP_RESPONSE then vnf_handle_nmm_stop_response cl p5_idx p4 v
           else if NFAPI_VENDOR_EXT_MSG_MIN \<le> mid \<and> mid \<le> NFAPI_VENDOR_EXT_MSG_MAX
           then vnf_handle_vendor_extension cl mid p5_idx lte v
           else Some (v, [])))"

definition vnf_read_dispatch_message :: "('u, 'b, 'e) vnf_client \<Rightarrow> 'b vnf_p5_codec \<Rightarrow> (nat \<Rightarrow> u8) \<Rightarrow> u8 list \<Rightarrow> int \<Rightarrow> 'u vnf
  \<Rightarrow> (('u, 'e) vnf_result \<times> bool) option" where
  "vnf_read_dispatch_message cl cd junk wire p5_idx v =
     (case p5_read lte_size junk wire of None \<Rightarrow> Some ((v, []), False)
      | Some msg \<Rightarrow> map_option (\<lambda>r. (r, True)) (vnf_handle_p4_p5_message cl cd p5_idx msg v))"

definition vnf_nr_read_dispatch_message :: "('u, 'b, 'e) vnf_client \<Rightarrow> 'b vnf_p5_codec \<Rightarrow> (nat \<Rightarrow> u8) \<Rightarrow> u8 list \<Rightarrow> int \<Rightarrow> 'u vnf
  \<Rightarrow> (('u, 'e) vnf_result \<times> bool) option" where
  "vnf_nr_read_dispatch_message cl cd junk wire p5_idx v =
     (case p5_read nr_size junk wire of None \<Rightarrow> Some ((v, []), False)
      | Some msg \<Rightarrow> map_option (\<lambda>r. (r, True)) (vnf_nr_handle_p4_p5_message cl cd p5_idx msg v))"

section \<open>Connections\<close>

definition indicate :: "(int \<Rightarrow> 'u vnf \<Rightarrow> ('u, 'e) vnf_result) option \<Rightarrow> int \<Rightarrow> 'u vnf \<Rightarrow> ('u, 'e) vnf_result" where
  "indicate cb p5_idx v = (case cb of None \<Rightarrow> (v, []) | Some f \<Rightarrow> f p5_idx v)"

text \<open>A new connection gets the next index.\<close>

definition vnf_accept :: "('u, 'b, 'e) vnf_client \<Rightarrow> int \<Rightarrow> 'u vnf \<Rightarrow> ('u, 'e) vnf_result" where
  "vnf_accept cl p5_idx v = indicate (pnf_connection_indication cl) p5_idx (nfapi_vnf_pnf_list_add \<lparr>vn_p5_idx = p5_idx, to_delete = False\<rparr> v)"

definition vnf_nr_accept :: "('u, 'b, 'e) vnf_client \<Rightarrow> int \<Rightarrow> 'u vnf \<Rightarrow> ('u, 'e) vnf_result" where
  "vnf_nr_accept cl p5_idx v = indicate (pnf_nr_connection_indication cl) p5_idx (nfapi_vnf_pnf_list_add \<lparr>vn_p5_idx = p5_idx, to_delete = False\<rparr> v)"

fun mark_pnf :: "int \<Rightarrow> vnf_pnf list \<Rightarrow> vnf_pnf list" where
  "mark_pnf i [] = []"
| "mark_pnf i (c # cs) = (if vn_p5_idx c = i then c\<lparr>to_delete := True\<rparr> # cs else c # mark_pnf i cs)"

text \<open>One connection that is readable; \<open>read\<close> is the receiver of the radio, \<open>wire\<close> what arrived.\<close>

definition vnf_readable :: "('u, 'b, 'e) vnf_client \<Rightarrow> (u8 list \<Rightarrow> int \<Rightarrow> 'u vnf \<Rightarrow> (('u, 'e) vnf_result \<times> bool) option)
  \<Rightarrow> u8 list \<Rightarrow> int \<Rightarrow> 'u vnf \<Rightarrow> ('u, 'e) vnf_result option" where
  "vnf_readable cl read wire p5_idx v =
     (case read wire p5_idx v of None \<Rightarrow> None
      | Some ((v', out), True) \<Rightarrow> Some (v', out)
      | Some ((v', out), False) \<Rightarrow>
          (case indicate (pnf_disconnect_indication cl) p5_idx v' of (v'', out') \<Rightarrow>
             Some (v''\<lparr>pnf_list := mark_pnf p5_idx (pnf_list v'')\<rparr>, out @ out')))"

text \<open>The walk over the list of PNFs: \<open>ready\<close> is what the sockets hold.  Then the marked ones are taken out.\<close>

fun vnf_poll :: "('u, 'b, 'e) vnf_client \<Rightarrow> (u8 list \<Rightarrow> int \<Rightarrow> 'u vnf \<Rightarrow> (('u, 'e) vnf_result \<times> bool) option)
  \<Rightarrow> (int \<Rightarrow> u8 list option) \<Rightarrow> int list \<Rightarrow> 'u vnf \<Rightarrow> ('u, 'e) vnf_result option" where
  "vnf_poll cl read ready [] v = Some (v\<lparr>pnf_list := filter (\<lambda>n. \<not> to_delete n) (pnf_list v)\<rparr>, [])"
| "vnf_poll cl read ready (i # is) v =
     (case (case ready i of None \<Rightarrow> Some (v, []) | Some wire \<Rightarrow> vnf_readable cl read wire i v) of None \<Rightarrow> None
      | Some (v', out) \<Rightarrow> map_option (\<lambda>(v'', out'). (v'', out @ out')) (vnf_poll cl read ready is v'))"

section \<open>Laws\<close>

lemmas vnf_handler_defs = vnf_nr_handle_pnf_param_response_def vnf_handle_pnf_param_response_def vnf_nr_handle_pnf_config_response_def
  vnf_handle_pnf_config_response_def vnf_nr_handle_pnf_start_response_def vnf_handle_pnf_start_response_def
  vnf_handle_pnf_stop_response_def vnf_handle_param_response_def vnf_nr_handle_param_response_def vnf_nr_handle_config_response_def
  vnf_handle_config_response_def vnf_handle_start_response_def vnf_nr_handle_start_response_def vnf_handle_stop_response_def
  vnf_handle_measurement_response_def vnf_handle_rssi_response_def vnf_handle_rssi_indication_def
  vnf_handle_cell_search_response_def vnf_handle_cell_search_indication_def vnf_handle_broadcast_detect_response_def
  vnf_handle_broadcast_detect_indication_def vnf_handle_system_information_schedule_response_def
  vnf_handle_system_information_schedule_indication_def vnf_handle_system_information_response_def
  vnf_handle_system_information_indication_def vnf_handle_nmm_stop_response_def

lemma vnf_response_total [simp]: "vnf_response cb p5_idx msg v \<noteq> None" "vnf_positive_response cb p5_idx msg v \<noteq> None"
  by (auto simp: vnf_response_def vnf_positive_response_def split: option.split)

lemma vnf_vendor_total [simp]: "vnf_handle_vendor_extension cl mid p5_idx msg v \<noteq> None"
  by (simp add: vnf_handle_vendor_extension_def vnf_response_total [unfolded not_None_eq] del: not_None_eq split: option.split)

text \<open>The responses that lead through a null pointer.\<close>

definition address_of_unknown_phy :: "'b vnf_unpacked \<Rightarrow> 'u vnf \<Rightarrow> bool" where
  "address_of_unknown_phy msg v = (case msg of None \<Rightarrow> False
     | Some (h, b, ok) \<Rightarrow> error_code b = NFAPI_VNF_MSG_OK \<and> (p7_pnf_address_tlv b \<noteq> None \<or> p7_pnf_port_tlv b \<noteq> None) \<and>
         find_vnf_phy (uint (p5_phy_id h)) (phy_list v) = None)"

lemma address_response_none: "vnf_address_response cb p5_idx msg v = None \<longleftrightarrow> address_of_unknown_phy msg v"
  by (auto simp: vnf_address_response_def address_of_unknown_phy_def store_p7_address_def nfapi_vnf_phy_info_list_find_def split: option.split)

lemma if_none: "((if c then r else r') = None) = (if c then r = None else r' = None)"
  by simp

text \<open>
  C29. What can crash the VNF: the handler of a P5 or P4 message follows a null pointer exactly when the message is a positive
  PARAM.response that carries the P7 address or port for a PHY that the VNF has not allocated.  Every other message, however malformed, is handled.
\<close>

theorem vnf_crash_iff:
  "vnf_handle_p4_p5_message cl cd p5_idx msg v = None \<longleftrightarrow>
     (\<exists>h. nfapi_p5_message_header_unpack msg = Some h \<and> p5_message_id h = NFAPI_PARAM_RESPONSE \<and>
        address_of_unknown_phy (nfapi_p5_message_unpack (vnf_lte_body cd) msg) v)"
proof (cases "nfapi_p5_message_header_unpack msg")
  case (Some h)
  have "vnf_handle_p4_p5_message cl cd p5_idx msg v = None \<longleftrightarrow> p5_message_id h = NFAPI_PARAM_RESPONSE \<and>
      address_of_unknown_phy (nfapi_p5_message_unpack (vnf_lte_body cd) msg) v"
    unfolding vnf_handle_p4_p5_message_def Some option.case Let_def vnf_handler_defs if_none address_response_none
    by (auto simp: NFAPI_PNF_PARAM_RESPONSE_def NFAPI_PNF_CONFIG_RESPONSE_def NFAPI_PNF_START_RESPONSE_def
        NFAPI_PNF_STOP_RESPONSE_def NFAPI_PARAM_RESPONSE_def split: option.split)
  then show ?thesis using Some by simp
qed (simp add: vnf_handle_p4_p5_message_def)

lemma vnf_nr_crash_iff:
  "vnf_nr_handle_p4_p5_message cl cd p5_idx msg v = None \<longleftrightarrow>
     (\<exists>h. nfapi_p5_message_header_unpack msg = Some h \<and> p5_message_id h = NFAPI_NR_PHY_MSG_TYPE_PARAM_RESPONSE \<and>
        address_of_unknown_phy (nfapi_nr_p5_message_unpack (vnf_nr_body cd) msg) v)"
proof (cases "nfapi_p5_message_header_unpack msg")
  case (Some h)
  have "vnf_nr_handle_p4_p5_message cl cd p5_idx msg v = None \<longleftrightarrow> p5_message_id h = NFAPI_NR_PHY_MSG_TYPE_PARAM_RESPONSE \<and>
      address_of_unknown_phy (nfapi_nr_p5_message_unpack (vnf_nr_body cd) msg) v"
    unfolding vnf_nr_handle_p4_p5_message_def Some option.case Let_def vnf_handler_defs if_none address_response_none
    by (auto simp: NFAPI_NR_PHY_MSG_TYPE_PNF_PARAM_RESPONSE_def NFAPI_NR_PHY_MSG_TYPE_PNF_CONFIG_RESPONSE_def
        NFAPI_NR_PHY_MSG_TYPE_PNF_START_RESPONSE_def NFAPI_PNF_STOP_RESPONSE_def NFAPI_NR_PHY_MSG_TYPE_PARAM_RESPONSE_def split: option.split)
  then show ?thesis using Some by simp
qed (simp add: vnf_nr_handle_p4_p5_message_def)

lemma allocate_phy_found:
  assumes "nfapi_vnf_allocate_phy p5_idx v0 = (v, i)"
  shows "\<exists>phy. nfapi_vnf_phy_info_list_find v i = Some phy \<and> vp_timing_window phy = 30 \<and> vp_timing_info_mode phy = 3 \<and>
    vp_timing_info_period phy = 10 \<and> pnf_list v = pnf_list v0"
  using assms by (auto simp: nfapi_vnf_allocate_phy_def nfapi_vnf_phy_info_list_add_def nfapi_vnf_phy_info_list_find_def Let_def)

end
