(* ===== verification/Nr_Indications.thy ===== *)
theory Nr_Indications
  imports Nfapi_Ids P7_Header P7_Pdu
begin

text \<open>
  The uplink indications of NR in \<^verbatim>\<open>nfapi_p7.c\<close>: SLOT, RX_DATA, CRC, UCI, SRS and RACH.  Unlike the LTE
  messages they have no TLVs, a message is the SFN and the slot, a count and that many
  structures.

  The unpackers have three outcomes.  The type \<open>'a got\<close> has the failure (the C function returns 0)
  as the inner \<open>None\<close>, and undefined behaviour (a value is written through a pointer that is null or
  behind an allocation) as the outer one.  The UCI packer goes on after a failure, so a packer
  here is a \<open>put\<close>, which returns the success and the cursor where it stopped, or \<open>None\<close> for
  undefined behaviour.

  An array in a structure is the list of its elements up to the count that goes with it.
  \<open>ok\<close> says whether the allocations of a message succeed.  What has been allocated, or is part of the message
  structure that the caller has cleared, is 0 until it is written.
\<close>

section \<open>Reading and writing\<close>

type_synonym 'a got = "('a \<times> rbuf) option option"
type_synonym put = "wbuf \<Rightarrow> (bool \<times> wbuf) option"

definition got_bind :: "'a got \<Rightarrow> ('a \<times> rbuf \<Rightarrow> 'b got) \<Rightarrow> 'b got" where
  "got_bind x f = (case x of None \<Rightarrow> None | Some None \<Rightarrow> Some None | Some (Some y) \<Rightarrow> f y)"

text \<open>A read whose result the code looks at, and one whose result it ignores; \<open>ok\<close> is the validity of the destination.\<close>

definition store :: "bool \<Rightarrow> (rbuf \<Rightarrow> ('a \<times> rbuf) option) \<Rightarrow> rbuf \<Rightarrow> 'a got" where
  "store ok g r = (case g r of None \<Rightarrow> Some None | Some x \<Rightarrow> if ok then Some (Some x) else None)"

definition try_store :: "bool \<Rightarrow> 'a \<Rightarrow> (rbuf \<Rightarrow> ('a \<times> rbuf) option) \<Rightarrow> rbuf \<Rightarrow> 'a got" where
  "try_store ok d g r = (case g r of None \<Rightarrow> Some (Some (d, r)) | Some x \<Rightarrow> if ok then Some (Some x) else None)"

fun get_n :: "(rbuf \<Rightarrow> 'a got) \<Rightarrow> nat \<Rightarrow> rbuf \<Rightarrow> 'a list got" where
  "get_n g 0 r = Some (Some ([], r))"
| "get_n g (Suc n) r = got_bind (g r) (\<lambda>(x, r). got_bind (get_n g n r) (\<lambda>(xs, r). Some (Some (x # xs, r))))"

definition attempt :: "(wbuf \<Rightarrow> wbuf option) \<Rightarrow> put" where
  "attempt p w = Some (case p w of None \<Rightarrow> (False, w) | Some w' \<Rightarrow> (True, w'))"

definition ignoring :: "put \<Rightarrow> put" where
  "ignoring p w = map_option (\<lambda>(b, w'). (True, w')) (p w)"

definition only_if :: "bool \<Rightarrow> put \<Rightarrow> put" where
  "only_if b p w = (if b then p w else Some (True, w))"

fun in_order :: "put list \<Rightarrow> put" where
  "in_order [] w = Some (True, w)"
| "in_order (p # ps) w = (case p w of None \<Rightarrow> None
     | Some (b, w') \<Rightarrow> if b then in_order ps w' else Some (False, w'))"

text \<open>The result for the frame, where only success counts.\<close>

definition put_result :: "put \<Rightarrow> wbuf \<Rightarrow> wbuf option" where
  "put_result p w = (case p w of Some (True, w') \<Rightarrow> Some w' | _ \<Rightarrow> None)"

text \<open>The number of bytes that the code takes for \<open>n\<close> bits.\<close>

definition bit_bytes :: "u16 \<Rightarrow> u32" where
  "bit_bytes n = ucast (n div 8) + 1"

section \<open>Structures\<close>

record ('n, 'p) nr_indication =
  nr_sfn :: u16
  nr_slot :: u16
  nr_number :: 'n
  nr_pdus :: "'p list"

record nr_rx_data_pdu =
  rxd_handle :: u32
  rxd_rnti :: u16
  rxd_harq_id :: u8
  rxd_pdu_length :: u16
  rxd_ul_cqi :: u8
  rxd_timing_advance :: u16
  rxd_rssi :: u16
  rxd_pdu :: "u8 list"

record nr_crc =
  ncrc_handle :: u32
  ncrc_rnti :: u16
  ncrc_harq_id :: u8
  tb_crc_status :: u8
  num_cb :: u16
  cb_crc_status :: "u8 list"
  ncrc_ul_cqi :: u8
  ncrc_timing_advance :: u16
  ncrc_rssi :: u16

record nr_preamble =
  preamble_index :: u8
  preamble_timing_advance :: u16
  preamble_pwr :: u32

record nr_prach_pdu =
  phy_cell_id :: u16
  symbol_index :: u8
  slot_index :: u8
  freq_index :: u8
  avg_rssi :: u8
  avg_snr :: u8
  num_preamble :: u8
  preamble_list :: "nr_preamble list"

record srs_report_tlv =
  report_tag :: u16
  report_length :: u32
  report_value :: "u32 list"

record nr_srs_pdu =
  srs_handle :: u32
  srs_rnti :: u16
  timing_advance_offset :: u16
  timing_advance_offset_nsec :: "16 word"
  srs_usage :: u8
  report_type :: u8
  report_tlv :: srs_report_tlv

record nr_srs_indication = "(u8, nr_srs_pdu) nr_indication" +
  control_length :: u16

record iq_matrix =
  iq_representation :: u8
  iq_gnb_antenna_elements :: u16
  iq_ue_srs_ports :: u16
  iq_prg_size :: u16
  iq_prgs :: u16
  channel_matrix :: "u8 list"

record beamforming_report =
  bf_prg_size :: u16
  bf_num_symbols :: u8
  bf_wide_band_snr :: u8
  bf_num_reported_symbols :: u8
  bf_num_prgs :: u16
  bf_prg_list :: "u8 list"

text \<open>\<open>uci_part\<close> is the structure of HARQ and of both CSI parts, which C declares three times.\<close>

record uci_part =
  part_crc :: u8
  part_bit_len :: u16
  part_payload :: "u8 list"

record uci_sr =
  sr_bit_len :: u16
  sr_payload :: "u8 list"

record uci_sr_0_1 =
  sr_indication :: u8
  sr_confidence_level :: u8

record uci_harq_0_1 =
  num_harq :: u8
  harq_confidence_level :: u8
  harq_list :: "u8 list"

record uci_pusch =
  pusch_pduBitmap :: u8
  pusch_handle :: u32
  pusch_rnti :: u16
  pusch_ul_cqi :: u8
  pusch_timing_advance :: u16
  pusch_rssi :: u16
  pusch_harq :: uci_part
  pusch_csi_part1 :: uci_part
  pusch_csi_part2 :: uci_part

record uci_0_1 =
  f01_pduBitmap :: u8
  f01_handle :: u32
  f01_rnti :: u16
  f01_pucch_format :: u8
  f01_ul_cqi :: u8
  f01_timing_advance :: u16
  f01_rssi :: u16
  f01_sr :: "uci_sr_0_1 option"
  f01_harq :: "uci_harq_0_1 option"

record uci_2_3_4 =
  f234_pduBitmap :: u8
  f234_handle :: u32
  f234_rnti :: u16
  f234_pucch_format :: u8
  f234_ul_cqi :: u8
  f234_timing_advance :: u16
  f234_rssi :: u16
  f234_sr :: uci_sr
  f234_harq :: uci_part
  f234_csi_part1 :: uci_part
  f234_csi_part2 :: uci_part

text \<open>The union of a UCI PDU; \<open>cleared\<close> is the union that nothing has been written to.\<close>

datatype uci_union = pusch_pdu uci_pusch | pucch_pdu_format_0_1 uci_0_1 | pucch_pdu_format_2_3_4 uci_2_3_4 | cleared

record nr_uci =
  uci_pdu_type :: u16
  uci_pdu_size :: u16
  uci_pdu :: uci_union

definition NFAPI_NR_UCI_PUSCH_PDU_TYPE :: u16 where "NFAPI_NR_UCI_PUSCH_PDU_TYPE = 0"
definition NFAPI_NR_UCI_FORMAT_0_1_PDU_TYPE :: u16 where "NFAPI_NR_UCI_FORMAT_0_1_PDU_TYPE = 1"
definition NFAPI_NR_UCI_FORMAT_2_3_4_PDU_TYPE :: u16 where "NFAPI_NR_UCI_FORMAT_2_3_4_PDU_TYPE = 2"

lemmas uci_types = NFAPI_NR_UCI_PUSCH_PDU_TYPE_def NFAPI_NR_UCI_FORMAT_0_1_PDU_TYPE_def NFAPI_NR_UCI_FORMAT_2_3_4_PDU_TYPE_def

section \<open>Packers\<close>

definition pack_nr_slot_indication :: "u16 \<times> u16 \<Rightarrow> wbuf \<Rightarrow> wbuf option" where
  "pack_nr_slot_indication m w = push16 (fst m) w \<bind> push16 (snd m)"

definition pack_nr_rx_data_indication_body :: "nr_rx_data_pdu \<Rightarrow> wbuf \<Rightarrow> wbuf option" where
  "pack_nr_rx_data_indication_body v w =
     push32 (rxd_handle v) w \<bind> (\<lambda>w. push16 (rxd_rnti v) w \<bind> (\<lambda>w. push8 (rxd_harq_id v) w \<bind>
     (\<lambda>w. push16 (rxd_pdu_length v) w \<bind> (\<lambda>w. push8 (rxd_ul_cqi v) w \<bind> (\<lambda>w. push16 (rxd_timing_advance v) w \<bind>
     (\<lambda>w. push16 (rxd_rssi v) w \<bind>
     pusharray8 (rxd_pdu v) (ucast (rxd_pdu_length v)) (ucast (rxd_pdu_length v))))))))"

definition pack_nr_rx_data_indication :: "(u16, nr_rx_data_pdu) nr_indication \<Rightarrow> wbuf \<Rightarrow> wbuf option" where
  "pack_nr_rx_data_indication m w =
     push16 (nr_sfn m) w \<bind> (\<lambda>w. push16 (nr_slot m) w \<bind> (\<lambda>w. push16 (nr_number m) w \<bind>
     push_all pack_nr_rx_data_indication_body (take (unat (nr_number m)) (nr_pdus m))))"

text \<open>The results of the calls are not looked at.\<close>

definition pack_nr_crc_indication_body :: "nr_crc \<Rightarrow> put" where
  "pack_nr_crc_indication_body v = in_order [
     ignoring (attempt (push32 (ncrc_handle v))),
     ignoring (attempt (push16 (ncrc_rnti v))),
     ignoring (attempt (push8 (ncrc_harq_id v))),
     ignoring (attempt (push8 (tb_crc_status v))),
     ignoring (attempt (push16 (num_cb v))),
     only_if (num_cb v \<noteq> 0)
       (ignoring (attempt (pusharray8 (cb_crc_status v) (bit_bytes (num_cb v)) (bit_bytes (num_cb v))))),
     ignoring (attempt (push8 (ncrc_ul_cqi v))),
     ignoring (attempt (push16 (ncrc_timing_advance v))),
     ignoring (attempt (push16 (ncrc_rssi v)))]"

definition pack_nr_crc_indication :: "(u16, nr_crc) nr_indication \<Rightarrow> put" where
  "pack_nr_crc_indication m = in_order (
     attempt (push16 (nr_sfn m)) # attempt (push16 (nr_slot m)) # attempt (push16 (nr_number m)) #
     map pack_nr_crc_indication_body (take (unat (nr_number m)) (nr_pdus m)))"

text \<open>
  The reports that an SRS PDU carries are packed on their own.  The size of the matrix is a 16-bit
  number: the product of the three counts is an \<^verbatim>\<open>int\<close>, of which the low 16 bits are stored (as on every machine
  that wraps \<^verbatim>\<open>int\<close> around); \<open>array_at\<close> reads an array, which is undefined behind its end.
\<close>

definition CHANNEL_MATRIX_BYTES :: nat where "CHANNEL_MATRIX_BYTES = 272 * 2 * 8 * 4"
definition REPORTED_PRGS :: nat where "REPORTED_PRGS = 272"

definition channel_matrix_size :: "u8 \<Rightarrow> u16 \<Rightarrow> u16 \<Rightarrow> u16 \<Rightarrow> u16" where
  "channel_matrix_size rep ants ports prgs =
     (let n = prgs * ports * ants in if rep = 0 then push_bit 1 n else push_bit 2 n)"

definition array_at :: "('a \<Rightarrow> wbuf \<Rightarrow> wbuf option) \<Rightarrow> 'a list \<Rightarrow> nat \<Rightarrow> put" where
  "array_at p xs i = (if i < length xs then attempt (p (xs ! i)) else (\<lambda>w. None))"

text \<open>The number of bytes, 0 for a failure.\<close>

definition packed_length :: "put \<Rightarrow> u8 list \<Rightarrow> (nat \<times> u8 list) option" where
  "packed_length p buf = map_option (\<lambda>(b, w). (if b then wb_pos w else 0, wb_mem w)) (p \<lparr>wb_mem = buf, wb_pos = 0, wb_end = length buf\<rparr>)"

definition pack_nr_srs_normalized_channel_iq_matrix :: "iq_matrix \<Rightarrow> u8 list \<Rightarrow> (nat \<times> u8 list) option" where
  "pack_nr_srs_normalized_channel_iq_matrix v = packed_length (in_order [
     attempt (push8 (iq_representation v)),
     attempt (push16 (iq_gnb_antenna_elements v)),
     attempt (push16 (iq_ue_srs_ports v)),
     attempt (push16 (iq_prg_size v)),
     attempt (push16 (iq_prgs v)),
     in_order (map (array_at push8 (channel_matrix v))
       [0..<unat (channel_matrix_size (iq_representation v) (iq_gnb_antenna_elements v) (iq_ue_srs_ports v) (iq_prgs v))])])"

definition pack_nr_srs_reported_symbol :: "beamforming_report \<Rightarrow> put" where
  "pack_nr_srs_reported_symbol v = in_order [
     attempt (push16 (bf_num_prgs v)), in_order (map (array_at push8 (bf_prg_list v)) [0..<unat (bf_num_prgs v)])]"

definition pack_nr_srs_beamforming_report :: "beamforming_report \<Rightarrow> u8 list \<Rightarrow> (nat \<times> u8 list) option" where
  "pack_nr_srs_beamforming_report v = packed_length (in_order [
     attempt (push16 (bf_prg_size v)),
     attempt (push8 (bf_num_symbols v)),
     attempt (push8 (bf_wide_band_snr v)),
     attempt (push8 (bf_num_reported_symbols v)),
     pack_nr_srs_reported_symbol v])"

definition pack_nr_srs_report_tlv :: "srs_report_tlv \<Rightarrow> wbuf \<Rightarrow> wbuf option" where
  "pack_nr_srs_report_tlv v w =
     push16 (report_tag v) w \<bind> (\<lambda>w. push32 (report_length v) w \<bind>
     push_all push32 (take (unat (report_length v)) (report_value v)))"

definition pack_nr_srs_indication_body :: "nr_srs_pdu \<Rightarrow> wbuf \<Rightarrow> wbuf option" where
  "pack_nr_srs_indication_body v w =
     push32 (srs_handle v) w \<bind> (\<lambda>w. push16 (srs_rnti v) w \<bind> (\<lambda>w. push16 (timing_advance_offset v) w \<bind>
     (\<lambda>w. pushs16 (timing_advance_offset_nsec v) w \<bind> (\<lambda>w. push8 (srs_usage v) w \<bind> (\<lambda>w. push8 (report_type v) w \<bind>
     pack_nr_srs_report_tlv (report_tlv v))))))"

definition pack_nr_srs_indication :: "nr_srs_indication \<Rightarrow> wbuf \<Rightarrow> wbuf option" where
  "pack_nr_srs_indication m w =
     push16 (nr_sfn m) w \<bind> (\<lambda>w. push16 (nr_slot m) w \<bind> (\<lambda>w. push16 (control_length m) w \<bind> (\<lambda>w. push8 (nr_number m) w \<bind>
     push_all pack_nr_srs_indication_body (take (unat (nr_number m)) (nr_pdus m)))))"

definition pack_nr_preamble :: "nr_preamble \<Rightarrow> wbuf \<Rightarrow> wbuf option" where
  "pack_nr_preamble v w =
     push8 (preamble_index v) w \<bind> (\<lambda>w. push16 (preamble_timing_advance v) w \<bind> push32 (preamble_pwr v))"

definition pack_nr_rach_indication_body :: "nr_prach_pdu \<Rightarrow> wbuf \<Rightarrow> wbuf option" where
  "pack_nr_rach_indication_body v w =
     push16 (phy_cell_id v) w \<bind> (\<lambda>w. push8 (symbol_index v) w \<bind> (\<lambda>w. push8 (slot_index v) w \<bind>
     (\<lambda>w. push8 (freq_index v) w \<bind> (\<lambda>w. push8 (avg_rssi v) w \<bind> (\<lambda>w. push8 (avg_snr v) w \<bind>
     (\<lambda>w. push8 (num_preamble v) w \<bind>
     push_all pack_nr_preamble (take (unat (num_preamble v)) (preamble_list v))))))))"

definition pack_nr_rach_indication :: "(u8, nr_prach_pdu) nr_indication \<Rightarrow> wbuf \<Rightarrow> wbuf option" where
  "pack_nr_rach_indication m w =
     push16 (nr_sfn m) w \<bind> (\<lambda>w. push16 (nr_slot m) w \<bind> (\<lambda>w. push8 (nr_number m) w \<bind>
     push_all pack_nr_rach_indication_body (take (unat (nr_number m)) (nr_pdus m))))"

section \<open>Packing UCI\<close>

definition put_uci_sr :: "uci_sr \<Rightarrow> put" where
  "put_uci_sr v = in_order [
     attempt (push16 (sr_bit_len v)),
     attempt (pusharray8 (sr_payload v) (bit_bytes (sr_bit_len v)) (bit_bytes (sr_bit_len v)))]"

definition put_uci_part :: "uci_part \<Rightarrow> put" where
  "put_uci_part v = in_order [
     attempt (push8 (part_crc v)),
     attempt (push16 (part_bit_len v)),
     attempt (pusharray8 (part_payload v) (bit_bytes (part_bit_len v)) (bit_bytes (part_bit_len v)))]"

definition pack_nr_uci_pucch_0_1 :: "uci_0_1 \<Rightarrow> put" where
  "pack_nr_uci_pucch_0_1 v = in_order [
     attempt (push8 (f01_pduBitmap v)),
     attempt (push32 (f01_handle v)),
     attempt (push16 (f01_rnti v)),
     attempt (push8 (f01_pucch_format v)),
     attempt (push8 (f01_ul_cqi v)),
     attempt (push16 (f01_timing_advance v)),
     attempt (push16 (f01_rssi v)),
     only_if (bit (f01_pduBitmap v) 0) (case f01_sr v of None \<Rightarrow> (\<lambda>w. None)
       | Some s \<Rightarrow> in_order [attempt (push8 (sr_indication s)), attempt (push8 (sr_confidence_level s))]),
     only_if (bit (f01_pduBitmap v) 1) (case f01_harq v of None \<Rightarrow> (\<lambda>w. None)
       | Some h \<Rightarrow> in_order [attempt (push8 (num_harq h)), attempt (push8 (harq_confidence_level h)),
           in_order (map (\<lambda>x. attempt (push8 x)) (take (unat (num_harq h)) (harq_list h)))])]"

definition pack_nr_uci_pucch_2_3_4 :: "uci_2_3_4 \<Rightarrow> put" where
  "pack_nr_uci_pucch_2_3_4 v = in_order [
     attempt (push8 (f234_pduBitmap v)),
     attempt (push32 (f234_handle v)),
     attempt (push16 (f234_rnti v)),
     attempt (push8 (f234_pucch_format v - 2)),
     attempt (push8 (f234_ul_cqi v)),
     attempt (push16 (f234_timing_advance v)),
     attempt (push16 (f234_rssi v)),
     only_if (bit (f234_pduBitmap v) 0) (put_uci_sr (f234_sr v)),
     only_if (bit (f234_pduBitmap v) 1) (put_uci_part (f234_harq v)),
     only_if (bit (f234_pduBitmap v) 2) (put_uci_part (f234_csi_part1 v)),
     only_if (bit (f234_pduBitmap v) 3) (put_uci_part (f234_csi_part2 v))]"

definition pack_nr_uci_pusch :: "uci_pusch \<Rightarrow> put" where
  "pack_nr_uci_pusch v = in_order [
     attempt (push8 (pusch_pduBitmap v)),
     attempt (push32 (pusch_handle v)),
     attempt (push16 (pusch_rnti v)),
     attempt (push8 (pusch_ul_cqi v)),
     attempt (push16 (pusch_timing_advance v)),
     attempt (push16 (pusch_rssi v)),
     only_if (bit (pusch_pduBitmap v) 1) (put_uci_part (pusch_harq v)),
     only_if (bit (pusch_pduBitmap v) 2) (put_uci_part (pusch_csi_part1 v)),
     only_if (bit (pusch_pduBitmap v) 3) (put_uci_part (pusch_csi_part2 v))]"

text \<open>The results of the three packers are not looked at.  A union that holds another member than the type says is outside the model.\<close>

definition pack_uci_pdu :: "nr_uci \<Rightarrow> put" where
  "pack_uci_pdu v =
     (if uci_pdu_type v = NFAPI_NR_UCI_PUSCH_PDU_TYPE
      then (case uci_pdu v of pusch_pdu p \<Rightarrow> ignoring (pack_nr_uci_pusch p) | _ \<Rightarrow> (\<lambda>w. None))
      else if uci_pdu_type v = NFAPI_NR_UCI_FORMAT_0_1_PDU_TYPE
      then (case uci_pdu v of pucch_pdu_format_0_1 p \<Rightarrow> ignoring (pack_nr_uci_pucch_0_1 p) | _ \<Rightarrow> (\<lambda>w. None))
      else if uci_pdu_type v = NFAPI_NR_UCI_FORMAT_2_3_4_PDU_TYPE
      then (case uci_pdu v of pucch_pdu_format_2_3_4 p \<Rightarrow> ignoring (pack_nr_uci_pucch_2_3_4 p) | _ \<Rightarrow> (\<lambda>w. None))
      else in_order [])"

definition pack_nr_uci_indication_body :: "nr_uci \<Rightarrow> put" where
  "pack_nr_uci_indication_body v = in_order [
     attempt (push16 (uci_pdu_type v)), attempt (push16 (uci_pdu_size v)), pack_uci_pdu v]"

definition pack_nr_uci_indication :: "(u16, nr_uci) nr_indication \<Rightarrow> put" where
  "pack_nr_uci_indication m = in_order (
     attempt (push16 (nr_sfn m)) # attempt (push16 (nr_slot m)) # attempt (push16 (nr_number m)) #
     map pack_nr_uci_indication_body (take (unat (nr_number m)) (nr_pdus m)))"

section \<open>Unpackers\<close>

definition unpack_nr_slot_indication :: "rbuf \<Rightarrow> ((u16 \<times> u16) \<times> rbuf) option" where
  "unpack_nr_slot_indication r = pull16 r \<bind> (\<lambda>(a, r). pull16 r \<bind> (\<lambda>(b, r). Some ((a, b), r)))"

definition unpack_nr_rx_data_indication_body :: "bool \<Rightarrow> rbuf \<Rightarrow> nr_rx_data_pdu got" where
  "unpack_nr_rx_data_indication_body ok r =
     got_bind (store ok pull32 r) (\<lambda>(a, r). got_bind (store ok pull16 r) (\<lambda>(b, r). got_bind (store ok pull8 r) (\<lambda>(c, r).
     got_bind (store ok pull16 r) (\<lambda>(l, r). got_bind (store ok pull8 r) (\<lambda>(d, r). got_bind (store ok pull16 r) (\<lambda>(e, r).
     got_bind (store ok pull16 r) (\<lambda>(f, r). got_bind (store ok (pullarray8 (ucast l) (ucast l)) r) (\<lambda>(bs, r).
     Some (Some (\<lparr>rxd_handle = a, rxd_rnti = b, rxd_harq_id = c, rxd_pdu_length = l, rxd_ul_cqi = d,
       rxd_timing_advance = e, rxd_rssi = f, rxd_pdu = bs\<rparr>, r))))))))))"

definition unpack_nr_rx_data_indication :: "bool \<Rightarrow> rbuf \<Rightarrow> (u16, nr_rx_data_pdu) nr_indication got" where
  "unpack_nr_rx_data_indication ok r =
     got_bind (store True pull16 r) (\<lambda>(a, r). got_bind (store True pull16 r) (\<lambda>(b, r). got_bind (store True pull16 r) (\<lambda>(n, r).
     got_bind (get_n (unpack_nr_rx_data_indication_body ok) (unat n) r) (\<lambda>(ps, r).
     Some (Some (\<lparr>nr_sfn = a, nr_slot = b, nr_number = n, nr_pdus = ps\<rparr>, r))))))"

text \<open>
  No failure is looked at.  The count of code blocks is read through the pointer to the PDU; the
  array for their status is never allocated.
\<close>

definition unpack_nr_crc_indication_body :: "bool \<Rightarrow> rbuf \<Rightarrow> nr_crc got" where
  "unpack_nr_crc_indication_body ok r =
     got_bind (try_store ok 0 pull32 r) (\<lambda>(a, r). got_bind (try_store ok 0 pull16 r) (\<lambda>(b, r).
     got_bind (try_store ok 0 pull8 r) (\<lambda>(c, r). got_bind (try_store ok 0 pull8 r) (\<lambda>(d, r).
     got_bind (try_store ok 0 pull16 r) (\<lambda>(n, r).
     if \<not> ok then None
     else got_bind (if n = 0 then Some (Some ([], r)) else try_store False [] (pullarray8 (bit_bytes n) (bit_bytes n)) r) (\<lambda>(bs, r).
     got_bind (try_store ok 0 pull8 r) (\<lambda>(e, r). got_bind (try_store ok 0 pull16 r) (\<lambda>(f, r).
     got_bind (try_store ok 0 pull16 r) (\<lambda>(g, r).
     Some (Some (\<lparr>ncrc_handle = a, ncrc_rnti = b, ncrc_harq_id = c, tb_crc_status = d, num_cb = n, cb_crc_status = bs,
       ncrc_ul_cqi = e, ncrc_timing_advance = f, ncrc_rssi = g\<rparr>, r)))))))))))"

definition unpack_nr_crc_indication :: "bool \<Rightarrow> rbuf \<Rightarrow> (u16, nr_crc) nr_indication got" where
  "unpack_nr_crc_indication ok r =
     got_bind (store True pull16 r) (\<lambda>(a, r). got_bind (store True pull16 r) (\<lambda>(b, r). got_bind (store True pull16 r) (\<lambda>(n, r).
     got_bind (get_n (unpack_nr_crc_indication_body ok) (unat n) r) (\<lambda>(ps, r).
     Some (Some (\<lparr>nr_sfn = a, nr_slot = b, nr_number = n, nr_pdus = ps\<rparr>, r))))))"

text \<open>The array of the report has 16384 entries, \<open>room\<close> are left.\<close>

definition SRS_REPORT_WORDS :: nat where "SRS_REPORT_WORDS = 16384"

fun get_array :: "(rbuf \<Rightarrow> ('a \<times> rbuf) option) \<Rightarrow> bool \<Rightarrow> nat \<Rightarrow> nat \<Rightarrow> rbuf \<Rightarrow> 'a list got" where
  "get_array g ok room 0 r = Some (Some ([], r))"
| "get_array g ok room (Suc n) r =
     got_bind (store (ok \<and> 0 < room) g r) (\<lambda>(x, r). got_bind (get_array g ok (room - 1) n r) (\<lambda>(xs, r). Some (Some (x # xs, r))))"

definition unpack_nr_srs_report_tlv :: "bool \<Rightarrow> rbuf \<Rightarrow> srs_report_tlv got" where
  "unpack_nr_srs_report_tlv ok r =
     got_bind (store ok pull16 r) (\<lambda>(t, r). got_bind (store ok pull32 r) (\<lambda>(l, r).
     got_bind (get_array pull32 ok SRS_REPORT_WORDS (unat l) r) (\<lambda>(vs, r).
     Some (Some (\<lparr>report_tag = t, report_length = l, report_value = vs\<rparr>, r)))))"

definition unpack_nr_srs_indication_body :: "bool \<Rightarrow> rbuf \<Rightarrow> nr_srs_pdu got" where
  "unpack_nr_srs_indication_body ok r =
     got_bind (store ok pull32 r) (\<lambda>(a, r). got_bind (store ok pull16 r) (\<lambda>(b, r). got_bind (store ok pull16 r) (\<lambda>(c, r).
     got_bind (store ok pulls16 r) (\<lambda>(d, r). got_bind (store ok pull8 r) (\<lambda>(e, r). got_bind (store ok pull8 r) (\<lambda>(f, r).
     got_bind (unpack_nr_srs_report_tlv ok r) (\<lambda>(t, r).
     Some (Some (\<lparr>srs_handle = a, srs_rnti = b, timing_advance_offset = c, timing_advance_offset_nsec = d, srs_usage = e,
       report_type = f, report_tlv = t\<rparr>, r)))))))))"

text \<open>
  The reports.  An array keeps what has been read when the buffer ends; for the matrix that is no failure.
  With the result -1 the structure that was filled in part is left out.
\<close>

fun pull_into :: "nat \<Rightarrow> nat \<Rightarrow> rbuf \<Rightarrow> (bool \<times> u8 list) option" where
  "pull_into room 0 r = Some (True, [])"
| "pull_into room (Suc n) r =
     (case pull8 r of None \<Rightarrow> Some (False, [])
      | Some (x, r) \<Rightarrow> if room = 0 then None else map_option (\<lambda>(b, xs). (b, x # xs)) (pull_into (room - 1) n r))"

definition filled :: "nat \<Rightarrow> u8 list \<Rightarrow> u8 list" where
  "filled n xs = xs @ replicate (n - length xs) 0"

definition unpack_nr_srs_normalized_channel_iq_matrix :: "u8 list \<Rightarrow> (int \<times> iq_matrix option) option" where
  "unpack_nr_srs_normalized_channel_iq_matrix msg =
     (case pull8 (rb_of msg) \<bind> (\<lambda>(a, r). pull16 r \<bind> (\<lambda>(b, r). pull16 r \<bind> (\<lambda>(c, r). pull16 r \<bind> (\<lambda>(d, r).
        pull16 r \<bind> (\<lambda>(e, r). Some ((a, b, c, d, e), r)))))) of
        None \<Rightarrow> Some (-1, None)
      | Some ((a, b, c, d, e), r) \<Rightarrow>
          map_option (\<lambda>(ok, xs). (0, Some \<lparr>iq_representation = a, iq_gnb_antenna_elements = b, iq_ue_srs_ports = c,
              iq_prg_size = d, iq_prgs = e, channel_matrix = filled CHANNEL_MATRIX_BYTES xs\<rparr>))
            (pull_into CHANNEL_MATRIX_BYTES (unat (channel_matrix_size a b c e)) r))"

definition unpack_nr_srs_reported_symbol :: "rbuf \<Rightarrow> (u16 \<times> u8 list) got" where
  "unpack_nr_srs_reported_symbol r =
     got_bind (store True pull16 r) (\<lambda>(n, r). got_bind (get_array pull8 True REPORTED_PRGS (unat n) r) (\<lambda>(xs, r).
     Some (Some ((n, filled REPORTED_PRGS xs), r))))"

definition unpack_nr_srs_beamforming_report :: "u8 list \<Rightarrow> (int \<times> beamforming_report option) option" where
  "unpack_nr_srs_beamforming_report msg =
     map_option (\<lambda>x. case x of None \<Rightarrow> (-1, None) | Some (v, r) \<Rightarrow> (0, Some v))
       (got_bind (store True pull16 (rb_of msg)) (\<lambda>(a, r). got_bind (store True pull8 r) (\<lambda>(b, r). got_bind (store True pull8 r) (\<lambda>(c, r).
        got_bind (store True pull8 r) (\<lambda>(d, r). got_bind (unpack_nr_srs_reported_symbol r) (\<lambda>((n, xs), r).
        Some (Some (\<lparr>bf_prg_size = a, bf_num_symbols = b, bf_wide_band_snr = c, bf_num_reported_symbols = d, bf_num_prgs = n,
          bf_prg_list = xs\<rparr>, r))))))))"

text \<open>The caller has allocated one PDU (\<open>ok\<close>), the others are behind the allocation.\<close>

fun get_srs_pdus :: "bool \<Rightarrow> nat \<Rightarrow> rbuf \<Rightarrow> nr_srs_pdu list got" where
  "get_srs_pdus ok 0 r = Some (Some ([], r))"
| "get_srs_pdus ok (Suc n) r =
     got_bind (unpack_nr_srs_indication_body ok r) (\<lambda>(p, r). got_bind (get_srs_pdus False n r) (\<lambda>(ps, r). Some (Some (p # ps, r))))"

definition unpack_nr_srs_indication :: "bool \<Rightarrow> rbuf \<Rightarrow> nr_srs_indication got" where
  "unpack_nr_srs_indication ok r =
     got_bind (store True pull16 r) (\<lambda>(a, r). got_bind (store True pull16 r) (\<lambda>(b, r). got_bind (store True pull16 r) (\<lambda>(c, r).
     got_bind (store True pull8 r) (\<lambda>(n, r). got_bind (get_srs_pdus ok (unat n) r) (\<lambda>(ps, r).
     Some (Some (\<lparr>nr_sfn = a, nr_slot = b, nr_number = n, nr_pdus = ps, control_length = c\<rparr>, r)))))))"

text \<open>Only the last of the reads before a test decides.\<close>

definition unpack_nr_preamble :: "bool \<Rightarrow> rbuf \<Rightarrow> nr_preamble got" where
  "unpack_nr_preamble ok r =
     got_bind (try_store ok 0 pull8 r) (\<lambda>(a, r). got_bind (try_store ok 0 pull16 r) (\<lambda>(b, r).
     got_bind (store ok pull32 r) (\<lambda>(c, r).
     Some (Some (\<lparr>preamble_index = a, preamble_timing_advance = b, preamble_pwr = c\<rparr>, r)))))"

definition unpack_nr_rach_indication_body :: "bool \<Rightarrow> rbuf \<Rightarrow> nr_prach_pdu got" where
  "unpack_nr_rach_indication_body ok r =
     got_bind (try_store ok 0 pull16 r) (\<lambda>(a, r). got_bind (try_store ok 0 pull8 r) (\<lambda>(b, r).
     got_bind (try_store ok 0 pull8 r) (\<lambda>(c, r). got_bind (try_store ok 0 pull8 r) (\<lambda>(d, r).
     got_bind (try_store ok 0 pull8 r) (\<lambda>(e, r). got_bind (try_store ok 0 pull8 r) (\<lambda>(f, r).
     got_bind (store ok pull8 r) (\<lambda>(n, r). got_bind (get_n (unpack_nr_preamble ok) (unat n) r) (\<lambda>(ps, r).
     Some (Some (\<lparr>phy_cell_id = a, symbol_index = b, slot_index = c, freq_index = d, avg_rssi = e, avg_snr = f,
       num_preamble = n, preamble_list = ps\<rparr>, r))))))))))"

definition unpack_nr_rach_indication :: "bool \<Rightarrow> rbuf \<Rightarrow> (u8, nr_prach_pdu) nr_indication got" where
  "unpack_nr_rach_indication ok r =
     got_bind (try_store True 0 pull16 r) (\<lambda>(a, r). got_bind (try_store True 0 pull16 r) (\<lambda>(b, r).
     got_bind (store True pull8 r) (\<lambda>(n, r). got_bind (get_n (unpack_nr_rach_indication_body ok) (unat n) r) (\<lambda>(ps, r).
     Some (Some (\<lparr>nr_sfn = a, nr_slot = b, nr_number = n, nr_pdus = ps\<rparr>, r))))))"

section \<open>Unpacking UCI\<close>

text \<open>The allocations inside a PDU are checked (\<open>part_ok\<close>), the list of PDUs is not (\<open>ok\<close>).  A member that the bitmap leaves out stays 0.\<close>

definition no_part :: uci_part where "no_part = \<lparr>part_crc = 0, part_bit_len = 0, part_payload = []\<rparr>"
definition no_sr :: uci_sr where "no_sr = \<lparr>sr_bit_len = 0, sr_payload = []\<rparr>"

definition get_if :: "bool \<Rightarrow> (rbuf \<Rightarrow> ('a \<times> rbuf) option) \<Rightarrow> 'a \<Rightarrow> rbuf \<Rightarrow> ('a \<times> rbuf) option" where
  "get_if b g z r = (if b then g r else Some (z, r))"

definition get_uci_sr :: "bool \<Rightarrow> rbuf \<Rightarrow> (uci_sr \<times> rbuf) option" where
  "get_uci_sr part_ok r =
     pull16 r \<bind> (\<lambda>(n, r). if \<not> part_ok then None
       else pullarray8 (bit_bytes n) (bit_bytes n) r \<bind> (\<lambda>(bs, r). Some (\<lparr>sr_bit_len = n, sr_payload = bs\<rparr>, r)))"

definition get_uci_part :: "bool \<Rightarrow> rbuf \<Rightarrow> (uci_part \<times> rbuf) option" where
  "get_uci_part part_ok r =
     pull8 r \<bind> (\<lambda>(c, r). pull16 r \<bind> (\<lambda>(n, r). if \<not> part_ok then None
       else pullarray8 (bit_bytes n) (bit_bytes n) r \<bind> (\<lambda>(bs, r).
         Some (\<lparr>part_crc = c, part_bit_len = n, part_payload = bs\<rparr>, r))))"

definition get_uci_sr_0_1 :: "bool \<Rightarrow> rbuf \<Rightarrow> (uci_sr_0_1 option \<times> rbuf) option" where
  "get_uci_sr_0_1 part_ok r =
     (if \<not> part_ok then None
      else pull8 r \<bind> (\<lambda>(a, r). pull8 r \<bind> (\<lambda>(b, r). Some (Some \<lparr>sr_indication = a, sr_confidence_level = b\<rparr>, r))))"

definition get_uci_harq_0_1 :: "bool \<Rightarrow> rbuf \<Rightarrow> (uci_harq_0_1 option \<times> rbuf) option" where
  "get_uci_harq_0_1 part_ok r =
     (if \<not> part_ok then None
      else pull8 r \<bind> (\<lambda>(n, r). pull8 r \<bind> (\<lambda>(b, r). pull_n pull8 (unat n) r \<bind> (\<lambda>(hs, r).
        Some (Some \<lparr>num_harq = n, harq_confidence_level = b, harq_list = hs\<rparr>, r)))))"

definition unpack_nr_uci_pucch_0_1 :: "bool \<Rightarrow> rbuf \<Rightarrow> (uci_0_1 \<times> rbuf) option" where
  "unpack_nr_uci_pucch_0_1 part_ok r =
     pull8 r \<bind> (\<lambda>(m, r). pull32 r \<bind> (\<lambda>(a, r). pull16 r \<bind> (\<lambda>(b, r). pull8 r \<bind> (\<lambda>(c, r). pull8 r \<bind> (\<lambda>(d, r).
     pull16 r \<bind> (\<lambda>(e, r). pull16 r \<bind> (\<lambda>(f, r).
     get_if (bit m 0) (get_uci_sr_0_1 part_ok) None r \<bind> (\<lambda>(s, r).
     get_if (bit m 1) (get_uci_harq_0_1 part_ok) None r \<bind> (\<lambda>(h, r).
     Some (\<lparr>f01_pduBitmap = m, f01_handle = a, f01_rnti = b, f01_pucch_format = c, f01_ul_cqi = d,
       f01_timing_advance = e, f01_rssi = f, f01_sr = s, f01_harq = h\<rparr>, r))))))))))"

definition unpack_nr_uci_pucch_2_3_4 :: "bool \<Rightarrow> rbuf \<Rightarrow> (uci_2_3_4 \<times> rbuf) option" where
  "unpack_nr_uci_pucch_2_3_4 part_ok r =
     pull8 r \<bind> (\<lambda>(m, r). pull32 r \<bind> (\<lambda>(a, r). pull16 r \<bind> (\<lambda>(b, r). pull8 r \<bind> (\<lambda>(c, r). pull8 r \<bind> (\<lambda>(d, r).
     pull16 r \<bind> (\<lambda>(e, r). pull16 r \<bind> (\<lambda>(f, r).
     get_if (bit m 0) (get_uci_sr part_ok) no_sr r \<bind> (\<lambda>(s, r).
     get_if (bit m 1) (get_uci_part part_ok) no_part r \<bind> (\<lambda>(h, r).
     get_if (bit m 2) (get_uci_part part_ok) no_part r \<bind> (\<lambda>(p, r).
     get_if (bit m 3) (get_uci_part part_ok) no_part r \<bind> (\<lambda>(q, r).
     Some (\<lparr>f234_pduBitmap = m, f234_handle = a, f234_rnti = b, f234_pucch_format = c + 2, f234_ul_cqi = d,
       f234_timing_advance = e, f234_rssi = f, f234_sr = s, f234_harq = h, f234_csi_part1 = p, f234_csi_part2 = q\<rparr>, r))))))))))))"

definition unpack_nr_uci_pusch :: "bool \<Rightarrow> rbuf \<Rightarrow> (uci_pusch \<times> rbuf) option" where
  "unpack_nr_uci_pusch part_ok r =
     pull8 r \<bind> (\<lambda>(m, r). pull32 r \<bind> (\<lambda>(a, r). pull16 r \<bind> (\<lambda>(b, r). pull8 r \<bind> (\<lambda>(d, r).
     pull16 r \<bind> (\<lambda>(e, r). pull16 r \<bind> (\<lambda>(f, r).
     get_if (bit m 1) (get_uci_part part_ok) no_part r \<bind> (\<lambda>(h, r).
     get_if (bit m 2) (get_uci_part part_ok) no_part r \<bind> (\<lambda>(p, r).
     get_if (bit m 3) (get_uci_part part_ok) no_part r \<bind> (\<lambda>(q, r).
     Some (\<lparr>pusch_pduBitmap = m, pusch_handle = a, pusch_rnti = b, pusch_ul_cqi = d,
       pusch_timing_advance = e, pusch_rssi = f, pusch_harq = h, pusch_csi_part1 = p, pusch_csi_part2 = q\<rparr>, r))))))))))"

text \<open>A type that is not known is logged and accepted.\<close>

definition unpack_uci_pdu :: "bool \<Rightarrow> u16 \<Rightarrow> rbuf \<Rightarrow> (uci_union \<times> rbuf) option" where
  "unpack_uci_pdu part_ok t r =
     (if t = NFAPI_NR_UCI_PUSCH_PDU_TYPE then map_option (\<lambda>(p, r). (pusch_pdu p, r)) (unpack_nr_uci_pusch part_ok r)
      else if t = NFAPI_NR_UCI_FORMAT_0_1_PDU_TYPE
      then map_option (\<lambda>(p, r). (pucch_pdu_format_0_1 p, r)) (unpack_nr_uci_pucch_0_1 part_ok r)
      else if t = NFAPI_NR_UCI_FORMAT_2_3_4_PDU_TYPE
      then map_option (\<lambda>(p, r). (pucch_pdu_format_2_3_4 p, r)) (unpack_nr_uci_pucch_2_3_4 part_ok r)
      else Some (cleared, r))"

text \<open>After the first value has been stored the list is known to be there.\<close>

definition unpack_nr_uci_indication_body :: "bool \<Rightarrow> bool \<Rightarrow> rbuf \<Rightarrow> nr_uci got" where
  "unpack_nr_uci_indication_body ok part_ok r =
     got_bind (store ok pull16 r) (\<lambda>(t, r). got_bind (store ok pull16 r) (\<lambda>(n, r).
     got_bind (store ok (unpack_uci_pdu part_ok t) r) (\<lambda>(u, r).
     Some (Some (\<lparr>uci_pdu_type = t, uci_pdu_size = n, uci_pdu = u\<rparr>, r)))))"

definition unpack_nr_uci_indication :: "bool \<Rightarrow> bool \<Rightarrow> rbuf \<Rightarrow> (u16, nr_uci) nr_indication got" where
  "unpack_nr_uci_indication ok part_ok r =
     got_bind (store True pull16 r) (\<lambda>(a, r). got_bind (store True pull16 r) (\<lambda>(b, r). got_bind (store True pull16 r) (\<lambda>(n, r).
     got_bind (get_n (unpack_nr_uci_indication_body ok part_ok) (unat n) r) (\<lambda>(ps, r).
     Some (Some (\<lparr>nr_sfn = a, nr_slot = b, nr_number = n, nr_pdus = ps\<rparr>, r))))))"

section \<open>Judgements\<close>

text \<open>
  \<open>puts p bs\<close> and \<open>gets g x bs\<close> are what \<open>writes\<close> and \<open>reads\<close> are for the routines with three outcomes; nothing is
  said about a buffer that is too short.
\<close>

definition puts :: "put \<Rightarrow> u8 list \<Rightarrow> bool" where
  "puts p bs \<longleftrightarrow> (\<forall>w. wbuf_ok w \<longrightarrow> length bs \<le> wb_room w \<longrightarrow> p w = Some (True, wb_write bs w))"

definition gets :: "(rbuf \<Rightarrow> 'a got) \<Rightarrow> 'a \<Rightarrow> u8 list \<Rightarrow> bool" where
  "gets g x bs \<longleftrightarrow> (\<forall>r rest. rbuf_ok r \<and> rb_rest r = bs @ rest \<longrightarrow> g r = Some (Some (x, rb_adv (length bs) r)))"

named_theorems puts_intro \<open>rules for packers with three outcomes\<close>
named_theorems gets_intro \<open>rules for unpackers with three outcomes\<close>

lemma putsD: "puts p bs \<Longrightarrow> wbuf_ok w \<Longrightarrow> length bs \<le> wb_room w \<Longrightarrow> p w = Some (True, wb_write bs w)"
  by (simp add: puts_def)

lemma getsD: "gets g x bs \<Longrightarrow> rbuf_ok r \<Longrightarrow> rb_rest r = bs @ rest \<Longrightarrow> g r = Some (Some (x, rb_adv (length bs) r))"
  by (simp add: gets_def)

lemma puts_attempt [puts_intro]: "writes p bs \<Longrightarrow> puts (attempt p) bs"
  by (simp add: puts_def attempt_def writes_def)

lemma puts_ignoring [puts_intro]: "puts p bs \<Longrightarrow> puts (ignoring p) bs"
  by (simp add: puts_def ignoring_def)

lemma puts_only_if [puts_intro]: "(b \<Longrightarrow> puts p bs) \<Longrightarrow> puts (only_if b p) (if b then bs else [])"
  by (auto simp: puts_def only_if_def)

lemma puts_Nil [puts_intro]: "puts (in_order []) []"
  by (simp add: puts_def)

lemma puts_Cons [puts_intro]: "puts p as \<Longrightarrow> puts (in_order ps) bs \<Longrightarrow> puts (in_order (p # ps)) (as @ bs)"
  by (auto simp: puts_def wbuf_ok_write wb_room_write wb_write_write)

lemma puts_map [puts_intro]:
  "(\<And>x. x \<in> set xs \<Longrightarrow> puts (p x) (enc x)) \<Longrightarrow> puts (in_order (map p xs)) (concat (map enc xs))"
  by (induction xs) (simp_all add: puts_Nil puts_Cons)

lemma gets_store [gets_intro]: "reads g x bs \<Longrightarrow> gets (store True g) x bs"
  by (auto simp: gets_def store_def reads_def)

lemma gets_try_store [gets_intro]: "reads g x bs \<Longrightarrow> gets (try_store True d g) x bs"
  by (auto simp: gets_def try_store_def reads_def)

lemma gets_return [gets_intro]: "gets (\<lambda>r. Some (Some (x, r))) x []"
  by (simp add: gets_def)

lemma gets_bind [gets_intro]:
  assumes g: "gets g x as" and h: "gets (h x) y bs"
  shows "gets (\<lambda>r. got_bind (g r) (\<lambda>(a, r). h a r)) y (as @ bs)"
  unfolding gets_def
proof (intro allI impI)
  fix r rest assume r: "rbuf_ok r \<and> rb_rest r = (as @ bs) @ rest"
  then have "length as \<le> rb_room r" using length_rb_rest [of r] by simp
  then have ok: "rbuf_ok (rb_adv (length as) r)" using r by (simp add: rbuf_ok_adv)
  have "rb_rest (rb_adv (length as) r) = bs @ rest" using r by (simp add: rb_rest_adv)
  from getsD [OF h ok this] getsD [OF g, of r "bs @ rest"] r
  show "got_bind (g r) (\<lambda>(a, r). h a r) = Some (Some (y, rb_adv (length (as @ bs)) r))"
    by (simp add: got_bind_def add.commute)
qed

lemma gets_cong: "gets g x bs \<Longrightarrow> bs = cs \<Longrightarrow> x = y \<Longrightarrow> gets g y cs"
  by simp

lemma get_n_eta:
  "get_n g 0 = (\<lambda>r. Some (Some ([], r)))"
  "get_n g (Suc n) = (\<lambda>r. got_bind (g r) (\<lambda>(x, r). got_bind (get_n g n r) (\<lambda>(xs, r). Some (Some (x # xs, r)))))"
  by (simp_all add: fun_eq_iff)

lemma gets_n:
  "(\<And>x. x \<in> set xs \<Longrightarrow> gets g x (enc x)) \<Longrightarrow> gets (get_n g (length xs)) xs (concat (map enc xs))"
proof (induction xs)
  case (Cons x xs)
  have "gets (\<lambda>r. got_bind (get_n g (length xs) r) (\<lambda>(xs, r). Some (Some (x # xs, r)))) (x # xs) (concat (map enc xs) @ [])"
    by (rule gets_bind [OF _ gets_return]) (use Cons in simp)
  then have "gets (\<lambda>r. got_bind (g r) (\<lambda>(x, r). got_bind (get_n g (length xs) r) (\<lambda>(xs, r). Some (Some (x # xs, r)))))
      (x # xs) (enc x @ concat (map enc xs) @ [])"
    by (rule gets_bind [rotated]) (use Cons.prems in simp)
  then show ?case by (simp only: get_n_eta list.size list.map concat.simps append_Nil2 add_Suc_right add_0_right)
qed (simp add: get_n_eta gets_return)

lemma gets_n' [gets_intro]:
  "(\<And>x. x \<in> set xs \<Longrightarrow> gets g x (enc x)) \<Longrightarrow> n = length xs \<Longrightarrow> gets (get_n g n) xs (concat (map enc xs))"
  by (auto intro: gets_n)

text \<open>The result of a routine as the codecs of the frame have it.\<close>

definition got_result :: "(rbuf \<Rightarrow> 'a got) \<Rightarrow> rbuf \<Rightarrow> ('a \<times> rbuf) option" where
  "got_result g r = (case g r of None \<Rightarrow> None | Some x \<Rightarrow> x)"

lemma reads_got: "gets g x bs \<Longrightarrow> reads (got_result g) x bs"
  by (auto simp: gets_def reads_def got_result_def)

lemma unat_bit_bytes [simp]: "unat (bit_bytes n) = unat n div 8 + 1"
proof -
  have "unat n < 2 ^ LENGTH(16)" by (rule unsigned_less)
  then have "unat n div 8 < 2 ^ 16" by simp
  then show ?thesis by (simp add: bit_bytes_def unat_word_ariths unat_div)
qed

section \<open>What is sent\<close>

definition enc_rx_data_pdu :: "nr_rx_data_pdu \<Rightarrow> u8 list" where
  "enc_rx_data_pdu v = be32 (rxd_handle v) @ be16 (rxd_rnti v) @ [rxd_harq_id v] @ be16 (rxd_pdu_length v) @
     [rxd_ul_cqi v] @ be16 (rxd_timing_advance v) @ be16 (rxd_rssi v) @ rxd_pdu v"

definition enc_nr_crc :: "nr_crc \<Rightarrow> u8 list" where
  "enc_nr_crc v = be32 (ncrc_handle v) @ be16 (ncrc_rnti v) @ [ncrc_harq_id v] @ [tb_crc_status v] @ be16 (num_cb v) @
     (if num_cb v \<noteq> 0 then take (unat (bit_bytes (num_cb v))) (cb_crc_status v) else []) @
     [ncrc_ul_cqi v] @ be16 (ncrc_timing_advance v) @ be16 (ncrc_rssi v)"

definition enc_srs_report :: "srs_report_tlv \<Rightarrow> u8 list" where
  "enc_srs_report v = be16 (report_tag v) @ be32 (report_length v) @ concat (map be32 (report_value v))"

definition enc_srs_pdu :: "nr_srs_pdu \<Rightarrow> u8 list" where
  "enc_srs_pdu v = be32 (srs_handle v) @ be16 (srs_rnti v) @ be16 (timing_advance_offset v) @
     be16 (timing_advance_offset_nsec v) @ [srs_usage v] @ [report_type v] @ enc_srs_report (report_tlv v)"

definition enc_preamble :: "nr_preamble \<Rightarrow> u8 list" where
  "enc_preamble v = [preamble_index v] @ be16 (preamble_timing_advance v) @ be32 (preamble_pwr v)"

definition enc_prach_pdu :: "nr_prach_pdu \<Rightarrow> u8 list" where
  "enc_prach_pdu v = be16 (phy_cell_id v) @ [symbol_index v] @ [slot_index v] @ [freq_index v] @ [avg_rssi v] @
     [avg_snr v] @ [num_preamble v] @ concat (map enc_preamble (preamble_list v))"

definition enc_uci_sr :: "uci_sr \<Rightarrow> u8 list" where
  "enc_uci_sr v = be16 (sr_bit_len v) @ sr_payload v"

definition enc_uci_part :: "uci_part \<Rightarrow> u8 list" where
  "enc_uci_part v = [part_crc v] @ be16 (part_bit_len v) @ part_payload v"

definition enc_uci_0_1 :: "uci_0_1 \<Rightarrow> u8 list" where
  "enc_uci_0_1 v = [f01_pduBitmap v] @ be32 (f01_handle v) @ be16 (f01_rnti v) @ [f01_pucch_format v] @ [f01_ul_cqi v] @
     be16 (f01_timing_advance v) @ be16 (f01_rssi v) @
     (case f01_sr v of None \<Rightarrow> [] | Some s \<Rightarrow> [sr_indication s] @ [sr_confidence_level s]) @
     (case f01_harq v of None \<Rightarrow> [] | Some h \<Rightarrow> [num_harq h] @ [harq_confidence_level h] @ harq_list h)"

definition enc_uci_2_3_4 :: "uci_2_3_4 \<Rightarrow> u8 list" where
  "enc_uci_2_3_4 v = [f234_pduBitmap v] @ be32 (f234_handle v) @ be16 (f234_rnti v) @ [f234_pucch_format v - 2] @
     [f234_ul_cqi v] @ be16 (f234_timing_advance v) @ be16 (f234_rssi v) @
     (if bit (f234_pduBitmap v) 0 then enc_uci_sr (f234_sr v) else []) @
     (if bit (f234_pduBitmap v) 1 then enc_uci_part (f234_harq v) else []) @
     (if bit (f234_pduBitmap v) 2 then enc_uci_part (f234_csi_part1 v) else []) @
     (if bit (f234_pduBitmap v) 3 then enc_uci_part (f234_csi_part2 v) else [])"

definition enc_uci_pusch :: "uci_pusch \<Rightarrow> u8 list" where
  "enc_uci_pusch v = [pusch_pduBitmap v] @ be32 (pusch_handle v) @ be16 (pusch_rnti v) @
     [pusch_ul_cqi v] @ be16 (pusch_timing_advance v) @ be16 (pusch_rssi v) @
     (if bit (pusch_pduBitmap v) 1 then enc_uci_part (pusch_harq v) else []) @
     (if bit (pusch_pduBitmap v) 2 then enc_uci_part (pusch_csi_part1 v) else []) @
     (if bit (pusch_pduBitmap v) 3 then enc_uci_part (pusch_csi_part2 v) else [])"

fun enc_uci_union :: "uci_union \<Rightarrow> u8 list" where
  "enc_uci_union (pusch_pdu p) = enc_uci_pusch p"
| "enc_uci_union (pucch_pdu_format_0_1 p) = enc_uci_0_1 p"
| "enc_uci_union (pucch_pdu_format_2_3_4 p) = enc_uci_2_3_4 p"
| "enc_uci_union cleared = []"

definition enc_nr_uci :: "nr_uci \<Rightarrow> u8 list" where
  "enc_nr_uci v = be16 (uci_pdu_type v) @ be16 (uci_pdu_size v) @ enc_uci_union (uci_pdu v)"

definition enc_nr16 :: "('p \<Rightarrow> u8 list) \<Rightarrow> (u16, 'p) nr_indication \<Rightarrow> u8 list" where
  "enc_nr16 enc m = be16 (nr_sfn m) @ be16 (nr_slot m) @ be16 (nr_number m) @ concat (map enc (nr_pdus m))"

definition enc_nr_rach :: "(u8, nr_prach_pdu) nr_indication \<Rightarrow> u8 list" where
  "enc_nr_rach m = be16 (nr_sfn m) @ be16 (nr_slot m) @ [nr_number m] @ concat (map enc_prach_pdu (nr_pdus m))"

definition enc_nr_srs :: "nr_srs_indication \<Rightarrow> u8 list" where
  "enc_nr_srs m = be16 (nr_sfn m) @ be16 (nr_slot m) @ be16 (control_length m) @ [nr_number m] @
     concat (map enc_srs_pdu (nr_pdus m))"

text \<open>Structures whose counts and lengths agree with what they hold.\<close>

definition rx_data_pdu_ok :: "nr_rx_data_pdu \<Rightarrow> bool" where
  "rx_data_pdu_ok v \<longleftrightarrow> length (rxd_pdu v) = unat (rxd_pdu_length v)"

definition srs_pdu_ok :: "nr_srs_pdu \<Rightarrow> bool" where
  "srs_pdu_ok v \<longleftrightarrow> length (report_value (report_tlv v)) = unat (report_length (report_tlv v)) \<and>
     unat (report_length (report_tlv v)) \<le> SRS_REPORT_WORDS"

definition prach_pdu_ok :: "nr_prach_pdu \<Rightarrow> bool" where
  "prach_pdu_ok v \<longleftrightarrow> length (preamble_list v) = unat (num_preamble v)"

definition uci_part_ok :: "bool \<Rightarrow> uci_part \<Rightarrow> bool" where
  "uci_part_ok b v \<longleftrightarrow> (if b then length (part_payload v) = unat (part_bit_len v) div 8 + 1 else v = no_part)"

definition uci_sr_ok :: "bool \<Rightarrow> uci_sr \<Rightarrow> bool" where
  "uci_sr_ok b v \<longleftrightarrow> (if b then length (sr_payload v) = unat (sr_bit_len v) div 8 + 1 else v = no_sr)"

fun uci_union_ok :: "u16 \<Rightarrow> uci_union \<Rightarrow> bool" where
  "uci_union_ok t (pusch_pdu p) \<longleftrightarrow> t = NFAPI_NR_UCI_PUSCH_PDU_TYPE \<and>
     uci_part_ok (bit (pusch_pduBitmap p) 1) (pusch_harq p) \<and>
     uci_part_ok (bit (pusch_pduBitmap p) 2) (pusch_csi_part1 p) \<and>
     uci_part_ok (bit (pusch_pduBitmap p) 3) (pusch_csi_part2 p)"
| "uci_union_ok t (pucch_pdu_format_0_1 p) \<longleftrightarrow> t = NFAPI_NR_UCI_FORMAT_0_1_PDU_TYPE \<and>
     (f01_sr p \<noteq> None \<longleftrightarrow> bit (f01_pduBitmap p) 0) \<and> (f01_harq p \<noteq> None \<longleftrightarrow> bit (f01_pduBitmap p) 1) \<and>
     (case f01_harq p of None \<Rightarrow> True | Some h \<Rightarrow> length (harq_list h) = unat (num_harq h))"
| "uci_union_ok t (pucch_pdu_format_2_3_4 p) \<longleftrightarrow> t = NFAPI_NR_UCI_FORMAT_2_3_4_PDU_TYPE \<and>
     uci_sr_ok (bit (f234_pduBitmap p) 0) (f234_sr p) \<and>
     uci_part_ok (bit (f234_pduBitmap p) 1) (f234_harq p) \<and>
     uci_part_ok (bit (f234_pduBitmap p) 2) (f234_csi_part1 p) \<and>
     uci_part_ok (bit (f234_pduBitmap p) 3) (f234_csi_part2 p)"
| "uci_union_ok t cleared \<longleftrightarrow>
     t \<notin> {NFAPI_NR_UCI_PUSCH_PDU_TYPE, NFAPI_NR_UCI_FORMAT_0_1_PDU_TYPE, NFAPI_NR_UCI_FORMAT_2_3_4_PDU_TYPE}"

definition nr_uci_ok :: "nr_uci \<Rightarrow> bool" where
  "nr_uci_ok v \<longleftrightarrow> uci_union_ok (uci_pdu_type v) (uci_pdu v)"

definition counted :: "('p \<Rightarrow> bool) \<Rightarrow> ('n :: len word, 'p, 'z) nr_indication_scheme \<Rightarrow> bool" where
  "counted pdu_ok m \<longleftrightarrow> length (nr_pdus m) = unat (nr_number m) \<and> list_all pdu_ok (nr_pdus m)"

section \<open>Laws of the packers\<close>

lemma writes_array8 [writes_intro]:
  "length xs = unat n \<Longrightarrow> writes (pusharray8 xs n n) xs"
  using writes_pusharray8 [of n n xs] by (simp add: array_fits_def)

lemma writes_take_all:
  "length xs = n \<Longrightarrow> list_all P xs \<Longrightarrow> (\<And>x. P x \<Longrightarrow> writes (p x) (enc x)) \<Longrightarrow>
   writes (push_all p (take n xs)) (concat (map enc xs))"
  by (auto simp: list_all_iff intro: writes_push_all_of)

lemma writes_slot: "writes (pack_nr_slot_indication m) (be16 (fst m) @ be16 (snd m))"
  unfolding pack_nr_slot_indication_def [abs_def] by (intro writes_intro)

lemma writes_rx_data_pdu: "rx_data_pdu_ok v \<Longrightarrow> writes (pack_nr_rx_data_indication_body v) (enc_rx_data_pdu v)"
  unfolding pack_nr_rx_data_indication_body_def [abs_def] enc_rx_data_pdu_def
  by (intro writes_intro) (simp add: rx_data_pdu_ok_def)

lemma writes_srs_report:
  "length (report_value v) = unat (report_length v) \<Longrightarrow> writes (pack_nr_srs_report_tlv v) (enc_srs_report v)"
  unfolding pack_nr_srs_report_tlv_def [abs_def] enc_srs_report_def
  by (intro writes_bind writes_push16 writes_push32 writes_take_all [where P = "\<lambda>_. True"]) (simp_all add: list_all_iff)

lemma writes_srs_pdu: "srs_pdu_ok v \<Longrightarrow> writes (pack_nr_srs_indication_body v) (enc_srs_pdu v)"
  unfolding pack_nr_srs_indication_body_def [abs_def] enc_srs_pdu_def
  by (intro writes_intro writes_srs_report) (simp add: srs_pdu_ok_def)

lemma writes_preamble: "writes (pack_nr_preamble v) (enc_preamble v)"
  unfolding pack_nr_preamble_def [abs_def] enc_preamble_def by (intro writes_intro)

lemma writes_prach_pdu: "prach_pdu_ok v \<Longrightarrow> writes (pack_nr_rach_indication_body v) (enc_prach_pdu v)"
  unfolding pack_nr_rach_indication_body_def [abs_def] enc_prach_pdu_def
  by (intro writes_bind writes_push16 writes_push8 writes_take_all [where P = "\<lambda>_. True"] writes_preamble)
    (simp_all add: prach_pdu_ok_def list_all_iff)

lemma writes_nr_rx_data:
  "counted rx_data_pdu_ok m \<Longrightarrow> writes (pack_nr_rx_data_indication m) (enc_nr16 enc_rx_data_pdu m)"
  unfolding pack_nr_rx_data_indication_def [abs_def] enc_nr16_def counted_def
  by (intro writes_bind writes_push16 writes_take_all [where P = rx_data_pdu_ok] writes_rx_data_pdu) auto

lemma writes_nr_srs: "counted srs_pdu_ok m \<Longrightarrow> writes (pack_nr_srs_indication m) (enc_nr_srs m)"
  unfolding pack_nr_srs_indication_def [abs_def] enc_nr_srs_def counted_def
  by (intro writes_bind writes_push16 writes_push8 writes_take_all [where P = srs_pdu_ok] writes_srs_pdu) auto

lemma writes_nr_rach: "counted prach_pdu_ok m \<Longrightarrow> writes (pack_nr_rach_indication m) (enc_nr_rach m)"
  unfolding pack_nr_rach_indication_def [abs_def] enc_nr_rach_def counted_def
  by (intro writes_bind writes_push16 writes_push8 writes_take_all [where P = prach_pdu_ok] writes_prach_pdu) auto

text \<open>The packers that go on after a failure.\<close>

lemma writes_pusharray8_take:
  "unat n \<le> length xs \<Longrightarrow> writes (pusharray8 xs n n) (take (unat n) xs)"
  using writes_pusharray8 [of n n xs] by (simp add: array_fits_def)

lemma puts_last: "puts p bs \<Longrightarrow> puts (in_order [p]) bs"
  using puts_Cons [OF _ puts_Nil, of p bs] by simp

lemma puts_nr_crc_body:
  "num_cb v = 0 \<or> unat (num_cb v) div 8 < length (cb_crc_status v) \<Longrightarrow> puts (pack_nr_crc_indication_body v) (enc_nr_crc v)"
  unfolding pack_nr_crc_indication_body_def enc_nr_crc_def
  by (intro puts_Cons puts_last puts_ignoring puts_only_if puts_attempt writes_push8 writes_push16 writes_push32
      writes_pusharray8_take) auto

lemma puts_uci_sr: "uci_sr_ok True v \<Longrightarrow> puts (put_uci_sr v) (enc_uci_sr v)"
  unfolding put_uci_sr_def enc_uci_sr_def
  by (intro puts_Cons puts_last puts_attempt writes_push16 writes_array8) (simp_all add: uci_sr_ok_def)

lemma puts_uci_part: "uci_part_ok True v \<Longrightarrow> puts (put_uci_part v) (enc_uci_part v)"
  unfolding put_uci_part_def enc_uci_part_def
  by (intro puts_Cons puts_last puts_attempt writes_push8 writes_push16 writes_array8) (simp_all add: uci_part_ok_def)

lemma puts_if_sr: "uci_sr_ok b v \<Longrightarrow> puts (only_if b (put_uci_sr v)) (if b then enc_uci_sr v else [])"
  by (rule puts_only_if) (simp add: puts_uci_sr)

lemma puts_if_part: "uci_part_ok b v \<Longrightarrow> puts (only_if b (put_uci_part v)) (if b then enc_uci_part v else [])"
  by (rule puts_only_if) (simp add: puts_uci_part)

lemma puts_if_sr_0_1:
  assumes "x \<noteq> None \<longleftrightarrow> b"
  shows "puts (only_if b (case x of None \<Rightarrow> (\<lambda>w. None)
       | Some s \<Rightarrow> in_order [attempt (push8 (sr_indication s)), attempt (push8 (sr_confidence_level s))]))
     (case x of None \<Rightarrow> [] | Some s \<Rightarrow> [sr_indication s] @ [sr_confidence_level s])"
proof (cases x)
  case (Some s)
  have "puts (in_order [attempt (push8 (sr_indication s)), attempt (push8 (sr_confidence_level s))])
      ([sr_indication s] @ [sr_confidence_level s])"
    by (intro puts_Cons puts_last puts_attempt writes_push8)
  then show ?thesis using Some assms by (auto simp: only_if_def [abs_def])
qed (use assms in \<open>simp add: puts_def only_if_def\<close>)

lemma puts_if_harq_0_1:
  assumes "x \<noteq> None \<longleftrightarrow> b" "case x of None \<Rightarrow> True | Some h \<Rightarrow> length (harq_list h) = unat (num_harq h)"
  shows "puts (only_if b (case x of None \<Rightarrow> (\<lambda>w. None)
       | Some h \<Rightarrow> in_order [attempt (push8 (num_harq h)), attempt (push8 (harq_confidence_level h)),
           in_order (map (\<lambda>x. attempt (push8 x)) (take (unat (num_harq h)) (harq_list h)))]))
     (case x of None \<Rightarrow> [] | Some h \<Rightarrow> [num_harq h] @ [harq_confidence_level h] @ harq_list h)"
proof (cases x)
  case (Some h)
  have "puts (in_order (map (\<lambda>x. attempt (push8 x)) (harq_list h))) (concat (map (\<lambda>x. [x]) (harq_list h)))"
    by (intro puts_map puts_attempt writes_push8)
  then have "puts (in_order [attempt (push8 (num_harq h)), attempt (push8 (harq_confidence_level h)),
      in_order (map (\<lambda>x. attempt (push8 x)) (harq_list h))]) ([num_harq h] @ [harq_confidence_level h] @ harq_list h)"
    unfolding concat_single by (intro puts_Cons puts_last puts_attempt writes_push8)
  then show ?thesis using Some assms by (auto simp: only_if_def [abs_def])
qed (use assms in \<open>simp add: puts_def only_if_def\<close>)

lemma puts_uci_0_1:
  assumes "uci_union_ok t (pucch_pdu_format_0_1 v)"
  shows "puts (pack_nr_uci_pucch_0_1 v) (enc_uci_0_1 v)"
  unfolding pack_nr_uci_pucch_0_1_def enc_uci_0_1_def
  by (intro puts_Cons puts_last puts_attempt puts_if_sr_0_1 puts_if_harq_0_1 writes_push8 writes_push16 writes_push32)
    (use assms in auto)

lemma puts_uci_2_3_4:
  assumes "uci_union_ok t (pucch_pdu_format_2_3_4 v)"
  shows "puts (pack_nr_uci_pucch_2_3_4 v) (enc_uci_2_3_4 v)"
  unfolding pack_nr_uci_pucch_2_3_4_def enc_uci_2_3_4_def
  by (intro puts_Cons puts_last puts_attempt puts_if_sr puts_if_part writes_push8 writes_push16 writes_push32)
    (use assms in auto)

lemma puts_uci_pusch:
  assumes "uci_union_ok t (pusch_pdu v)"
  shows "puts (pack_nr_uci_pusch v) (enc_uci_pusch v)"
  unfolding pack_nr_uci_pusch_def enc_uci_pusch_def
  by (intro puts_Cons puts_last puts_attempt puts_if_part writes_push8 writes_push16 writes_push32)
    (use assms in auto)

lemma puts_uci_pdu: "nr_uci_ok v \<Longrightarrow> puts (pack_uci_pdu v) (enc_uci_union (uci_pdu v))"
  unfolding nr_uci_ok_def
  by (cases "uci_pdu v")
    (auto simp: pack_uci_pdu_def uci_types intro!: puts_ignoring puts_uci_pusch puts_uci_0_1 puts_uci_2_3_4 puts_Nil)

lemma puts_uci_body: "nr_uci_ok v \<Longrightarrow> puts (pack_nr_uci_indication_body v) (enc_nr_uci v)"
  unfolding pack_nr_uci_indication_body_def enc_nr_uci_def
  by (intro puts_Cons puts_last puts_attempt puts_uci_pdu writes_push16)

lemma puts_nr16:
  assumes "counted P m" "\<And>v. P v \<Longrightarrow> puts (body v) (enc v)"
  shows "puts (in_order (attempt (push16 (nr_sfn m)) # attempt (push16 (nr_slot m)) # attempt (push16 (nr_number m)) #
     map body (take (unat (nr_number m)) (nr_pdus m)))) (enc_nr16 enc m)"
  unfolding enc_nr16_def using assms
  by (intro puts_Cons puts_attempt writes_push16) (auto simp: counted_def list_all_iff intro!: puts_map)

lemma puts_nr_uci: "counted nr_uci_ok m \<Longrightarrow> puts (pack_nr_uci_indication m) (enc_nr16 enc_nr_uci m)"
  unfolding pack_nr_uci_indication_def by (rule puts_nr16 [OF _ puts_uci_body])

section \<open>Laws of the unpackers\<close>

lemma reads_array8: "length xs = unat n \<Longrightarrow> reads (pullarray8 n n) xs xs"
  by (rule reads_pullarray8) simp_all

lemma gets_rx_data_pdu:
  assumes "rx_data_pdu_ok v"
  shows "gets (unpack_nr_rx_data_indication_body True) v (enc_rx_data_pdu v)"
proof -
  have arr: "reads (pullarray8 (ucast (rxd_pdu_length v)) (ucast (rxd_pdu_length v))) (rxd_pdu v) (rxd_pdu v)"
    using assms by (intro reads_array8) (simp add: rx_data_pdu_ok_def)
  show ?thesis
  unfolding unpack_nr_rx_data_indication_body_def [abs_def] enc_rx_data_pdu_def
  by (rule gets_cong, (rule gets_bind gets_store gets_return reads_pull32 reads_pull16 reads_pull8
        arr)+) (auto intro: nr_rx_data_pdu.equality)
qed

lemma gets_nr_crc_body: "num_cb v = 0 \<Longrightarrow> cb_crc_status v = [] \<Longrightarrow> gets (unpack_nr_crc_indication_body True) v (enc_nr_crc v)"
proof -
  assume v: "num_cb v = 0" "cb_crc_status v = []"
  have none: "gets (\<lambda>r. if num_cb v = 0 then Some (Some ([], r))
      else try_store False [] (pullarray8 (bit_bytes (num_cb v)) (bit_bytes (num_cb v))) r) ([] :: u8 list) []"
    using v by (simp add: gets_return)
  show ?thesis
    unfolding unpack_nr_crc_indication_body_def [abs_def] enc_nr_crc_def if_False not_True_eq_False
    by (rule gets_cong, (rule gets_bind gets_try_store gets_return reads_pull32 reads_pull16 [of "num_cb v"] reads_pull16 reads_pull8 none)+)
      (use v in \<open>auto intro: nr_crc.equality\<close>)
qed

lemma get_array_eta:
  "get_array g ok room 0 = (\<lambda>r. Some (Some ([], r)))"
  "get_array g ok room (Suc n) =
     (\<lambda>r. got_bind (store (ok \<and> 0 < room) g r) (\<lambda>(x, r). got_bind (get_array g ok (room - 1) n r) (\<lambda>(xs, r). Some (Some (x # xs, r)))))"
  by (simp_all add: fun_eq_iff)

lemma gets_array:
  "(\<And>x. reads g x (enc x)) \<Longrightarrow> length xs \<le> room \<Longrightarrow> gets (get_array g True room (length xs)) xs (concat (map enc xs))"
proof (induction xs arbitrary: room)
  case (Cons x xs)
  have IH: "gets (get_array g True (room - 1) (length xs)) xs (concat (map enc xs))" using Cons by (intro Cons.IH) auto
  have "gets (\<lambda>r. got_bind (get_array g True (room - 1) (length xs) r) (\<lambda>(xs, r). Some (Some (x # xs, r)))) (x # xs)
      (concat (map enc xs) @ [])"
    by (rule gets_bind [OF IH gets_return])
  then have "gets (\<lambda>r. got_bind (store True g r) (\<lambda>(x, r). got_bind (get_array g True (room - 1) (length xs) r)
      (\<lambda>(xs, r). Some (Some (x # xs, r))))) (x # xs) (enc x @ concat (map enc xs) @ [])"
    by (rule gets_bind [OF gets_store [OF Cons.prems(1)]])
  moreover have "(True \<and> 0 < room) = True" using Cons.prems(2) by auto
  ultimately show ?case
    by (simp only: get_array_eta list.size list.map concat.simps append_Nil2 add_Suc_right add_0_right)
qed (simp add: get_array_eta gets_return)

lemma gets_srs_report:
  assumes "length (report_value v) = unat (report_length v)" "unat (report_length v) \<le> SRS_REPORT_WORDS"
  shows "gets (unpack_nr_srs_report_tlv True) v (enc_srs_report v)"
proof -
  have words: "gets (get_array pull32 True SRS_REPORT_WORDS (unat (report_length v))) (report_value v) (concat (map be32 (report_value v)))"
    using gets_array [OF reads_pull32, of "report_value v" SRS_REPORT_WORDS] assms by simp
  show ?thesis
    unfolding unpack_nr_srs_report_tlv_def [abs_def] enc_srs_report_def
    by (rule gets_cong, (rule gets_bind gets_store gets_return reads_pull32 reads_pull16 words)+) (auto intro: srs_report_tlv.equality)
qed

lemma gets_srs_pdu:
  assumes "srs_pdu_ok v"
  shows "gets (unpack_nr_srs_indication_body True) v (enc_srs_pdu v)"
proof -
  have rep: "gets (unpack_nr_srs_report_tlv True) (report_tlv v) (enc_srs_report (report_tlv v))"
    using assms by (intro gets_srs_report) (simp_all add: srs_pdu_ok_def)
  show ?thesis
  unfolding unpack_nr_srs_indication_body_def [abs_def] enc_srs_pdu_def
  by (rule gets_cong, (rule gets_bind gets_store gets_return rep reads_pull32 reads_pull16
        reads_pulls16 reads_pull8)+)
    (auto intro: nr_srs_pdu.equality)
qed

lemma gets_preamble: "gets (unpack_nr_preamble True) v (enc_preamble v)"
  unfolding unpack_nr_preamble_def [abs_def] enc_preamble_def
  by (rule gets_cong, (rule gets_bind gets_store gets_try_store gets_return reads_pull32 reads_pull16 reads_pull8)+)
    (auto intro: nr_preamble.equality)

lemma gets_preambles:
  "length xs = n \<Longrightarrow> gets (get_n (unpack_nr_preamble True) n) xs (concat (map enc_preamble xs))"
  by (rule gets_n') (simp_all add: gets_preamble)

lemma gets_prach_pdu:
  assumes "prach_pdu_ok v"
  shows "gets (unpack_nr_rach_indication_body True) v (enc_prach_pdu v)"
proof -
  have n: "length (preamble_list v) = unat (num_preamble v)" using assms by (simp add: prach_pdu_ok_def)
  show ?thesis
  unfolding unpack_nr_rach_indication_body_def [abs_def] enc_prach_pdu_def
  by (rule gets_cong, (rule gets_bind gets_preambles [OF n] gets_return reads_pull16 reads_pull8 gets_store
        gets_try_store)+) (auto intro: nr_prach_pdu.equality)
qed

lemma gets_counted:
  "counted P m \<Longrightarrow> (\<And>v. P v \<Longrightarrow> gets body v (enc v)) \<Longrightarrow>
   gets (get_n body (unat (nr_number m))) (nr_pdus m) (concat (map enc (nr_pdus m)))"
  by (rule gets_n') (auto simp: counted_def list_all_iff)

lemma gets_nr16:
  assumes "counted P m" "\<And>v. P v \<Longrightarrow> gets body v (enc v)"
  shows "gets (\<lambda>r. got_bind (store True pull16 r) (\<lambda>(a, r). got_bind (store True pull16 r) (\<lambda>(b, r).
       got_bind (store True pull16 r) (\<lambda>(n, r). got_bind (get_n body (unat n) r) (\<lambda>(ps, r).
       Some (Some (\<lparr>nr_sfn = a, nr_slot = b, nr_number = n, nr_pdus = ps\<rparr>, r))))))) m (enc_nr16 enc m)"
  unfolding enc_nr16_def
  by (rule gets_cong, (rule gets_bind gets_store gets_counted [OF assms] gets_return reads_pull16 | assumption)+)
    (auto intro: nr_indication.equality)

lemma gets_nr_rx_data: "counted rx_data_pdu_ok m \<Longrightarrow> gets (unpack_nr_rx_data_indication True) m (enc_nr16 enc_rx_data_pdu m)"
  unfolding unpack_nr_rx_data_indication_def [abs_def] by (rule gets_nr16 [OF _ gets_rx_data_pdu])

text \<open>CRC PDUs without a status per code block.\<close>

definition nr_crc_plain :: "nr_crc \<Rightarrow> bool" where
  "nr_crc_plain v \<longleftrightarrow> num_cb v = 0 \<and> cb_crc_status v = []"

lemma gets_nr_crc: "counted nr_crc_plain m \<Longrightarrow> gets (unpack_nr_crc_indication True) m (enc_nr16 enc_nr_crc m)"
  unfolding unpack_nr_crc_indication_def [abs_def] by (rule gets_nr16 [where P = nr_crc_plain]) (auto simp: nr_crc_plain_def intro: gets_nr_crc_body)

lemma puts_nr_crc: "counted nr_crc_plain m \<Longrightarrow> puts (pack_nr_crc_indication m) (enc_nr16 enc_nr_crc m)"
  unfolding pack_nr_crc_indication_def by (rule puts_nr16 [where P = nr_crc_plain]) (auto simp: nr_crc_plain_def intro: puts_nr_crc_body)

lemma gets_nr_rach:
  assumes "counted prach_pdu_ok m"
  shows "gets (unpack_nr_rach_indication True) m (enc_nr_rach m)"
  unfolding unpack_nr_rach_indication_def [abs_def] enc_nr_rach_def
  by (rule gets_cong, (rule gets_bind gets_try_store gets_counted [OF assms gets_prach_pdu] gets_return reads_pull16
        reads_pull8 gets_store | assumption)+)
    (auto intro: nr_indication.equality)

lemma gets_srs_pdus_one: "length ps \<le> 1 \<Longrightarrow> list_all srs_pdu_ok ps \<Longrightarrow> gets (get_srs_pdus True (length ps)) ps (concat (map enc_srs_pdu ps))"
proof (cases ps)
  case Nil
  have "get_srs_pdus True 0 = (\<lambda>r. Some (Some ([], r)))" by (simp add: fun_eq_iff)
  then show ?thesis using Nil by (simp add: gets_return)
next
  case (Cons p qs)
  assume "length ps \<le> 1" "list_all srs_pdu_ok ps"
  then have p: "srs_pdu_ok p" "ps = [p]" using Cons by auto
  have one: "get_srs_pdus True (Suc 0) = (\<lambda>r. got_bind (unpack_nr_srs_indication_body True r) (\<lambda>(p, r). Some (Some ([p], r))))"
    by (simp add: fun_eq_iff got_bind_def)
  show ?thesis
    using gets_bind [OF gets_srs_pdu [OF p(1)] gets_return, of "\<lambda>p. [p]"] by (simp add: p(2) one)
qed

lemma gets_nr_srs:
  assumes m: "counted srs_pdu_ok m" and one: "unat (nr_number m) \<le> 1"
  shows "gets (unpack_nr_srs_indication True) m (enc_nr_srs m)"
proof -
  have ps: "gets (get_srs_pdus True (unat (nr_number m))) (nr_pdus m) (concat (map enc_srs_pdu (nr_pdus m)))"
    using gets_srs_pdus_one [of "nr_pdus m"] m one by (simp add: counted_def)
  show ?thesis
    unfolding unpack_nr_srs_indication_def [abs_def] enc_nr_srs_def
    by (rule gets_cong, (rule gets_bind gets_store ps gets_return reads_pull16 reads_pull8)+)
      (auto intro: nr_srs_indication.equality)
qed

lemma reads_get_if: "(b \<Longrightarrow> reads g x bs) \<Longrightarrow> (\<not> b \<Longrightarrow> x = z) \<Longrightarrow> reads (get_if b g z) x (if b then bs else [])"
  by (auto simp: reads_def get_if_def)

lemma if_not_True: "(if \<not> True then x else y) = y" by simp

lemma reads_if_sr: "uci_sr_ok b v \<Longrightarrow> reads (get_if b (get_uci_sr True) no_sr) v (if b then enc_uci_sr v else [])"
proof (rule reads_get_if)
  assume "uci_sr_ok b v" b
  then have arr: "reads (pullarray8 (bit_bytes (sr_bit_len v)) (bit_bytes (sr_bit_len v))) (sr_payload v) (sr_payload v)"
    by (intro reads_array8) (simp add: uci_sr_ok_def)
  show "reads (get_uci_sr True) v (enc_uci_sr v)"
    unfolding get_uci_sr_def [abs_def] enc_uci_sr_def if_not_True
    by (rule reads_cong, (rule reads_bind reads_pull16 arr reads_return)+) (auto intro: uci_sr.equality)
qed (simp add: uci_sr_ok_def)

lemma reads_if_part: "uci_part_ok b v \<Longrightarrow> reads (get_if b (get_uci_part True) no_part) v (if b then enc_uci_part v else [])"
proof (rule reads_get_if)
  assume "uci_part_ok b v" b
  then have arr: "reads (pullarray8 (bit_bytes (part_bit_len v)) (bit_bytes (part_bit_len v))) (part_payload v) (part_payload v)"
    by (intro reads_array8) (simp add: uci_part_ok_def)
  show "reads (get_uci_part True) v (enc_uci_part v)"
    unfolding get_uci_part_def [abs_def] enc_uci_part_def if_not_True
    by (rule reads_cong, (rule reads_bind reads_pull16 reads_pull8 arr reads_return)+) (auto intro: uci_part.equality)
qed (simp add: uci_part_ok_def)

lemma reads_if_sr_0_1:
  assumes "x \<noteq> None \<longleftrightarrow> b"
  shows "reads (get_if b (get_uci_sr_0_1 True) None) x (case x of None \<Rightarrow> [] | Some s \<Rightarrow> [sr_indication s] @ [sr_confidence_level s])"
proof (cases x)
  case (Some s)
  have "reads (get_uci_sr_0_1 True) (Some s) ([sr_indication s] @ [sr_confidence_level s])"
    unfolding get_uci_sr_0_1_def [abs_def] if_not_True
    by (rule reads_cong, (rule reads_bind reads_pull8 reads_return)+) (auto intro: uci_sr_0_1.equality)
  then show ?thesis using Some assms by (simp add: get_if_def [abs_def])
qed (use assms in \<open>simp add: get_if_def [abs_def] reads_return\<close>)

lemma reads_pull8s: "length xs = n \<Longrightarrow> reads (pull_n pull8 n) xs xs"
  using reads_pull_n_of [of xs pull8 "\<lambda>x. x" "\<lambda>x. [x]"] reads_pull8 by simp

lemma reads_if_harq_0_1:
  assumes "x \<noteq> None \<longleftrightarrow> b" "case x of None \<Rightarrow> True | Some h \<Rightarrow> length (harq_list h) = unat (num_harq h)"
  shows "reads (get_if b (get_uci_harq_0_1 True) None) x
    (case x of None \<Rightarrow> [] | Some h \<Rightarrow> [num_harq h] @ [harq_confidence_level h] @ harq_list h)"
proof (cases x)
  case (Some h)
  have hs: "reads (pull_n pull8 (unat (num_harq h))) (harq_list h) (harq_list h)"
    using assms(2) Some by (intro reads_pull8s) simp
  have "reads (get_uci_harq_0_1 True) (Some h) ([num_harq h] @ [harq_confidence_level h] @ harq_list h)"
    unfolding get_uci_harq_0_1_def [abs_def] if_not_True
    by (rule reads_cong, (rule reads_bind reads_pull8 hs reads_return)+) (auto intro: uci_harq_0_1.equality)
  then show ?thesis using Some assms by (simp add: get_if_def [abs_def])
qed (use assms in \<open>simp add: get_if_def [abs_def] reads_return\<close>)

lemma reads_uci_0_1:
  assumes "uci_union_ok t (pucch_pdu_format_0_1 v)"
  shows "reads (unpack_nr_uci_pucch_0_1 True) v (enc_uci_0_1 v)"
proof -
  have sr: "f01_sr v \<noteq> None \<longleftrightarrow> bit (f01_pduBitmap v) 0" and h: "f01_harq v \<noteq> None \<longleftrightarrow> bit (f01_pduBitmap v) 1"
    "case f01_harq v of None \<Rightarrow> True | Some h \<Rightarrow> length (harq_list h) = unat (num_harq h)"
    using assms by auto
  show ?thesis
    unfolding unpack_nr_uci_pucch_0_1_def [abs_def] enc_uci_0_1_def
    by (rule reads_cong, (rule reads_bind reads_pull8 reads_pull16 reads_pull32 reads_if_sr_0_1 [OF sr]
          reads_if_harq_0_1 [OF h] reads_return)+) (auto intro: uci_0_1.equality)
qed

lemma reads_uci_2_3_4:
  assumes "uci_union_ok t (pucch_pdu_format_2_3_4 v)"
  shows "reads (unpack_nr_uci_pucch_2_3_4 True) v (enc_uci_2_3_4 v)"
proof -
  have ok: "uci_sr_ok (bit (f234_pduBitmap v) 0) (f234_sr v)" "uci_part_ok (bit (f234_pduBitmap v) 1) (f234_harq v)"
    "uci_part_ok (bit (f234_pduBitmap v) 2) (f234_csi_part1 v)" "uci_part_ok (bit (f234_pduBitmap v) 3) (f234_csi_part2 v)"
    using assms by auto
  show ?thesis
    unfolding unpack_nr_uci_pucch_2_3_4_def [abs_def] enc_uci_2_3_4_def
    by (rule reads_cong, (rule reads_bind reads_pull8 reads_pull16 reads_pull32 reads_if_sr [OF ok(1)]
          reads_if_part [OF ok(2)] reads_if_part [OF ok(3)] reads_if_part [OF ok(4)] reads_return)+)
      (auto intro: uci_2_3_4.equality)
qed

lemma reads_uci_pusch:
  assumes "uci_union_ok t (pusch_pdu v)"
  shows "reads (unpack_nr_uci_pusch True) v (enc_uci_pusch v)"
proof -
  have ok: "uci_part_ok (bit (pusch_pduBitmap v) 1) (pusch_harq v)"
    "uci_part_ok (bit (pusch_pduBitmap v) 2) (pusch_csi_part1 v)" "uci_part_ok (bit (pusch_pduBitmap v) 3) (pusch_csi_part2 v)"
    using assms by auto
  show ?thesis
    unfolding unpack_nr_uci_pusch_def [abs_def] enc_uci_pusch_def
    by (rule reads_cong, (rule reads_bind reads_pull8 reads_pull16 reads_pull32
          reads_if_part [OF ok(1)] reads_if_part [OF ok(2)] reads_if_part [OF ok(3)] reads_return)+)
      (auto intro: uci_pusch.equality)
qed

lemma reads_map: "reads g x bs \<Longrightarrow> reads (\<lambda>r. map_option (\<lambda>(p, r). (f p, r)) (g r)) (f x) bs"
  by (auto simp: reads_def)

lemma reads_uci_pdu: "uci_union_ok t u \<Longrightarrow> reads (unpack_uci_pdu True t) u (enc_uci_union u)"
  by (cases u)
    (auto simp: unpack_uci_pdu_def [abs_def] uci_types reads_return
      intro!: reads_map reads_uci_pusch reads_uci_0_1 reads_uci_2_3_4)

lemma gets_uci_body:
  assumes "nr_uci_ok v"
  shows "gets (unpack_nr_uci_indication_body True True) v (enc_nr_uci v)"
  unfolding unpack_nr_uci_indication_body_def [abs_def] enc_nr_uci_def
  by (rule gets_cong, (rule gets_bind gets_store gets_return reads_pull16
        reads_uci_pdu [OF assms [unfolded nr_uci_ok_def]])+) (auto intro: nr_uci.equality)

lemma gets_nr_uci: "counted nr_uci_ok m \<Longrightarrow> gets (unpack_nr_uci_indication True True) m (enc_nr16 enc_nr_uci m)"
  unfolding unpack_nr_uci_indication_def [abs_def] by (rule gets_nr16 [OF _ gets_uci_body])

section \<open>Messages\<close>

text \<open>
  The branch of \<open>nfapi_nr_p7_message_unpack\<close> for one id.  The inner \<open>None\<close> is the
  result -1.
\<close>

definition nr_unpack_case :: "u16 \<Rightarrow> (rbuf \<Rightarrow> 'm got) \<Rightarrow> u8 list \<Rightarrow> (p7_header \<times> 'm) option option" where
  "nr_unpack_case mid unpack bytes =
     (case p7_frame_unpack bytes of None \<Rightarrow> Some None
      | Some (h, r) \<Rightarrow>
          if message_id h \<noteq> mid then Some None
          else map_option (map_option (\<lambda>(m, r). (h, m))) (unpack r))"

text \<open>
  RX_DATA, CRC, UCI and SRS get an element of their list before they are unpacked; RX_DATA writes into
  it, and SRS has no other list.
\<close>

definition unpack_nr_rx_data_msg where
  "unpack_nr_rx_data_msg ok = nr_unpack_case NFAPI_NR_PHY_MSG_TYPE_RX_DATA_INDICATION
     (if ok then unpack_nr_rx_data_indication ok else (\<lambda>r. None))"
definition unpack_nr_crc_msg where
  "unpack_nr_crc_msg ok = nr_unpack_case NFAPI_NR_PHY_MSG_TYPE_CRC_INDICATION (unpack_nr_crc_indication ok)"
definition unpack_nr_uci_msg where
  "unpack_nr_uci_msg ok part_ok = nr_unpack_case NFAPI_NR_PHY_MSG_TYPE_UCI_INDICATION (unpack_nr_uci_indication ok part_ok)"
definition unpack_nr_srs_msg where
  "unpack_nr_srs_msg ok = nr_unpack_case NFAPI_NR_PHY_MSG_TYPE_SRS_INDICATION (unpack_nr_srs_indication ok)"
definition unpack_nr_rach_msg where
  "unpack_nr_rach_msg ok = nr_unpack_case NFAPI_NR_PHY_MSG_TYPE_RACH_INDICATION (unpack_nr_rach_indication ok)"

lemma frame_pack_cong:
  assumes "\<And>w. wbuf_ok w \<Longrightarrow> wb_room w + 16 = length buf \<Longrightarrow> body w = body' w"
  shows "p7_frame_pack body h buf = p7_frame_pack body' h buf"
proof (cases "16 \<le> length buf")
  case True
  let ?w = "\<lparr>wb_mem = buf, wb_pos = 0, wb_end = length buf\<rparr>" and ?hz = "h\<lparr>message_length := 0, checksum := 0\<rparr>"
  have ok: "wbuf_ok ?w" "wb_room ?w = length buf" by (simp_all add: wbuf_ok_def wb_room_def)
  have w1: "pack_p7_header h ?w = Some (wb_write (enc_p7_header ?hz) ?w)"
    using True ok by (simp add: writesD [OF writes_pack_p7_header])
  have "body (wb_write (enc_p7_header ?hz) ?w) = body' (wb_write (enc_p7_header ?hz) ?w)"
    by (rule assms) (use True ok in \<open>simp_all add: wbuf_ok_write wb_room_write\<close>)
  then show ?thesis unfolding p7_frame_pack_def w1 by simp
next
  case False
  have "wbuf_ok \<lparr>wb_mem = buf, wb_pos = 0, wb_end = length buf\<rparr>"
    "wb_room \<lparr>wb_mem = buf, wb_pos = 0, wb_end = length buf\<rparr> = length buf" by (simp_all add: wbuf_ok_def wb_room_def)
  then show ?thesis using False by (simp add: p7_frame_pack_def writesD [OF writes_pack_p7_header])
qed

lemma packed_any:
  assumes "puts p bs" "16 + length bs \<le> min (length buf) 0xFFFF"
  shows "p7_frame_pack (put_result p) h buf =
    Some (h\<lparr>message_length := of_nat (16 + length bs)\<rparr>,
      (enc_p7_header (h\<lparr>message_length := of_nat (16 + length bs), checksum := 0\<rparr>) @ bs) @ drop (16 + length bs) buf,
      16 + length bs)"
proof -
  let ?body = "\<lambda>w. if length bs \<le> wb_room w then Some (wb_write bs w) else None"
  have "p7_frame_pack (put_result p) h buf = p7_frame_pack ?body h buf"
    by (rule frame_pack_cong) (use assms(2) putsD [OF assms(1)] in \<open>auto simp: put_result_def\<close>)
  also have "\<dots> = Some (h\<lparr>message_length := of_nat (16 + length bs)\<rparr>,
      (enc_p7_header (h\<lparr>message_length := of_nat (16 + length bs), checksum := 0\<rparr>) @ bs) @ drop (16 + length bs) buf,
      16 + length bs)"
    by (rule frame_pack_writes) (use assms(2) in \<open>auto simp: writes_def\<close>)
  finally show ?thesis .
qed

text \<open>What both sides of a message owe each other.\<close>

locale nr_message =
  fixes mid :: u16
    and send :: "'m \<Rightarrow> put"
    and receive :: "rbuf \<Rightarrow> 'm got"
    and enc :: "'m \<Rightarrow> u8 list"
    and valid :: "'m \<Rightarrow> bool"
  assumes send_puts: "valid m \<Longrightarrow> puts (send m) (enc m)"
    and receive_gets: "valid m \<Longrightarrow> gets receive m (enc m)"
begin

lemma packed:
  assumes "valid m" "16 + length (enc m) \<le> length buf" "16 + length (enc m) \<le> 0xFFFF"
  shows "p7_frame_pack (put_result (send m)) h buf =
    Some (h\<lparr>message_length := of_nat (16 + length (enc m))\<rparr>,
      (enc_p7_header (h\<lparr>message_length := of_nat (16 + length (enc m)), checksum := 0\<rparr>) @ enc m) @ drop (16 + length (enc m)) buf,
      16 + length (enc m))"
  by (rule packed_any [OF send_puts [OF assms(1)]]) (use assms(2,3) in simp)

lemma received:
  assumes "valid m" "message_id h = mid" "unat (message_length h) \<le> 16 + length (enc m)"
  shows "nr_unpack_case mid receive (enc_p7_header h @ enc m) = Some (Some (h, m))"
proof -
  let ?r = "rb_adv 16 (rb_of (enc_p7_header h @ enc m))"
  have "receive ?r = Some (Some (m, rb_adv (length (enc m)) ?r))"
    by (rule getsD [OF receive_gets [OF assms(1)], of ?r "[]"]) (simp_all add: rbuf_ok_adv rb_rest_adv)
  then show ?thesis
    using assms(2) frame_unpack_enc [OF assms(3)] by (simp add: nr_unpack_case_def)
qed

lemma roundtrip:
  assumes "valid m" "message_id h = mid" "16 + length (enc m) \<le> length buf" "16 + length (enc m) \<le> 0xFFFF"
  obtains h' bytes n where "p7_frame_pack (put_result (send m)) h buf = Some (h', bytes, n)"
    "n = 16 + length (enc m)" "nr_unpack_case mid receive (take n bytes) = Some (Some (h'\<lparr>checksum := 0\<rparr>, m))"
proof (rule that [OF packed [OF assms(1,3,4)] refl])
  have "unat (of_nat (16 + length (enc m)) :: u16) = 16 + length (enc m)"
    using assms(4) by (simp only: unsigned_of_nat) (simp add: take_bit_nat_eq_self)
  then show "nr_unpack_case mid receive (take (16 + length (enc m))
      ((enc_p7_header (h\<lparr>message_length := of_nat (16 + length (enc m)), checksum := 0\<rparr>) @ enc m) @ drop (16 + length (enc m)) buf))
    = Some (Some (h\<lparr>message_length := of_nat (16 + length (enc m))\<rparr>\<lparr>checksum := 0\<rparr>, m))"
    using received [OF assms(1), of "h\<lparr>message_length := of_nat (16 + length (enc m)), checksum := 0\<rparr>"] assms(2)
    by simp
qed

end

interpretation nr_rx_data: nr_message NFAPI_NR_PHY_MSG_TYPE_RX_DATA_INDICATION "\<lambda>m. attempt (pack_nr_rx_data_indication m)"
  "unpack_nr_rx_data_indication True" "enc_nr16 enc_rx_data_pdu" "counted rx_data_pdu_ok"
  by unfold_locales (rule puts_attempt [OF writes_nr_rx_data] gets_nr_rx_data, assumption)+

interpretation nr_crc: nr_message NFAPI_NR_PHY_MSG_TYPE_CRC_INDICATION pack_nr_crc_indication
  "unpack_nr_crc_indication True" "enc_nr16 enc_nr_crc" "counted nr_crc_plain"
  by unfold_locales (rule puts_nr_crc gets_nr_crc, assumption)+

interpretation nr_uci: nr_message NFAPI_NR_PHY_MSG_TYPE_UCI_INDICATION pack_nr_uci_indication
  "unpack_nr_uci_indication True True" "enc_nr16 enc_nr_uci" "counted nr_uci_ok"
  by unfold_locales (rule puts_nr_uci gets_nr_uci, assumption)+

interpretation nr_rach: nr_message NFAPI_NR_PHY_MSG_TYPE_RACH_INDICATION "\<lambda>m. attempt (pack_nr_rach_indication m)"
  "unpack_nr_rach_indication True" enc_nr_rach "counted prach_pdu_ok"
  by unfold_locales (rule puts_attempt [OF writes_nr_rach] gets_nr_rach, assumption)+

interpretation nr_srs: nr_message NFAPI_NR_PHY_MSG_TYPE_SRS_INDICATION "\<lambda>m. attempt (pack_nr_srs_indication m)"
  "unpack_nr_srs_indication True" enc_nr_srs "\<lambda>m. counted srs_pdu_ok m \<and> unat (nr_number m) \<le> 1"
  by unfold_locales (auto intro: puts_attempt writes_nr_srs gets_nr_srs)

interpretation nr_slot_ind: codec pack_nr_slot_indication unpack_nr_slot_indication "\<lambda>m. be16 (fst m) @ be16 (snd m)" "\<lambda>_. True"
proof
  show "reads unpack_nr_slot_indication m (be16 (fst m) @ be16 (snd m))" for m
    unfolding unpack_nr_slot_indication_def [abs_def]
    by (rule reads_cong, (rule reads_bind reads_pull16 reads_return)+) auto
qed (rule writes_slot)

lemma put_result_attempt [simp]: "put_result (attempt p) = p"
  by (rule ext) (simp add: put_result_def attempt_def split: option.splits)

section \<open>Reports of an SRS PDU\<close>

lemma puts_array_at:
  assumes "n \<le> length xs" "\<And>x. writes (p x) (enc x)"
  shows "puts (in_order (map (array_at p xs) [0..<n])) (concat (map enc (take n xs)))"
proof -
  have "map (array_at p xs) [0..<n] = map (\<lambda>x. attempt (p x)) (take n xs)"
    by (rule nth_equalityI) (use assms(1) in \<open>auto simp: array_at_def\<close>)
  then show ?thesis using puts_map [of "take n xs" "\<lambda>x. attempt (p x)" enc] puts_attempt [OF assms(2)] by simp
qed

lemma packed_length_puts:
  assumes "puts p bs" "length bs \<le> length buf"
  shows "packed_length p buf = Some (length bs, bs @ drop (length bs) buf)"
  using putsD [OF assms(1), of "\<lparr>wb_mem = buf, wb_pos = 0, wb_end = length buf\<rparr>"] assms(2)
  by (simp add: packed_length_def wbuf_ok_def wb_room_def wb_write_def upd_at_def)

lemma pull_into_all:
  "rbuf_ok r \<Longrightarrow> rb_rest r = xs @ rest \<Longrightarrow> length xs \<le> room \<Longrightarrow> pull_into room (length xs) r = Some (True, xs)"
proof (induction xs arbitrary: r room)
  case (Cons x xs)
  have p: "pull8 r = Some (x, rb_adv 1 r)"
    using readsD [OF reads_pull8 Cons.prems(1), of x "xs @ rest"] Cons.prems(2) by simp
  have "1 \<le> rb_room r" using length_rb_rest [OF Cons.prems(1)] Cons.prems(2) by simp
  then have ok: "rbuf_ok (rb_adv 1 r)" using Cons.prems(1) by (simp add: rbuf_ok_adv)
  have rest: "rb_rest (rb_adv 1 r) = xs @ rest" using Cons.prems(2) by (simp add: rb_rest_adv)
  show ?case using p Cons.IH [OF ok rest, of "room - 1"] Cons.prems(3) by simp
qed simp

definition matrix_size :: "iq_matrix \<Rightarrow> nat" where
  "matrix_size v = unat (channel_matrix_size (iq_representation v) (iq_gnb_antenna_elements v) (iq_ue_srs_ports v) (iq_prgs v))"

definition enc_iq_matrix :: "iq_matrix \<Rightarrow> u8 list" where
  "enc_iq_matrix v = [iq_representation v] @ be16 (iq_gnb_antenna_elements v) @ be16 (iq_ue_srs_ports v) @ be16 (iq_prg_size v) @
     be16 (iq_prgs v) @ take (matrix_size v) (channel_matrix v)"

definition enc_beamforming :: "beamforming_report \<Rightarrow> u8 list" where
  "enc_beamforming v = be16 (bf_prg_size v) @ [bf_num_symbols v] @ [bf_wide_band_snr v] @ [bf_num_reported_symbols v] @
     be16 (bf_num_prgs v) @ take (unat (bf_num_prgs v)) (bf_prg_list v)"

text \<open>A matrix whose size is within the array arrives, with zeros behind that size.\<close>

lemma iq_matrix_packed:
  assumes "matrix_size v \<le> length (channel_matrix v)" "length (enc_iq_matrix v) \<le> length buf"
  shows "pack_nr_srs_normalized_channel_iq_matrix v buf =
    Some (length (enc_iq_matrix v), enc_iq_matrix v @ drop (length (enc_iq_matrix v)) buf)"
proof -
  have "puts (in_order (map (array_at push8 (channel_matrix v)) [0..<matrix_size v])) (concat (map (\<lambda>x. [x]) (take (matrix_size v) (channel_matrix v))))"
    by (rule puts_array_at [OF assms(1) writes_push8])
  then have m: "puts (in_order (map (array_at push8 (channel_matrix v)) [0..<matrix_size v])) (take (matrix_size v) (channel_matrix v))"
    by simp
  show ?thesis
    unfolding pack_nr_srs_normalized_channel_iq_matrix_def matrix_size_def [symmetric]
    by (rule packed_length_puts [OF _ assms(2)], unfold enc_iq_matrix_def)
      (intro puts_Cons puts_last puts_attempt writes_push8 writes_push16 m)
qed

lemma iq_matrix_unpacked:
  assumes "matrix_size v \<le> length (channel_matrix v)" "length (channel_matrix v) = CHANNEL_MATRIX_BYTES"
  shows "unpack_nr_srs_normalized_channel_iq_matrix (enc_iq_matrix v) =
    Some (0, Some (v\<lparr>channel_matrix := filled CHANNEL_MATRIX_BYTES (take (matrix_size v) (channel_matrix v))\<rparr>))"
proof -
  let ?xs = "take (matrix_size v) (channel_matrix v)" and ?r = "rb_of (enc_iq_matrix v)"
  let ?hd = "[iq_representation v] @ be16 (iq_gnb_antenna_elements v) @ be16 (iq_ue_srs_ports v) @ be16 (iq_prg_size v) @ be16 (iq_prgs v)"
  have hd: "reads (\<lambda>r. pull8 r \<bind> (\<lambda>(a, r). pull16 r \<bind> (\<lambda>(b, r). pull16 r \<bind> (\<lambda>(c, r). pull16 r \<bind> (\<lambda>(d, r).
        pull16 r \<bind> (\<lambda>(e, r). Some ((a, b, c, d, e), r))))))) (iq_representation v, iq_gnb_antenna_elements v, iq_ue_srs_ports v,
        iq_prg_size v, iq_prgs v) ?hd"
    by (rule reads_cong, (rule reads_bind reads_pull8 reads_pull16 reads_return)+) auto
  have e: "enc_iq_matrix v = ?hd @ ?xs" by (simp add: enc_iq_matrix_def)
  have "rb_rest ?r = ?hd @ ?xs" by (simp add: e)
  from readsD [OF hd _ this] have h: "pull8 ?r \<bind> (\<lambda>(a, r). pull16 r \<bind> (\<lambda>(b, r). pull16 r \<bind> (\<lambda>(c, r). pull16 r \<bind> (\<lambda>(d, r).
        pull16 r \<bind> (\<lambda>(e, r). Some ((a, b, c, d, e), r)))))) = Some ((iq_representation v, iq_gnb_antenna_elements v, iq_ue_srs_ports v,
        iq_prg_size v, iq_prgs v), rb_adv 9 ?r)" by simp
  have "rb_rest (rb_adv 9 ?r) = ?xs @ []" by (simp add: e rb_rest_adv be16_def)
  moreover have "rbuf_ok (rb_adv 9 ?r)" by (rule rbuf_ok_adv) (simp_all add: e)
  ultimately have "pull_into CHANNEL_MATRIX_BYTES (length ?xs) (rb_adv 9 ?r) = Some (True, ?xs)"
    using assms by (intro pull_into_all) simp_all
  moreover have "length ?xs = matrix_size v" using assms(1) by simp
  ultimately show ?thesis
    unfolding unpack_nr_srs_normalized_channel_iq_matrix_def h matrix_size_def
    by (auto intro: iq_matrix.equality)
qed

lemma beamforming_packed:
  assumes "unat (bf_num_prgs v) \<le> length (bf_prg_list v)" "length (enc_beamforming v) \<le> length buf"
  shows "pack_nr_srs_beamforming_report v buf = Some (length (enc_beamforming v), enc_beamforming v @ drop (length (enc_beamforming v)) buf)"
proof -
  have "puts (in_order (map (array_at push8 (bf_prg_list v)) [0..<unat (bf_num_prgs v)]))
      (concat (map (\<lambda>x. [x]) (take (unat (bf_num_prgs v)) (bf_prg_list v))))"
    by (rule puts_array_at [OF assms(1) writes_push8])
  then have m: "puts (in_order (map (array_at push8 (bf_prg_list v)) [0..<unat (bf_num_prgs v)])) (take (unat (bf_num_prgs v)) (bf_prg_list v))"
    by simp
  have "puts (pack_nr_srs_reported_symbol v) (be16 (bf_num_prgs v) @ take (unat (bf_num_prgs v)) (bf_prg_list v))"
    unfolding pack_nr_srs_reported_symbol_def by (intro puts_Cons puts_last puts_attempt writes_push16 m)
  then show ?thesis
    unfolding pack_nr_srs_beamforming_report_def
    by - (rule packed_length_puts [OF _ assms(2)], unfold enc_beamforming_def,
      intro puts_Cons puts_last puts_attempt writes_push8 writes_push16)
qed

lemma beamforming_unpacked:
  assumes "unat (bf_num_prgs v) \<le> REPORTED_PRGS" "length (bf_prg_list v) = REPORTED_PRGS"
  shows "unpack_nr_srs_beamforming_report (enc_beamforming v) =
    Some (0, Some (v\<lparr>bf_prg_list := filled REPORTED_PRGS (take (unat (bf_num_prgs v)) (bf_prg_list v))\<rparr>))"
proof -
  let ?xs = "take (unat (bf_num_prgs v)) (bf_prg_list v)"
  have n: "length ?xs = unat (bf_num_prgs v)" using assms by simp
  have xs: "gets (get_array pull8 True REPORTED_PRGS (unat (bf_num_prgs v))) ?xs ?xs"
    using gets_array [OF reads_pull8, of ?xs REPORTED_PRGS] assms n by simp
  have sym: "gets unpack_nr_srs_reported_symbol (bf_num_prgs v, filled REPORTED_PRGS ?xs) (be16 (bf_num_prgs v) @ ?xs)"
    unfolding unpack_nr_srs_reported_symbol_def [abs_def]
    by (rule gets_cong, (rule gets_bind gets_store reads_pull16 xs gets_return)+) auto
  have "gets (\<lambda>r. got_bind (store True pull16 r) (\<lambda>(a, r). got_bind (store True pull8 r) (\<lambda>(b, r). got_bind (store True pull8 r) (\<lambda>(c, r).
        got_bind (store True pull8 r) (\<lambda>(d, r). got_bind (unpack_nr_srs_reported_symbol r) (\<lambda>(nx, r). case nx of (n, xs) \<Rightarrow>
        Some (Some (\<lparr>bf_prg_size = a, bf_num_symbols = b, bf_wide_band_snr = c, bf_num_reported_symbols = d, bf_num_prgs = n,
          bf_prg_list = xs\<rparr>, r)))))))) (v\<lparr>bf_prg_list := filled REPORTED_PRGS ?xs\<rparr>) (enc_beamforming v)"
    unfolding enc_beamforming_def
    by (rule gets_cong, (rule gets_bind gets_store reads_pull16 reads_pull8 sym)+, simp, rule gets_return)
      (auto intro: beamforming_report.equality)
  from getsD [OF this, of "rb_of (enc_beamforming v)" "[]"] show ?thesis
    unfolding unpack_nr_srs_beamforming_report_def by (simp add: case_prod_beta')
qed

section \<open>Packing into a short buffer\<close>

text \<open>What every packer keeps, and a packer that cannot fail.\<close>

definition advances :: "wbuf \<Rightarrow> wbuf \<Rightarrow> bool" where
  "advances w w' \<longleftrightarrow> wbuf_ok w' \<and> wb_end w' = wb_end w \<and> length (wb_mem w') = length (wb_mem w)"

definition never_fails :: "put \<Rightarrow> bool" where
  "never_fails p \<longleftrightarrow> (\<forall>w. wbuf_ok w \<longrightarrow> (\<exists>w'. p w = Some (True, w') \<and> advances w w'))"

lemma advances_refl: "wbuf_ok w \<Longrightarrow> advances w w"
  by (simp add: advances_def)

lemma advances_write: "wbuf_ok w \<Longrightarrow> length bs \<le> wb_room w \<Longrightarrow> advances w (wb_write bs w)"
  by (auto simp: advances_def wbuf_ok_write wb_write_sel) (auto simp: wbuf_ok_def wb_room_def)

lemma never_fails_push: "writes p bs \<Longrightarrow> never_fails (ignoring (attempt p))"
  unfolding never_fails_def ignoring_def attempt_def
  by (auto simp: writesD advances_refl advances_write split: option.splits)

lemma never_fails_if: "(b \<Longrightarrow> never_fails p) \<Longrightarrow> never_fails (only_if b p)"
  by (auto simp: never_fails_def only_if_def advances_refl)

lemma never_fails_in_order: "list_all never_fails ps \<Longrightarrow> never_fails (in_order ps)"
proof (induction ps)
  case (Cons p ps)
  show ?case
    unfolding never_fails_def
  proof (intro allI impI)
    fix w assume "wbuf_ok w"
    then obtain w1 where p: "p w = Some (True, w1)" "advances w w1" using Cons.prems by (auto simp: never_fails_def)
    then obtain w2 where "in_order ps w1 = Some (True, w2)" "advances w1 w2"
      using Cons by (auto simp: never_fails_def advances_def)
    then show "\<exists>w'. in_order (p # ps) w = Some (True, w') \<and> advances w w'" using p by (auto simp: advances_def)
  qed
qed (auto simp: never_fails_def advances_refl)

definition nr_crc_readable :: "nr_crc \<Rightarrow> bool" where
  "nr_crc_readable v \<longleftrightarrow> (if num_cb v = 0 then cb_crc_status v = [] else length (cb_crc_status v) = unat (num_cb v) div 8 + 1)"

lemma never_fails_crc_body: "nr_crc_readable v \<Longrightarrow> never_fails (pack_nr_crc_indication_body v)"
  unfolding pack_nr_crc_indication_body_def
  by (intro never_fails_in_order)
    (auto simp: nr_crc_readable_def intro!: never_fails_if
      intro: never_fails_push [OF writes_push8] never_fails_push [OF writes_push16] never_fails_push [OF writes_push32]
        never_fails_push [OF writes_pusharray8_take])

lemma pack_crc_succeeds:
  assumes v: "list_all nr_crc_readable (nr_pdus m)" and w: "wbuf_ok w" "6 \<le> wb_room w"
  shows "\<exists>w'. pack_nr_crc_indication m w = Some (True, w') \<and> advances w w'"
proof -
  let ?hd = "be16 (nr_sfn m) @ be16 (nr_slot m) @ be16 (nr_number m)"
  have nf: "never_fails (in_order (map pack_nr_crc_indication_body (take (unat (nr_number m)) (nr_pdus m))))"
    using v by (intro never_fails_in_order) (auto simp: list_all_iff intro: never_fails_crc_body dest: in_set_takeD)
  have "wbuf_ok (wb_write ?hd w)" using w by (simp add: wbuf_ok_write)
  then obtain w' where w': "in_order (map pack_nr_crc_indication_body (take (unat (nr_number m)) (nr_pdus m))) (wb_write ?hd w)
      = Some (True, w')" "advances (wb_write ?hd w) w'"
    using nf by (auto simp: never_fails_def)
  have room: "2 \<le> wb_room w" "2 \<le> wb_room w - 2" "2 \<le> wb_room w - 4" using w(2) by arith+
  have "pack_nr_crc_indication m w = Some (True, w')"
    using w room w'(1)
    by (simp add: pack_nr_crc_indication_def attempt_def writesD [OF writes_push16] wbuf_ok_write wb_room_write wb_write_write)
  moreover have "advances w w'" using w'(2) advances_write [OF w(1), of ?hd] w(2) by (simp add: advances_def)
  ultimately show ?thesis by blast
qed

lemma frame_of_put:
  assumes "\<And>w. wbuf_ok w \<Longrightarrow> wb_end w = length buf \<Longrightarrow> wb_pos w = 16 \<Longrightarrow> length (wb_mem w) = length buf \<Longrightarrow>
      \<exists>w'. p w = Some (True, w') \<and> advances w w'"
    and "16 \<le> length buf" "length buf \<le> 0xFFFF"
  shows "\<exists>h' bytes n. p7_frame_pack (put_result p) h buf = Some (h', bytes, n) \<and> n \<le> length buf"
proof -
  let ?w = "\<lparr>wb_mem = buf, wb_pos = 0, wb_end = length buf\<rparr>" and ?hz = "h\<lparr>message_length := 0, checksum := 0\<rparr>"
  have ok: "wbuf_ok ?w" "wb_room ?w = length buf" by (simp_all add: wbuf_ok_def wb_room_def)
  have w1: "pack_p7_header h ?w = Some (wb_write (enc_p7_header ?hz) ?w)"
    using assms(2) ok by (simp add: writesD [OF writes_pack_p7_header])
  obtain w2 where w2: "p (wb_write (enc_p7_header ?hz) ?w) = Some (True, w2)" "advances (wb_write (enc_p7_header ?hz) ?w) w2"
    using assms(1) [of "wb_write (enc_p7_header ?hz) ?w"] assms(2) ok by (auto simp: wbuf_ok_write wb_write_sel)
  have end2: "wb_end w2 = length buf" "wb_pos w2 \<le> length buf" "length (wb_mem w2) = length buf"
    using w2(2) ok assms(2) by (auto simp: advances_def wbuf_ok_def wb_write_sel)
  have "push16 v (w2\<lparr>wb_pos := 4\<rparr>) = Some (wb_write (be16 v) (w2\<lparr>wb_pos := 4\<rparr>))" for v
    using end2 assms(2) by (subst writesD [OF writes_push16]) (auto simp: wbuf_ok_def wb_room_def)
  then show ?thesis
    using w1 w2(1) end2 assms(3) unfolding p7_frame_pack_def by (simp add: put_result_def Let_def)
qed

section \<open>Undefined behaviour of the unpackers\<close>

definition undefined_on :: "(rbuf \<Rightarrow> 'a got) \<Rightarrow> u8 list \<Rightarrow> bool" where
  "undefined_on g bs \<longleftrightarrow> (\<forall>r rest. rbuf_ok r \<and> rb_rest r = bs @ rest \<longrightarrow> g r = None)"

lemma undefined_bind:
  assumes "gets g x as" "undefined_on (h x) bs"
  shows "undefined_on (\<lambda>r. got_bind (g r) (\<lambda>(a, r). h a r)) (as @ bs)"
  unfolding undefined_on_def
proof (intro allI impI)
  fix r rest assume r: "rbuf_ok r \<and> rb_rest r = (as @ bs) @ rest"
  then have "length as \<le> rb_room r" using length_rb_rest [of r] by simp
  then have ok: "rbuf_ok (rb_adv (length as) r)" using r by (simp add: rbuf_ok_adv)
  have "rb_rest (rb_adv (length as) r) = bs @ rest" using r by (simp add: rb_rest_adv)
  then have "h x (rb_adv (length as) r) = None" using assms(2) ok by (auto simp: undefined_on_def)
  then show "got_bind (g r) (\<lambda>(a, r). h a r) = None"
    using getsD [OF assms(1), of r "bs @ rest"] r by (simp add: got_bind_def)
qed

lemma undefined_here: "undefined_on g bs \<Longrightarrow> undefined_on (\<lambda>r. got_bind (g r) f) bs"
  by (auto simp: undefined_on_def got_bind_def)

lemma undefined_more: "undefined_on g bs \<Longrightarrow> undefined_on g (bs @ cs)"
  by (auto simp: undefined_on_def)

lemma undefined_store: "reads g x bs \<Longrightarrow> undefined_on (store False g) bs"
  by (auto simp: undefined_on_def store_def reads_def)

lemma undefined_try: "reads g x bs \<Longrightarrow> undefined_on (try_store False d g) bs"
  by (auto simp: undefined_on_def try_store_def reads_def)

lemma undefined_n:
  "list_all (\<lambda>x. gets g x (enc x)) as \<Longrightarrow> undefined_on g (enc b) \<Longrightarrow>
   undefined_on (get_n g (length (as @ b # cs))) (concat (map enc (as @ b # cs)))"
proof (induction as)
  case Nil
  then show ?case by (simp add: get_n_eta undefined_more undefined_here)
next
  case (Cons a as)
  define ys where "ys = as @ b # cs"
  have IH: "undefined_on (get_n g (length ys)) (concat (map enc ys))"
    unfolding ys_def by (rule Cons.IH) (use Cons.prems in auto)
  have g: "gets g a (enc a)" using Cons.prems(1) by simp
  show ?case
    unfolding append_Cons ys_def [symmetric] list.size list.map concat.simps add_Suc_right add_0_right get_n_eta
    by (rule undefined_bind [OF g]) (rule undefined_here [OF IH])
qed

lemma undefined_crc_body:
  assumes v: "nr_crc_readable v" "num_cb v \<noteq> 0"
  shows "undefined_on (unpack_nr_crc_indication_body True) (enc_nr_crc v)"
proof -
  have arr: "reads (pullarray8 (bit_bytes (num_cb v)) (bit_bytes (num_cb v))) (cb_crc_status v) (cb_crc_status v)"
    using v by (intro reads_array8) (simp add: nr_crc_readable_def)
  have here: "undefined_on (\<lambda>r. if num_cb v = 0 then Some (Some ([], r))
      else try_store False [] (pullarray8 (bit_bytes (num_cb v)) (bit_bytes (num_cb v))) r) (cb_crc_status v)"
    using undefined_try [OF arr] v(2) by (simp add: undefined_on_def)
  have enc: "enc_nr_crc v = be32 (ncrc_handle v) @ be16 (ncrc_rnti v) @ [ncrc_harq_id v] @ [tb_crc_status v] @ be16 (num_cb v) @
      cb_crc_status v @ [ncrc_ul_cqi v] @ be16 (ncrc_timing_advance v) @ be16 (ncrc_rssi v)"
    using v by (simp add: enc_nr_crc_def nr_crc_readable_def)
  show ?thesis
    unfolding unpack_nr_crc_indication_body_def [abs_def] enc if_False not_True_eq_False
    by (rule undefined_here [OF undefined_more [OF here]]
        | rule undefined_bind gets_try_store reads_pull32 reads_pull16 reads_pull8)+
qed

lemma undefined_nr16:
  assumes ps: "nr_pdus m = as @ b # cs" "length (nr_pdus m) = unat (nr_number m)"
    and "list_all (\<lambda>x. gets body x (enc x)) as" "undefined_on body (enc b)"
  shows "undefined_on (\<lambda>r. got_bind (store True pull16 r) (\<lambda>(a, r). got_bind (store True pull16 r) (\<lambda>(b, r).
       got_bind (store True pull16 r) (\<lambda>(n, r). got_bind (get_n body (unat n) r) (\<lambda>(ps, r).
       Some (Some (\<lparr>nr_sfn = a, nr_slot = b, nr_number = n, nr_pdus = ps\<rparr>, r))))))) (enc_nr16 enc m)"
proof -
  have list: "undefined_on (get_n body (unat (nr_number m))) (concat (map enc (nr_pdus m)))"
    unfolding ps(2) [symmetric] ps(1) by (rule undefined_n [OF assms(3,4)])
  show ?thesis
    unfolding enc_nr16_def
    by (rule undefined_here [OF list] | rule undefined_bind gets_store reads_pull16)+
qed

lemma undefined_received:
  assumes "undefined_on receive bs" "message_id h = mid" "unat (message_length h) \<le> 16 + length bs"
  shows "nr_unpack_case mid receive (enc_p7_header h @ bs) = None"
proof -
  let ?r = "rb_adv 16 (rb_of (enc_p7_header h @ bs))"
  have "rbuf_ok ?r \<and> rb_rest ?r = bs @ []" by (simp add: rbuf_ok_adv rb_rest_adv)
  then have "receive ?r = None" using assms(1) unfolding undefined_on_def by blast
  then show ?thesis using assms(2) frame_unpack_enc [OF assms(3)] by (simp add: nr_unpack_case_def)
qed

lemma undefined_crc_indication:
  assumes "length (nr_pdus m) = unat (nr_number m)" "list_all nr_crc_readable (nr_pdus m)" "\<not> list_all nr_crc_plain (nr_pdus m)"
  shows "undefined_on (unpack_nr_crc_indication True) (enc_nr16 enc_nr_crc m)"
proof -
  have "\<exists>b \<in> set (nr_pdus m). \<not> nr_crc_plain b" using assms(3) by (auto simp: list_all_iff)
  then obtain as b cs where ps: "nr_pdus m = as @ b # cs" and as: "\<forall>a \<in> set as. \<not> \<not> nr_crc_plain a" and b: "\<not> nr_crc_plain b"
    using split_list_first_prop [of "nr_pdus m" "\<lambda>v. \<not> nr_crc_plain v"] by blast
  have "list_all (\<lambda>x. gets (unpack_nr_crc_indication_body True) x (enc_nr_crc x)) as"
    using as by (auto simp: list_all_iff nr_crc_plain_def intro: gets_nr_crc_body)
  moreover have "nr_crc_readable b" "num_cb b \<noteq> 0"
    using assms(2) b by (auto simp: ps nr_crc_readable_def nr_crc_plain_def split: if_splits)
  ultimately show ?thesis
    unfolding unpack_nr_crc_indication_def [abs_def] by (rule undefined_nr16 [OF ps assms(1) _ undefined_crc_body])
qed

lemma undefined_srs_indication:
  assumes m: "counted srs_pdu_ok m" "1 < unat (nr_number m)"
  shows "undefined_on (unpack_nr_srs_indication True) (enc_nr_srs m)"
proof -
  obtain p q ps where ps: "nr_pdus m = p # q # ps"
    using m by (cases "nr_pdus m"; cases "tl (nr_pdus m)") (auto simp: counted_def)
  have ok: "srs_pdu_ok p" using m by (simp add: counted_def ps)
  have n: "unat (nr_number m) = Suc (Suc (length ps))" using m by (simp add: counted_def ps)
  have eta: "get_srs_pdus ok (Suc n) = (\<lambda>r. got_bind (unpack_nr_srs_indication_body ok r) (\<lambda>(p, r). got_bind (get_srs_pdus False n r)
      (\<lambda>(ps, r). Some (Some (p # ps, r)))))" for ok n by (simp add: fun_eq_iff)
  have "undefined_on (unpack_nr_srs_indication_body False) (enc_srs_pdu q)"
    unfolding unpack_nr_srs_indication_body_def [abs_def] enc_srs_pdu_def
    by (rule undefined_more, rule undefined_here, rule undefined_store [OF reads_pull32])
  then have second: "undefined_on (get_srs_pdus False (Suc (length ps))) (enc_srs_pdu q @ concat (map enc_srs_pdu ps))"
    unfolding eta by (intro undefined_here undefined_more)
  have list: "undefined_on (get_srs_pdus True (unat (nr_number m))) (concat (map enc_srs_pdu (nr_pdus m)))"
    unfolding n ps list.map concat.simps eta [of True]
    by (rule undefined_bind [OF gets_srs_pdu [OF ok]]) (rule undefined_here [OF second])
  show ?thesis
    unfolding unpack_nr_srs_indication_def [abs_def] enc_nr_srs_def
    by (rule undefined_here [OF list] | rule undefined_bind gets_store reads_pull16 reads_pull8)+
qed

lemma length_of_nat16: "n \<le> 0xFFFF \<Longrightarrow> unat (of_nat n :: u16) = n"
  by (simp add: unsigned_of_nat take_bit_nat_eq_self)

text \<open>What is sent and is undefined for the receiver.\<close>

lemma sent_undefined:
  assumes "puts p bs" "undefined_on receive bs" "message_id h = mid" "16 + length bs \<le> min (length buf) 0xFFFF"
  shows "\<exists>h' bytes n. p7_frame_pack (put_result p) h buf = Some (h', bytes, n) \<and> n = 16 + length bs \<and>
    nr_unpack_case mid receive (take n bytes) = None"
proof -
  have "unat (of_nat (16 + length bs) :: u16) = 16 + length bs" using assms(4) by (intro length_of_nat16) simp
  then show ?thesis
    using packed_any [OF assms(1,4), of h]
      undefined_received [OF assms(2), of "h\<lparr>message_length := of_nat (16 + length bs), checksum := 0\<rparr>" mid] assms(3)
    by simp
qed

lemma puts_crc_readable:
  "length (nr_pdus m) = unat (nr_number m) \<Longrightarrow> list_all nr_crc_readable (nr_pdus m) \<Longrightarrow>
   puts (pack_nr_crc_indication m) (enc_nr16 enc_nr_crc m)"
  unfolding pack_nr_crc_indication_def
  by (rule puts_nr16 [where P = nr_crc_readable])
    (auto simp: counted_def nr_crc_readable_def intro!: puts_nr_crc_body split: if_splits)

section \<open>Properties\<close>

text \<open>A message that arrives: the receiver gets the header, with its length and without checksum, and the message.\<close>

definition delivers :: "(wbuf \<Rightarrow> wbuf option) \<Rightarrow> (u8 list \<Rightarrow> (p7_header \<times> 'm) option option) \<Rightarrow> p7_header \<Rightarrow> 'm \<Rightarrow> u8 list \<Rightarrow> bool" where
  "delivers body receive h m buf \<longleftrightarrow>
     (case p7_frame_pack body h buf of None \<Rightarrow> False
      | Some (h', bytes, n) \<Rightarrow> receive (take n bytes) = Some (Some (h'\<lparr>checksum := 0\<rparr>, m)))"

lemma delivers_exI: "p7_frame_pack body h buf = Some (h', bytes, n) \<Longrightarrow>
    receive (take n bytes) = Some (Some (h'\<lparr>checksum := 0\<rparr>, m)) \<Longrightarrow> delivers body receive h m buf"
  by (simp add: delivers_def)

lemma delivers_nr:
  fixes h :: p7_header
  assumes "\<And>thesis. (\<And>h' bytes n. p7_frame_pack body h buf = Some (h', bytes, n) \<Longrightarrow> n = k \<Longrightarrow>
      receive (take n bytes) = Some (Some (h'\<lparr>checksum := 0\<rparr>, m)) \<Longrightarrow> thesis) \<Longrightarrow> thesis"
  shows "delivers body receive h m buf"
  by (rule assms) (rule delivers_exI)

lemma delivers_rx_data:
  "message_id h = NFAPI_NR_PHY_MSG_TYPE_RX_DATA_INDICATION \<Longrightarrow> counted rx_data_pdu_ok m \<Longrightarrow>
   16 + length (enc_nr16 enc_rx_data_pdu m) \<le> min (length buf) 0xFFFF \<Longrightarrow> delivers (pack_nr_rx_data_indication m) (unpack_nr_rx_data_msg True) h m buf"
  unfolding unpack_nr_rx_data_msg_def if_True
  by (rule delivers_nr, rule nr_rx_data.roundtrip [of m h buf, simplified]) auto

lemma delivers_crc:
  "message_id h = NFAPI_NR_PHY_MSG_TYPE_CRC_INDICATION \<Longrightarrow> counted nr_crc_plain m \<Longrightarrow>
   16 + length (enc_nr16 enc_nr_crc m) \<le> min (length buf) 0xFFFF \<Longrightarrow> delivers (put_result (pack_nr_crc_indication m)) (unpack_nr_crc_msg True) h m buf"
  unfolding unpack_nr_crc_msg_def if_True
  by (rule delivers_nr, rule nr_crc.roundtrip [of m h buf, simplified]) auto

lemma delivers_uci:
  "message_id h = NFAPI_NR_PHY_MSG_TYPE_UCI_INDICATION \<Longrightarrow> counted nr_uci_ok m \<Longrightarrow>
   16 + length (enc_nr16 enc_nr_uci m) \<le> min (length buf) 0xFFFF \<Longrightarrow> delivers (put_result (pack_nr_uci_indication m)) (unpack_nr_uci_msg True True) h m buf"
  unfolding unpack_nr_uci_msg_def if_True
  by (rule delivers_nr, rule nr_uci.roundtrip [of m h buf, simplified]) auto

lemma delivers_srs:
  "message_id h = NFAPI_NR_PHY_MSG_TYPE_SRS_INDICATION \<Longrightarrow> counted srs_pdu_ok m \<and> unat (nr_number m) \<le> 1 \<Longrightarrow>
   16 + length (enc_nr_srs m) \<le> min (length buf) 0xFFFF \<Longrightarrow> delivers (pack_nr_srs_indication m) (unpack_nr_srs_msg True) h m buf"
  unfolding unpack_nr_srs_msg_def if_True
  by (rule delivers_nr, rule nr_srs.roundtrip [of m h buf, simplified]) auto

lemma delivers_rach:
  "message_id h = NFAPI_NR_PHY_MSG_TYPE_RACH_INDICATION \<Longrightarrow> counted prach_pdu_ok m \<Longrightarrow>
   16 + length (enc_nr_rach m) \<le> min (length buf) 0xFFFF \<Longrightarrow> delivers (pack_nr_rach_indication m) (unpack_nr_rach_msg True) h m buf"
  unfolding unpack_nr_rach_msg_def if_True
  by (rule delivers_nr, rule nr_rach.roundtrip [of m h buf, simplified]) auto

text \<open>
  C19. NR uplink messages arrive.  An RX_DATA, CRC, UCI, SRS or RACH indication whose counts and lengths agree with what
  it holds, packed into a buffer that is large enough, is unpacked to the same message: for UCI
  with every combination of the optional parts and the three PDU formats, for CRC as long as no PDU has a status per code block, and for
  SRS with one PDU at most.
\<close>

theorem nr_uplink_roundtrip:
  "(message_id h = NFAPI_NR_PHY_MSG_TYPE_RX_DATA_INDICATION \<and> counted rx_data_pdu_ok rx \<and>
      16 + length (enc_nr16 enc_rx_data_pdu rx) \<le> min (length buf) 0xFFFF \<longrightarrow>
      delivers (pack_nr_rx_data_indication rx) (unpack_nr_rx_data_msg True) h rx buf) \<and>
    (message_id h = NFAPI_NR_PHY_MSG_TYPE_CRC_INDICATION \<and> counted nr_crc_plain crc \<and>
      16 + length (enc_nr16 enc_nr_crc crc) \<le> min (length buf) 0xFFFF \<longrightarrow>
      delivers (put_result (pack_nr_crc_indication crc)) (unpack_nr_crc_msg True) h crc buf) \<and>
    (message_id h = NFAPI_NR_PHY_MSG_TYPE_UCI_INDICATION \<and> counted nr_uci_ok uci \<and>
      16 + length (enc_nr16 enc_nr_uci uci) \<le> min (length buf) 0xFFFF \<longrightarrow>
      delivers (put_result (pack_nr_uci_indication uci)) (unpack_nr_uci_msg True True) h uci buf) \<and>
    (message_id h = NFAPI_NR_PHY_MSG_TYPE_SRS_INDICATION \<and> counted srs_pdu_ok srs \<and> unat (nr_number srs) \<le> 1 \<and>
      16 + length (enc_nr_srs srs) \<le> min (length buf) 0xFFFF \<longrightarrow>
      delivers (pack_nr_srs_indication srs) (unpack_nr_srs_msg True) h srs buf) \<and>
    (message_id h = NFAPI_NR_PHY_MSG_TYPE_RACH_INDICATION \<and> counted prach_pdu_ok rach \<and>
      16 + length (enc_nr_rach rach) \<le> min (length buf) 0xFFFF \<longrightarrow>
      delivers (pack_nr_rach_indication rach) (unpack_nr_rach_msg True) h rach buf)"
  using delivers_rx_data [of h rx buf] delivers_crc [of h crc buf] delivers_uci [of h uci buf] delivers_srs [of h srs buf] delivers_rach [of h rach buf] by blast

text \<open>Messages for the examples: UCI on PUSCH with CSI, on PUCCH format 1 with SR and two HARQ bits, on format 3, and of an unknown type.\<close>

definition sample_header :: "u16 \<Rightarrow> p7_header" where
  "sample_header mid = \<lparr>phy_id = 1, message_id = mid, message_length = 0, m_segment_sequence = 0, checksum = 0, transmit_timestamp = 7\<rparr>"

definition sample_uci :: "(u16, nr_uci) nr_indication" where
  "sample_uci = \<lparr>nr_sfn = 100, nr_slot = 7, nr_number = 4, nr_pdus = [
     \<lparr>uci_pdu_type = 0, uci_pdu_size = 20, uci_pdu = pusch_pdu \<lparr>pusch_pduBitmap = 4, pusch_handle = 9, pusch_rnti = 0x1234,
       pusch_ul_cqi = 3, pusch_timing_advance = 4, pusch_rssi = 5, pusch_harq = no_part,
       pusch_csi_part1 = \<lparr>part_crc = 1, part_bit_len = 9, part_payload = [1, 2]\<rparr>, pusch_csi_part2 = no_part\<rparr>\<rparr>,
     \<lparr>uci_pdu_type = 1, uci_pdu_size = 20, uci_pdu = pucch_pdu_format_0_1 \<lparr>f01_pduBitmap = 3, f01_handle = 9, f01_rnti = 0x1235,
       f01_pucch_format = 1, f01_ul_cqi = 3, f01_timing_advance = 4, f01_rssi = 5,
       f01_sr = Some \<lparr>sr_indication = 1, sr_confidence_level = 0\<rparr>,
       f01_harq = Some \<lparr>num_harq = 2, harq_confidence_level = 0, harq_list = [0, 1]\<rparr>\<rparr>\<rparr>,
     \<lparr>uci_pdu_type = 2, uci_pdu_size = 20, uci_pdu = pucch_pdu_format_2_3_4 \<lparr>f234_pduBitmap = 1, f234_handle = 9, f234_rnti = 0x1236,
       f234_pucch_format = 3, f234_ul_cqi = 3, f234_timing_advance = 4, f234_rssi = 5,
       f234_sr = \<lparr>sr_bit_len = 1, sr_payload = [1]\<rparr>, f234_harq = no_part, f234_csi_part1 = no_part, f234_csi_part2 = no_part\<rparr>\<rparr>,
     \<lparr>uci_pdu_type = 7, uci_pdu_size = 4, uci_pdu = cleared\<rparr>]\<rparr>"

definition sample_nr_crc :: "nat \<Rightarrow> u16 \<Rightarrow> (u16, nr_crc) nr_indication" where
  "sample_nr_crc n cbs = \<lparr>nr_sfn = 100, nr_slot = 7, nr_number = of_nat n, nr_pdus = replicate n
     \<lparr>ncrc_handle = 1, ncrc_rnti = 0x1234, ncrc_harq_id = 2, tb_crc_status = 1, num_cb = cbs,
      cb_crc_status = (if cbs = 0 then [] else replicate (unat cbs div 8 + 1) 0),
      ncrc_ul_cqi = 3, ncrc_timing_advance = 4, ncrc_rssi = 5\<rparr>\<rparr>"

definition sample_srs :: "nat \<Rightarrow> nr_srs_indication" where
  "sample_srs n = \<lparr>nr_sfn = 100, nr_slot = 7, nr_number = of_nat n, nr_pdus = replicate n
     \<lparr>srs_handle = 1, srs_rnti = 0x1234, timing_advance_offset = 3, timing_advance_offset_nsec = 4, srs_usage = 0, report_type = 1,
      report_tlv = \<lparr>report_tag = 0, report_length = 2, report_value = [5, 6]\<rparr>\<rparr>, control_length = 0\<rparr>"

definition sample_rx_data :: "(u16, nr_rx_data_pdu) nr_indication" where
  "sample_rx_data = \<lparr>nr_sfn = 100, nr_slot = 7, nr_number = 1, nr_pdus = [
     \<lparr>rxd_handle = 1, rxd_rnti = 0x1234, rxd_harq_id = 2, rxd_pdu_length = 3, rxd_ul_cqi = 3, rxd_timing_advance = 4,
      rxd_rssi = 5, rxd_pdu = [7, 8, 9]\<rparr>]\<rparr>"

definition sample_rach :: "(u8, nr_prach_pdu) nr_indication" where
  "sample_rach = \<lparr>nr_sfn = 100, nr_slot = 7, nr_number = 1, nr_pdus = [
     \<lparr>phy_cell_id = 1, symbol_index = 2, slot_index = 3, freq_index = 0, avg_rssi = 4, avg_snr = 5, num_preamble = 1,
      preamble_list = [\<lparr>preamble_index = 6, preamble_timing_advance = 7, preamble_pwr = 8\<rparr>]\<rparr>]\<rparr>"

theorem nr_uplink_roundtrip_witness:
  "delivers (pack_nr_rx_data_indication sample_rx_data) (unpack_nr_rx_data_msg True) (sample_header 0x85) sample_rx_data (replicate 200 0) \<and>
   delivers (put_result (pack_nr_crc_indication (sample_nr_crc 2 0))) (unpack_nr_crc_msg True) (sample_header 0x86) (sample_nr_crc 2 0) (replicate 200 0) \<and>
   delivers (put_result (pack_nr_uci_indication sample_uci)) (unpack_nr_uci_msg True True) (sample_header 0x87) sample_uci (replicate 200 0) \<and>
   delivers (pack_nr_srs_indication (sample_srs 1)) (unpack_nr_srs_msg True) (sample_header 0x88) (sample_srs 1) (replicate 200 0) \<and>
   delivers (pack_nr_rach_indication sample_rach) (unpack_nr_rach_msg True) (sample_header 0x89) sample_rach (replicate 200 0)"
proof -
  have "message_id (sample_header 0x85) = NFAPI_NR_PHY_MSG_TYPE_RX_DATA_INDICATION \<and> counted rx_data_pdu_ok sample_rx_data \<and>
      16 + length (enc_nr16 enc_rx_data_pdu sample_rx_data) \<le> 200"
    "message_id (sample_header 0x86) = NFAPI_NR_PHY_MSG_TYPE_CRC_INDICATION \<and> counted nr_crc_plain (sample_nr_crc 2 0) \<and>
      16 + length (enc_nr16 enc_nr_crc (sample_nr_crc 2 0)) \<le> 200"
    "message_id (sample_header 0x87) = NFAPI_NR_PHY_MSG_TYPE_UCI_INDICATION \<and> counted nr_uci_ok sample_uci \<and>
      16 + length (enc_nr16 enc_nr_uci sample_uci) \<le> 200"
    "message_id (sample_header 0x88) = NFAPI_NR_PHY_MSG_TYPE_SRS_INDICATION \<and> counted srs_pdu_ok (sample_srs 1) \<and>
      unat (nr_number (sample_srs 1)) \<le> 1 \<and> 16 + length (enc_nr_srs (sample_srs 1)) \<le> 200"
    "message_id (sample_header 0x89) = NFAPI_NR_PHY_MSG_TYPE_RACH_INDICATION \<and> counted prach_pdu_ok sample_rach \<and>
      16 + length (enc_nr_rach sample_rach) \<le> 200"
    by code_simp+
  then show ?thesis
    using nr_uplink_roundtrip [of "sample_header 0x85" sample_rx_data "replicate 200 0"]
      nr_uplink_roundtrip [of "sample_header 0x86" _ "replicate 200 0" "sample_nr_crc 2 0"]
      nr_uplink_roundtrip [of "sample_header 0x87" _ "replicate 200 0" _ sample_uci]
      nr_uplink_roundtrip [of "sample_header 0x88" _ "replicate 200 0" _ _ "sample_srs 1"]
      nr_uplink_roundtrip [of "sample_header 0x89" _ "replicate 200 0" _ _ _ sample_rach]
    by auto
qed

text \<open>
  C32. A CRC indication with a status per code block is undefined behaviour at the receiver.  The sender packs
  it, and the bytes are as many as it means to send; the receiver
  copies the status bytes of the first PDU that has any to an address that it has never set.
\<close>

theorem nr_crc_status_undefined:
  assumes "length (nr_pdus m) = unat (nr_number m)" "list_all nr_crc_readable (nr_pdus m)" "\<not> list_all nr_crc_plain (nr_pdus m)"
    and "message_id h = NFAPI_NR_PHY_MSG_TYPE_CRC_INDICATION" "16 + length (enc_nr16 enc_nr_crc m) \<le> min (length buf) 0xFFFF"
  shows "\<exists>h' bytes n. p7_frame_pack (put_result (pack_nr_crc_indication m)) h buf = Some (h', bytes, n) \<and>
    n = 16 + length (enc_nr16 enc_nr_crc m) \<and> unpack_nr_crc_msg True (take n bytes) = None"
  unfolding unpack_nr_crc_msg_def
  by (rule sent_undefined [OF puts_crc_readable [OF assms(1,2)] undefined_crc_indication [OF assms(1-3)] assms(4,5)])

theorem nr_crc_status_undefined_witness:
  "\<exists>h' bytes n. p7_frame_pack (put_result (pack_nr_crc_indication (sample_nr_crc 1 3))) (sample_header 0x86) (replicate 100 0) = Some (h', bytes, n) \<and>
    unpack_nr_crc_msg True (take n bytes) = None"
proof -
  let ?m = "sample_nr_crc 1 3"
  have "length (nr_pdus ?m) = unat (nr_number ?m)" "list_all nr_crc_readable (nr_pdus ?m)" "\<not> list_all nr_crc_plain (nr_pdus ?m)"
    "message_id (sample_header 0x86) = NFAPI_NR_PHY_MSG_TYPE_CRC_INDICATION" "16 + length (enc_nr16 enc_nr_crc ?m) \<le> 100"
    by code_simp+
  then show ?thesis
    using nr_crc_status_undefined [of ?m "sample_header 0x86" "replicate 100 0"] by auto
qed

text \<open>
  An SRS indication with more than one PDU is undefined behaviour at the receiver: the list has room for one PDU
  whatever the count says.
\<close>

theorem nr_srs_list_undefined:
  assumes "counted srs_pdu_ok m" "1 < unat (nr_number m)"
    and "message_id h = NFAPI_NR_PHY_MSG_TYPE_SRS_INDICATION" "16 + length (enc_nr_srs m) \<le> min (length buf) 0xFFFF"
  shows "\<exists>h' bytes n. p7_frame_pack (pack_nr_srs_indication m) h buf = Some (h', bytes, n) \<and>
    n = 16 + length (enc_nr_srs m) \<and> unpack_nr_srs_msg True (take n bytes) = None"
  using sent_undefined [OF puts_attempt [OF writes_nr_srs [OF assms(1)]] undefined_srs_indication [OF assms(1,2)] assms(3,4)]
  unfolding unpack_nr_srs_msg_def put_result_attempt .

theorem nr_srs_list_undefined_witness:
  "\<exists>h' bytes n. p7_frame_pack (pack_nr_srs_indication (sample_srs 2)) (sample_header 0x88) (replicate 100 0) = Some (h', bytes, n) \<and>
    unpack_nr_srs_msg True (take n bytes) = None"
proof -
  have "counted srs_pdu_ok (sample_srs 2)" "1 < unat (nr_number (sample_srs 2))"
    "message_id (sample_header 0x88) = NFAPI_NR_PHY_MSG_TYPE_SRS_INDICATION" "16 + length (enc_nr_srs (sample_srs 2)) \<le> 100"
    by code_simp+
  then show ?thesis
    using nr_srs_list_undefined [of "sample_srs 2" "sample_header 0x88" "replicate 100 0"] by auto
qed

text \<open>
  The CRC packer never refuses: with room for the header and the count, the frame is packed and its length
  fits the buffer, also when the PDUs do not, so that the eNB is sent a message with fewer bytes
  than its count announces.
\<close>

theorem nr_crc_truncated:
  assumes "list_all nr_crc_readable (nr_pdus m)" "22 \<le> length buf" "length buf \<le> 0xFFFF"
  shows "\<exists>h' bytes n. p7_frame_pack (put_result (pack_nr_crc_indication m)) h buf = Some (h', bytes, n) \<and>
    n \<le> length buf \<and> (length buf < 16 + length (enc_nr16 enc_nr_crc m) \<longrightarrow> n < 16 + length (enc_nr16 enc_nr_crc m))"
proof -
  have "\<exists>h' bytes n. p7_frame_pack (put_result (pack_nr_crc_indication m)) h buf = Some (h', bytes, n) \<and> n \<le> length buf"
    by (rule frame_of_put) (use assms pack_crc_succeeds [OF assms(1)] in \<open>auto simp: wb_room_def\<close>)
  then show ?thesis by fastforce
qed

theorem nr_crc_truncated_witness:
  "\<exists>h' bytes n. p7_frame_pack (put_result (pack_nr_crc_indication (sample_nr_crc 2 0))) (sample_header 0x86) (replicate 40 0) = Some (h', bytes, n) \<and>
    n < 16 + length (enc_nr16 enc_nr_crc (sample_nr_crc 2 0))"
proof -
  have "list_all nr_crc_readable (nr_pdus (sample_nr_crc 2 0))" "40 < 16 + length (enc_nr16 enc_nr_crc (sample_nr_crc 2 0))"
    by code_simp+
  then show ?thesis
    using nr_crc_truncated [of "sample_nr_crc 2 0" "replicate 40 0" "sample_header 0x86"] by auto
qed

end
