(* ===== verification/Nr_Aggregate.thy ===== *)
theory Nr_Aggregate
  imports Ue_Proxy Nr_Indications
begin

text \<open>
  The aggregating functions of the NR side of \<^verbatim>\<open>src/nfapi_pnf.c\<close>, and the NR proxy with the
  queues of Ue_Proxy in front of them.  They have the scheme of their LTE counterparts (Ue_Aggregate), with the
  messages of Nr_Indications.  What the proxy hands to the gNB (\<^verbatim>\<open>oai_nfapi_nr_crc_indication\<close> and its
  siblings) is a value of \<open>gnb_call\<close>.

  An \<^verbatim>\<open>abort\<close>, a failed \<^verbatim>\<open>assert\<close> and undefined behaviour are \<open>None\<close>; the inner \<open>None\<close> of the loops is the
  early return that sends nothing.  Comparisons that only write to the log are left out.
\<close>

section \<open>The loop\<close>

definition NFAPI_NR_RX_DATA_IND_MAX_PDU :: nat where "NFAPI_NR_RX_DATA_IND_MAX_PDU = 100"
definition NFAPI_NR_CRC_IND_MAX_PDU :: nat where "NFAPI_NR_CRC_IND_MAX_PDU = 100"
definition NFAPI_NR_UCI_IND_MAX_PDU :: nat where "NFAPI_NR_UCI_IND_MAX_PDU = 100"
definition NFAPI_NR_SRS_IND_MAX_PDU :: nat where "NFAPI_NR_SRS_IND_MAX_PDU = 100"

lemmas nr_max_pdu = NFAPI_NR_RX_DATA_IND_MAX_PDU_def NFAPI_NR_CRC_IND_MAX_PDU_def NFAPI_NR_UCI_IND_MAX_PDU_def
  NFAPI_NR_SRS_IND_MAX_PDU_def

definition msg_bytes :: "message_buffer \<Rightarrow> u8 list" where
  "msg_bytes msg = take (msg_length msg) (msg_data msg)"

text \<open>One message: header, SFN and slot are taken over, its count is added, its PDUs are copied as long as there is room.\<close>

definition nr_add :: "nat \<Rightarrow> p7_header \<times> ('n :: len word, 'p, 'z) nr_indication_scheme
  \<Rightarrow> p7_header \<times> ('n word, 'p, 'z) nr_indication_scheme \<Rightarrow> p7_header \<times> ('n word, 'p, 'z) nr_indication_scheme" where
  "nr_add max_pdu agg got =
     (let a = snd agg; b = snd got in
      (fst got, a\<lparr>nr_sfn := nr_sfn b, nr_slot := nr_slot b, nr_number := nr_number a + nr_number b,
         nr_pdus := take max_pdu (nr_pdus a @ take (unat (nr_number b)) (nr_pdus b))\<rparr>))"

text \<open>
  \<open>max_pdu\<close> is the limit of the loop and \<open>room\<close> the number of PDUs that the array has room for.
  \<open>accept\<close> is the check on a message whose failure is an \<^verbatim>\<open>abort\<close>.
\<close>

fun nr_aggregate_pdus :: "nat \<Rightarrow> nat \<Rightarrow> (('n :: len word, 'p, 'z) nr_indication_scheme \<Rightarrow> bool)
  \<Rightarrow> (u8 list \<Rightarrow> (p7_header \<times> ('n word, 'p, 'z) nr_indication_scheme) option option)
  \<Rightarrow> p7_header \<times> ('n word, 'p, 'z) nr_indication_scheme \<Rightarrow> message_buffer list
  \<Rightarrow> (p7_header \<times> ('n word, 'p, 'z) nr_indication_scheme) option option" where
  "nr_aggregate_pdus max_pdu room accept unpack agg [] = Some (Some agg)"
| "nr_aggregate_pdus max_pdu room accept unpack agg (msg # msgs) =
     (if NFAPI_RX_IND_DATA_MAX < msg_length msg then None
      else case unpack (msg_bytes msg) of None \<Rightarrow> None
      | Some None \<Rightarrow> Some None
      | Some (Some got) \<Rightarrow>
          if \<not> accept (snd got) then None
          else let agg' = nr_add max_pdu agg got in
               if room < length (nr_pdus (snd agg')) then None
               else if length (nr_pdus (snd agg')) = max_pdu then Some (Some agg')
               else nr_aggregate_pdus max_pdu room accept unpack agg' msgs)"

definition zero_header :: p7_header where
  "zero_header = \<lparr>phy_id = 0, message_id = 0, message_length = 0, m_segment_sequence = 0, checksum = 0, transmit_timestamp = 0\<rparr>"

definition zero_nr :: "('n :: len word, 'p) nr_indication" where
  "zero_nr = \<lparr>nr_sfn = 0, nr_slot = 0, nr_number = 0, nr_pdus = []\<rparr>"

definition nr_aggregate_ind where
  "nr_aggregate_ind ok max_pdu room accept unpack zero send msgs =
     (if msgs = [] \<or> \<not> ok then None
      else map_option (\<lambda>res. case res of None \<Rightarrow> [] | Some agg \<Rightarrow> [send agg])
             (nr_aggregate_pdus max_pdu room accept unpack (zero_header, zero) msgs))"

section \<open>The aggregating functions\<close>

datatype gnb_call =
    oai_nfapi_nr_rach_indication "p7_header \<times> (u8, nr_prach_pdu) nr_indication"
  | oai_nfapi_nr_crc_indication "p7_header \<times> (u16, nr_crc) nr_indication"
  | oai_nfapi_nr_rx_data_indication "p7_header \<times> (u16, nr_rx_data_pdu) nr_indication"
  | oai_nfapi_nr_uci_indication "p7_header \<times> (u16, nr_uci) nr_indication"
  | oai_nfapi_nr_srs_indication "p7_header \<times> nr_srs_indication"

fun forward_nr_rach :: "bool \<Rightarrow> message_buffer list \<Rightarrow> gnb_call list option" where
  "forward_nr_rach ok [] = Some []"
| "forward_nr_rach ok (msg # msgs) =
     (if NFAPI_RX_IND_DATA_MAX < msg_length msg then None
      else case unpack_nr_rach_msg ok (msg_bytes msg) of None \<Rightarrow> None
      | Some None \<Rightarrow> forward_nr_rach ok msgs
      | Some (Some ind) \<Rightarrow> map_option (Cons (oai_nfapi_nr_rach_indication ind)) (forward_nr_rach ok msgs))"

definition oai_slot_aggregate_rach_ind :: "bool \<Rightarrow> message_buffer list \<Rightarrow> gnb_call list option" where
  "oai_slot_aggregate_rach_ind ok msgs = (if msgs = [] then None else forward_nr_rach ok msgs)"

definition oai_slot_aggregate_crc_ind :: "bool \<Rightarrow> message_buffer list \<Rightarrow> gnb_call list option" where
  "oai_slot_aggregate_crc_ind ok =
     nr_aggregate_ind ok NFAPI_NR_CRC_IND_MAX_PDU NFAPI_NR_CRC_IND_MAX_PDU (\<lambda>_. True) (unpack_nr_crc_msg ok) zero_nr
       oai_nfapi_nr_crc_indication"

definition oai_slot_aggregate_rx_data_ind :: "bool \<Rightarrow> message_buffer list \<Rightarrow> gnb_call list option" where
  "oai_slot_aggregate_rx_data_ind ok msgs =
     (if 1 < length msgs \<and> (case get_sfnslot (hd msgs) of Some (Some s) \<Rightarrow> False | _ \<Rightarrow> True) then None
      else nr_aggregate_ind ok NFAPI_NR_RX_DATA_IND_MAX_PDU NFAPI_NR_RX_DATA_IND_MAX_PDU (\<lambda>m. nr_number m \<noteq> 0)
        (unpack_nr_rx_data_msg ok) zero_nr oai_nfapi_nr_rx_data_indication msgs)"

text \<open>The three members of the union begin with the same fields up to the RNTI.\<close>

fun union_rnti :: "uci_union \<Rightarrow> u16" where
  "union_rnti (pusch_pdu p) = pusch_rnti p"
| "union_rnti (pucch_pdu_format_0_1 p) = f01_rnti p"
| "union_rnti (pucch_pdu_format_2_3_4 p) = f234_rnti p"
| "union_rnti cleared = 0"

definition get_nr_uci_rnti :: "nr_uci \<Rightarrow> u16 \<Rightarrow> int" where
  "get_nr_uci_rnti v pdu_type =
     (if pdu_type = NFAPI_NR_UCI_PUSCH_PDU_TYPE then uint (union_rnti (uci_pdu v))
      else if pdu_type = NFAPI_NR_UCI_FORMAT_0_1_PDU_TYPE then uint (union_rnti (uci_pdu v))
      else if pdu_type = NFAPI_NR_UCI_FORMAT_2_3_4_PDU_TYPE then uint (union_rnti (uci_pdu v))
      else -1)"

definition uci_accepted :: "(u16, nr_uci) nr_indication \<Rightarrow> bool" where
  "uci_accepted m \<longleftrightarrow> nr_number m \<noteq> 0 \<and> get_nr_uci_rnti (hd (nr_pdus m)) (uci_pdu_type (hd (nr_pdus m))) \<noteq> -1"

definition oai_slot_aggregate_uci_ind :: "bool \<Rightarrow> bool \<Rightarrow> message_buffer list \<Rightarrow> gnb_call list option" where
  "oai_slot_aggregate_uci_ind ok part_ok =
     nr_aggregate_ind ok NFAPI_NR_UCI_IND_MAX_PDU NFAPI_NR_UCI_IND_MAX_PDU uci_accepted
       (unpack_nr_uci_msg ok part_ok) zero_nr oai_nfapi_nr_uci_indication"

text \<open>
  The array of the SRS PDUs is allocated with the size of an indication for each element.  The sizes are those of a
  64-bit machine; a PDU has 65536 bytes of report whatever the machine.
\<close>

definition sizeof_srs_indication :: nat where "sizeof_srs_indication = 32"
definition sizeof_srs_pdu :: nat where "sizeof_srs_pdu = 20 + 65536"

definition srs_room :: nat where
  "srs_room = NFAPI_NR_SRS_IND_MAX_PDU * sizeof_srs_indication div sizeof_srs_pdu"

definition zero_srs :: nr_srs_indication where
  "zero_srs = \<lparr>nr_sfn = 0, nr_slot = 0, nr_number = 0, nr_pdus = [], control_length = 0\<rparr>"

definition oai_slot_aggregate_srs_ind :: "bool \<Rightarrow> message_buffer list \<Rightarrow> gnb_call list option" where
  "oai_slot_aggregate_srs_ind ok =
     nr_aggregate_ind ok NFAPI_NR_SRS_IND_MAX_PDU srs_room (\<lambda>_. True) (unpack_nr_srs_msg ok) zero_srs
       oai_nfapi_nr_srs_indication"

definition oai_slot_aggregate_message_id :: "bool \<Rightarrow> bool \<Rightarrow> u16 \<Rightarrow> message_buffer list \<Rightarrow> gnb_call list option" where
  "oai_slot_aggregate_message_id ok part_ok msg_id msgs =
     (if msgs = [] then None
      else if NFAPI_RX_IND_DATA_MAX < msg_length (hd msgs) then None
      else if msg_id = NFAPI_NR_PHY_MSG_TYPE_RACH_INDICATION then oai_slot_aggregate_rach_ind ok msgs
      else if msg_id = NFAPI_NR_PHY_MSG_TYPE_CRC_INDICATION then oai_slot_aggregate_crc_ind ok msgs
      else if msg_id = NFAPI_NR_PHY_MSG_TYPE_RX_DATA_INDICATION then oai_slot_aggregate_rx_data_ind ok msgs
      else if msg_id = NFAPI_NR_PHY_MSG_TYPE_UCI_INDICATION then oai_slot_aggregate_uci_ind ok part_ok msgs
      else if msg_id = NFAPI_NR_PHY_MSG_TYPE_SRS_INDICATION then oai_slot_aggregate_srs_ind ok msgs
      else Some [])"

text \<open>The NR proxy: the queues of the UEs with these functions behind them, and enough memory.\<close>

definition nr_uplink :: "ue_event list \<Rightarrow> message_buffer queue list \<Rightarrow> (message_buffer queue list \<times> gnb_call list) option" where
  "nr_uplink = run_slots (oai_slot_aggregate_message_id True True)"

section \<open>What the loop collects\<close>

abbreviation nr_list :: "p7_header \<times> ('n, 'p, 'z) nr_indication_scheme \<Rightarrow> 'p list" where
  "nr_list x \<equiv> nr_pdus (snd x)"

definition nr_plain :: "p7_header \<times> ('n :: len word, 'p, 'z) nr_indication_scheme \<Rightarrow> bool" where
  "nr_plain x \<longleftrightarrow> length (nr_list x) = unat (nr_number (snd x))"

fun nr_taken :: "nat \<Rightarrow> (p7_header \<times> ('n, 'p, 'z) nr_indication_scheme) list
  \<Rightarrow> (p7_header \<times> ('n, 'p, 'z) nr_indication_scheme) list" where
  "nr_taken k [] = []"
| "nr_taken k (x # xs) = x # (if k \<le> length (nr_list x) then [] else nr_taken (k - length (nr_list x)) xs)"

definition nr_pdus_of :: "(p7_header \<times> ('n, 'p, 'z) nr_indication_scheme) list \<Rightarrow> 'p list" where
  "nr_pdus_of xs = concat (map nr_list xs)"

lemma nr_pdus_of_simps [simp]: "nr_pdus_of [] = []" "nr_pdus_of (x # xs) = nr_list x @ nr_pdus_of xs"
  by (simp_all add: nr_pdus_of_def)

lemma nr_add_sel:
  assumes "nr_plain x"
  shows "nr_list (nr_add k a x) = take k (nr_list a @ nr_list x)"
    and "nr_number (snd (nr_add k a x)) = nr_number (snd a) + nr_number (snd x)"
    and "fst (nr_add k a x) = fst x" "nr_sfn (snd (nr_add k a x)) = nr_sfn (snd x)" "nr_slot (snd (nr_add k a x)) = nr_slot (snd x)"
  using assms by (simp_all add: nr_add_def Let_def nr_plain_def min_def)

lemma nr_taken_Nil [simp]: "nr_taken k xs = [] \<longleftrightarrow> xs = []"
  by (cases xs) auto

lemma set_nr_taken: "set (nr_taken k xs) \<subseteq> set xs"
  by (induction k xs rule: nr_taken.induct) auto

lemma nr_take_taken: "take k (nr_pdus_of (nr_taken k xs)) = take k (nr_pdus_of xs)"
  by (induction k xs rule: nr_taken.induct) auto

lemma nr_taken_all: "length (nr_pdus_of xs) \<le> k \<Longrightarrow> nr_pdus_of (nr_taken k xs) = nr_pdus_of xs"
proof (induction k xs rule: nr_taken.induct)
  case (2 k x xs)
  then have "nr_pdus_of xs = []" if "k \<le> length (nr_list x)"
    using that by (simp flip: length_0_conv)
  with 2 show ?case by auto
qed simp

lemma nr_aggregate_eq:
  assumes "map (\<lambda>m. unpack (msg_bytes m)) msgs = map (\<lambda>x. Some (Some x)) xs" "\<forall>x \<in> set xs. nr_plain x \<and> accept (snd x)"
    and "\<forall>m \<in> set msgs. msg_length m \<le> NFAPI_RX_IND_DATA_MAX" "length (nr_list a) < k"
  shows "nr_aggregate_pdus k k accept unpack a msgs =
    Some (Some (fold (\<lambda>x a. nr_add k a x) (nr_taken (k - length (nr_list a)) xs) a))"
  using assms
proof (induction msgs arbitrary: xs a)
  case (Cons m msgs)
  obtain x ys where xs: "xs = x # ys" and u: "unpack (msg_bytes m) = Some (Some x)"
    and us: "map (\<lambda>m. unpack (msg_bytes m)) msgs = map (\<lambda>x. Some (Some x)) ys"
    using Cons.prems(1) by (cases xs) auto
  have x: "nr_plain x" "accept (snd x)" using Cons.prems(2) xs by simp_all
  note ps = nr_add_sel(1) [OF x(1), of k a]
  have step: "nr_aggregate_pdus k k accept unpack a (m # msgs) =
      (if k \<le> length (nr_list a) + length (nr_list x) then Some (Some (nr_add k a x))
       else nr_aggregate_pdus k k accept unpack (nr_add k a x) msgs)"
    using u x(2) Cons.prems(3) ps by (auto simp: Let_def)
  show ?case
  proof (cases "k \<le> length (nr_list a) + length (nr_list x)")
    case True
    then have "k - length (nr_list a) \<le> length (nr_list x)" by arith
    then show ?thesis using True step xs by simp
  next
    case False
    then have "\<not> k - length (nr_list a) \<le> length (nr_list x)" by arith
    with False show ?thesis
      using step xs Cons.IH [OF us, of "nr_add k a x"] Cons.prems ps by (simp add: diff_diff_left)
  qed
qed simp

lemma nr_fold_number:
  "\<forall>x \<in> set xs. nr_plain x \<Longrightarrow>
   nr_number (snd (fold (\<lambda>x a. nr_add k a x) xs a)) = nr_number (snd a) + of_nat (length (nr_pdus_of xs))"
  by (induction xs arbitrary: a) (simp_all add: nr_add_sel nr_plain_def add.assoc)

lemma nr_fold_pdus:
  "\<forall>x \<in> set xs. nr_plain x \<Longrightarrow> length (nr_list a) \<le> k \<Longrightarrow>
   nr_list (fold (\<lambda>x a. nr_add k a x) xs a) = take k (nr_list a @ nr_pdus_of xs)"
proof (induction xs arbitrary: a)
  case (Cons x xs)
  have p: "nr_list (nr_add k a x) = take k (nr_list a @ nr_list x)" using Cons.prems(1) by (simp add: nr_add_sel)
  have "nr_list (fold (\<lambda>x a. nr_add k a x) (x # xs) a) = take k (take k (nr_list a @ nr_list x) @ nr_pdus_of xs)"
    using Cons.IH [of "nr_add k a x"] Cons.prems p by simp
  also have "\<dots> = take k ((nr_list a @ nr_list x) @ nr_pdus_of xs)"
    unfolding take_append [of k _ "nr_pdus_of xs"] by (simp add: min_def)
  finally show ?case by simp
qed simp

lemma nr_fold_last:
  assumes "\<forall>x \<in> set xs. nr_plain x" "xs \<noteq> []"
  shows "fst (fold (\<lambda>x a. nr_add k a x) xs a) = fst (last xs) \<and>
    nr_sfn (snd (fold (\<lambda>x a. nr_add k a x) xs a)) = nr_sfn (snd (last xs)) \<and>
    nr_slot (snd (fold (\<lambda>x a. nr_add k a x) xs a)) = nr_slot (snd (last xs))"
  using assms by (induction xs arbitrary: a) (auto simp: nr_add_sel)

lemma nr_aggregate_ind_eq:
  assumes "msgs \<noteq> []" "map (\<lambda>m. unpack (msg_bytes m)) msgs = map (\<lambda>x. Some (Some x)) xs"
    and "\<forall>x \<in> set xs. nr_plain x \<and> accept (snd x)"
    and "\<forall>m \<in> set msgs. msg_length m \<le> NFAPI_RX_IND_DATA_MAX" "0 < k" "nr_pdus zero = []" "nr_number zero = 0"
  shows "\<exists>agg. nr_aggregate_ind True k k accept unpack zero send msgs = Some [send agg] \<and>
    nr_list agg = take k (nr_pdus_of xs) \<and> nr_number (snd agg) = of_nat (length (nr_pdus_of (nr_taken k xs))) \<and>
    fst agg = fst (last (nr_taken k xs)) \<and> nr_sfn (snd agg) = nr_sfn (snd (last (nr_taken k xs))) \<and>
    nr_slot (snd agg) = nr_slot (snd (last (nr_taken k xs)))"
proof (intro exI conjI)
  let ?ys = "nr_taken k xs" and ?z = "(zero_header, zero)"
  let ?agg = "fold (\<lambda>x a. nr_add k a x) ?ys ?z"
  have ne: "?ys \<noteq> []" using assms(1,2) by auto
  have ys: "\<forall>x \<in> set ?ys. nr_plain x" using assms(3) set_nr_taken by fast
  have "nr_aggregate_pdus k k accept unpack ?z msgs = Some (Some ?agg)"
    using nr_aggregate_eq [OF assms(2-4), of ?z k] assms(5,6) by simp
  then show "nr_aggregate_ind True k k accept unpack zero send msgs = Some [send ?agg]"
    using assms(1) by (simp add: nr_aggregate_ind_def)
  show "nr_list ?agg = take k (nr_pdus_of xs)"
    using nr_fold_pdus [OF ys, of ?z k] assms(6) by (simp add: nr_take_taken)
  show "nr_number (snd ?agg) = of_nat (length (nr_pdus_of ?ys))"
    using nr_fold_number [OF ys, of k ?z] assms(7) by simp
  show "fst ?agg = fst (last ?ys)" "nr_sfn (snd ?agg) = nr_sfn (snd (last ?ys))" "nr_slot (snd ?agg) = nr_slot (snd (last ?ys))"
    using nr_fold_last [OF ys ne, of k ?z] by simp_all
qed

section \<open>What the unpackers guarantee\<close>

lemma got_bind_Some:
  "got_bind x f = Some (Some y) \<longleftrightarrow> (\<exists>a. x = Some (Some a) \<and> f a = Some (Some y))"
  by (auto simp: got_bind_def split: option.splits)

lemma length_get_n: "get_n g n r = Some (Some (xs, r')) \<Longrightarrow> length xs = n"
  by (induction n arbitrary: r xs r') (auto simp: got_bind_Some)

lemma length_get_srs: "get_srs_pdus ok n r = Some (Some (xs, r')) \<Longrightarrow> length xs = n"
  by (induction n arbitrary: ok r xs r') (auto simp: got_bind_Some)

lemma nr_caseD: "nr_unpack_case mid unpack bytes = Some (Some x) \<Longrightarrow> \<exists>r r'. unpack r = Some (Some (snd x, r'))"
  by (auto simp: nr_unpack_case_def split: option.splits if_splits) blast

lemma unpacked_counts:
  "unpack_nr_crc_indication ok r = Some (Some (m1, r')) \<Longrightarrow> length (nr_pdus m1) = unat (nr_number m1)"
  "unpack_nr_uci_indication ok part_ok r = Some (Some (m2, r')) \<Longrightarrow> length (nr_pdus m2) = unat (nr_number m2)"
  "unpack_nr_rx_data_indication ok r = Some (Some (m3, r')) \<Longrightarrow> length (nr_pdus m3) = unat (nr_number m3)"
  "unpack_nr_srs_indication ok r = Some (Some (m4, r')) \<Longrightarrow> length (nr_pdus m4) = unat (nr_number m4)"
  by (auto simp: unpack_nr_crc_indication_def unpack_nr_uci_indication_def unpack_nr_rx_data_indication_def
      unpack_nr_srs_indication_def got_bind_Some dest!: length_get_n length_get_srs)

lemma nr_unpack_plain:
  "unpack_nr_crc_msg ok bs = Some (Some x) \<Longrightarrow> nr_plain x"
  "unpack_nr_uci_msg ok part_ok bs = Some (Some y) \<Longrightarrow> nr_plain y"
  "unpack_nr_rx_data_msg ok bs = Some (Some z) \<Longrightarrow> nr_plain z"
  "unpack_nr_srs_msg ok bs = Some (Some u) \<Longrightarrow> nr_plain u"
  unfolding unpack_nr_crc_msg_def unpack_nr_uci_msg_def unpack_nr_rx_data_msg_def unpack_nr_srs_msg_def nr_plain_def
  by (drule nr_caseD; blast dest: unpacked_counts | drule nr_caseD; simp split: if_splits; blast dest: unpacked_counts)+

section \<open>When nothing aborts\<close>

definition defined :: "(rbuf \<Rightarrow> 'a got) \<Rightarrow> bool" where
  "defined g \<longleftrightarrow> (\<forall>r. g r \<noteq> None)"

lemma defined_bind: "defined g \<Longrightarrow> (\<And>x. defined (h x)) \<Longrightarrow> defined (\<lambda>r. got_bind (g r) (\<lambda>(x, r). h x r))"
  by (auto simp: defined_def got_bind_def split: option.splits)

lemma defined_store: "defined (store True g)" "defined (try_store True d g)"
  by (auto simp: defined_def store_def try_store_def split: option.splits)

lemma defined_return: "defined (\<lambda>r. Some (Some (x, r)))"
  by (simp add: defined_def)

lemma defined_n: "defined g \<Longrightarrow> defined (get_n g n)"
  by (induction n) (simp_all add: get_n_eta defined_return defined_bind)

lemma defined_case: "defined g \<Longrightarrow> nr_unpack_case mid g bs \<noteq> None"
  by (auto simp: nr_unpack_case_def defined_def split: option.splits)

lemma defined_rach: "unpack_nr_rach_msg True bs \<noteq> None"
  unfolding unpack_nr_rach_msg_def unpack_nr_rach_indication_def [abs_def] unpack_nr_rach_indication_body_def [abs_def]
    unpack_nr_preamble_def [abs_def]
  by (intro defined_case defined_bind defined_store defined_n defined_return)

lemma defined_rx_data: "unpack_nr_rx_data_msg True bs \<noteq> None"
  unfolding unpack_nr_rx_data_msg_def unpack_nr_rx_data_indication_def [abs_def] unpack_nr_rx_data_indication_body_def [abs_def] if_True
  by (intro defined_case defined_bind defined_store defined_n defined_return)

lemma defined_uci: "unpack_nr_uci_msg True part_ok bs \<noteq> None"
  unfolding unpack_nr_uci_msg_def unpack_nr_uci_indication_def [abs_def] unpack_nr_uci_indication_body_def [abs_def]
  by (intro defined_case defined_bind defined_store defined_n defined_return)

definition nr_tolerated :: "(('n :: len word, 'p, 'z) nr_indication_scheme \<Rightarrow> bool)
  \<Rightarrow> (u8 list \<Rightarrow> (p7_header \<times> ('n word, 'p, 'z) nr_indication_scheme) option option) \<Rightarrow> message_buffer \<Rightarrow> bool" where
  "nr_tolerated accept unpack m \<longleftrightarrow> msg_length m \<le> NFAPI_RX_IND_DATA_MAX \<and>
     (case unpack (msg_bytes m) of None \<Rightarrow> False | Some None \<Rightarrow> True | Some (Some x) \<Rightarrow> accept (snd x))"

lemma length_nr_add: "length (nr_list (nr_add k a x)) \<le> k"
  by (simp add: nr_add_def Let_def)

lemma nr_aggregate_total:
  "\<forall>m \<in> set msgs. nr_tolerated accept unpack m \<Longrightarrow> \<exists>res. nr_aggregate_pdus k k accept unpack a msgs = Some res"
proof (induction msgs arbitrary: a)
  case (Cons m msgs)
  then have len: "\<not> NFAPI_RX_IND_DATA_MAX < msg_length m" by (auto simp: nr_tolerated_def)
  consider "unpack (msg_bytes m) = Some None" | x where "unpack (msg_bytes m) = Some (Some x)" "accept (snd x)"
    using Cons.prems by (auto simp: nr_tolerated_def split: option.splits)
  then show ?case
  proof cases
    case (2 x)
    have "\<exists>res. nr_aggregate_pdus k k accept unpack (nr_add k a x) msgs = Some res" using Cons by simp
    then show ?thesis using 2 len length_nr_add [of k a x] by (auto simp: Let_def not_less)
  qed (use len in simp)
qed simp

lemma nr_aggregate_ind_total:
  "msgs \<noteq> [] \<Longrightarrow> \<forall>m \<in> set msgs. nr_tolerated accept unpack m \<Longrightarrow> nr_aggregate_ind True k k accept unpack zero send msgs \<noteq> None"
  using nr_aggregate_total [of msgs accept unpack k "(zero_header, zero)"] by (auto simp: nr_aggregate_ind_def)

lemma forward_nr_rach_total:
  "\<forall>m \<in> set msgs. msg_length m \<le> NFAPI_RX_IND_DATA_MAX \<Longrightarrow> \<exists>out. forward_nr_rach True msgs = Some out"
proof (induction msgs)
  case (Cons m msgs)
  then show ?case using defined_rach [of "msg_bytes m"] by (auto split: option.splits)
qed simp

text \<open>SRS indications that unpack to an empty list do no harm.\<close>

lemma srs_room_0: "srs_room = 0"
  by (simp add: srs_room_def NFAPI_NR_SRS_IND_MAX_PDU_def sizeof_srs_indication_def sizeof_srs_pdu_def)

lemma srs_total:
  assumes "\<forall>m \<in> set msgs. nr_tolerated (\<lambda>x. nr_number x = 0) (unpack_nr_srs_msg True) m" "nr_list a = []"
  shows "\<exists>res. nr_aggregate_pdus NFAPI_NR_SRS_IND_MAX_PDU srs_room (\<lambda>_. True) (unpack_nr_srs_msg True) a msgs = Some res"
  using assms
proof (induction msgs arbitrary: a)
  case (Cons m msgs)
  then have len: "\<not> NFAPI_RX_IND_DATA_MAX < msg_length m" by (auto simp: nr_tolerated_def)
  consider "unpack_nr_srs_msg True (msg_bytes m) = Some None"
    | x where "unpack_nr_srs_msg True (msg_bytes m) = Some (Some x)" "nr_number (snd x) = 0"
    using Cons.prems by (auto simp: nr_tolerated_def split: option.splits)
  then show ?case
  proof cases
    case (2 x)
    have l: "nr_list (nr_add NFAPI_NR_SRS_IND_MAX_PDU a x) = []" using 2(2) Cons.prems(2) by (simp add: nr_add_def Let_def)
    have "\<exists>res. nr_aggregate_pdus NFAPI_NR_SRS_IND_MAX_PDU srs_room (\<lambda>_. True) (unpack_nr_srs_msg True)
        (nr_add NFAPI_NR_SRS_IND_MAX_PDU a x) msgs = Some res"
      using Cons l by simp
    then show ?thesis using 2 len l by (auto simp: Let_def nr_max_pdu)
  qed (use len in simp)
qed simp

text \<open>What the NR proxy survives.\<close>

definition nr_harmless :: "message_buffer \<Rightarrow> bool" where
  "nr_harmless m \<longleftrightarrow>
     (message_mid m = NFAPI_NR_PHY_MSG_TYPE_CRC_INDICATION \<longrightarrow> unpack_nr_crc_msg True (msg_bytes m) \<noteq> None) \<and>
     (message_mid m = NFAPI_NR_PHY_MSG_TYPE_RX_DATA_INDICATION \<longrightarrow>
       (case unpack_nr_rx_data_msg True (msg_bytes m) of Some (Some x) \<Rightarrow> nr_number (snd x) \<noteq> 0 | _ \<Rightarrow> True)) \<and>
     (message_mid m = NFAPI_NR_PHY_MSG_TYPE_UCI_INDICATION \<longrightarrow>
       (case unpack_nr_uci_msg True True (msg_bytes m) of Some (Some x) \<Rightarrow> uci_accepted (snd x) | _ \<Rightarrow> True)) \<and>
     (message_mid m = NFAPI_NR_PHY_MSG_TYPE_SRS_INDICATION \<longrightarrow>
       (case unpack_nr_srs_msg True (msg_bytes m) of None \<Rightarrow> False | Some None \<Rightarrow> True | Some (Some x) \<Rightarrow> nr_number (snd x) = 0))"

lemma nr_tolerated_msgs:
  assumes "msg_ok m" "nr_harmless m"
  shows "message_mid m = NFAPI_NR_PHY_MSG_TYPE_CRC_INDICATION \<Longrightarrow> nr_tolerated (\<lambda>_. True) (unpack_nr_crc_msg True) m"
    "message_mid m = NFAPI_NR_PHY_MSG_TYPE_RX_DATA_INDICATION \<Longrightarrow> nr_tolerated (\<lambda>x. nr_number x \<noteq> 0) (unpack_nr_rx_data_msg True) m"
    "message_mid m = NFAPI_NR_PHY_MSG_TYPE_UCI_INDICATION \<Longrightarrow> nr_tolerated uci_accepted (unpack_nr_uci_msg True True) m"
    "message_mid m = NFAPI_NR_PHY_MSG_TYPE_SRS_INDICATION \<Longrightarrow> nr_tolerated (\<lambda>x. nr_number x = 0) (unpack_nr_srs_msg True) m"
  using assms defined_rx_data [of "msg_bytes m"] defined_uci [of True "msg_bytes m"]
  by (auto simp: nr_tolerated_def msg_ok_def nr_harmless_def split: option.splits)

lemma nr_message_id_total:
  assumes "g \<noteq> []" and g: "\<forall>m \<in> set g. msg_ok m \<and> relevant read_sfnslot m \<and> message_mid m = i \<and> nr_harmless m"
  shows "oai_slot_aggregate_message_id True True i g \<noteq> None"
proof -
  have hd: "hd g \<in> set g" using assms(1) by simp
  have len: "\<forall>m \<in> set g. msg_length m \<le> NFAPI_RX_IND_DATA_MAX" using g by (auto simp: msg_ok_def)
  have sf: "get_sfnslot (hd g) \<noteq> None \<and> get_sfnslot (hd g) \<noteq> Some None"
    using g hd get_sfn_ok(2) [of "hd g"] by (auto simp: relevant_def)
  have rach: "oai_slot_aggregate_rach_ind True g \<noteq> None"
    using forward_nr_rach_total [OF len] assms(1) by (auto simp: oai_slot_aggregate_rach_ind_def)
  have crc: "oai_slot_aggregate_crc_ind True g \<noteq> None" if "i = NFAPI_NR_PHY_MSG_TYPE_CRC_INDICATION"
    unfolding oai_slot_aggregate_crc_ind_def
    by (rule nr_aggregate_ind_total [OF assms(1)]) (use g that nr_tolerated_msgs(1) in blast)
  have uci: "oai_slot_aggregate_uci_ind True True g \<noteq> None" if "i = NFAPI_NR_PHY_MSG_TYPE_UCI_INDICATION"
    unfolding oai_slot_aggregate_uci_ind_def
    by (rule nr_aggregate_ind_total [OF assms(1)]) (use g that nr_tolerated_msgs(3) in blast)
  have srs: "oai_slot_aggregate_srs_ind True g \<noteq> None" if "i = NFAPI_NR_PHY_MSG_TYPE_SRS_INDICATION"
  proof -
    have "\<forall>m \<in> set g. nr_tolerated (\<lambda>x. nr_number x = 0) (unpack_nr_srs_msg True) m"
      using g that nr_tolerated_msgs(4) by blast
    from srs_total [OF this, of "(zero_header, zero_srs)"] assms(1) show ?thesis
      by (auto simp: oai_slot_aggregate_srs_ind_def nr_aggregate_ind_def zero_srs_def)
  qed
  have rx: "oai_slot_aggregate_rx_data_ind True g \<noteq> None" if "i = NFAPI_NR_PHY_MSG_TYPE_RX_DATA_INDICATION"
  proof -
    have "nr_aggregate_ind True NFAPI_NR_RX_DATA_IND_MAX_PDU NFAPI_NR_RX_DATA_IND_MAX_PDU (\<lambda>m. nr_number m \<noteq> 0)
        (unpack_nr_rx_data_msg True) zero_nr oai_nfapi_nr_rx_data_indication g \<noteq> None"
      by (rule nr_aggregate_ind_total [OF assms(1)]) (use g that nr_tolerated_msgs(2) in blast)
    then show ?thesis using sf by (auto simp: oai_slot_aggregate_rx_data_ind_def split: option.splits)
  qed
  show ?thesis
    using rach crc uci srs rx assms(1) hd len by (auto simp: oai_slot_aggregate_message_id_def not_less)
qed

section \<open>From the UEs to the gNB\<close>

text \<open>The datagram in which a UE sends a UCI indication, as it is stored in a queue.\<close>

definition uci_datagram :: "p7_header \<Rightarrow> (u16, nr_uci) nr_indication \<Rightarrow> message_buffer" where
  "uci_datagram h m =
     (case p7_frame_pack (put_result (pack_nr_uci_indication m)) h (replicate 8000 0) of
        None \<Rightarrow> buffered []
      | Some (h', bytes, n) \<Rightarrow> buffered (take n bytes))"

text \<open>A UCI indication that a UE may send: not empty, and the type of the first PDU is known.\<close>

definition uci_sendable :: "(u16, nr_uci) nr_indication \<Rightarrow> bool" where
  "uci_sendable m \<longleftrightarrow> counted nr_uci_ok m \<and> uci_accepted m \<and> 16 + length (enc_nr16 enc_nr_uci m) \<le> 8000"

lemma uci_datagram_unpacks:
  assumes "uci_sendable m" "message_id h = NFAPI_NR_PHY_MSG_TYPE_UCI_INDICATION"
  shows "msg_length (uci_datagram h m) \<le> NFAPI_RX_IND_DATA_MAX \<and>
    (\<exists>h'. unpack_nr_uci_msg True True (msg_bytes (uci_datagram h m)) = Some (Some (h', m)))"
proof -
  have c: "counted nr_uci_ok m" "16 + length (enc_nr16 enc_nr_uci m) \<le> length (replicate 8000 (0 :: u8))"
    "16 + length (enc_nr16 enc_nr_uci m) \<le> 0xFFFF" using assms(1) by (simp_all add: uci_sendable_def)
  obtain h' bytes n where p: "p7_frame_pack (put_result (pack_nr_uci_indication m)) h (replicate 8000 0) = Some (h', bytes, n)"
    "n = 16 + length (enc_nr16 enc_nr_uci m)"
    "nr_unpack_case NFAPI_NR_PHY_MSG_TYPE_UCI_INDICATION (unpack_nr_uci_indication True True) (take n bytes)
      = Some (Some (h'\<lparr>checksum := 0\<rparr>, m))"
    by (rule nr_uci.roundtrip [OF c(1) assms(2) c(2,3), of thesis])
  have "n \<le> 8000" using p(2) assms(1) by (simp add: uci_sendable_def)
  moreover have "take (min (length bytes) n) bytes = take n bytes" by (simp add: min_def)
  ultimately show ?thesis
    using p(1,3) by (auto simp: uci_datagram_def buffered_def msg_bytes_def NFAPI_RX_IND_DATA_MAX_def unpack_nr_uci_msg_def)
qed

lemma message_id_uci:
  "msgs \<noteq> [] \<Longrightarrow> msg_length (hd msgs) \<le> NFAPI_RX_IND_DATA_MAX \<Longrightarrow>
   oai_slot_aggregate_message_id True True NFAPI_NR_PHY_MSG_TYPE_UCI_INDICATION msgs = oai_slot_aggregate_uci_ind True True msgs"
  by (simp add: oai_slot_aggregate_message_id_def nr_ids)

section \<open>Properties\<close>

text \<open>
  C14. The NR proxy does not abort.  From the start, for any number of UEs, any arrivals of uplink datagrams and any ends of
  slots: if every datagram is shorter than the buffer and harmless, no assertion fails, nothing is written behind
  an allocation or through a null pointer, and no loop runs on.  Harmless excludes a CRC with a status per
  code block, an empty RX_DATA or UCI, a UCI whose first PDU has an unknown type, and an SRS with any PDU.
\<close>

theorem nr_proxy_no_abort:
  assumes "\<forall>msg nem. Uplink msg nem \<in> set evs \<longrightarrow> length msg < NFAPI_RX_IND_DATA_MAX \<and> nr_harmless (buffered msg)"
  shows "nr_uplink evs (init_ues n) \<noteq> None"
proof -
  have "\<exists>res. run_slots (oai_slot_aggregate_message_id True True) evs (init_ues n) = Some res"
  proof (rule nr_run.run_total [OF _ assms init_ues_rep])
    show "oai_slot_aggregate_message_id True True i g \<noteq> None"
      if "i \<in> set nr_uplink_ids" "g \<noteq> []"
        "\<forall>m \<in> set g. msg_ok m \<and> relevant read_sfnslot m \<and> message_mid m = i \<and> nr_harmless m" for i g
      by (rule nr_message_id_total [OF that(2,3)])
  qed simp
  then show ?thesis by (auto simp: nr_uplink_def)
qed

text \<open>An uplink datagram with a body.\<close>

definition nr_sample :: "u16 \<Rightarrow> u8 list \<Rightarrow> u8 list" where
  "nr_sample mid body = [0, 0] @ be16 mid @ replicate 12 0 @ body"

theorem nr_proxy_no_abort_witness:
  "nr_uplink [Uplink (nr_sample NFAPI_NR_PHY_MSG_TYPE_UCI_INDICATION (enc_nr16 enc_nr_uci sample_uci)) 2, Tick 0x1907] (init_ues 1) \<noteq> None"
proof (rule nr_proxy_no_abort)
  let ?msg = "nr_sample NFAPI_NR_PHY_MSG_TYPE_UCI_INDICATION (enc_nr16 enc_nr_uci sample_uci)"
  have len: "length ?msg \<le> 200" by code_simp
  have mid: "message_mid (buffered ?msg) = NFAPI_NR_PHY_MSG_TYPE_UCI_INDICATION" by code_simp
  have uci: "case unpack_nr_uci_msg True True (msg_bytes (buffered ?msg)) of Some (Some x) \<Rightarrow> uci_accepted (snd x) | _ \<Rightarrow> True"
    by code_simp
  have "nr_harmless (buffered ?msg)" using uci unfolding nr_harmless_def mid by (simp add: nr_ids)
  then show "\<forall>msg nem. Uplink msg nem \<in> set [Uplink (nr_sample NFAPI_NR_PHY_MSG_TYPE_UCI_INDICATION (enc_nr16 enc_nr_uci sample_uci)) 2, Tick 0x1907]
      \<longrightarrow> length msg < NFAPI_RX_IND_DATA_MAX \<and> nr_harmless (buffered msg)"
    using len by (auto simp: NFAPI_RX_IND_DATA_MAX_def)
qed

text \<open>
  C15. The control information of all UEs reaches the gNB in one indication.  When UEs send UCI indications
  for the same SFN and slot with at most 100 PDUs together, the proxy hands the gNB one indication
  with exactly these PDUs in the order of the UEs, their number as the count, and that SFN and slot.
\<close>

theorem nr_uci_reaches_gnb:
  assumes "ms \<noteq> []" "\<forall>m \<in> set ms. uci_sendable m \<and> nr_sfn m = s \<and> nr_slot m = l"
    and "message_id h = NFAPI_NR_PHY_MSG_TYPE_UCI_INDICATION" "length (concat (map nr_pdus ms)) \<le> NFAPI_NR_UCI_IND_MAX_PDU"
  shows "\<exists>agg. oai_slot_aggregate_message_id True True NFAPI_NR_PHY_MSG_TYPE_UCI_INDICATION (map (uci_datagram h) ms)
      = Some [oai_nfapi_nr_uci_indication agg] \<and>
    nr_pdus (snd agg) = concat (map nr_pdus ms) \<and> unat (nr_number (snd agg)) = length (concat (map nr_pdus ms)) \<and>
    nr_sfn (snd agg) = s \<and> nr_slot (snd agg) = l"
proof -
  let ?k = NFAPI_NR_UCI_IND_MAX_PDU and ?msgs = "map (uci_datagram h) ms"
  define hd_of where "hd_of m = (SOME h'. unpack_nr_uci_msg True True (msg_bytes (uci_datagram h m)) = Some (Some (h', m)))" for m
  let ?xs = "map (\<lambda>m. (hd_of m, m)) ms"
  have u: "unpack_nr_uci_msg True True (msg_bytes (uci_datagram h m)) = Some (Some (hd_of m, m))" if "m \<in> set ms" for m
    unfolding hd_of_def by (rule someI_ex) (use uci_datagram_unpacks [OF _ assms(3)] assms(2) that in blast)
  have len: "\<forall>x \<in> set ?msgs. msg_length x \<le> NFAPI_RX_IND_DATA_MAX"
    using uci_datagram_unpacks [OF _ assms(3)] assms(2) by auto
  have xs: "nr_pdus_of ?xs = concat (map nr_pdus ms)" by (simp add: nr_pdus_of_def comp_def)
  have good: "\<forall>x \<in> set ?xs. nr_plain x \<and> uci_accepted (snd x)"
    using assms(2) by (auto simp: uci_sendable_def nr_plain_def counted_def)
  have m: "map (\<lambda>m. unpack_nr_uci_msg True True (msg_bytes m)) ?msgs = map (\<lambda>x. Some (Some x)) ?xs" using u by auto
  have k: "0 < ?k" "?k < 2 ^ 16" by (simp_all add: NFAPI_NR_UCI_IND_MAX_PDU_def)
  have ne: "?msgs \<noteq> []" using assms(1) by simp
  have z: "nr_pdus (zero_nr :: (u16, nr_uci) nr_indication) = []" "nr_number (zero_nr :: (u16, nr_uci) nr_indication) = 0"
    by (simp_all add: zero_nr_def)
  note eq = nr_aggregate_ind_eq [where send = oai_nfapi_nr_uci_indication and k = ?k and accept = uci_accepted
        and unpack = "unpack_nr_uci_msg True True" and zero = zero_nr, OF ne m good len k(1) z, folded oai_slot_aggregate_uci_ind_def [of True True]]
  obtain agg where a: "oai_slot_aggregate_uci_ind True True ?msgs = Some [oai_nfapi_nr_uci_indication agg]"
    "nr_list agg = take ?k (nr_pdus_of ?xs)" "nr_number (snd agg) = of_nat (length (nr_pdus_of (nr_taken ?k ?xs)))"
    "fst agg = fst (last (nr_taken ?k ?xs))"
    "nr_sfn (snd agg) = nr_sfn (snd (last (nr_taken ?k ?xs)))" "nr_slot (snd agg) = nr_slot (snd (last (nr_taken ?k ?xs)))"
    using eq by (elim exE conjE) (rule that)
  have "nr_taken ?k ?xs \<noteq> []" using assms(1) by simp
  then have "last (nr_taken ?k ?xs) \<in> set ?xs" using last_in_set subsetD [OF set_nr_taken] by blast
  then have "nr_sfn (snd agg) = s \<and> nr_slot (snd agg) = l" using a(5,6) assms(2) by auto
  moreover have "unat (nr_number (snd agg)) = length (concat (map nr_pdus ms))"
    using a(3) assms(4) k(2) nr_taken_all [of ?xs ?k] by (simp add: xs unsigned_of_nat take_bit_nat_eq_self)
  moreover have "oai_slot_aggregate_message_id True True NFAPI_NR_PHY_MSG_TYPE_UCI_INDICATION ?msgs = oai_slot_aggregate_uci_ind True True ?msgs"
    using len assms(1) by (intro message_id_uci) (auto simp: hd_map)
  ultimately show ?thesis using a(1,2) assms(4) xs by auto
qed

theorem nr_uci_reaches_gnb_witness:
  "\<exists>agg. oai_slot_aggregate_message_id True True NFAPI_NR_PHY_MSG_TYPE_UCI_INDICATION
      [uci_datagram (sample_header 0x87) sample_uci, uci_datagram (sample_header 0x87) sample_uci]
    = Some [oai_nfapi_nr_uci_indication agg] \<and> length (nr_pdus (snd agg)) = 8"
proof -
  have s: "counted nr_uci_ok sample_uci \<and> uci_accepted sample_uci \<and> 16 + length (enc_nr16 enc_nr_uci sample_uci) \<le> 200"
    "nr_sfn sample_uci = 100" "nr_slot sample_uci = 7" "message_id (sample_header 0x87) = NFAPI_NR_PHY_MSG_TYPE_UCI_INDICATION"
    "length (concat (map nr_pdus [sample_uci, sample_uci])) = 8"
    by code_simp+
  have "\<forall>m \<in> set [sample_uci, sample_uci]. uci_sendable m \<and> nr_sfn m = 100 \<and> nr_slot m = 7"
    using s(1-3) by (simp add: uci_sendable_def)
  from nr_uci_reaches_gnb [OF _ this s(4)] s(5) show ?thesis by (auto simp: NFAPI_NR_UCI_IND_MAX_PDU_def)
qed

text \<open>
  C31. Any SRS indication with a PDU breaks the NR proxy.  The array for the PDUs of the aggregate is allocated with
  the size of an indication for each of its 100 elements, which together is less than one PDU, so the copy of
  the first PDU is written behind it.
\<close>

theorem nr_srs_overflow:
  assumes "unpack_nr_srs_msg True (msg_bytes m) = Some (Some x)" "nr_number (snd x) \<noteq> 0"
  shows "oai_slot_aggregate_message_id True True NFAPI_NR_PHY_MSG_TYPE_SRS_INDICATION (m # msgs) = None"
proof -
  have "length (nr_list x) = unat (nr_number (snd x))" using nr_unpack_plain(4) [OF assms(1)] by (simp add: nr_plain_def)
  then have "nr_list x \<noteq> []" "unat (nr_number (snd x)) \<noteq> 0" using assms(2) by (auto simp: unat_eq_0)
  then have "0 < length (nr_list (nr_add NFAPI_NR_SRS_IND_MAX_PDU (zero_header, zero_srs) x))"
    by (simp add: nr_add_def Let_def zero_srs_def nr_max_pdu)
  then have "nr_aggregate_pdus NFAPI_NR_SRS_IND_MAX_PDU srs_room (\<lambda>_. True) (unpack_nr_srs_msg True) (zero_header, zero_srs) (m # msgs) = None"
    using assms(1) by (simp add: srs_room_0 Let_def)
  then have "oai_slot_aggregate_srs_ind True (m # msgs) = None"
    by (simp add: oai_slot_aggregate_srs_ind_def nr_aggregate_ind_def del: nr_aggregate_pdus.simps)
  then show ?thesis by (simp add: oai_slot_aggregate_message_id_def nr_ids)
qed

theorem nr_srs_overflow_witness:
  "oai_slot_aggregate_message_id True True NFAPI_NR_PHY_MSG_TYPE_SRS_INDICATION
     [buffered (nr_sample NFAPI_NR_PHY_MSG_TYPE_SRS_INDICATION (enc_nr_srs (sample_srs 1)))] = None"
proof -
  let ?m = "buffered (nr_sample NFAPI_NR_PHY_MSG_TYPE_SRS_INDICATION (enc_nr_srs (sample_srs 1)))"
  let ?x = "the (the (unpack_nr_srs_msg True (msg_bytes ?m)))"
  have "unpack_nr_srs_msg True (msg_bytes ?m) = Some (Some ?x)" "nr_number (snd ?x) \<noteq> 0" by code_simp+
  then show ?thesis by (rule nr_srs_overflow)
qed

end
