(* ===== verification/Spec2Isabelle.thy ===== *)
theory Spec2Isabelle
  imports Nfapi_Ids Nfapi_Tlv Sfn_Time Queue P7_Segment P7_Indications P7_Rx Ue_Proxy Ue_Aggregate Ue_Sync Pnf_P7 Vnf_P7
  Proxy_P5 Vnf_P5 Nr_Aggregate
begin

text \<open>
  The multi-UE proxy and the open-nFAPI library it is built on.

  The program.  An eNB/gNB (the VNF side of nFAPI) talks to a radio front end (the PNF side)
  over two interfaces: P5 for configuration over a reliable connection, and P7 for the messages of every
  subframe over UDP.  The proxy takes the place of the PNF.  It connects many UEs to one eNB:
  downlink requests of the eNB are passed to all UEs, uplink indications of the UEs are
  collected per subframe and merged into one indication per message kind.
  \<^verbatim>\<open>src/open-nFAPI\<close> is the library (codecs, the P7 transport of the PNF and of the VNF, the slot
  and subframe buffers); \<^verbatim>\<open>src/src\<close> is the proxy (queues, grouping, merging, the two threads).

  The theories, in the order of the layers, with the code they translate.

  \<^item> Prelude: machine words, read and write cursors, the judgements \<open>writes\<close> and \<open>reads\<close>, the
    locale \<open>codec\<close>.
  \<^item> Nfapi_Ids: the message ids, error codes and tags of \<^verbatim>\<open>nfapi_interface.h\<close>, with the tables that turn
    an id into its name.
  \<^item> Nfapi_Codec, Nfapi_Tlv: \<^verbatim>\<open>open-nFAPI/nfapi/src/nfapi.c\<close>, the scalar and array codecs, DCI payloads,
    and the TLV packers and list unpackers.  The lemmas give the bytes every packer appends and
    the value every unpacker returns, termination of the list unpackers, and what they do with
    unknown tags.
  \<^item> Sfn_Time: the SFN/SF and SFN/slot macros of \<^verbatim>\<open>nfapi_interface.h\<close>, the clock \<open>time_hr\<close> and the counters
    of \<^verbatim>\<open>pnf_p7.c\<close>, \<^verbatim>\<open>vnf_p7.c\<close> and \<^verbatim>\<open>src/nfapi_pnf.c\<close>; all of them are shown to walk
    through one period of 10240 subframes (20480 slots).
  \<^item> Queue: \<^verbatim>\<open>src/queue.c\<close>, refined to a list; the locale \<open>bounded_queue\<close> is what the proxy relies on.
  \<^item> P7_Header, P7_Segment: header, checksum, segmentation and reassembly of P7 messages in
    \<^verbatim>\<open>nfapi_p7.c\<close>, \<^verbatim>\<open>pnf_p7.c\<close> and \<^verbatim>\<open>vnf_p7.c\<close>.
  \<^item> P7_Pdu, P7_Indications, P7_Rx: the uplink indications of \<^verbatim>\<open>nfapi_p7.c\<close> with their round trips.
  \<^item> Pnf_P7: the subframe buffer of \<^verbatim>\<open>pnf_p7.c\<close>, that is the request window, the handlers, the dispatcher
    and the subframe tick; requests are delivered at their subframe, and every request object
    is freed at most once.
  \<^item> Vnf_P7: \<^verbatim>\<open>vnf_p7.c\<close>, the clock of the eNB against the clock of the PNF: synchronisation of a
    connection, the messages that measure the offset, and the tick that follows it.
  \<^item> P5_Header: the header of P4 and P5 messages and their frame in \<^verbatim>\<open>nfapi_p5.c\<close> and \<^verbatim>\<open>nfapi_p4.c\<close>, and the
    reading loop of \<^verbatim>\<open>pnf.c\<close> that takes messages from the connection.  What a message carries is
    a type parameter; the configuration of a PHY is a record of the fields the proxy looks at.
  \<^item> Pnf_P5: \<^verbatim>\<open>pnf.c\<close> and \<^verbatim>\<open>pnf_interface.c\<close>, the state machine of the PNF and of its PHYs.  The proxy's callbacks are
    the parameter \<open>client\<close> of the handlers; what the handlers promise is proved in the locales
    \<open>pnf_client\<close>, \<open>lte_client\<close> and \<open>nr_client\<close>.
  \<^item> Proxy_P5: the callbacks of \<^verbatim>\<open>src/nfapi_pnf.c\<close>, which interpret those locales; the LTE and the
    NR proxy refine the state machine of the FAPI document (\<open>fapi_run\<close>), start the P7 threads once, and
    the properties on restarts, on STOP and on the window sizes follow.
  \<^item> Vnf_P5: \<^verbatim>\<open>vnf.c\<close> and \<^verbatim>\<open>vnf_interface.c\<close>, the dispatcher of the eNB side, and for which messages it
    reads through a null pointer.
  \<^item> Ue_Proxy, Ue_Aggregate, Ue_Sync: \<^verbatim>\<open>src/nfapi_pnf.c\<close>, the queues of the UEs and the grouping of
    messages by subframe and by id, the merging of indications, and the rendezvous of the
    LTE and the NR thread.  Queues and grouping are proved once for both radios, in the locales
    \<open>sfn_reader\<close>, \<open>radio\<close> and \<open>event_run\<close>.
  \<^item> Nr_Indications: the NR uplink indications of \<^verbatim>\<open>nfapi_p7.c\<close> (SLOT, RX_DATA, CRC, UCI, RACH, and SRS with its two
    reports).  Their packers and unpackers ignore some results and write into lists that may be missing, so
    both are functions that can be undefined; the locale \<open>nr_message\<close> holds what they share, the frame included.
  \<^item> Nr_Aggregate: the aggregating functions of the NR thread in \<^verbatim>\<open>src/nfapi_pnf.c\<close>, and the NR proxy from the queues of
    the UEs to the calls of the gNB (\<open>nr_uplink\<close>).
  \<^item> This theory: the configuration of a PHY from the VNF over the transport to the proxy, which
    joins Vnf_P5, P5_Header, Pnf_P5 and Proxy_P5.

  State and effects.  A C structure is a record, a pointer that may be null an option, a
  buffer a list of bytes with a cursor.  A function that returns 0 on failure is an option,
  undefined behaviour, a failed \<^verbatim>\<open>assert\<close> and \<^verbatim>\<open>abort\<close> are \<open>None\<close> of the caller, as each theory
  says.  What runs under a mutex is one step.  Calls to the outside (sockets, callbacks of
  the eNB) are values of an event type that a step returns.

  Bounds.  Machine integers keep their width.  The \<^verbatim>\<open>while\<close> loops that read a message are
  \<open>partial_function (option)\<close>; it is proved that they return (\<open>tlv_lists_return\<close>, \<open>aggregation_groups\<close>), so no fuel is needed.

  Not modelled.  The sockets, threads and signal handling around these functions; logging;
  the simulators, tests and unit tests of open-nFAPI; the C++ main programs of the proxy; the
  bodies of the P4 and P5 messages beyond the fields above; the codecs of the downlink requests; the
  NR slot buffer of the PNF.  \<^verbatim>\<open>crc32\<close> of zlib is a parameter.
\<close>

section \<open>The configuration of a PHY, from the VNF to the proxy\<close>

text \<open>The functions of the two radios.\<close>

definition vnf_config_req :: "p7_radio \<Rightarrow> int \<Rightarrow> p5_header \<Rightarrow> config_body \<Rightarrow> 'u vnf \<Rightarrow> ('u, 'e) vnf_result" where
  "vnf_config_req r = (case r of Lte \<Rightarrow> nfapi_vnf_config_req | Nr \<Rightarrow> nfapi_nr_vnf_config_req)"

definition p5_pack :: "p7_radio \<Rightarrow> (wbuf \<Rightarrow> wbuf option) \<Rightarrow> p5_header \<Rightarrow> u8 list option" where
  "p5_pack r body h = map_option (\<lambda>(mem, n). take n mem)
     ((case r of Lte \<Rightarrow> nfapi_p5_message_pack | Nr \<Rightarrow> nfapi_nr_p5_message_pack) (\<lambda>mid. Some body) h (replicate 8192 0))"

definition proxy_read :: "p7_radio \<Rightarrow> config_body p5_codec \<Rightarrow> (nat \<Rightarrow> u8) \<Rightarrow> u8 list \<Rightarrow> proxy_pnf \<Rightarrow> proxy_result \<times> bool" where
  "proxy_read r = (case r of Lte \<Rightarrow> pnf_read_dispatch_message configure_nfapi_pnf | Nr \<Rightarrow> pnf_nr_read_dispatch_message configure_nr_nfapi_pnf)"

lemma p5_pack_enc:
  assumes "writes body bs" "8 + length bs \<le> 8192"
  shows "\<exists>h'. p5_pack r body h = Some (enc_p5_header h' @ bs) \<and> p5_message_id h' = p5_message_id h \<and> p5_phy_id h' = p5_phy_id h \<and>
    (case r of Lte \<Rightarrow> lte_size | Nr \<Rightarrow> nr_size) (p5_message_length h') = 8 + length bs"
proof -
  have room: "8 + length bs \<le> length (replicate 8192 (0 :: u8))" "8 + length bs \<le> 0xFFFF" using assms(2) by simp_all
  have u: "unat (of_nat k :: u16) = k" if "k \<le> 8192" for k
    using that by (simp add: unsigned_of_nat take_bit_nat_eq_self)
  have "take (8 + length bs) ((enc_p5_header h' @ bs) @ x) = enc_p5_header h' @ bs" for h' x by simp
  note t = this [simplified]
  have "p5_pack r body h = Some (enc_p5_header (h\<lparr>p5_message_length := of_nat (case r of Lte \<Rightarrow> 8 + length bs | Nr \<Rightarrow> length bs)\<rparr>) @ bs)"
    using p5_frame_pack_writes [OF assms(1) room]
    by (cases r) (simp_all add: p5_pack_def nfapi_p5_message_pack_def nfapi_nr_p5_message_pack_def NFAPI_HEADER_LENGTH_def del: of_nat_add)
  moreover have "(case r of Lte \<Rightarrow> lte_size | Nr \<Rightarrow> nr_size) (of_nat (case r of Lte \<Rightarrow> 8 + length bs | Nr \<Rightarrow> length bs)) = 8 + length bs"
    using assms(2) by (cases r) (simp_all add: lte_size_def nr_size_def NFAPI_HEADER_LENGTH_def u del: of_nat_add)
  ultimately show ?thesis
    by (intro exI [of _ "h\<lparr>p5_message_length := of_nat (case r of Lte \<Rightarrow> 8 + length bs | Nr \<Rightarrow> length bs)\<rparr>"]) simp
qed

text \<open>The body of CONFIG.request after the VNF has put in the timing of the PHY.\<close>

definition imposed :: "config_body \<Rightarrow> config_body" where
  "imposed b = b\<lparr>tlv_timing_window := Some 30, tlv_timing_info_mode := Some 3, tlv_timing_info_period := Some 10\<rparr>"


definition sample_vnf :: "unit vnf" where
  "sample_vnf = (nfapi_vnf_config_create ())\<lparr>pnf_list := [\<lparr>vn_p5_idx = 0, to_delete = False\<rparr>]\<rparr>"

definition sample_idle_phy :: proxy_pnf where
  "sample_idle_phy = \<lparr>pnf_p5_state = PNF_RUNNING, phys = [\<lparr>pc_phy_id = 1, pc_state = PHY_IDLE\<rparr>], user = zero_phy_info\<lparr>phy_info_id := 1\<rparr>\<rparr>"


end
